(* ===== verification/Strings.thy ===== *)
theory Strings
  imports Prelude
begin

text \<open>
  The string operations of the Rust standard library that the crate uses, on UTF-8 byte
  sequences: ASCII classes and case, prefixes and suffixes, splitting, searching,
  Unicode \<open>trim\<close>, decimal and boolean parsing and printing.
\<close>

section \<open>ASCII classes and case\<close>

definition code :: "char \<Rightarrow> nat" where
  "code c = of_char c"

definition is_ascii_digit :: "char \<Rightarrow> bool" where
  "is_ascii_digit c \<longleftrightarrow> 48 \<le> code c \<and> code c \<le> 57"

definition is_ascii_upper :: "char \<Rightarrow> bool" where
  "is_ascii_upper c \<longleftrightarrow> 65 \<le> code c \<and> code c \<le> 90"

definition is_ascii_lower :: "char \<Rightarrow> bool" where
  "is_ascii_lower c \<longleftrightarrow> 97 \<le> code c \<and> code c \<le> 122"

definition is_ascii_alphanumeric :: "char \<Rightarrow> bool" where
  "is_ascii_alphanumeric c \<longleftrightarrow> is_ascii_digit c \<or> is_ascii_upper c \<or> is_ascii_lower c"

definition is_ascii_hexdigit :: "char \<Rightarrow> bool" where
  "is_ascii_hexdigit c \<longleftrightarrow> is_ascii_digit c
     \<or> (65 \<le> code c \<and> code c \<le> 70) \<or> (97 \<le> code c \<and> code c \<le> 102)"

definition ascii_lower :: "char \<Rightarrow> char" where
  "ascii_lower c = (if is_ascii_upper c then char_of (code c + 32) else c)"

definition to_ascii_lowercase :: "string \<Rightarrow> string" where
  "to_ascii_lowercase s = map ascii_lower s"

lemmas ascii_defs = code_def is_ascii_digit_def is_ascii_upper_def is_ascii_lower_def
  is_ascii_alphanumeric_def is_ascii_hexdigit_def

lemma code_char_of [simp]: "n < 256 \<Longrightarrow> code (char_of n) = n"
  by (simp add: code_def)

lemma code_ascii_lower: "code (ascii_lower c) = (if is_ascii_upper c then code c + 32 else code c)"
  by (auto simp: ascii_lower_def is_ascii_upper_def)

lemma ascii_lower_not_upper [simp]: "\<not> is_ascii_upper (ascii_lower c)"
  by (simp add: is_ascii_upper_def code_ascii_lower)

lemma ascii_lower_idem [simp]: "ascii_lower (ascii_lower c) = ascii_lower c"
  using ascii_lower_not_upper [of c] by (simp add: ascii_lower_def [of "ascii_lower c"])

lemma to_ascii_lowercase_idem [simp]:
  "to_ascii_lowercase (to_ascii_lowercase s) = to_ascii_lowercase s"
  by (simp add: to_ascii_lowercase_def)

lemma length_to_ascii_lowercase [simp]: "length (to_ascii_lowercase s) = length s"
  by (simp add: to_ascii_lowercase_def)

lemma hexdigit_ascii_lower [simp]: "is_ascii_hexdigit (ascii_lower c) = is_ascii_hexdigit c"
  by (auto simp: is_ascii_hexdigit_def is_ascii_digit_def code_ascii_lower is_ascii_upper_def)

lemma alphanumeric_ascii_lower [simp]:
  "is_ascii_alphanumeric (ascii_lower c) = is_ascii_alphanumeric c"
  by (auto simp: is_ascii_alphanumeric_def is_ascii_digit_def is_ascii_lower_def
      is_ascii_upper_def code_ascii_lower)

section \<open>Prefixes, suffixes, searching and splitting\<close>

definition starts_with :: "string \<Rightarrow> string \<Rightarrow> bool" where
  "starts_with s p = prefix p s"

definition ends_with :: "string \<Rightarrow> string \<Rightarrow> bool" where
  "ends_with s p = suffix p s"

definition strip_prefix :: "string \<Rightarrow> string \<Rightarrow> string option" where
  "strip_prefix s p = (if prefix p s then Some (drop (length p) s) else None)"

lemma strip_prefix_eq_Some [simp]: "strip_prefix s p = Some r \<longleftrightarrow> s = p @ r"
  by (auto simp: strip_prefix_def prefix_def)

lemma strip_prefix_append [simp]: "strip_prefix (p @ r) p = Some r"
  by simp

lemma strip_prefix_eq_None: "strip_prefix s p = None \<longleftrightarrow> \<not> prefix p s"
  by (simp add: strip_prefix_def)

text \<open>\<open>str::find(char)\<close>: the byte offset of the first occurrence.\<close>

fun find_char :: "char \<Rightarrow> string \<Rightarrow> nat option" where
  "find_char c [] = None"
| "find_char c (x # xs) = (if x = c then Some 0 else map_option Suc (find_char c xs))"

lemma find_char_None [simp]: "find_char c s = None \<longleftrightarrow> c \<notin> set s"
  by (induction s) auto

lemma find_char_absent [simp]: "c \<notin> set s \<Longrightarrow> find_char c s = None"
  by simp

lemma find_char_SomeD:
  "find_char c s = Some n \<Longrightarrow> s = take n s @ c # drop (Suc n) s \<and> c \<notin> set (take n s)"
  by (induction s arbitrary: n) (auto split: if_splits)

lemma find_char_append: "c \<notin> set a \<Longrightarrow> find_char c (a @ c # b) = Some (length a)"
  by (induction a) auto

text \<open>\<open>str::contains(&str)\<close>.\<close>

definition contains_str :: "string \<Rightarrow> string \<Rightarrow> bool" where
  "contains_str s p = sublist p s"

text \<open>\<open>str::split(char)\<close>: the pieces, never an empty list.\<close>

fun split_char :: "char \<Rightarrow> string \<Rightarrow> string list" where
  "split_char c [] = [[]]"
| "split_char c (x # xs) =
     (if x = c then [] # split_char c xs
      else case split_char c xs of [] \<Rightarrow> [[x]] | y # ys \<Rightarrow> (x # y) # ys)"

lemma split_char_nonempty [simp]: "split_char c s \<noteq> []"
  by (cases s) (auto split: list.splits)

lemma split_char_none: "c \<notin> set s \<Longrightarrow> split_char c s = [s]"
  by (induction s) auto

lemma split_char_append: "c \<notin> set a \<Longrightarrow> split_char c (a @ c # b) = a # split_char c b"
  by (induction a) auto

lemma split_char_single: "split_char c s = [a] \<longleftrightarrow> c \<notin> set s \<and> a = s"
proof
  assume "split_char c s = [a]"
  then show "c \<notin> set s \<and> a = s"
    by (induction s arbitrary: a) (auto split: if_splits list.splits)
qed (simp add: split_char_none)

lemma split_char_pieces: "p \<in> set (split_char c s) \<Longrightarrow> c \<notin> set p"
proof (induction s arbitrary: p)
  case (Cons x xs)
  then show ?case by (cases "split_char c xs") (auto split: if_splits)
qed simp

fun join_char :: "char \<Rightarrow> string list \<Rightarrow> string" where
  "join_char c [] = []"
| "join_char c [p] = p"
| "join_char c (p # q # ps) = p @ c # join_char c (q # ps)"

lemma join_split_char: "join_char c (split_char c s) = s"
proof (induction s)
  case (Cons x xs)
  then show ?case
    by (cases "split_char c xs" rule: list.exhaust; cases "tl (split_char c xs)")
      (auto split: list.splits)
qed simp

lemma split_char_pair: "split_char c s = [a, b] \<Longrightarrow> s = a @ c # b \<and> c \<notin> set a \<and> c \<notin> set b"
proof -
  assume eq: "split_char c s = [a, b]"
  have "s = a @ c # b" using join_split_char [of c s] by (simp add: eq)
  moreover have "c \<notin> set a" and "c \<notin> set b"
    using split_char_pieces [of _ c s] by (simp_all add: eq)
  ultimately show ?thesis by blast
qed

section \<open>Trimming\<close>

text \<open>
  \<open>str::trim\<close> removes the characters with the Unicode property \<open>White_Space\<close>, here by
  their UTF-8 encodings. No encoding is a prefix of another, and valid UTF-8 cannot have
  one of them as a suffix that is not a character of its own, so matching bytes from
  either end is matching characters.
\<close>

definition white_space :: "nat list list" where
  "white_space =
     [[9], [10], [11], [12], [13], [32], [194, 133], [194, 160], [225, 154, 128],
       [226, 128, 128], [226, 128, 129], [226, 128, 130], [226, 128, 131], [226, 128, 132],
       [226, 128, 133], [226, 128, 134], [226, 128, 135], [226, 128, 136], [226, 128, 137],
       [226, 128, 138], [226, 128, 168], [226, 128, 169], [226, 128, 175], [226, 129, 159],
       [227, 128, 128]]"

fun match_len :: "nat list list \<Rightarrow> string \<Rightarrow> nat" where
  "match_len [] s = 0"
| "match_len (w # ws) s = (if w \<noteq> [] \<and> prefix w (map code s) then length w else match_len ws s)"

lemma match_len_zero: "match_len ws s = 0 \<longleftrightarrow> (\<forall>w\<in>set ws. w \<noteq> [] \<longrightarrow> \<not> prefix w (map code s))"
  by (induction ws) auto

lemma match_len_le: "match_len ws s \<le> length s"
  by (induction ws) (auto dest: prefix_length_le)

text \<open>The loop that drops matching characters from the front.\<close>

function strip_matches :: "nat list list \<Rightarrow> string \<Rightarrow> string" where
  "strip_matches ws s =
     (let n = match_len ws s in if n = 0 then s else strip_matches ws (drop n s))"
  by pat_completeness auto
termination
proof (relation "measure (\<lambda>(ws, s). length s)", goal_cases)
  case (2 ws s n)
  then show ?case using match_len_le [of ws s] by (cases "length s") auto
qed simp

declare strip_matches.simps [simp del]

lemma strip_matches_done: "match_len ws (strip_matches ws s) = 0"
proof (induction ws s rule: strip_matches.induct)
  case (1 ws s)
  then show ?case
    by (cases "match_len ws s = 0") (simp_all add: strip_matches.simps [of ws s] Let_def)
qed

lemma strip_matches_fix: "match_len ws s = 0 \<Longrightarrow> strip_matches ws s = s"
  by (simp add: strip_matches.simps)

lemma strip_matches_suffix: "suffix (strip_matches ws s) s"
proof (induction ws s rule: strip_matches.induct)
  case (1 ws s)
  show ?case
  proof (cases "match_len ws s = 0")
    case False
    then have "suffix (strip_matches ws s) (drop (match_len ws s) s)"
      using 1 by (simp add: strip_matches.simps [of ws s] Let_def)
    then show ?thesis using suffix_drop suffix_order.trans by blast
  qed (simp add: strip_matches_fix)
qed

lemma match_len_prefix: "match_len ws s = 0 \<Longrightarrow> prefix t s \<Longrightarrow> match_len ws t = 0"
  by (meson map_mono_prefix match_len_zero prefix_order.trans)

definition trim_start :: "string \<Rightarrow> string" where
  "trim_start s = strip_matches white_space s"

definition trim_end :: "string \<Rightarrow> string" where
  "trim_end s = rev (strip_matches (map rev white_space) (rev s))"

definition trim :: "string \<Rightarrow> string" where
  "trim s = trim_end (trim_start s)"

lemma prefix_trim_end: "prefix (trim_end s) s"
  using strip_matches_suffix [of "map rev white_space" "rev s"]
  by (simp add: trim_end_def suffix_to_prefix)

text \<open>A string with no white space at either end, which is what \<open>trim\<close> returns.\<close>

definition trimmed :: "string \<Rightarrow> bool" where
  "trimmed s \<longleftrightarrow> match_len white_space s = 0 \<and> match_len (map rev white_space) (rev s) = 0"

lemma trim_trimmed: "trimmed s \<Longrightarrow> trim s = s"
  by (simp add: trimmed_def trim_def trim_start_def trim_end_def strip_matches_fix)

lemma trimmed_trim [simp]: "trimmed (trim s)"
proof -
  have "match_len white_space (trim_start s) = 0"
    by (simp add: trim_start_def strip_matches_done)
  then have "match_len white_space (trim s) = 0"
    unfolding trim_def using prefix_trim_end match_len_prefix by blast
  moreover have "match_len (map rev white_space) (rev (trim s)) = 0"
    by (simp add: trim_def trim_end_def strip_matches_done)
  ultimately show ?thesis by (simp add: trimmed_def)
qed

lemma trim_idem [simp]: "trim (trim s) = trim s"
  by (simp add: trim_trimmed)

lemma trim_Nil [simp]: "trim [] = []"
  by (rule trim_trimmed) (simp add: trimmed_def match_len_zero)

text \<open>\<open>trim_start_matches(char)\<close> and \<open>trim_end_matches(char)\<close>.\<close>

definition trim_start_char :: "char \<Rightarrow> string \<Rightarrow> string" where
  "trim_start_char c s = dropWhile (\<lambda>x. x = c) s"

definition trim_end_char :: "char \<Rightarrow> string \<Rightarrow> string" where
  "trim_end_char c s = rev (dropWhile (\<lambda>x. x = c) (rev s))"

lemma trim_start_char_hd: "trim_start_char c s = [] \<or> hd (trim_start_char c s) \<noteq> c"
  by (induction s) (auto simp: trim_start_char_def)

lemma trim_start_char_fix: "s = [] \<or> hd s \<noteq> c \<Longrightarrow> trim_start_char c s = s"
  by (cases s) (auto simp: trim_start_char_def)

lemma suffix_trim_start_char: "suffix (trim_start_char c s) s"
  by (simp add: trim_start_char_def suffix_dropWhile)

lemma trim_end_char_last: "trim_end_char c s = [] \<or> last (trim_end_char c s) \<noteq> c"
  using trim_start_char_hd [of c "rev s"]
  by (auto simp: trim_end_char_def trim_start_char_def last_rev)

lemma trim_end_char_fix: "s = [] \<or> last s \<noteq> c \<Longrightarrow> trim_end_char c s = s"
  by (cases s rule: rev_cases) (auto simp: trim_end_char_def)

lemma trim_end_char_idem [simp]: "trim_end_char c (trim_end_char c s) = trim_end_char c s"
  by (rule trim_end_char_fix) (rule trim_end_char_last)

text \<open>
  The white space characters start with a byte that is white space or not ASCII and end
  with one: a string whose ends are other ASCII characters is trimmed.
\<close>

definition solid :: "char \<Rightarrow> bool" where
  "solid c \<longleftrightarrow> 32 < code c \<and> code c < 128"

definition solid_code :: "nat \<Rightarrow> bool" where
  "solid_code n \<longleftrightarrow> 32 < n \<and> n < 128"

lemma white_space_ends:
  "w \<in> set white_space \<Longrightarrow> w \<noteq> [] \<and> \<not> solid_code (hd w) \<and> \<not> solid_code (last w)"
proof -
  have "list_all (\<lambda>w. w \<noteq> [] \<and> \<not> solid_code (hd w) \<and> \<not> solid_code (last w)) white_space"
    by (simp add: white_space_def solid_code_def)
  then show "w \<in> set white_space \<Longrightarrow> w \<noteq> [] \<and> \<not> solid_code (hd w) \<and> \<not> solid_code (last w)"
    by (simp add: list_all_iff)
qed

lemma match_len_solid_front: "solid (hd s) \<Longrightarrow> s \<noteq> [] \<Longrightarrow> match_len white_space s = 0"
proof -
  assume s: "solid (hd s)" "s \<noteq> []"
  have "\<not> prefix w (map code s)" if "w \<in> set white_space" for w
    using white_space_ends [OF that] s
    by (cases w; cases s) (auto simp: solid_def solid_code_def)
  then show ?thesis by (simp add: match_len_zero)
qed

lemma match_len_solid_back:
  "solid (last s) \<Longrightarrow> s \<noteq> [] \<Longrightarrow> match_len (map rev white_space) (rev s) = 0"
proof -
  assume s: "solid (last s)" "s \<noteq> []"
  have "\<not> prefix (rev w) (map code (rev s))" if "w \<in> set white_space" for w
    using white_space_ends [OF that] s
    by (cases w rule: rev_cases; cases s rule: rev_cases) (auto simp: solid_def solid_code_def)
  then show ?thesis by (auto simp: match_len_zero)
qed

lemma trimmed_solid: "s \<noteq> [] \<Longrightarrow> solid (hd s) \<Longrightarrow> solid (last s) \<Longrightarrow> trimmed s"
  by (simp add: trimmed_def match_len_solid_front match_len_solid_back)

lemma trim_solid: "s \<noteq> [] \<Longrightarrow> solid (hd s) \<Longrightarrow> solid (last s) \<Longrightarrow> trim s = s"
  by (simp add: trimmed_solid trim_trimmed)

lemma solid_alphanumeric: "is_ascii_alphanumeric c \<Longrightarrow> solid c"
  by (auto simp: is_ascii_alphanumeric_def is_ascii_digit_def is_ascii_upper_def
      is_ascii_lower_def solid_def)

lemma solid_hexdigit: "is_ascii_hexdigit c \<Longrightarrow> solid c"
  by (auto simp: is_ascii_hexdigit_def is_ascii_digit_def solid_def)

text \<open>Trimming a suffix of a trimmed string only looks at the front.\<close>

lemma trimmed_back_suffix:
  assumes "match_len (map rev white_space) (rev s) = 0" and "suffix t s"
  shows "match_len (map rev white_space) (rev t) = 0"
  using assms by (meson match_len_prefix suffix_to_prefix)

lemma white_space_not_solid: "w \<in> set white_space \<Longrightarrow> n \<in> set w \<Longrightarrow> \<not> solid_code n"
proof -
  have "list_all (list_all (\<lambda>n. \<not> solid_code n)) white_space"
    by (simp add: white_space_def solid_code_def)
  then show "w \<in> set white_space \<Longrightarrow> n \<in> set w \<Longrightarrow> \<not> solid_code n"
    by (auto simp: list_all_iff)
qed

text \<open>A solid character is a barrier to trimming: what is behind it decides alone.\<close>

lemma match_len_barrier:
  assumes "match_len (map rev white_space) (rev v) = 0" and "solid c"
  shows "match_len (map rev white_space) (rev (a @ c # v)) = 0"
proof -
  have "\<not> prefix (rev w) (map code (rev (a @ c # v)))" if w: "w \<in> set white_space" for w
  proof
    assume "prefix (rev w) (map code (rev (a @ c # v)))"
    then have "prefix (rev w) (map code (rev v) @ code c # map code (rev a))" by simp
    moreover have "\<not> prefix (rev w) (map code (rev v))"
      using assms(1) w white_space_ends [OF w] by (auto simp: match_len_zero)
    ultimately have "code c \<in> set (rev w)"
      unfolding prefix_append by (fastforce simp: prefix_Cons dest: arg_cong [where f = set])
    then show False using white_space_not_solid [OF w] assms(2)
      by (auto simp: solid_def solid_code_def)
  qed
  then show ?thesis by (auto simp: match_len_zero)
qed

section \<open>Printing and parsing\<close>

text \<open>Decimal \<open>Display\<close> of an unsigned integer.\<close>

definition digit_char :: "nat \<Rightarrow> char" where
  "digit_char d = char_of (48 + d)"

fun show_nat :: "nat \<Rightarrow> string" where
  "show_nat n = (if n < 10 then [digit_char n] else show_nat (n div 10) @ [digit_char (n mod 10)])"

declare show_nat.simps [simp del]

definition show_u64 :: "u64 \<Rightarrow> string" where
  "show_u64 w = show_nat (unat w)"

text \<open>\<open>str::parse::<u64>\<close>: an optional \<open>+\<close>, then at least one digit, no overflow.\<close>

definition digits_value :: "string \<Rightarrow> int" where
  "digits_value s = foldl (\<lambda>n c. 10 * n + int (code c - 48)) 0 s"

definition parse_u64 :: "string \<Rightarrow> u64 option" where
  "parse_u64 s =
     (let d = (case s of [] \<Rightarrow> [] | c # cs \<Rightarrow> if c = CHR ''+'' then cs else s)
      in if d \<noteq> [] \<and> list_all is_ascii_digit d \<and> digits_value d < 2 ^ 64
         then Some (of_int (digits_value d)) else None)"

text \<open>\<open>str::parse::<bool>\<close>.\<close>

definition parse_bool :: "string \<Rightarrow> bool option" where
  "parse_bool s = (if s = ''true'' then Some True else if s = ''false'' then Some False else None)"

lemma show_nat_digits: "list_all is_ascii_digit (show_nat n)"
proof (induction n rule: show_nat.induct)
  case (1 n)
  have "is_ascii_digit (digit_char d)" if "d < 10" for d
    using that by (simp add: is_ascii_digit_def digit_char_def)
  with 1 show ?case by (subst show_nat.simps) simp
qed

lemma show_nat_nonempty: "show_nat n \<noteq> []"
  by (subst show_nat.simps) simp

lemma digits_value_show: "digits_value (show_nat n) = int n"
proof (induction n rule: show_nat.induct)
  case (1 n)
  then show ?case
    by (subst show_nat.simps) (auto simp: digits_value_def digit_char_def zdiv_int zmod_int)
qed

lemma parse_show_u64: "parse_u64 (show_u64 w) = Some w"
proof -
  have "list_all is_ascii_digit (show_u64 w)"
    by (simp add: show_u64_def show_nat_digits)
  moreover from this have "show_u64 w \<noteq> [] \<and> hd (show_u64 w) \<noteq> CHR ''+''"
    by (cases "show_u64 w") (auto simp: show_u64_def show_nat_nonempty is_ascii_digit_def code_def)
  moreover have "digits_value (show_u64 w) = uint w"
    by (simp add: show_u64_def digits_value_show)
  moreover have "uint w < 2 ^ 64" using unsigned_less [of w, where 'a = int] by simp
  ultimately show ?thesis
    by (cases "show_u64 w") (auto simp: parse_u64_def Let_def)
qed

end
