(* ===== verification/Errors.thy ===== *)
theory Errors
  imports Strings
begin

text \<open>
  The two error types of \<^verbatim>\<open>error.rs\<close> and their \<open>Display\<close> text. The crate embeds the
  text of an inner error in outer ones (\<open>format!("... {e}")\<close>), and one retry decision is
  taken on that text, so the text is part of the model. An \<open>anyhow::Error\<close> is modelled by
  its \<open>Display\<close> text.
\<close>

datatype (plugins only: code size) ma_error =
    EmptyDid
  | InvalidDidPrefix
  | MissingIdentifier
  | MissingFragment
  | UnexpectedFragment
  | InvalidDidFormat
  | InvalidFragment string
  | InvalidIdentifier
  | InvalidMessageId
  | EmptyMessageId
  | InvalidMessageType
  | InvalidKeyType
  | InvalidIdentitySecret
  | InvalidRecipient
  | MissingContent
  | MissingContentType
  | MissingSender
  | MissingSignature
  | InvalidMessageTimestamp
  | MessageTooOld
  | MessageFromFuture
  | ReplayDetected
  | BroadcastMustNotHaveRecipient
  | BroadcastMustNotBeEncrypted
  | EncryptionRequired
  | MessageRequiresRecipient
  | EmptyContext
  | InvalidContext
  | EmptyController
  | VerificationMethodMissingType
  | InvalidVerificationMethodType string
  | UnknownVerificationMethod string
  | EmptyPublicKeyMultibase
  | InvalidPublicKeyMultibase
  | InvalidMulticodec u64 u64
  | InvalidKeyLength nat nat
  | MissingProof
  | InvalidProofType string
  | InvalidProofPurpose string
  | InvalidDocumentSignature
  | InvalidMessageSignature
  | InvalidCreatedAt string
  | InvalidUpdatedAt string
  | MissingEnvelopeField string
  | InvalidEphemeralKeyLength
  | CiphertextTooShort
  | Crypto
  | CborEncode string
  | CborDecode string
  | JsonEncode string
  | JsonDecode string

primrec ma_error_display :: "ma_error \<Rightarrow> string" where
  "ma_error_display EmptyDid = ''empty DID''"
| "ma_error_display InvalidDidPrefix = ''invalid DID prefix, expected did:ma:''"
| "ma_error_display MissingIdentifier = ''missing DID identifier''"
| "ma_error_display MissingFragment = ''missing DID fragment''"
| "ma_error_display UnexpectedFragment = ''unexpected DID fragment''"
| "ma_error_display InvalidDidFormat = ''invalid DID format''"
| "ma_error_display (InvalidFragment x) = ''invalid DID fragment: '' @ x"
| "ma_error_display InvalidIdentifier = ''invalid DID identifier''"
| "ma_error_display InvalidMessageId = ''invalid message id''"
| "ma_error_display EmptyMessageId = ''empty message id''"
| "ma_error_display InvalidMessageType = ''invalid message type''"
| "ma_error_display InvalidKeyType = ''invalid key type''"
| "ma_error_display InvalidIdentitySecret = ''invalid identity secret''"
| "ma_error_display InvalidRecipient = ''invalid recipient''"
| "ma_error_display MissingContent = ''missing message content''"
| "ma_error_display MissingContentType = ''missing message content type''"
| "ma_error_display MissingSender = ''missing sender''"
| "ma_error_display MissingSignature = ''missing signature''"
| "ma_error_display InvalidMessageTimestamp = ''message timestamp is invalid''"
| "ma_error_display MessageTooOld = ''message is too old''"
| "ma_error_display MessageFromFuture = ''message timestamp is too far in the future''"
| "ma_error_display ReplayDetected = ''replay detected''"
| "ma_error_display BroadcastMustNotHaveRecipient = ''broadcast messages must not have a recipient''"
| "ma_error_display BroadcastMustNotBeEncrypted = ''broadcast messages must not be encrypted''"
| "ma_error_display EncryptionRequired = ''message type requires an encrypted envelope''"
| "ma_error_display MessageRequiresRecipient = ''encrypted messages require a recipient''"
| "ma_error_display EmptyContext = ''context missing''"
| "ma_error_display InvalidContext = ''invalid DID document context''"
| "ma_error_display EmptyController = ''controller missing''"
| "ma_error_display VerificationMethodMissingType = ''verification method missing type''"
| "ma_error_display (InvalidVerificationMethodType x) = ''invalid verification method type: '' @ x"
| "ma_error_display (UnknownVerificationMethod x) = ''unknown verification method: '' @ x"
| "ma_error_display EmptyPublicKeyMultibase = ''public key multibase is empty''"
| "ma_error_display InvalidPublicKeyMultibase = ''invalid public key multibase''"
| "ma_error_display (InvalidMulticodec expected actual) = ''invalid multicodec, expected '' @ show_u64 expected @ '', got '' @ show_u64 actual"
| "ma_error_display (InvalidKeyLength expected actual) = ''invalid key length, expected '' @ show_nat expected @ '', got '' @ show_nat actual"
| "ma_error_display MissingProof = ''proof is missing''"
| "ma_error_display (InvalidProofType x) = ''invalid proof type: '' @ x"
| "ma_error_display (InvalidProofPurpose x) = ''invalid proof purpose: '' @ x"
| "ma_error_display InvalidDocumentSignature = ''document signature is invalid''"
| "ma_error_display InvalidMessageSignature = ''message signature is invalid''"
| "ma_error_display (InvalidCreatedAt x) = ''invalid createdAt timestamp (must be RFC3339 UTC whole-second, e.g. 2026-08-08T12:34:56Z): '' @ x"
| "ma_error_display (InvalidUpdatedAt x) = ''invalid updatedAt timestamp (must be RFC3339 UTC whole-second, e.g. 2026-08-08T12:34:56Z): '' @ x"
| "ma_error_display (MissingEnvelopeField x) = ''missing envelope field: '' @ x"
| "ma_error_display InvalidEphemeralKeyLength = ''invalid ephemeral key length''"
| "ma_error_display CiphertextTooShort = ''ciphertext too short''"
| "ma_error_display Crypto = ''cryptographic operation failed''"
| "ma_error_display (CborEncode x) = ''CBOR encode failed: '' @ x"
| "ma_error_display (CborDecode x) = ''CBOR decode failed: '' @ x"
| "ma_error_display (JsonEncode x) = ''JSON encode failed: '' @ x"
| "ma_error_display (JsonDecode x) = ''JSON decode failed: '' @ x"

datatype error =
    Transport string
  | Connect string
  | Bind string
  | StreamOpen string
  | ConnectionClosed string
  | Validation ma_error
  | SignatureVerification
  | ReplayError string
  | ResolutionFailed string string
  | IpnsResolutionFailed string string
  | NoInboxTransport string
  | InvalidTransport string
  | SecretKey string
  | EndpointIdError string
  | ConfigError string
  | SecretsError string
  | AclError string
  | DuplicateService string
  | OtherError string

primrec error_display :: "error \<Rightarrow> string" where
  "error_display (Transport x) = ''transport error: '' @ x"
| "error_display (Connect x) = ''transport connect failed: '' @ x"
| "error_display (Bind x) = ''transport bind failed: '' @ x"
| "error_display (StreamOpen x) = ''stream open failed: '' @ x"
| "error_display (ConnectionClosed x) = ''connection closed: '' @ x"
| "error_display (Validation x) = ''message validation failed: '' @ ma_error_display x"
| "error_display SignatureVerification = ''message signature verification failed''"
| "error_display (ReplayError x) = ''replay detected for message '' @ x"
| "error_display (ResolutionFailed did detail) = ''DID resolution failed for '' @ did @ '': '' @ detail"
| "error_display (IpnsResolutionFailed path detail) = ''IPNS resolution failed for '' @ path @ '': '' @ detail"
| "error_display (NoInboxTransport x) = ''no inbox transport in DID document for '' @ x"
| "error_display (InvalidTransport x) = ''invalid transport string: '' @ x"
| "error_display (SecretKey x) = ''secret key error: '' @ x"
| "error_display (EndpointIdError x) = ''endpoint ID derivation failed: '' @ x"
| "error_display (ConfigError x) = ''config error: '' @ x"
| "error_display (SecretsError x) = ''secrets error: '' @ x"
| "error_display (AclError x) = ''acl error: '' @ x"
| "error_display (DuplicateService x) = ''duplicate service ALPN: '' @ x"
| "error_display (OtherError x) = x"

type_synonym 'a ma_result = "ma_error + 'a"
type_synonym 'a result = "error + 'a"

text \<open>A single quote, for the messages that print one.\<close>

definition quote :: string where
  "quote = [CHR 0x27]"

text \<open>
  Every rejection has a message: no error of the crate prints as the empty string, so an
  operator always sees why something was refused.
\<close>

lemma ma_error_display_nonempty: "ma_error_display e \<noteq> []"
  by (cases e) simp_all

end
