(* ===== verification/Multiformat.thy ===== *)
theory Multiformat
  imports Errors
begin

text \<open>
  Multibase and multicodec wrapping of keys and signatures (\<^verbatim>\<open>multiformat.rs\<close>). The
  \<open>multibase\<close> and \<open>unsigned_varint\<close> packages are the functions of the record
  \<open>multiformat_lib\<close>; what the crate relies on of them is \<open>multiformat_laws\<close>.
\<close>

record multiformat_lib =
  multibase_base58btc :: "bytes \<Rightarrow> string"
  multibase_base36lower :: "bytes \<Rightarrow> string"
  multibase_any_decode :: "string \<Rightarrow> bytes option"
  varint_encode_u64 :: "u64 \<Rightarrow> bytes"
  varint_decode_u64 :: "bytes \<Rightarrow> (u64 \<times> bytes) option"

definition multibase_encode :: "'x multiformat_lib_scheme \<Rightarrow> bytes \<Rightarrow> string" where
  "multibase_encode L data = multibase_base58btc L data"

definition multibase_decode :: "'x multiformat_lib_scheme \<Rightarrow> string \<Rightarrow> bytes ma_result" where
  "multibase_decode L input = ok_or (multibase_any_decode L input) InvalidPublicKeyMultibase"

definition multicodec_encode :: "'x multiformat_lib_scheme \<Rightarrow> u64 \<Rightarrow> bytes \<Rightarrow> bytes" where
  "multicodec_encode L codec payload = varint_encode_u64 L codec @ payload"

definition multicodec_decode :: "'x multiformat_lib_scheme \<Rightarrow> bytes \<Rightarrow> (u64 \<times> bytes) ma_result" where
  "multicodec_decode L encoded =
     bindR (ok_or (varint_decode_u64 L encoded) InvalidPublicKeyMultibase)
       (\<lambda>(codec, remainder).
          if remainder = [] then Inl InvalidPublicKeyMultibase else Inr (codec, remainder))"

definition public_key_multibase_encode :: "'x multiformat_lib_scheme \<Rightarrow> u64 \<Rightarrow> bytes \<Rightarrow> string" where
  "public_key_multibase_encode L codec public_key =
     multibase_encode L (multicodec_encode L codec public_key)"

definition public_key_multibase_decode ::
    "'x multiformat_lib_scheme \<Rightarrow> string \<Rightarrow> (u64 \<times> bytes) ma_result" where
  "public_key_multibase_decode L input =
     bindR (multibase_decode L input) (multicodec_decode L)"

definition signature_multibase_encode :: "'x multiformat_lib_scheme \<Rightarrow> u64 \<Rightarrow> bytes \<Rightarrow> string" where
  "signature_multibase_encode L codec signature =
     multibase_encode L (multicodec_encode L codec signature)"

definition signature_multibase_decode ::
    "'x multiformat_lib_scheme \<Rightarrow> string \<Rightarrow> (u64 \<times> bytes) ma_result" where
  "signature_multibase_decode L input =
     bindR (multibase_decode L input) (multicodec_decode L)"

section \<open>What the packages promise\<close>

text \<open>
  Decoding undoes base58btc encoding, whose text starts with \<open>z\<close>; a base36lower text is
  made of ASCII letters and digits; decoding a varint undoes encoding it, whatever follows.
\<close>

definition multiformat_laws :: "'x multiformat_lib_scheme \<Rightarrow> bool" where
  "multiformat_laws L \<longleftrightarrow>
     (\<forall>b. multibase_any_decode L (multibase_base58btc L b) = Some b
        \<and> multibase_base58btc L b \<noteq> [] \<and> hd (multibase_base58btc L b) = CHR ''z'')
   \<and> (\<forall>b. list_all is_ascii_alphanumeric (multibase_base36lower L b))
   \<and> (\<forall>c p. varint_decode_u64 L (varint_encode_u64 L c @ p) = Some (c, p))"

lemma multicodec_roundtrip:
  assumes "multiformat_laws L" and "p \<noteq> []"
  shows "multicodec_decode L (multicodec_encode L c p) = Inr (c, p)"
  using assms by (simp add: multiformat_laws_def multicodec_decode_def multicodec_encode_def)

lemma multibase_roundtrip:
  "multiformat_laws L \<Longrightarrow> multibase_decode L (multibase_encode L b) = Inr b"
  by (simp add: multiformat_laws_def multibase_decode_def multibase_encode_def)

lemma multibase_encode_nonempty: "multiformat_laws L \<Longrightarrow> multibase_encode L b \<noteq> []"
  by (simp add: multiformat_laws_def multibase_encode_def)

lemma public_key_roundtrip:
  assumes "multiformat_laws L" and "k \<noteq> []"
  shows "public_key_multibase_decode L (public_key_multibase_encode L c k) = Inr (c, k)"
  using assms by (simp add: public_key_multibase_decode_def public_key_multibase_encode_def
      multibase_roundtrip multicodec_roundtrip)

lemma signature_roundtrip:
  assumes "multiformat_laws L" and "s \<noteq> []"
  shows "signature_multibase_decode L (signature_multibase_encode L c s) = Inr (c, s)"
  using assms by (simp add: signature_multibase_decode_def signature_multibase_encode_def
      multibase_roundtrip multicodec_roundtrip)

lemma public_key_encode_inj:
  assumes "multiformat_laws L" and "k \<noteq> []" and "k' \<noteq> []"
    and "public_key_multibase_encode L c k = public_key_multibase_encode L c' k'"
  shows "c = c' \<and> k = k'"
proof -
  have "(Inr (c, k) :: (u64 \<times> bytes) ma_result) = Inr (c', k')"
    unfolding public_key_roundtrip [OF assms(1,2), symmetric]
      public_key_roundtrip [OF assms(1,3), symmetric] assms(4) ..
  then show ?thesis by simp
qed

lemma multicodec_decode_nonempty: "multicodec_decode L b = Inr (c, r) \<Longrightarrow> r \<noteq> []"
  by (auto simp: multicodec_decode_def result_simps split: if_splits)

text \<open>
  Concrete packages that keep the laws, for the witnesses: hexadecimal text after the
  multibase prefix, and a codec counted in ones.
\<close>

definition hex_char :: "u8 \<Rightarrow> char" where
  "hex_char n = (if n < 10 then char_of (48 + unat n) else char_of (87 + unat n))"

definition hex_value :: "char \<Rightarrow> u8" where
  "hex_value c = (if is_ascii_digit c then of_nat (code c - 48) else of_nat (code c - 87))"

fun hex_encode :: "bytes \<Rightarrow> string" where
  "hex_encode [] = []"
| "hex_encode (b # bs) = hex_char (b div 16) # hex_char (b mod 16) # hex_encode bs"

fun hex_decode_pairs :: "string \<Rightarrow> bytes option" where
  "hex_decode_pairs [] = Some []"
| "hex_decode_pairs [c] = None"
| "hex_decode_pairs (c # d # s) = map_option ((#) (16 * hex_value c + hex_value d)) (hex_decode_pairs s)"

lemma hex_char_value: "n < 16 \<Longrightarrow> hex_value (hex_char n) = n"
proof -
  assume "n < 16"
  then have n: "unat n < 16" by (simp add: word_less_nat_alt)
  show ?thesis
  proof (cases "n < 10")
    case True
    then have "unat n < 10" by (simp add: word_less_nat_alt)
    then show ?thesis using True by (simp add: hex_char_def hex_value_def is_ascii_digit_def)
  next
    case False
    then have "\<not> unat n < 10" by (simp add: word_less_nat_alt)
    then show ?thesis using False n by (simp add: hex_char_def hex_value_def is_ascii_digit_def)
  qed
qed

lemma hex_char_hexdigit: "n < 16 \<Longrightarrow> is_ascii_hexdigit (hex_char n)"
  by (auto simp: hex_char_def is_ascii_hexdigit_def is_ascii_digit_def word_less_nat_alt)

lemma byte_div_mod: "16 * (b div 16) + b mod 16 = (b :: u8)" and byte_div_lt: "b div 16 < (16 :: u8)"
  and byte_mod_lt: "b mod 16 < (16 :: u8)"
  subgoal by (simp add: mult_div_mod_eq)
  subgoal
  proof -
    have "unat b < 256" using unsigned_less [of b, where 'a = nat] by simp
    then show ?thesis by (simp add: word_less_nat_alt unat_div)
  qed
  subgoal by (simp add: word_less_nat_alt unat_mod)
  done

lemma hex_roundtrip: "hex_decode_pairs (hex_encode b) = Some b"
  by (induction b) (simp_all add: hex_char_value [OF byte_div_lt] hex_char_value [OF byte_mod_lt] byte_div_mod)

lemma hex_encode_hexdigits: "list_all is_ascii_hexdigit (hex_encode b)"
  by (induction b) (simp_all add: hex_char_hexdigit [OF byte_div_lt] hex_char_hexdigit [OF byte_mod_lt])

lemma hexdigit_alphanumeric: "is_ascii_hexdigit c \<Longrightarrow> is_ascii_alphanumeric c"
  by (auto simp: ascii_defs)

definition demo_varint_encode :: "u64 \<Rightarrow> bytes" where
  "demo_varint_encode c = replicate (unat c) 1 @ [0]"

definition demo_varint_decode :: "bytes \<Rightarrow> (u64 \<times> bytes) option" where
  "demo_varint_decode bs =
     (case dropWhile (\<lambda>b. b = 1) bs of
        [] \<Rightarrow> None
      | _ # r \<Rightarrow> Some (of_nat (length (takeWhile (\<lambda>b. b = 1) bs)), r))"

lemma demo_varint_roundtrip: "demo_varint_decode (demo_varint_encode c @ p) = Some (c, p)"
proof -
  have "dropWhile (\<lambda>b. b = 1) (replicate n 1 @ 0 # p) = 0 # p" for n :: nat
    by (induction n) simp_all
  moreover have "takeWhile (\<lambda>b. b = 1) (replicate n 1 @ 0 # p) = replicate n 1" for n :: nat
    by (induction n) simp_all
  ultimately show ?thesis by (simp add: demo_varint_decode_def demo_varint_encode_def)
qed

definition demo_multibase_decode :: "string \<Rightarrow> bytes option" where
  "demo_multibase_decode s = (case s of [] \<Rightarrow> None | c # t \<Rightarrow> hex_decode_pairs t)"

end
