(* ===== verification/Did.thy ===== *)
theory Did
  imports Multiformat
begin

text \<open>
  Parsing, printing and validating \<open>did:ma:\<close> identifiers (\<^verbatim>\<open>did.rs\<close>). The \<open>cid\<close> and
  \<open>libp2p-identity\<close> packages are functions of the record \<open>did_lib\<close>.
\<close>

datatype cid_version = V0 | V1

record cid =
  cid_version :: cid_version
  cid_codec :: u64
  cid_hash :: bytes
  cid_bytes :: bytes

record did_lib = multiformat_lib +
  cid_try_from :: "string \<Rightarrow> cid option"
  peer_id_from_multihash :: "bytes \<Rightarrow> bytes option"
  peer_id_digest :: "bytes \<Rightarrow> bytes"
  public_key_try_decode_protobuf :: "bytes \<Rightarrow> bytes option"
  try_into_ed25519 :: "bytes \<Rightarrow> bytes option"

definition DID_PREFIX :: string where "DID_PREFIX = ''did:ma:''"
definition LIBP2P_KEY_CODEC :: u64 where "LIBP2P_KEY_CODEC = 0x72"

record did =
  ipns :: string
  fragment :: "string option"

section \<open>Validation\<close>

definition validate_identifier :: "'x did_lib_scheme \<Rightarrow> string \<Rightarrow> unit ma_result" where
  "validate_identifier L input =
     (if input = [] then Inl MissingIdentifier
      else bindR (ok_or (cid_try_from L input) InvalidIdentifier) (\<lambda>cid.
        if cid_version cid \<noteq> V1 \<or> cid_codec cid \<noteq> LIBP2P_KEY_CODEC
           \<or> multibase_base36lower L (cid_bytes cid) \<noteq> input
        then Inl InvalidIdentifier
        else bindR (ok_or (peer_id_from_multihash L (cid_hash cid)) InvalidIdentifier) (\<lambda>peer_id.
          bindR (ok_or (public_key_try_decode_protobuf L (peer_id_digest L peer_id))
              InvalidIdentifier) (\<lambda>public_key.
            if try_into_ed25519 L public_key = None then Inl InvalidIdentifier else Inr ()))))"

definition fragment_char :: "char \<Rightarrow> bool" where
  "fragment_char b \<longleftrightarrow> is_ascii_alphanumeric b \<or> b = CHR ''_'' \<or> b = CHR ''-''"

definition validate_fragment :: "string \<Rightarrow> unit ma_result" where
  "validate_fragment input =
     (if input = [] \<or> \<not> list_all fragment_char input then Inl (InvalidFragment input) else Inr ())"

section \<open>The operations of \<open>Did\<close>\<close>

definition new_identity :: "'x did_lib_scheme \<Rightarrow> string \<Rightarrow> did ma_result" where
  "new_identity L i =
     bindR (validate_identifier L i) (\<lambda>_. Inr \<lparr>ipns = i, fragment = None\<rparr>)"

text \<open>\<open>nanoid\<close> is the id that \<open>nanoid!()\<close> draws when no fragment is given.\<close>

definition new_url :: "'x did_lib_scheme \<Rightarrow> string \<Rightarrow> string option \<Rightarrow> string \<Rightarrow> did ma_result" where
  "new_url L i frag nanoid =
     (let f = (case frag of Some f \<Rightarrow> f | None \<Rightarrow> nanoid)
      in bindR (validate_identifier L i) (\<lambda>_.
         bindR (validate_fragment f) (\<lambda>_. Inr \<lparr>ipns = i, fragment = Some f\<rparr>)))"

definition base_id :: "did \<Rightarrow> string" where
  "base_id d = DID_PREFIX @ ipns d"

definition with_fragment :: "'x did_lib_scheme \<Rightarrow> did \<Rightarrow> string \<Rightarrow> did ma_result" where
  "with_fragment L d f = new_url L (ipns d) (Some f) []"

definition did_id :: "did \<Rightarrow> string" where
  "did_id d = (case fragment d of Some f \<Rightarrow> base_id d @ ''#'' @ f | None \<Rightarrow> base_id d)"

definition parse :: "'x did_lib_scheme \<Rightarrow> string \<Rightarrow> (string \<times> string option) ma_result" where
  "parse L input =
     (if input = [] then Inl EmptyDid
      else bindR (ok_or (strip_prefix input DID_PREFIX) InvalidDidPrefix) (\<lambda>stripped.
        let parts = split_char (CHR ''#'') stripped
        in if parts = [] \<or> parts = [[]] then Inl MissingIdentifier
           else if length parts > 2 then Inl InvalidDidFormat
           else case parts of
               [identifier] \<Rightarrow>
                 bindR (validate_identifier L identifier) (\<lambda>_. Inr (identifier, None))
             | [identifier, frag] \<Rightarrow>
                 bindR (validate_identifier L identifier) (\<lambda>_.
                 bindR (validate_fragment frag) (\<lambda>_. Inr (identifier, Some frag)))
             | _ \<Rightarrow> Inl InvalidDidFormat))"

definition validate :: "'x did_lib_scheme \<Rightarrow> string \<Rightarrow> unit ma_result" where
  "validate L input = bindR (parse L input) (\<lambda>_. Inr ())"

definition validate_url :: "'x did_lib_scheme \<Rightarrow> string \<Rightarrow> unit ma_result" where
  "validate_url L input = validate L input"

definition validate_resource :: "'x did_lib_scheme \<Rightarrow> string \<Rightarrow> unit ma_result" where
  "validate_resource L input =
     bindR (parse L input) (\<lambda>(_, f). case f of Some _ \<Rightarrow> Inr () | None \<Rightarrow> Inl MissingFragment)"

definition validate_identity :: "'x did_lib_scheme \<Rightarrow> string \<Rightarrow> unit ma_result" where
  "validate_identity L input =
     bindR (parse L input) (\<lambda>(_, f). case f of None \<Rightarrow> Inr () | Some _ \<Rightarrow> Inl UnexpectedFragment)"

definition is_url :: "did \<Rightarrow> bool" where
  "is_url d \<longleftrightarrow> fragment d \<noteq> None"

definition is_bare :: "did \<Rightarrow> bool" where
  "is_bare d \<longleftrightarrow> fragment d = None"

definition did_try_from :: "'x did_lib_scheme \<Rightarrow> string \<Rightarrow> did ma_result" where
  "did_try_from L value = bindR (parse L value) (\<lambda>(i, f). Inr \<lparr>ipns = i, fragment = f\<rparr>)"

section \<open>The well-formed DIDs\<close>

definition did_ok :: "'x did_lib_scheme \<Rightarrow> did \<Rightarrow> bool" where
  "did_ok L d \<longleftrightarrow> validate_identifier L (ipns d) = Inr ()
     \<and> (case fragment d of None \<Rightarrow> True | Some f \<Rightarrow> validate_fragment f = Inr ())"

lemma validate_fragment_ok:
  "validate_fragment f = Inr u \<longleftrightarrow> f \<noteq> [] \<and> list_all fragment_char f"
  by (auto simp: validate_fragment_def)

lemma fragment_no_hash: "validate_fragment f = Inr () \<Longrightarrow> CHR ''#'' \<notin> set f"
  by (auto simp: validate_fragment_ok list_all_iff fragment_char_def ascii_defs)

lemma validate_identifier_nonempty: "validate_identifier L i = Inr () \<Longrightarrow> i \<noteq> []"
  by (auto simp: validate_identifier_def)

lemma identifier_alphanumeric:
  assumes "multiformat_laws L" and "validate_identifier L i = Inr ()"
  shows "list_all is_ascii_alphanumeric i"
  using assms by (auto simp: validate_identifier_def multiformat_laws_def result_simps split: if_splits)

lemma identifier_no_hash:
  "multiformat_laws L \<Longrightarrow> validate_identifier L i = Inr () \<Longrightarrow> CHR ''#'' \<notin> set i"
  using identifier_alphanumeric [of L i] by (auto simp: list_all_iff ascii_defs)

lemma new_identity_eq:
  "new_identity L i = Inr d \<longleftrightarrow> validate_identifier L i = Inr () \<and> d = \<lparr>ipns = i, fragment = None\<rparr>"
  by (auto simp: new_identity_def result_simps)

lemma new_url_ok: "new_url L i frag n = Inr d \<Longrightarrow> did_ok L d \<and> is_url d \<and> ipns d = i"
  by (auto simp: new_url_def Let_def result_simps did_ok_def is_url_def)

text \<open>What parses is well formed, and is printed back as it was read.\<close>

lemma parse_sound:
  assumes "parse L s = Inr (i, f)"
  shows "did_id \<lparr>ipns = i, fragment = f\<rparr> = s \<and> did_ok L \<lparr>ipns = i, fragment = f\<rparr>"
proof -
  obtain r where r: "s = DID_PREFIX @ r"
    using assms by (auto simp: parse_def result_simps split: if_splits)
  let ?ps = "split_char (CHR ''#'') r"
  consider a where "?ps = [a]" | a b where "?ps = [a, b]" | "2 < length ?ps"
    by (cases ?ps rule: list.exhaust; cases "tl ?ps"; cases "tl (tl ?ps)") auto
  then show ?thesis
  proof cases
    case 1
    then have "a = r" by (simp add: split_char_single)
    then show ?thesis using assms 1
      by (auto simp: parse_def r result_simps Let_def did_id_def base_id_def did_ok_def split: if_splits)
  next
    case 2
    then have "r = a @ CHR ''#'' # b" using split_char_pair by blast
    then show ?thesis using assms 2
      by (auto simp: parse_def r result_simps Let_def did_id_def base_id_def did_ok_def split: if_splits)
  next
    case 3
    then show ?thesis using assms by (auto simp: parse_def r result_simps Let_def split: if_splits)
  qed
qed

text \<open>A well-formed DID is read back as it was printed.\<close>

lemma parse_complete:
  assumes "multiformat_laws L" and "did_ok L d"
  shows "parse L (did_id d) = Inr (ipns d, fragment d)"
proof -
  have i: "validate_identifier L (ipns d) = Inr ()" and nh: "CHR ''#'' \<notin> set (ipns d)"
    and ne: "ipns d \<noteq> []"
    using assms identifier_no_hash validate_identifier_nonempty by (auto simp: did_ok_def)
  have pre: "DID_PREFIX \<noteq> []" by (simp add: DID_PREFIX_def)
  show ?thesis
  proof (cases "fragment d")
    case None
    then show ?thesis
      using i nh ne pre by (simp add: parse_def did_id_def base_id_def split_char_none Let_def)
  next
    case (Some f)
    then have f: "validate_fragment f = Inr ()" using assms(2) by (simp add: did_ok_def)
    then have "split_char (CHR ''#'') (ipns d @ CHR ''#'' # f) = [ipns d, f]"
      by (simp add: split_char_append nh split_char_none fragment_no_hash)
    then show ?thesis
      using i f pre Some by (simp add: parse_def did_id_def base_id_def Let_def)
  qed
qed

lemma base_id_parse:
  assumes "multiformat_laws L" and "validate_identifier L (ipns d) = Inr ()"
  shows "parse L (base_id d) = Inr (ipns d, None)"
  using parse_complete [OF assms(1), of "\<lparr>ipns = ipns d, fragment = None\<rparr>"] assms(2)
  by (simp add: did_ok_def did_id_def base_id_def)

lemma resource_id_parse:
  assumes "multiformat_laws L" and "validate_identifier L (ipns d) = Inr ()"
    and "validate_fragment f = Inr ()"
  shows "parse L (base_id d @ CHR ''#'' # f) = Inr (ipns d, Some f)"
  using parse_complete [OF assms(1), of "\<lparr>ipns = ipns d, fragment = Some f\<rparr>"] assms(2,3)
  by (simp add: did_ok_def did_id_def base_id_def)

text \<open>Validation depends on the packages only through these functions.\<close>

lemma validate_identifier_cong:
  assumes "cid_try_from L = cid_try_from L'" and "multibase_base36lower L = multibase_base36lower L'"
    and "peer_id_from_multihash L = peer_id_from_multihash L'"
    and "peer_id_digest L = peer_id_digest L'"
    and "public_key_try_decode_protobuf L = public_key_try_decode_protobuf L'"
    and "try_into_ed25519 L = try_into_ed25519 L'"
  shows "validate_identifier L i = validate_identifier L' i"
  by (simp only: validate_identifier_def assms)

section \<open>Concrete packages for the witnesses\<close>

text \<open>
  An identifier is the base36lower text of a CID; here the text is hexadecimal and the CID's
  hash, its digest and the public key are the decoded bytes.
\<close>

definition demo_did_lib :: did_lib where
  "demo_did_lib =
     \<lparr>multibase_base58btc = (\<lambda>b. CHR ''z'' # hex_encode b),
      multibase_base36lower = hex_encode,
      multibase_any_decode = demo_multibase_decode,
      varint_encode_u64 = demo_varint_encode,
      varint_decode_u64 = demo_varint_decode,
      cid_try_from = (\<lambda>s. map_option (\<lambda>b.
         \<lparr>cid_version = V1, cid_codec = LIBP2P_KEY_CODEC, cid_hash = b, cid_bytes = b\<rparr>)
         (hex_decode_pairs s)),
      peer_id_from_multihash = Some,
      peer_id_digest = (\<lambda>b. b),
      public_key_try_decode_protobuf = Some,
      try_into_ed25519 = Some\<rparr>"

lemma demo_multiformat_laws [simp]: "multiformat_laws demo_did_lib"
  by (simp add: multiformat_laws_def demo_did_lib_def demo_multibase_decode_def hex_roundtrip
      demo_varint_roundtrip list.pred_mono_strong [OF hex_encode_hexdigits hexdigit_alphanumeric])

lemma demo_identifier [simp]: "validate_identifier demo_did_lib ''6d61'' = Inr ()"
  by (simp add: validate_identifier_def demo_did_lib_def hex_value_def ascii_defs hex_char_def
      word_less_nat_alt unat_div unat_mod char_of_def bit_0)

text \<open>C36: A DID built from a valid identifier and fragment parses back to exactly its parts,
  and the three entry points classify it by whether it has a fragment.\<close>

theorem did_roundtrip:
  assumes "multiformat_laws L" and "did_ok L d"
  shows "did_try_from L (did_id d) = Inr d
    \<and> validate_url L (did_id d) = Inr ()
    \<and> validate_resource L (did_id d) = (if is_url d then Inr () else Inl MissingFragment)
    \<and> validate_identity L (did_id d) = (if is_bare d then Inr () else Inl UnexpectedFragment)"
  using parse_complete [OF assms]
  by (cases d; cases "fragment d")
    (auto simp: did_try_from_def validate_url_def validate_def validate_resource_def
      validate_identity_def is_url_def is_bare_def)

theorem did_roundtrip_witness:
  "did_try_from demo_did_lib (did_id \<lparr>ipns = ''6d61'', fragment = Some ''lobby''\<rparr>)
      = Inr \<lparr>ipns = ''6d61'', fragment = Some ''lobby''\<rparr>
    \<and> validate_url demo_did_lib (did_id \<lparr>ipns = ''6d61'', fragment = Some ''lobby''\<rparr>) = Inr ()
    \<and> validate_resource demo_did_lib (did_id \<lparr>ipns = ''6d61'', fragment = Some ''lobby''\<rparr>) =
        (if is_url \<lparr>ipns = ''6d61'', fragment = Some ''lobby''\<rparr> then Inr () else Inl MissingFragment)
    \<and> validate_identity demo_did_lib (did_id \<lparr>ipns = ''6d61'', fragment = Some ''lobby''\<rparr>) =
        (if is_bare \<lparr>ipns = ''6d61'', fragment = Some ''lobby''\<rparr> then Inr ()
         else Inl UnexpectedFragment)"
  by (rule did_roundtrip)
    (simp_all add: did_ok_def validate_fragment_ok fragment_char_def ascii_defs)

text \<open>Parsing accepts only well-formed text: what parses has a valid identifier and
  fragment and is printed back byte for byte, so two different texts never parse to the
  same DID.\<close>

theorem did_parse_canonical:
  assumes "did_try_from L s = Inr d"
  shows "did_id d = s \<and> did_ok L d"
  using assms parse_sound by (auto simp: did_try_from_def result_simps split: prod.splits)

theorem did_parse_canonical_witness:
  "did_id \<lparr>ipns = ''6d61'', fragment = None\<rparr> = ''did:ma:6d61''
    \<and> did_ok demo_did_lib \<lparr>ipns = ''6d61'', fragment = None\<rparr>"
  by (rule did_parse_canonical) (simp add: did_try_from_def parse_def DID_PREFIX_def Let_def strip_prefix_def)

end
