(* ===== verification/Keys.thy ===== *)
theory Keys
  imports Did
begin

text \<open>
  Ed25519 signing keys and X25519 encryption keys (\<^verbatim>\<open>key.rs\<close>). A secret is its 32 bytes;
  the curve operations of \<open>ed25519-dalek\<close>, \<open>x25519-dalek\<close>, the \<open>blake3\<close> hash and the \<open>hex\<close>
  package are functions of the record \<open>crypto_lib\<close>, and what the crate relies on of them
  is \<open>crypto_laws\<close>. Randomness is an argument.
\<close>

record crypto_lib = did_lib +
  ed25519_public :: "bytes \<Rightarrow> bytes"
  ed25519_sign :: "bytes \<Rightarrow> bytes \<Rightarrow> bytes"
  ed25519_key_from_bytes :: "bytes \<Rightarrow> bytes option"
  ed25519_signature_from_slice :: "bytes \<Rightarrow> bytes option"
  ed25519_verify :: "bytes \<Rightarrow> bytes \<Rightarrow> bytes \<Rightarrow> bool"
  x25519_public :: "bytes \<Rightarrow> bytes"
  x25519_diffie_hellman :: "bytes \<Rightarrow> bytes \<Rightarrow> bytes"
  blake3_hash :: "bytes \<Rightarrow> bytes"
  hex_text :: "bytes \<Rightarrow> string"

definition ASSERTION_METHOD_KEY_TYPE :: string where "ASSERTION_METHOD_KEY_TYPE = ''Multikey''"
definition KEY_AGREEMENT_KEY_TYPE :: string where "KEY_AGREEMENT_KEY_TYPE = ''Multikey''"
definition CODEC_X25519_PUB :: u64 where "CODEC_X25519_PUB = 0xec"
definition CODEC_ED25519_PUB :: u64 where "CODEC_ED25519_PUB = 0xed"
definition CODEC_EDDSA_SIG :: u64 where "CODEC_EDDSA_SIG = 0xd0ed"

lemma codecs_differ [simp]: "CODEC_X25519_PUB \<noteq> CODEC_ED25519_PUB" "CODEC_ED25519_PUB \<noteq> CODEC_X25519_PUB"
  by (simp_all add: CODEC_X25519_PUB_def CODEC_ED25519_PUB_def)

section \<open>Signing keys\<close>

record signing_key =
  sk_did :: did
  sk_key_type :: string
  sk_secret_key :: bytes
  sk_public_key_multibase :: string

definition signing_from_private_key_bytes ::
    "'x crypto_lib_scheme \<Rightarrow> did \<Rightarrow> bytes \<Rightarrow> signing_key ma_result" where
  "signing_from_private_key_bytes L d private_key =
     Inr \<lparr>sk_did = d, sk_key_type = ASSERTION_METHOD_KEY_TYPE, sk_secret_key = private_key,
       sk_public_key_multibase =
         public_key_multibase_encode L CODEC_ED25519_PUB (ed25519_public L private_key)\<rparr>"

text \<open>\<open>seed\<close> is what the operating system's generator returns.\<close>

definition signing_generate ::
    "'x crypto_lib_scheme \<Rightarrow> bytes \<Rightarrow> did \<Rightarrow> signing_key ma_result" where
  "signing_generate L seed d =
     Inr \<lparr>sk_did = d, sk_key_type = ASSERTION_METHOD_KEY_TYPE, sk_secret_key = seed,
       sk_public_key_multibase =
         public_key_multibase_encode L CODEC_ED25519_PUB (ed25519_public L seed)\<rparr>"

definition signing_sign :: "'x crypto_lib_scheme \<Rightarrow> signing_key \<Rightarrow> bytes \<Rightarrow> bytes" where
  "signing_sign L k data = ed25519_sign L (sk_secret_key k) data"

definition signing_verifying_key :: "'x crypto_lib_scheme \<Rightarrow> signing_key \<Rightarrow> bytes" where
  "signing_verifying_key L k = ed25519_public L (sk_secret_key k)"

definition signing_private_key_bytes :: "signing_key \<Rightarrow> bytes" where
  "signing_private_key_bytes k = sk_secret_key k"

definition signing_validate :: "'x crypto_lib_scheme \<Rightarrow> signing_key \<Rightarrow> unit ma_result" where
  "signing_validate L k =
     bindR (validate L (did_id (sk_did k))) (\<lambda>_.
     bindR (ensure (sk_key_type k = ASSERTION_METHOD_KEY_TYPE) InvalidKeyType) (\<lambda>_.
     bindR (public_key_multibase_decode L (sk_public_key_multibase k)) (\<lambda>(codec, key_bytes).
     bindR (ensure (codec = CODEC_ED25519_PUB) (InvalidMulticodec CODEC_ED25519_PUB codec)) (\<lambda>_.
     ensure (length key_bytes = 32) (InvalidKeyLength 32 (length key_bytes))))))"

section \<open>Encryption keys\<close>

record encryption_key =
  ek_did :: did
  ek_key_type :: string
  ek_private_key :: bytes
  ek_public_key :: bytes
  ek_public_key_multibase :: string

definition encryption_from_private_key_bytes ::
    "'x crypto_lib_scheme \<Rightarrow> did \<Rightarrow> bytes \<Rightarrow> encryption_key ma_result" where
  "encryption_from_private_key_bytes L d private_key =
     Inr \<lparr>ek_did = d, ek_key_type = KEY_AGREEMENT_KEY_TYPE, ek_private_key = private_key,
       ek_public_key = x25519_public L private_key,
       ek_public_key_multibase =
         public_key_multibase_encode L CODEC_X25519_PUB (x25519_public L private_key)\<rparr>"

definition encryption_generate ::
    "'x crypto_lib_scheme \<Rightarrow> bytes \<Rightarrow> did \<Rightarrow> encryption_key ma_result" where
  "encryption_generate L seed d =
     Inr \<lparr>ek_did = d, ek_key_type = KEY_AGREEMENT_KEY_TYPE, ek_private_key = seed,
       ek_public_key = x25519_public L seed,
       ek_public_key_multibase =
         public_key_multibase_encode L CODEC_X25519_PUB (x25519_public L seed)\<rparr>"

definition encryption_shared_secret :: "'x crypto_lib_scheme \<Rightarrow> encryption_key \<Rightarrow> bytes \<Rightarrow> bytes" where
  "encryption_shared_secret L k other = x25519_diffie_hellman L (ek_private_key k) other"

definition encryption_private_key_bytes :: "encryption_key \<Rightarrow> bytes" where
  "encryption_private_key_bytes k = ek_private_key k"

definition encryption_validate :: "'x crypto_lib_scheme \<Rightarrow> encryption_key \<Rightarrow> unit ma_result" where
  "encryption_validate L k =
     bindR (validate L (did_id (ek_did k))) (\<lambda>_.
     bindR (ensure (ek_key_type k = KEY_AGREEMENT_KEY_TYPE) InvalidKeyType) (\<lambda>_.
     bindR (public_key_multibase_decode L (ek_public_key_multibase k)) (\<lambda>(codec, key_bytes).
     bindR (ensure (codec = CODEC_X25519_PUB) (InvalidMulticodec CODEC_X25519_PUB codec)) (\<lambda>_.
     ensure (length key_bytes = 32) (InvalidKeyLength 32 (length key_bytes))))))"

section \<open>What the packages promise\<close>

text \<open>
  Public keys have 32 bytes and are accepted as points, signatures have 64 bytes and
  verify under the public key of the secret that made them, and both ends of an X25519
  agreement compute the same secret.
\<close>

definition crypto_laws :: "'x crypto_lib_scheme \<Rightarrow> bool" where
  "crypto_laws L \<longleftrightarrow> multiformat_laws L
   \<and> (\<forall>s. length (ed25519_public L s) = 32
        \<and> ed25519_key_from_bytes L (ed25519_public L s) = Some (ed25519_public L s))
   \<and> (\<forall>s m. length (ed25519_sign L s m) = 64
        \<and> ed25519_signature_from_slice L (ed25519_sign L s m) = Some (ed25519_sign L s m)
        \<and> ed25519_verify L (ed25519_public L s) m (ed25519_sign L s m))
   \<and> (\<forall>s. length (x25519_public L s) = 32)
   \<and> (\<forall>a b. x25519_diffie_hellman L a (x25519_public L b) =
              x25519_diffie_hellman L b (x25519_public L a))"

lemma crypto_lawsD:
  assumes "crypto_laws L"
  shows "multiformat_laws L" and "length (ed25519_public L s) = 32"
    and "ed25519_key_from_bytes L (ed25519_public L s) = Some (ed25519_public L s)"
    and "length (ed25519_sign L s m) = 64"
    and "ed25519_signature_from_slice L (ed25519_sign L s m) = Some (ed25519_sign L s m)"
    and "ed25519_verify L (ed25519_public L s) m (ed25519_sign L s m)"
    and "length (x25519_public L s) = 32"
    and "x25519_diffie_hellman L a (x25519_public L b) = x25519_diffie_hellman L b (x25519_public L a)"
  using assms by (simp_all add: crypto_laws_def)

lemma length_nonempty: "length k = n \<Longrightarrow> 0 < n \<Longrightarrow> k \<noteq> []"
  by auto

lemma public_keys_nonempty:
  assumes "crypto_laws L"
  shows "ed25519_public L s \<noteq> []" and "x25519_public L s \<noteq> []" and "ed25519_sign L s m \<noteq> []"
  using crypto_lawsD(2,4,7) [OF assms] length_nonempty by (metis zero_less_numeral)+

lemma signing_key_decodes:
  "crypto_laws L \<Longrightarrow> public_key_multibase_decode L
     (public_key_multibase_encode L CODEC_ED25519_PUB (ed25519_public L s)) =
   Inr (CODEC_ED25519_PUB, ed25519_public L s)"
  by (simp add: public_key_roundtrip crypto_lawsD(1) public_keys_nonempty)

lemma encryption_key_decodes:
  "crypto_laws L \<Longrightarrow> public_key_multibase_decode L
     (public_key_multibase_encode L CODEC_X25519_PUB (x25519_public L s)) =
   Inr (CODEC_X25519_PUB, x25519_public L s)"
  by (simp add: public_key_roundtrip crypto_lawsD(1) public_keys_nonempty)

text \<open>A signing key and an encryption key never share a public key text.\<close>

lemma key_texts_differ:
  assumes "crypto_laws L"
  shows "public_key_multibase_encode L CODEC_X25519_PUB (x25519_public L t) \<noteq>
     public_key_multibase_encode L CODEC_ED25519_PUB (ed25519_public L s)"
proof
  assume eq: "public_key_multibase_encode L CODEC_X25519_PUB (x25519_public L t) =
     public_key_multibase_encode L CODEC_ED25519_PUB (ed25519_public L s)"
  have "CODEC_X25519_PUB = CODEC_ED25519_PUB"
    using public_key_encode_inj [OF crypto_lawsD(1) [OF assms] public_keys_nonempty(2) [OF assms]
        public_keys_nonempty(1) [OF assms] eq] by blast
  then show False by simp
qed

text \<open>Keys made from secrets for a well-formed DID are valid.\<close>

lemma signing_key_valid:
  assumes "crypto_laws L" and "did_ok L d" and "signing_from_private_key_bytes L d s = Inr k"
  shows "signing_validate L k = Inr ()"
proof -
  have "validate L (did_id d) = Inr ()"
    using parse_complete [OF crypto_lawsD(1) [OF assms(1)] assms(2)] by (simp add: validate_def)
  then show ?thesis
    using assms(3) by (auto simp: signing_from_private_key_bytes_def signing_validate_def
        signing_key_decodes [OF assms(1)] crypto_lawsD(2) [OF assms(1)])
qed

lemma encryption_key_valid:
  assumes "crypto_laws L" and "did_ok L d" and "encryption_from_private_key_bytes L d s = Inr k"
  shows "encryption_validate L k = Inr ()"
proof -
  have "validate L (did_id d) = Inr ()"
    using parse_complete [OF crypto_lawsD(1) [OF assms(1)] assms(2)] by (simp add: validate_def)
  then show ?thesis
    using assms(3) by (auto simp: encryption_from_private_key_bytes_def encryption_validate_def
        encryption_key_decodes [OF assms(1)] crypto_lawsD(7) [OF assms(1)])
qed

section \<open>Concrete packages for the witnesses\<close>

text \<open>
  A public key is its secret cut to 32 bytes, a signature is the public key and the first
  32 bytes of the message, and the agreed secret is the bytewise exclusive or.
\<close>

definition fit :: "nat \<Rightarrow> bytes \<Rightarrow> bytes" where
  "fit n b = take n (b @ replicate n 0)"

lemma length_fit [simp]: "length (fit n b) = n"
  by (simp add: fit_def)

definition demo_crypto_lib :: crypto_lib where
  "demo_crypto_lib = did_lib.extend demo_did_lib
     (crypto_lib.fields
        (fit 32)
        (\<lambda>s m. fit 32 s @ fit 32 m)
        (\<lambda>b. if length b = 32 then Some b else None)
        (\<lambda>b. if length b = 64 then Some b else None)
        (\<lambda>k m s. s = k @ fit 32 m)
        (fit 32)
        (\<lambda>a b. map2 (+) (fit 32 a) (fit 32 b))
        (fit 32)
        hex_encode)"

lemma fit_fit [simp]: "fit n (fit n b) = fit n b"
  by (simp add: fit_def)

lemma demo_crypto_laws [simp]: "crypto_laws demo_crypto_lib"
proof -
  have "multiformat_laws demo_crypto_lib"
    using demo_multiformat_laws
    by (simp add: multiformat_laws_def demo_crypto_lib_def did_lib.defs crypto_lib.defs demo_did_lib_def)
  moreover have "map2 (+) (fit 32 a) (fit 32 b) = map2 (+) (fit 32 b) (fit 32 a)" for a b
    by (simp add: list_eq_iff_nth_eq add.commute)
  ultimately show ?thesis
    by (simp add: crypto_laws_def demo_crypto_lib_def did_lib.defs crypto_lib.defs demo_did_lib_def)
qed

end
