(* ===== verification/Wire.thy ===== *)
theory Wire
  imports Strings
begin

text \<open>
  A small self-delimiting byte encoding of numbers, strings and lists. The program's own
  wire formats are CBOR and JSON packages, which are parameters of the model; the witnesses
  instantiate them with encodings built from these functions, which decode what they encode.
\<close>

definition put_nat :: "nat \<Rightarrow> bytes" where
  "put_nat n = replicate n 1 @ [0]"

definition get_nat :: "bytes \<Rightarrow> (nat \<times> bytes) option" where
  "get_nat b =
     (case dropWhile (\<lambda>x. x = 1) b of
        [] \<Rightarrow> None | _ # r \<Rightarrow> Some (length (takeWhile (\<lambda>x. x = 1) b), r))"

lemma get_put_nat [simp]: "get_nat (put_nat n @ r) = Some (n, r)"
proof -
  have "dropWhile (\<lambda>x. x = 1) (replicate n (1 :: u8) @ 0 # r) = 0 # r"
    and "takeWhile (\<lambda>x. x = 1) (replicate n (1 :: u8) @ 0 # r) = replicate n 1"
    by (induction n) simp_all
  then show ?thesis by (simp add: get_nat_def put_nat_def)
qed

definition put_bytes :: "bytes \<Rightarrow> bytes" where
  "put_bytes b = put_nat (length b) @ b"

definition get_bytes :: "bytes \<Rightarrow> (bytes \<times> bytes) option" where
  "get_bytes b = map_option (\<lambda>(n, r). (take n r, drop n r)) (get_nat b)"

lemma get_put_bytes [simp]: "get_bytes (put_bytes b @ r) = Some (b, r)"
  by (simp add: get_bytes_def put_bytes_def)

text \<open>\<open>String::from_utf8\<close> on bytes that came from a string.\<close>

definition of_bytes :: "bytes \<Rightarrow> string" where
  "of_bytes b = map (\<lambda>w. char_of (unat w)) b"

lemma char_of_byte [simp]: "char_of (unat (of_char c :: u8)) = c"
proof -
  have "unat (of_nat (of_char c) :: u8) = of_char c"
    by (simp add: unsigned_of_nat take_bit_nat_eq_self)
  then show ?thesis by (simp add: of_nat_of_char)
qed

lemma of_as_bytes [simp]: "of_bytes (as_bytes s) = s"
  by (simp add: of_bytes_def as_bytes_def o_def map_idI)

definition put_string :: "string \<Rightarrow> bytes" where
  "put_string s = put_bytes (as_bytes s)"

definition get_string :: "bytes \<Rightarrow> (string \<times> bytes) option" where
  "get_string b = map_option (\<lambda>(x, r). (of_bytes x, r)) (get_bytes b)"

lemma get_put_string [simp]: "get_string (put_string s @ r) = Some (s, r)"
  by (simp add: get_string_def put_string_def)

fun get_many :: "(bytes \<Rightarrow> ('a \<times> bytes) option) \<Rightarrow> nat \<Rightarrow> bytes \<Rightarrow> ('a list \<times> bytes) option" where
  "get_many g 0 b = Some ([], b)"
| "get_many g (Suc n) b =
     (case g b of None \<Rightarrow> None
      | Some (x, r) \<Rightarrow> map_option (\<lambda>(xs, r'). (x # xs, r')) (get_many g n r))"

definition put_list :: "('a \<Rightarrow> bytes) \<Rightarrow> 'a list \<Rightarrow> bytes" where
  "put_list p xs = put_nat (length xs) @ concat (map p xs)"

definition get_list :: "(bytes \<Rightarrow> ('a \<times> bytes) option) \<Rightarrow> bytes \<Rightarrow> ('a list \<times> bytes) option" where
  "get_list g b = Option.bind (get_nat b) (\<lambda>(n, r). get_many g n r)"

lemma get_put_list:
  assumes "\<And>x r. g (p x @ r) = Some (x, r)"
  shows "get_list g (put_list p xs @ r) = Some (xs, r)"
proof -
  have "get_many g (length xs) (concat (map p xs) @ r) = Some (xs, r)"
    by (induction xs) (simp_all add: assms)
  then show ?thesis by (simp add: get_list_def put_list_def)
qed

end
