(* ===== verification/Doc.thy ===== *)
theory Doc
  imports Keys Wire "HOL-Library.Char_ord" "HOL-Library.List_Lexorder"
begin

text \<open>
  DID documents (\<^verbatim>\<open>doc.rs\<close>): verification methods, the \<open>ma\<close> extension, signing and
  verification. DAG-CBOR, the clock formatting of \<open>time\<close> and the hash are functions of
  \<open>doc_lib\<close>; \<open>doc_laws\<close> is what the crate relies on. A \<open>BTreeMap\<close> is an association list
  kept in key order, and a reading of the clock is an argument.
\<close>

datatype ipld =
    INull
  | IBool bool
  | IInteger int
  | IFloat u64
  | IString string
  | IBytes bytes
  | IList "ipld list"
  | IMap "(string \<times> ipld) list"
  | ILink bytes

fun btree_insert :: "'k :: linorder \<Rightarrow> 'v \<Rightarrow> ('k \<times> 'v) list \<Rightarrow> ('k \<times> 'v) list" where
  "btree_insert k v [] = [(k, v)]"
| "btree_insert k v ((k', v') # m) =
     (if k < k' then (k, v) # (k', v') # m
      else if k = k' then (k, v) # m
      else (k', v') # btree_insert k v m)"

lemma map_of_btree_insert [simp]:
  "sorted (map fst m) \<Longrightarrow> distinct (map fst m) \<Longrightarrow> map_of (btree_insert k v m) = (map_of m)(k \<mapsto> v)"
proof (induction m)
  case (Cons p m)
  then show ?case by (cases p) (auto simp: fun_eq_iff)
qed simp

lemma fst_btree_insert [simp]: "fst ` set (btree_insert k v m) = insert k (fst ` set m)"
  by (induction k v m rule: btree_insert.induct) (simp_all add: insert_commute)

definition btree_ok :: "('k :: linorder \<times> 'v) list \<Rightarrow> bool" where
  "btree_ok m \<longleftrightarrow> sorted_wrt (<) (map fst m)"

lemma btree_ok_insert [simp]: "btree_ok m \<Longrightarrow> btree_ok (btree_insert k v m)"
proof (induction m)
  case (Cons p m)
  then show ?case
    using fst_btree_insert [of k v m]
    by (cases p) (auto simp: btree_ok_def dest: less_trans)
qed (simp add: btree_ok_def)

lemma btree_ok_Nil [simp]: "btree_ok []"
  by (simp add: btree_ok_def)

lemma btree_lookup_insert:
  "btree_ok m \<Longrightarrow> map_of (btree_insert k v m) = (map_of m)(k \<mapsto> v)"
  by (simp add: btree_ok_def strict_sorted_iff)

section \<open>Verification methods and proofs\<close>

definition DEFAULT_DID_CONTEXT :: "string list" where
  "DEFAULT_DID_CONTEXT = [''https://www.w3.org/ns/did/v1.1'']"
definition DEFAULT_PROOF_TYPE :: string where
  "DEFAULT_PROOF_TYPE = ''MultiformatSignature2023''"
definition DEFAULT_PROOF_PURPOSE :: string where
  "DEFAULT_PROOF_PURPOSE = ''assertionMethod''"

record verification_method =
  vm_id :: string
  vm_key_type :: string
  vm_controller :: string
  vm_public_key_multibase :: string

definition validate_bare_did :: "'x did_lib_scheme \<Rightarrow> string \<Rightarrow> unit ma_result" where
  "validate_bare_did L value =
     bindR (did_try_from L value) (\<lambda>d. ensure (fragment d = None) UnexpectedFragment)"

definition vm_validate :: "'x did_lib_scheme \<Rightarrow> verification_method \<Rightarrow> unit ma_result" where
  "vm_validate L m =
     bindR (validate_resource L (vm_id m)) (\<lambda>_.
     bindR (if vm_key_type m = [] then Inl VerificationMethodMissingType
            else if vm_key_type m = ''Multikey'' then Inr ()
            else Inl (InvalidVerificationMethodType (vm_key_type m))) (\<lambda>_.
     bindR (ensure (vm_controller m \<noteq> []) EmptyController) (\<lambda>_.
     bindR (validate_bare_did L (vm_controller m)) (\<lambda>_.
     bindR (ensure (vm_public_key_multibase m \<noteq> []) EmptyPublicKeyMultibase) (\<lambda>_.
     bindR (public_key_multibase_decode L (vm_public_key_multibase m)) (\<lambda>_. Inr ()))))))"

definition vm_new :: "'x did_lib_scheme \<Rightarrow> string \<Rightarrow> string \<Rightarrow> string \<Rightarrow> string \<Rightarrow> string \<Rightarrow>
    verification_method ma_result" where
  "vm_new L i controller key_type frag public_key_multibase =
     (let base = hd (split_char (CHR ''#'') i);
          m = \<lparr>vm_id = base @ ''#'' @ frag, vm_key_type = key_type, vm_controller = controller,
               vm_public_key_multibase = public_key_multibase\<rparr>
      in bindR (vm_validate L m) (\<lambda>_. Inr m))"

definition vm_fragment :: "'x did_lib_scheme \<Rightarrow> verification_method \<Rightarrow> string ma_result" where
  "vm_fragment L m = bindR (did_try_from L (vm_id m)) (\<lambda>d. ok_or (fragment d) MissingFragment)"

definition vm_of_encryption_key ::
    "'x did_lib_scheme \<Rightarrow> encryption_key \<Rightarrow> verification_method ma_result" where
  "vm_of_encryption_key L k =
     bindR (ok_or (fragment (ek_did k)) MissingFragment) (\<lambda>f.
       vm_new L (base_id (ek_did k)) (base_id (ek_did k)) (ek_key_type k) f (ek_public_key_multibase k))"

definition vm_of_signing_key ::
    "'x did_lib_scheme \<Rightarrow> signing_key \<Rightarrow> verification_method ma_result" where
  "vm_of_signing_key L k =
     bindR (ok_or (fragment (sk_did k)) MissingFragment) (\<lambda>f.
       vm_new L (base_id (sk_did k)) (base_id (sk_did k)) (sk_key_type k) f (sk_public_key_multibase k))"

record did_proof =
  proof_type :: string
  proof_verification_method :: string
  proof_purpose :: string
  proof_value :: string

definition proof_default :: did_proof where
  "proof_default = \<lparr>proof_type = [], proof_verification_method = [], proof_purpose = [],
     proof_value = []\<rparr>"

definition proof_new :: "string \<Rightarrow> string \<Rightarrow> did_proof" where
  "proof_new val vm = \<lparr>proof_type = DEFAULT_PROOF_TYPE, proof_verification_method = vm,
     proof_purpose = DEFAULT_PROOF_PURPOSE, proof_value = val\<rparr>"

definition proof_is_empty :: "did_proof \<Rightarrow> bool" where
  "proof_is_empty p \<longleftrightarrow> proof_value p = []"

section \<open>The \<open>ma\<close> extension\<close>

record ma_extension =
  ext_map :: "(string \<times> ipld) list"

definition ma_extension_new :: ma_extension where
  "ma_extension_new = \<lparr>ext_map = []\<rparr>"

definition ext_extra :: "string \<Rightarrow> ipld \<Rightarrow> ma_extension \<Rightarrow> ma_extension" where
  "ext_extra key val e = e\<lparr>ext_map := btree_insert key val (ext_map e)\<rparr>"

definition ext_kind :: "string \<Rightarrow> ma_extension \<Rightarrow> ma_extension" where
  "ext_kind kind e = e\<lparr>ext_map := btree_insert ''type'' (IString kind) (ext_map e)\<rparr>"

text \<open>A \<open>services\<close> entry that is not a list is left alone.\<close>

definition ext_add_service :: "string \<Rightarrow> ma_extension \<Rightarrow> ma_extension" where
  "ext_add_service service e =
     (case map_of (ext_map e) ''services'' of
        None \<Rightarrow> e\<lparr>ext_map := btree_insert ''services'' (IList [IString service]) (ext_map e)\<rparr>
      | Some (IList l) \<Rightarrow>
          e\<lparr>ext_map := btree_insert ''services'' (IList (l @ [IString service])) (ext_map e)\<rparr>
      | Some _ \<Rightarrow> e)"

definition ext_services :: "string list \<Rightarrow> ma_extension \<Rightarrow> ma_extension" where
  "ext_services services e =
     e\<lparr>ext_map := btree_insert ''services'' (IList (map IString services)) (ext_map e)\<rparr>"

definition ext_build :: "ma_extension \<Rightarrow> ipld" where
  "ext_build e = (if ext_map e = [] then INull else IMap (ext_map e))"

section \<open>The document\<close>

record document =
  doc_context :: "string list"
  doc_id :: string
  doc_controller :: "string list"
  doc_verification_method :: "verification_method list"
  doc_assertion_method :: "string list"
  doc_key_agreement :: "string list"
  doc_proof :: did_proof
  doc_created_at :: string
  doc_updated_at :: string
  doc_ma :: "ipld option"

record doc_lib = crypto_lib +
  dagcbor_of_document :: "document \<Rightarrow> string + bytes"
  document_of_dagcbor :: "bytes \<Rightarrow> string + document"
  rfc3339_format :: "int \<Rightarrow> string option"
  rfc3339_parses :: "string \<Rightarrow> bool"

text \<open>
  The current time: a clock before the epoch reads as 0, and a second count that is no
  \<open>i64\<close> or that does not format gives the epoch.
\<close>

definition now_iso_utc :: "'x doc_lib_scheme \<Rightarrow> clock \<Rightarrow> string" where
  "now_iso_utc L now =
     (let unix_seconds = uint (case now of Some t \<Rightarrow> t | None \<Rightarrow> 0)
      in case (if unix_seconds < 2 ^ 63 then rfc3339_format L unix_seconds else None) of
           Some s \<Rightarrow> s
         | None \<Rightarrow> ''1970-01-01T00:00:00Z'')"

definition is_valid_rfc3339_utc :: "'x doc_lib_scheme \<Rightarrow> string \<Rightarrow> bool" where
  "is_valid_rfc3339_utc L val \<longleftrightarrow> length val = 20 \<and> ends_with val ''Z'' \<and> rfc3339_parses L val"

definition document_new :: "'x doc_lib_scheme \<Rightarrow> clock \<Rightarrow> did \<Rightarrow> did \<Rightarrow> document" where
  "document_new L now identity controller =
     (let t = now_iso_utc L now
      in \<lparr>doc_context = DEFAULT_DID_CONTEXT, doc_id = base_id identity,
          doc_controller = [base_id controller], doc_verification_method = [],
          doc_assertion_method = [], doc_key_agreement = [], doc_proof = proof_default,
          doc_created_at = t, doc_updated_at = t, doc_ma = None\<rparr>)"

definition set_ma :: "ipld \<Rightarrow> document \<Rightarrow> document" where
  "set_ma ma d =
     (case ma of
        INull \<Rightarrow> d\<lparr>doc_ma := None\<rparr>
      | IMap m \<Rightarrow> if m = [] then d\<lparr>doc_ma := None\<rparr> else d\<lparr>doc_ma := Some ma\<rparr>
      | _ \<Rightarrow> d\<lparr>doc_ma := Some ma\<rparr>)"

definition set_ma_extension :: "ma_extension \<Rightarrow> document \<Rightarrow> document" where
  "set_ma_extension e d = set_ma (ext_build e) d"

definition clear_ma :: "document \<Rightarrow> document" where
  "clear_ma d = d\<lparr>doc_ma := None\<rparr>"

definition document_encode :: "'x doc_lib_scheme \<Rightarrow> document \<Rightarrow> bytes ma_result" where
  "document_encode L d = map_err CborEncode (dagcbor_of_document L d)"

definition document_decode :: "'x doc_lib_scheme \<Rightarrow> bytes \<Rightarrow> document ma_result" where
  "document_decode L b = map_err CborDecode (document_of_dagcbor L b)"

definition add_controller :: "'x did_lib_scheme \<Rightarrow> string \<Rightarrow> document \<Rightarrow> document ma_result" where
  "add_controller L controller d =
     bindR (validate L controller) (\<lambda>_.
       Inr (if controller \<in> set (doc_controller d) then d
            else d\<lparr>doc_controller := doc_controller d @ [controller]\<rparr>))"

definition add_verification_method ::
    "'x did_lib_scheme \<Rightarrow> verification_method \<Rightarrow> document \<Rightarrow> document ma_result" where
  "add_verification_method L method d =
     bindR (vm_validate L method) (\<lambda>_.
       Inr (if list_ex (\<lambda>existing. vm_id existing = vm_id method
                 \<or> vm_public_key_multibase existing = vm_public_key_multibase method)
               (doc_verification_method d)
            then d
            else d\<lparr>doc_verification_method := doc_verification_method d @ [method]\<rparr>))"

definition get_verification_method_by_id :: "document \<Rightarrow> string \<Rightarrow> verification_method ma_result" where
  "get_verification_method_by_id d method_id =
     ok_or (find (\<lambda>m. vm_id m = method_id) (doc_verification_method d))
       (UnknownVerificationMethod method_id)"

definition touch :: "'x doc_lib_scheme \<Rightarrow> clock \<Rightarrow> document \<Rightarrow> document" where
  "touch L now d = d\<lparr>doc_updated_at := now_iso_utc L now\<rparr>"

text \<open>\<open>slice.try_into()\<close> for a 32-byte array.\<close>

definition array32 :: "bytes \<Rightarrow> bytes ma_result" where
  "array32 b = (if length b = 32 then Inr b else Inl (InvalidKeyLength 32 (length b)))"

definition verifying_key_for_method :: "'x crypto_lib_scheme \<Rightarrow> document \<Rightarrow> string \<Rightarrow> bytes ma_result" where
  "verifying_key_for_method L d method_id =
     bindR (get_verification_method_by_id d method_id) (\<lambda>vm.
     bindR (public_key_multibase_decode L (vm_public_key_multibase vm)) (\<lambda>(codec, key).
     bindR (ensure (codec = CODEC_ED25519_PUB) (InvalidMulticodec CODEC_ED25519_PUB codec)) (\<lambda>_.
     bindR (array32 key) (\<lambda>k. ok_or (ed25519_key_from_bytes L k) Crypto))))"

definition first_of :: "string list \<Rightarrow> string option" where
  "first_of l = (case l of [] \<Rightarrow> None | x # _ \<Rightarrow> Some x)"

definition assertion_method_public_key :: "'x crypto_lib_scheme \<Rightarrow> document \<Rightarrow> bytes ma_result" where
  "assertion_method_public_key L d =
     bindR (ok_or (first_of (doc_assertion_method d)) (UnknownVerificationMethod ''assertionMethod''))
       (verifying_key_for_method L d)"

definition key_agreement_public_key_bytes :: "'x did_lib_scheme \<Rightarrow> document \<Rightarrow> bytes ma_result" where
  "key_agreement_public_key_bytes L d =
     bindR (ok_or (first_of (doc_key_agreement d)) (UnknownVerificationMethod ''keyAgreement''))
       (\<lambda>agreement_id.
     bindR (get_verification_method_by_id d agreement_id) (\<lambda>vm.
     bindR (public_key_multibase_decode L (vm_public_key_multibase vm)) (\<lambda>(codec, key).
     bindR (ensure (codec = CODEC_X25519_PUB) (InvalidMulticodec CODEC_X25519_PUB codec)) (\<lambda>_.
     array32 key))))"

section \<open>Signing, verifying, validating\<close>

definition payload_document :: "document \<Rightarrow> document" where
  "payload_document d = d\<lparr>doc_proof := proof_default\<rparr>"

definition payload_bytes :: "'x doc_lib_scheme \<Rightarrow> document \<Rightarrow> bytes ma_result" where
  "payload_bytes L d = document_encode L (payload_document d)"

definition payload_hash :: "'x doc_lib_scheme \<Rightarrow> document \<Rightarrow> bytes ma_result" where
  "payload_hash L d = bindR (payload_bytes L d) (\<lambda>b. Inr (blake3_hash L b))"

definition document_sign :: "'x doc_lib_scheme \<Rightarrow> signing_key \<Rightarrow> verification_method \<Rightarrow> document \<Rightarrow>
    document ma_result" where
  "document_sign L k vm d =
     (if sk_public_key_multibase k \<noteq> vm_public_key_multibase vm then Inl InvalidPublicKeyMultibase
      else bindR (payload_hash L d) (\<lambda>h.
        let signature = signing_sign L k h;
            val = signature_multibase_encode L CODEC_EDDSA_SIG signature
        in Inr (d\<lparr>doc_proof := proof_new val (vm_id vm)\<rparr>)))"

definition document_verify :: "'x doc_lib_scheme \<Rightarrow> document \<Rightarrow> unit ma_result" where
  "document_verify L d =
     (let p = doc_proof d in
      bindR (ensure (\<not> proof_is_empty p) MissingProof) (\<lambda>_.
      bindR (ensure (proof_type p = DEFAULT_PROOF_TYPE) (InvalidProofType (proof_type p))) (\<lambda>_.
      bindR (ensure (proof_purpose p = DEFAULT_PROOF_PURPOSE) (InvalidProofPurpose (proof_purpose p))) (\<lambda>_.
      bindR (signature_multibase_decode L (proof_value p)) (\<lambda>(codec, sig_bytes).
      bindR (ensure (codec = CODEC_EDDSA_SIG) InvalidDocumentSignature) (\<lambda>_.
      bindR (ok_or (ed25519_signature_from_slice L sig_bytes) InvalidDocumentSignature) (\<lambda>signature.
      bindR (ensure (proof_verification_method p \<in> set (doc_assertion_method d))
          (UnknownVerificationMethod (proof_verification_method p))) (\<lambda>_.
      bindR (verifying_key_for_method L d (proof_verification_method p)) (\<lambda>public_key.
      bindR (payload_hash L d) (\<lambda>h.
      ensure (ed25519_verify L public_key h signature) InvalidDocumentSignature))))))))))"

definition validate_relationships ::
    "'x did_lib_scheme \<Rightarrow> document \<Rightarrow> string list \<Rightarrow> u64 \<Rightarrow> unit ma_result" where
  "validate_relationships L d relationships expected_codec =
     forR (\<lambda>method_id.
        bindR (validate_resource L method_id) (\<lambda>_.
        bindR (get_verification_method_by_id d method_id) (\<lambda>method.
        bindR (public_key_multibase_decode L (vm_public_key_multibase method)) (\<lambda>(codec, _).
        ensure (codec = expected_codec) (InvalidMulticodec expected_codec codec)))))
       relationships"

definition document_validate :: "'x doc_lib_scheme \<Rightarrow> document \<Rightarrow> unit ma_result" where
  "document_validate L d =
     bindR (if doc_context d \<noteq> DEFAULT_DID_CONTEXT
            then Inl (if doc_context d = [] then EmptyContext else InvalidContext) else Inr ()) (\<lambda>_.
     bindR (validate_bare_did L (doc_id d)) (\<lambda>_.
     bindR (ensure (doc_controller d \<noteq> []) EmptyController) (\<lambda>_.
     bindR (forR (validate_bare_did L) (doc_controller d)) (\<lambda>_.
     bindR (ensure (is_valid_rfc3339_utc L (doc_created_at d)) (InvalidCreatedAt (doc_created_at d))) (\<lambda>_.
     bindR (ensure (is_valid_rfc3339_utc L (doc_updated_at d)) (InvalidUpdatedAt (doc_updated_at d))) (\<lambda>_.
     bindR (forR (vm_validate L) (doc_verification_method d)) (\<lambda>_.
     bindR (ensure (doc_assertion_method d \<noteq> []) (UnknownVerificationMethod ''assertionMethod'')) (\<lambda>_.
     bindR (ensure (doc_key_agreement d \<noteq> []) (UnknownVerificationMethod ''keyAgreement'')) (\<lambda>_.
     bindR (validate_relationships L d (doc_assertion_method d) CODEC_ED25519_PUB) (\<lambda>_.
     validate_relationships L d (doc_key_agreement d) CODEC_X25519_PUB))))))))))"

section \<open>What the packages promise\<close>

text \<open>
  A formatted time is RFC 3339 in UTC with whole seconds, and so is the epoch. Decoding
  undoes encoding for the documents that encode.
\<close>

definition time_laws :: "'x doc_lib_scheme \<Rightarrow> bool" where
  "time_laws L \<longleftrightarrow> rfc3339_parses L ''1970-01-01T00:00:00Z''
     \<and> (\<forall>t s. rfc3339_format L t = Some s \<longrightarrow> is_valid_rfc3339_utc L s)"

definition document_codec_laws :: "'x doc_lib_scheme \<Rightarrow> bool" where
  "document_codec_laws L \<longleftrightarrow>
     (\<forall>d b. dagcbor_of_document L d = Inr b \<longrightarrow> document_of_dagcbor L b = Inr d)
   \<and> (\<forall>d. doc_ma d = None \<longrightarrow> is_ok (dagcbor_of_document L d))"

lemma now_iso_utc_valid: "time_laws L \<Longrightarrow> is_valid_rfc3339_utc L (now_iso_utc L now)"
  by (auto simp: time_laws_def now_iso_utc_def Let_def is_valid_rfc3339_utc_def ends_with_def
      suffix_def split: option.splits)

lemma document_codec_roundtrip:
  "document_codec_laws L \<Longrightarrow> document_encode L d = Inr b \<Longrightarrow> document_decode L b = Inr d"
  by (auto simp: document_codec_laws_def document_encode_def document_decode_def result_simps)

lemma document_encode_total:
  "document_codec_laws L \<Longrightarrow> doc_ma d = None \<Longrightarrow> \<exists>b. document_encode L d = Inr b"
  by (auto simp: document_codec_laws_def document_encode_def is_ok_iff result_simps)

section \<open>Lemmas\<close>

lemma vm_new_ok:
  assumes "vm_new L i c t f k = Inr m"
  shows "vm_validate L m = Inr ()" and "m = \<lparr>vm_id = hd (split_char (CHR ''#'') i) @ ''#'' @ f,
      vm_key_type = t, vm_controller = c, vm_public_key_multibase = k\<rparr>"
  using assms by (auto simp: vm_new_def Let_def result_simps)

lemma get_verification_method_Inr:
  "get_verification_method_by_id d i = Inr m \<Longrightarrow> m \<in> set (doc_verification_method d) \<and> vm_id m = i"
  by (auto simp: get_verification_method_by_id_def result_simps find_Some_iff)

lemma payload_document_proof [simp]:
  "payload_document (d\<lparr>doc_proof := p\<rparr>) = payload_document d"
  by (simp add: payload_document_def)

lemma payload_hash_proof [simp]: "payload_hash L (d\<lparr>doc_proof := p\<rparr>) = payload_hash L d"
  by (simp add: payload_hash_def payload_bytes_def)

lemma get_vm_proof [simp]:
  "get_verification_method_by_id (d\<lparr>doc_proof := p\<rparr>) = get_verification_method_by_id d"
  by (rule ext) (simp add: get_verification_method_by_id_def)

lemma verifying_key_proof [simp]:
  "verifying_key_for_method L (d\<lparr>doc_proof := p\<rparr>) = verifying_key_for_method L d"
  by (rule ext) (simp add: verifying_key_for_method_def)

lemma array32_ok [simp]: "length k = 32 \<Longrightarrow> array32 k = Inr k"
  by (simp add: array32_def)

lemma array32_Inr: "array32 b = Inr k \<longleftrightarrow> length b = 32 \<and> k = b"
  by (auto simp: array32_def)

lemma verifying_key_of_secret:
  assumes "crypto_laws L" and "get_verification_method_by_id d i = Inr vm"
    and "vm_public_key_multibase vm =
      public_key_multibase_encode L CODEC_ED25519_PUB (ed25519_public L s)"
  shows "verifying_key_for_method L d i = Inr (ed25519_public L s)"
  using assms crypto_lawsD(2,3) [OF assms(1)]
  by (simp add: verifying_key_for_method_def signing_key_decodes)

section \<open>Properties\<close>

lemma sign_then_verify:
  assumes laws: "crypto_laws L"
    and key: "sk_public_key_multibase k =
      public_key_multibase_encode L CODEC_ED25519_PUB (ed25519_public L (sk_secret_key k))"
    and listed: "get_verification_method_by_id d (vm_id vm) = Inr vm"
      "vm_id vm \<in> set (doc_assertion_method d)"
    and signed: "document_sign L k vm d = Inr d'"
  shows "document_verify L d' = Inr () \<and> payload_document d' = payload_document d"
proof -
  obtain h where h: "payload_hash L d = Inr h"
    and same: "sk_public_key_multibase k = vm_public_key_multibase vm"
    and d': "d' = d\<lparr>doc_proof := proof_new (signature_multibase_encode L CODEC_EDDSA_SIG
      (signing_sign L k h)) (vm_id vm)\<rparr>"
    using signed by (auto simp: document_sign_def Let_def result_simps split: if_splits)
  have "verifying_key_for_method L d (vm_id vm) = Inr (ed25519_public L (sk_secret_key k))"
    using verifying_key_of_secret [OF laws listed(1)] same key by simp
  moreover have "signature_multibase_decode L (signature_multibase_encode L CODEC_EDDSA_SIG
      (signing_sign L k h)) = Inr (CODEC_EDDSA_SIG, signing_sign L k h)"
    using signature_roundtrip [OF crypto_lawsD(1) [OF laws] public_keys_nonempty(3) [OF laws]]
    by (simp add: signing_sign_def)
  moreover have "signature_multibase_encode L c s \<noteq> []" for c s
    by (simp add: signature_multibase_encode_def multibase_encode_nonempty crypto_lawsD(1) [OF laws])
  ultimately show ?thesis
    using listed(2) h crypto_lawsD(5,6) [OF laws]
    by (simp add: d' document_verify_def proof_new_def proof_is_empty_def signing_sign_def)
qed

text \<open>A document signed with a key made from a secret verifies, provided the method it is
  signed with is one of its assertion methods; signing changes nothing but the proof.\<close>

theorem document_sign_verifies:
  assumes "crypto_laws L"
    and "sk_public_key_multibase k =
      public_key_multibase_encode L CODEC_ED25519_PUB (ed25519_public L (sk_secret_key k))"
    and "get_verification_method_by_id d (vm_id vm) = Inr vm"
    and "vm_id vm \<in> set (doc_assertion_method d)"
    and "document_sign L k vm d = Inr d'"
  shows "document_verify L d' = Inr () \<and> payload_document d' = payload_document d"
  using assms by (rule sign_then_verify)

text \<open>C18: A document that verifies is signed by one of its own assertion methods. Its proof has the
  one type and the one purpose that are allowed; the verification method that the proof names
  is a method of the document and listed for assertions; and the proof's value is a signature
  under that method's 32-byte Ed25519 key over the hash of the encoding of the whole document
  with an empty proof.\<close>

theorem document_verify_sound:
  assumes "document_verify L d = Inr ()"
  shows "proof_type (doc_proof d) = DEFAULT_PROOF_TYPE
    \<and> proof_purpose (doc_proof d) = DEFAULT_PROOF_PURPOSE
    \<and> (\<exists>vm key pk bytes sig signature. vm \<in> set (doc_verification_method d)
        \<and> vm_id vm = proof_verification_method (doc_proof d)
        \<and> vm_id vm \<in> set (doc_assertion_method d)
        \<and> public_key_multibase_decode L (vm_public_key_multibase vm) = Inr (CODEC_ED25519_PUB, key)
        \<and> length key = 32 \<and> ed25519_key_from_bytes L key = Some pk
        \<and> signature_multibase_decode L (proof_value (doc_proof d)) = Inr (CODEC_EDDSA_SIG, sig)
        \<and> ed25519_signature_from_slice L sig = Some signature
        \<and> dagcbor_of_document L (d\<lparr>doc_proof := proof_default\<rparr>) = Inr bytes
        \<and> ed25519_verify L pk (blake3_hash L bytes) signature)"
proof -
  let ?p = "doc_proof d"
  obtain pk h sig signature where i: "proof_verification_method ?p \<in> set (doc_assertion_method d)"
    and ty: "proof_type ?p = DEFAULT_PROOF_TYPE" "proof_purpose ?p = DEFAULT_PROOF_PURPOSE"
    and sig: "signature_multibase_decode L (proof_value ?p) = Inr (CODEC_EDDSA_SIG, sig)"
      "ed25519_signature_from_slice L sig = Some signature"
    and pk: "verifying_key_for_method L d (proof_verification_method ?p) = Inr pk"
    and h: "payload_hash L d = Inr h" and s: "ed25519_verify L pk h signature"
    using assms by (auto simp: document_verify_def Let_def result_simps split: prod.splits)
  obtain bytes where b: "dagcbor_of_document L (d\<lparr>doc_proof := proof_default\<rparr>) = Inr bytes"
    "h = blake3_hash L bytes"
    using h by (auto simp: payload_hash_def payload_bytes_def document_encode_def payload_document_def
        result_simps)
  obtain vm key where vm: "get_verification_method_by_id d (proof_verification_method ?p) = Inr vm"
    and key: "public_key_multibase_decode L (vm_public_key_multibase vm) = Inr (CODEC_ED25519_PUB, key)"
      "length key = 32" "ed25519_key_from_bytes L key = Some pk"
    using pk by (auto simp: verifying_key_for_method_def result_simps array32_Inr split: prod.splits)
  show ?thesis
    using get_verification_method_Inr [OF vm] ty i key sig b s by metis
qed

text \<open>
  The verification methods of a document are valid, and no two share an id or a key.
\<close>

definition methods_ok :: "'x did_lib_scheme \<Rightarrow> document \<Rightarrow> bool" where
  "methods_ok L d \<longleftrightarrow> distinct (map vm_id (doc_verification_method d))
     \<and> distinct (map vm_public_key_multibase (doc_verification_method d))
     \<and> list_all (\<lambda>m. vm_validate L m = Inr ()) (doc_verification_method d)"

lemma methods_ok_new: "methods_ok L (document_new L' now i c)"
  by (simp add: methods_ok_def document_new_def Let_def)

text \<open>Adding verification methods, in any order and any number of times, keeps the methods
  of a document valid and free of duplicate ids and duplicate keys, and never changes or
  removes one that is there.\<close>

theorem add_verification_method_inv:
  assumes "methods_ok L d" and "add_verification_method L m d = Inr d'"
  shows "methods_ok L d' \<and> prefix (doc_verification_method d) (doc_verification_method d')
    \<and> (\<exists>m'\<in>set (doc_verification_method d').
        vm_id m' = vm_id m \<or> vm_public_key_multibase m' = vm_public_key_multibase m)"
proof (cases "list_ex (\<lambda>e. vm_id e = vm_id m \<or> vm_public_key_multibase e = vm_public_key_multibase m)
    (doc_verification_method d)")
  case True
  then show ?thesis using assms
    by (auto simp: add_verification_method_def result_simps list_ex_iff)
next
  case False
  then have "d' = d\<lparr>doc_verification_method := doc_verification_method d @ [m]\<rparr>"
    and "vm_validate L m = Inr ()"
    using assms(2) by (auto simp: add_verification_method_def result_simps)
  then show ?thesis using assms(1) False
    by (auto simp: methods_ok_def list_ex_iff)
qed

text \<open>
  A validated document: every listed method resolves, with the codec its role requires.
\<close>

lemma validate_relationships_Inr:
  "validate_relationships L d rs c = Inr () \<longleftrightarrow>
     (\<forall>i\<in>set rs. validate_resource L i = Inr () \<and>
        (\<exists>m key. get_verification_method_by_id d i = Inr m
           \<and> public_key_multibase_decode L (vm_public_key_multibase m) = Inr (c, key)))"
  by (force simp: validate_relationships_def result_simps split: prod.splits)

text \<open>In a validated document both the signing key and the key-agreement key resolve to a
  method of the right codec; the only way a lookup can still fail is a key that is not 32
  bytes long or not a point of the curve.\<close>

theorem validated_document_keys:
  assumes "document_validate L d = Inr ()"
  shows "((\<exists>k. key_agreement_public_key_bytes L d = Inr k \<and> length k = 32)
      \<or> (\<exists>n. n \<noteq> 32 \<and> key_agreement_public_key_bytes L d = Inl (InvalidKeyLength 32 n)))
    \<and> ((\<exists>k. assertion_method_public_key L d = Inr k)
      \<or> (\<exists>n. n \<noteq> 32 \<and> assertion_method_public_key L d = Inl (InvalidKeyLength 32 n))
      \<or> assertion_method_public_key L d = Inl Crypto)"
proof -
  have ne: "doc_assertion_method d \<noteq> []" "doc_key_agreement d \<noteq> []"
    and a: "validate_relationships L d (doc_assertion_method d) CODEC_ED25519_PUB = Inr ()"
    and k: "validate_relationships L d (doc_key_agreement d) CODEC_X25519_PUB = Inr ()"
    using assms by (auto simp: document_validate_def result_simps split: if_splits)
  obtain i ls where i: "doc_assertion_method d = i # ls" using ne(1) by (cases "doc_assertion_method d") auto
  obtain j js where j: "doc_key_agreement d = j # js" using ne(2) by (cases "doc_key_agreement d") auto
  have "(\<exists>k. key_agreement_public_key_bytes L d = Inr k \<and> length k = 32)
      \<or> (\<exists>n. n \<noteq> 32 \<and> key_agreement_public_key_bytes L d = Inl (InvalidKeyLength 32 n))"
  proof -
    obtain key where "key_agreement_public_key_bytes L d = array32 key"
      using k by (auto simp: j validate_relationships_Inr key_agreement_public_key_bytes_def first_of_def)
    then show ?thesis by (cases "length key = 32") (auto simp: array32_def)
  qed
  moreover have "(\<exists>k. assertion_method_public_key L d = Inr k)
      \<or> (\<exists>n. n \<noteq> 32 \<and> assertion_method_public_key L d = Inl (InvalidKeyLength 32 n))
      \<or> assertion_method_public_key L d = Inl Crypto"
  proof -
    obtain key where "assertion_method_public_key L d =
        bindR (array32 key) (\<lambda>k. ok_or (ed25519_key_from_bytes L k) Crypto)"
      using a by (auto simp: i validate_relationships_Inr assertion_method_public_key_def first_of_def
          verifying_key_for_method_def)
    then show ?thesis
      by (cases "length key = 32"; cases "ed25519_key_from_bytes L key") (auto simp: array32_def)
  qed
  ultimately show ?thesis by blast
qed

text \<open>Services appended one by one are the list set at once, and an empty builder clears.\<close>

lemma fold_add_service:
  assumes "btree_ok (ext_map e)" and "map_of (ext_map e) ''services'' = Some (IList l)"
  shows "map_of (ext_map (fold ext_add_service ss e)) ''services'' = Some (IList (l @ map IString ss))
    \<and> btree_ok (ext_map (fold ext_add_service ss e))"
  using assms
  by (induction ss arbitrary: e l) (simp_all add: ext_add_service_def btree_lookup_insert)

lemma set_ma_extension_new: "doc_ma (set_ma_extension ma_extension_new d) = None"
  by (simp add: set_ma_extension_def ext_build_def ma_extension_new_def set_ma_def)

section \<open>Concrete packages and witnesses\<close>

definition put_vm :: "verification_method \<Rightarrow> bytes" where
  "put_vm m = put_string (vm_id m) @ put_string (vm_key_type m) @ put_string (vm_controller m)
     @ put_string (vm_public_key_multibase m)"

definition get_vm :: "bytes \<Rightarrow> (verification_method \<times> bytes) option" where
  "get_vm b =
     Option.bind (get_string b) (\<lambda>(i, b). Option.bind (get_string b) (\<lambda>(t, b).
     Option.bind (get_string b) (\<lambda>(c, b). map_option (\<lambda>(k, b).
       (\<lparr>vm_id = i, vm_key_type = t, vm_controller = c, vm_public_key_multibase = k\<rparr>, b))
       (get_string b))))"

lemma get_put_vm: "get_vm (put_vm m @ r) = Some (m, r)"
  by (simp add: get_vm_def put_vm_def)

definition put_document :: "document \<Rightarrow> bytes" where
  "put_document d =
     put_list put_string (doc_context d) @ put_string (doc_id d)
     @ put_list put_string (doc_controller d) @ put_list put_vm (doc_verification_method d)
     @ put_list put_string (doc_assertion_method d) @ put_list put_string (doc_key_agreement d)
     @ put_string (proof_type (doc_proof d)) @ put_string (proof_verification_method (doc_proof d))
     @ put_string (proof_purpose (doc_proof d)) @ put_string (proof_value (doc_proof d))
     @ put_string (doc_created_at d) @ put_string (doc_updated_at d)"

definition get_document :: "bytes \<Rightarrow> document option" where
  "get_document b =
     Option.bind (get_list get_string b) (\<lambda>(cx, b). Option.bind (get_string b) (\<lambda>(i, b).
     Option.bind (get_list get_string b) (\<lambda>(co, b). Option.bind (get_list get_vm b) (\<lambda>(vm, b).
     Option.bind (get_list get_string b) (\<lambda>(am, b). Option.bind (get_list get_string b) (\<lambda>(ka, b).
     Option.bind (get_string b) (\<lambda>(pt, b). Option.bind (get_string b) (\<lambda>(pm, b).
     Option.bind (get_string b) (\<lambda>(pp, b). Option.bind (get_string b) (\<lambda>(pv, b).
     Option.bind (get_string b) (\<lambda>(ca, b). Option.bind (get_string b) (\<lambda>(ua, b).
       Some \<lparr>doc_context = cx, doc_id = i, doc_controller = co, doc_verification_method = vm,
         doc_assertion_method = am, doc_key_agreement = ka,
         doc_proof = \<lparr>proof_type = pt, proof_verification_method = pm, proof_purpose = pp,
           proof_value = pv\<rparr>,
         doc_created_at = ca, doc_updated_at = ua, doc_ma = None\<rparr>))))))))))))"

lemma get_put_document: "doc_ma d = None \<Longrightarrow> get_document (put_document d @ r) = Some d"
  by (simp add: get_document_def put_document_def get_put_list get_put_vm)

definition demo_doc_lib :: doc_lib where
  "demo_doc_lib = crypto_lib.extend demo_crypto_lib
     (doc_lib.fields
        (\<lambda>d. if doc_ma d = None then Inr (put_document d) else Inl ''unsupported'')
        (\<lambda>b. case get_document b of None \<Rightarrow> Inl ''malformed'' | Some d \<Rightarrow> Inr d)
        (\<lambda>t. Some ''2026-08-08T12:34:56Z'')
        (\<lambda>s. True))"

lemma demo_doc_crypto [simp]: "crypto_laws demo_doc_lib"
  using demo_crypto_laws
  by (simp add: crypto_laws_def multiformat_laws_def demo_doc_lib_def crypto_lib.defs doc_lib.defs)

lemma demo_time_laws [simp]: "time_laws demo_doc_lib"
  by (simp add: time_laws_def demo_doc_lib_def doc_lib.defs crypto_lib.defs is_valid_rfc3339_utc_def
      ends_with_def suffix_def)

lemma demo_document_codec [simp]: "document_codec_laws demo_doc_lib"
  using get_put_document [where r = "[]"]
  by (simp add: document_codec_laws_def demo_doc_lib_def doc_lib.defs crypto_lib.defs)

lemma demo_doc_identifier [simp]: "validate_identifier demo_doc_lib ''6d61'' = Inr ()"
proof -
  have "validate_identifier demo_doc_lib ''6d61'' = validate_identifier demo_did_lib ''6d61''"
    by (rule validate_identifier_cong) (simp_all add: demo_doc_lib_def demo_crypto_lib_def
        crypto_lib.defs doc_lib.defs did_lib.defs demo_did_lib_def)
  then show ?thesis by simp
qed

definition demo_secret :: bytes where "demo_secret = replicate 32 7"

definition demo_signing_key :: signing_key where
  "demo_signing_key = \<lparr>sk_did = \<lparr>ipns = ''6d61'', fragment = Some ''sign''\<rparr>,
     sk_key_type = ''Multikey'', sk_secret_key = demo_secret,
     sk_public_key_multibase =
       public_key_multibase_encode demo_doc_lib CODEC_ED25519_PUB (ed25519_public demo_doc_lib demo_secret)\<rparr>"

definition demo_method :: verification_method where
  "demo_method = \<lparr>vm_id = ''did:ma:6d61#sign'', vm_key_type = ''Multikey'',
     vm_controller = ''did:ma:6d61'',
     vm_public_key_multibase = sk_public_key_multibase demo_signing_key\<rparr>"

definition demo_document :: document where
  "demo_document = (document_new demo_doc_lib (Some 0) \<lparr>ipns = ''6d61'', fragment = None\<rparr>
       \<lparr>ipns = ''6d61'', fragment = None\<rparr>)
     \<lparr>doc_verification_method := [demo_method], doc_assertion_method := [vm_id demo_method],
      doc_key_agreement := [vm_id demo_method]\<rparr>"

lemma demo_parse [simp]: "parse demo_doc_lib ''did:ma:6d61'' = Inr (''6d61'', None)"
  using base_id_parse [of demo_doc_lib "\<lparr>ipns = ''6d61'', fragment = None\<rparr>"]
  by (simp add: base_id_def DID_PREFIX_def crypto_lawsD(1))

lemma demo_parse_resource [simp]:
  "parse demo_doc_lib ''did:ma:6d61#sign'' = Inr (''6d61'', Some ''sign'')"
  using resource_id_parse [of demo_doc_lib "\<lparr>ipns = ''6d61'', fragment = None\<rparr>" "''sign''"]
  by (simp add: base_id_def DID_PREFIX_def crypto_lawsD(1) validate_fragment_ok fragment_char_def
      ascii_defs)

lemma demo_method_valid [simp]: "vm_validate demo_doc_lib demo_method = Inr ()"
  by (simp add: vm_validate_def demo_method_def validate_resource_def validate_bare_did_def
      did_try_from_def demo_signing_key_def signing_key_decodes public_key_multibase_encode_def
      multibase_encode_nonempty crypto_lawsD(1) public_key_multibase_decode_def
      multibase_roundtrip multicodec_roundtrip public_keys_nonempty)

lemma demo_document_signs:
  "\<exists>d'. document_sign demo_doc_lib demo_signing_key demo_method demo_document = Inr d'"
proof -
  have "\<exists>b. document_encode demo_doc_lib (payload_document demo_document) = Inr b"
    by (rule document_encode_total) (simp_all add: payload_document_def demo_document_def
        document_new_def Let_def)
  then show ?thesis
    by (auto simp: document_sign_def payload_hash_def payload_bytes_def demo_method_def Let_def)
qed

lemma demo_document_listed:
  "get_verification_method_by_id demo_document (vm_id demo_method) = Inr demo_method"
  "vm_id demo_method \<in> set (doc_assertion_method demo_document)"
  by (simp_all add: get_verification_method_by_id_def demo_document_def)

lemma demo_signing_key_text:
  "sk_public_key_multibase demo_signing_key = public_key_multibase_encode demo_doc_lib
     CODEC_ED25519_PUB (ed25519_public demo_doc_lib (sk_secret_key demo_signing_key))"
  by (simp add: demo_signing_key_def)

theorem document_sign_verifies_witness:
  "\<exists>d'. document_sign demo_doc_lib demo_signing_key demo_method demo_document = Inr d'
     \<and> document_verify demo_doc_lib d' = Inr () \<and> payload_document d' = payload_document demo_document"
  using demo_document_signs
    document_sign_verifies [OF demo_doc_crypto demo_signing_key_text demo_document_listed]
  by blast

text \<open>A verifying document, found without the signing theorem: the signature is computed.\<close>

definition demo_payload :: bytes where
  "demo_payload = put_document (payload_document demo_document)"

definition demo_signed :: document where
  "demo_signed = demo_document\<lparr>doc_proof := proof_new (signature_multibase_encode demo_doc_lib
     CODEC_EDDSA_SIG (signing_sign demo_doc_lib demo_signing_key (blake3_hash demo_doc_lib demo_payload)))
     (vm_id demo_method)\<rparr>"

lemma demo_signed_verifies: "document_verify demo_doc_lib demo_signed = Inr ()"
proof -
  have "payload_hash demo_doc_lib demo_document = Inr (blake3_hash demo_doc_lib demo_payload)"
    by (simp add: payload_hash_def payload_bytes_def document_encode_def demo_payload_def)
      (simp add: demo_doc_lib_def doc_lib.defs crypto_lib.defs payload_document_def demo_document_def
        document_new_def Let_def)
  moreover have "signature_multibase_encode demo_doc_lib c s \<noteq> []" for c s
    by (simp add: signature_multibase_encode_def multibase_encode_nonempty crypto_lawsD(1))
  moreover have "verifying_key_for_method demo_doc_lib demo_document (vm_id demo_method) =
      Inr (ed25519_public demo_doc_lib demo_secret)"
    by (rule verifying_key_of_secret [OF demo_doc_crypto demo_document_listed(1)])
      (simp add: demo_method_def demo_signing_key_def)
  ultimately show ?thesis
    using demo_document_listed(2) crypto_lawsD(5,6) [OF demo_doc_crypto]
    by (simp add: demo_signed_def document_verify_def proof_new_def proof_is_empty_def signing_sign_def
        signature_roundtrip crypto_lawsD(1) public_keys_nonempty demo_signing_key_def)
qed

theorem document_verify_sound_witness:
  "document_verify demo_doc_lib demo_signed = Inr ()
    \<and> (\<exists>vm. vm \<in> set (doc_verification_method demo_signed)
        \<and> vm_id vm = proof_verification_method (doc_proof demo_signed)
        \<and> vm_id vm \<in> set (doc_assertion_method demo_signed))"
  using demo_signed_verifies document_verify_sound [OF demo_signed_verifies] by blast

theorem add_verification_method_inv_witness:
  "\<exists>d'. add_verification_method demo_doc_lib demo_method demo_document = Inr d'
    \<and> methods_ok demo_doc_lib d'
    \<and> prefix (doc_verification_method demo_document) (doc_verification_method d')
    \<and> (\<exists>m'\<in>set (doc_verification_method d'). vm_id m' = vm_id demo_method
        \<or> vm_public_key_multibase m' = vm_public_key_multibase demo_method)"
proof -
  have "methods_ok demo_doc_lib demo_document"
    by (simp add: methods_ok_def demo_document_def)
  moreover obtain d' where "add_verification_method demo_doc_lib demo_method demo_document = Inr d'"
    by (simp add: add_verification_method_def)
  ultimately show ?thesis using add_verification_method_inv by blast
qed

end
