(* ===== verification/Files.thy ===== *)
theory Files
  imports Strings
begin

text \<open>
  The part of \<open>std::fs\<close> the crate uses, as functions on an abstract file system \<open>'w\<close>: the
  state of the disk is passed along, an I/O error is its \<open>Display\<close> text. Mode bits are the
  Unix permission bits.
\<close>

record 'w fs_lib =
  fs_exists :: "string \<Rightarrow> 'w \<Rightarrow> bool"
  fs_read :: "string \<Rightarrow> 'w \<Rightarrow> string + bytes"
  fs_create_dir_all :: "string \<Rightarrow> 'w \<Rightarrow> (string + unit) \<times> 'w"
  fs_write :: "string \<Rightarrow> bytes \<Rightarrow> 'w \<Rightarrow> (string + unit) \<times> 'w"
  fs_set_mode :: "string \<Rightarrow> nat \<Rightarrow> 'w \<Rightarrow> (string + unit) \<times> 'w"
  fs_mode :: "string \<Rightarrow> 'w \<Rightarrow> nat option"
  fs_parent :: "string \<Rightarrow> string option"

text \<open>
  What the crate relies on: a successful write can be read back, also after the mode was
  changed, and creating directories and changing modes leave every file's contents alone.
\<close>

definition fs_laws :: "('w, 'x) fs_lib_scheme \<Rightarrow> bool" where
  "fs_laws F \<longleftrightarrow>
     (\<forall>p b w w'. fs_write F p b w = (Inr (), w') \<longrightarrow> fs_exists F p w' \<and> fs_read F p w' = Inr b)
   \<and> (\<forall>p b q w. q \<noteq> p \<longrightarrow> fs_read F q (snd (fs_write F p b w)) = fs_read F q w
        \<and> fs_exists F q (snd (fs_write F p b w)) = fs_exists F q w)
   \<and> (\<forall>p q m w. fs_exists F q (snd (fs_set_mode F p m w)) = fs_exists F q w
        \<and> fs_read F q (snd (fs_set_mode F p m w)) = fs_read F q w)"

text \<open>A file system that is a map from paths to contents and modes, for the witnesses.\<close>

type_synonym demo_disk = "string \<Rightarrow> (bytes \<times> nat) option"

definition demo_fs :: "demo_disk fs_lib" where
  "demo_fs =
     \<lparr>fs_exists = (\<lambda>p w. w p \<noteq> None),
      fs_read = (\<lambda>p w. case w p of None \<Rightarrow> Inl ''No such file or directory'' | Some (b, _) \<Rightarrow> Inr b),
      fs_create_dir_all = (\<lambda>p w. (Inr (), w)),
      fs_write = (\<lambda>p b w. (Inr (), w(p \<mapsto> (b, case w p of None \<Rightarrow> 420 | Some (_, m) \<Rightarrow> m)))),
      fs_set_mode = (\<lambda>p m w. case w p of None \<Rightarrow> (Inl ''No such file or directory'', w)
        | Some (b, _) \<Rightarrow> (Inr (), w(p \<mapsto> (b, m)))),
      fs_mode = (\<lambda>p w. map_option snd (w p)),
      fs_parent = (\<lambda>p. if CHR ''/'' \<in> set p
        then Some (rev (drop 1 (dropWhile (\<lambda>c. c \<noteq> CHR ''/'') (rev p)))) else None)\<rparr>"

lemma demo_fs_laws [simp]: "fs_laws demo_fs"
  by (auto simp: fs_laws_def demo_fs_def split: option.splits)

end
