(* ===== verification/Identity.thy ===== *)
theory Identity
  imports Doc Files
begin

text \<open>
  Identities (\<^verbatim>\<open>identity.rs\<close>): a signed document from two keys, the identifier derived from a
  secret, and the secret key file. Random bytes and nanoids are arguments; the key pair, peer
  id and CID constructors of the packages are functions of \<open>identity_lib\<close>.
\<close>

record generated_identity =
  gi_subject_url :: did
  gi_document :: document
  gi_signing_private_key_hex :: string
  gi_encryption_private_key_hex :: string

record identity_lib = doc_lib +
  ed25519_keypair_public :: "bytes \<Rightarrow> bytes option"
  peer_id_from_public_key :: "bytes \<Rightarrow> bytes"
  peer_id_multihash :: "bytes \<Rightarrow> bytes"
  cid_new_v1 :: "u64 \<Rightarrow> bytes \<Rightarrow> cid"

section \<open>Building an identity\<close>

definition build_identity_from_keys :: "'x doc_lib_scheme \<Rightarrow> clock \<Rightarrow> string \<Rightarrow> signing_key \<Rightarrow>
    encryption_key \<Rightarrow> generated_identity result" where
  "build_identity_from_keys L now i sk ek =
     bindR (map_err Validation (new_identity L i)) (\<lambda>subject_url.
     let document = document_new L now subject_url subject_url in
     bindR (map_err Validation (vm_new L (base_id subject_url) (base_id subject_url)
         (sk_key_type sk) ''sign'' (sk_public_key_multibase sk))) (\<lambda>assertion_vm.
     bindR (map_err Validation (vm_new L (base_id subject_url) (base_id subject_url)
         (ek_key_type ek) ''enc'' (ek_public_key_multibase ek))) (\<lambda>key_agreement_vm.
     bindR (map_err Validation (add_verification_method L assertion_vm document)) (\<lambda>document.
     bindR (map_err Validation (add_verification_method L key_agreement_vm document)) (\<lambda>document.
     let document = document\<lparr>doc_assertion_method := [vm_id assertion_vm],
           doc_key_agreement := [vm_id key_agreement_vm]\<rparr> in
     bindR (map_err Validation (document_sign L sk assertion_vm document)) (\<lambda>document.
     Inr \<lparr>gi_subject_url = subject_url, gi_document = document,
       gi_signing_private_key_hex = hex_text L (signing_private_key_bytes sk),
       gi_encryption_private_key_hex = hex_text L (encryption_private_key_bytes ek)\<rparr>))))))"

text \<open>What the generators of one call draw: two nanoids and two secrets.\<close>

record identity_draw =
  sign_nanoid :: string
  enc_nanoid :: string
  sign_seed :: bytes
  enc_seed :: bytes

definition build_identity :: "'x doc_lib_scheme \<Rightarrow> clock \<Rightarrow> identity_draw \<Rightarrow> string \<Rightarrow>
    generated_identity result" where
  "build_identity L now r i =
     bindR (map_err Validation (new_url L i None (sign_nanoid r))) (\<lambda>sign_url.
     bindR (map_err Validation (new_url L i None (enc_nanoid r))) (\<lambda>enc_url.
     bindR (map_err Validation (signing_generate L (sign_seed r) sign_url)) (\<lambda>sk.
     bindR (map_err Validation (encryption_generate L (enc_seed r) enc_url)) (\<lambda>ek.
     build_identity_from_keys L now i sk ek))))"

definition generate_identity :: "'x doc_lib_scheme \<Rightarrow> clock \<Rightarrow> identity_draw \<Rightarrow> string \<Rightarrow>
    generated_identity result" where
  "generate_identity L now r i = build_identity L now r i"

definition ipns_from_secret :: "'x identity_lib_scheme \<Rightarrow> bytes \<Rightarrow> string result" where
  "ipns_from_secret L secret =
     bindR (ok_or (ed25519_keypair_public L secret) (Validation InvalidIdentitySecret)) (\<lambda>public.
       let peer_id = peer_id_from_public_key L public;
           cid = cid_new_v1 L 0x72 (peer_id_multihash L peer_id)
       in Inr (multibase_base36lower L (cid_bytes cid)))"

definition generate_identity_from_secret :: "'x identity_lib_scheme \<Rightarrow> clock \<Rightarrow> identity_draw \<Rightarrow>
    bytes \<Rightarrow> generated_identity result" where
  "generate_identity_from_secret L now r secret =
     bindR (ipns_from_secret L secret) (build_identity L now r)"

section \<open>The secret key file\<close>

definition load_secret_key_bytes :: "('w, 'x) fs_lib_scheme \<Rightarrow> string \<Rightarrow> 'w \<Rightarrow> bytes option result" where
  "load_secret_key_bytes F path w =
     (if \<not> fs_exists F path w then Inr None
      else bindR (map_err SecretKey (fs_read F path w)) (\<lambda>b.
        if length b = 32 then Inr (Some b)
        else Inl (SecretKey (''invalid key file length in '' @ path))))"

text \<open>\<open>key_bytes\<close> is what the generator draws; the mode change is best effort.\<close>

definition generate_secret_key_file :: "('w, 'x) fs_lib_scheme \<Rightarrow> bytes \<Rightarrow> string \<Rightarrow> 'w \<Rightarrow>
    bytes result \<times> 'w" where
  "generate_secret_key_file F key_bytes path w =
     (if fs_exists F path w then (Inl (SecretKey (''secret key already exists at '' @ path)), w)
      else case (case fs_parent F path of
                   None \<Rightarrow> (Inr (), w)
                 | Some parent \<Rightarrow>
                     (let (r, w1) = fs_create_dir_all F parent w
                      in (map_err (\<lambda>e. SecretKey (''failed to create dir '' @ parent @ '': '' @ e)) r, w1))) of
             (Inl e, w1) \<Rightarrow> (Inl e, w1)
           | (Inr _, w1) \<Rightarrow>
               (case fs_write F path key_bytes w1 of
                  (Inl e, w2) \<Rightarrow> (Inl (SecretKey (''failed to write '' @ path @ '': '' @ e)), w2)
                | (Inr _, w2) \<Rightarrow> (Inr key_bytes, snd (fs_set_mode F path 0x100 w2))))"

text \<open>\<open>socket_addr_to_multiaddr\<close>: the address is given by its printed form.\<close>

datatype ip_addr = V4 string | V6 string

definition socket_addr_to_multiaddr :: "ip_addr \<Rightarrow> nat \<Rightarrow> string" where
  "socket_addr_to_multiaddr ip port =
     (case ip of
        V4 a \<Rightarrow> ''/ip4/'' @ a @ ''/udp/'' @ show_nat port @ ''/quic-v1''
      | V6 a \<Rightarrow> ''/ip6/'' @ a @ ''/udp/'' @ show_nat port @ ''/quic-v1'')"

section \<open>Lemmas\<close>

text \<open>A CID made of an Ed25519 public key's peer id parses back to that key.\<close>

definition identity_laws :: "'x identity_lib_scheme \<Rightarrow> bool" where
  "identity_laws L \<longleftrightarrow>
     (\<forall>s pk. ed25519_keypair_public L s = Some pk \<longrightarrow>
        (let p = peer_id_from_public_key L pk; c = cid_new_v1 L 0x72 (peer_id_multihash L p)
         in cid_version c = V1 \<and> cid_codec c = 0x72 \<and> cid_hash c = peer_id_multihash L p
            \<and> multibase_base36lower L (cid_bytes c) \<noteq> []
            \<and> cid_try_from L (multibase_base36lower L (cid_bytes c)) = Some c
            \<and> peer_id_from_multihash L (peer_id_multihash L p) = Some p
            \<and> public_key_try_decode_protobuf L (peer_id_digest L p) = Some pk
            \<and> try_into_ed25519 L pk \<noteq> None))"

lemma ipns_from_secret_valid:
  assumes "identity_laws L" and "ipns_from_secret L s = Inr i"
  shows "validate_identifier L i = Inr ()"
proof -
  obtain pk where pk: "ed25519_keypair_public L s = Some pk"
    and i: "i = multibase_base36lower L (cid_bytes (cid_new_v1 L 0x72
      (peer_id_multihash L (peer_id_from_public_key L pk))))"
    using assms(2) by (auto simp: ipns_from_secret_def Let_def result_simps)
  show ?thesis
    using assms(1) pk
    by (auto simp: identity_laws_def Let_def i validate_identifier_def LIBP2P_KEY_CODEC_def)
qed

lemma fixed_fragments [simp]: "validate_fragment ''sign'' = Inr ()" "validate_fragment ''enc'' = Inr ()"
  by (simp_all add: validate_fragment_ok fragment_char_def ascii_defs)

lemma base_id_head:
  assumes "multiformat_laws L" and "validate_identifier L (ipns d) = Inr ()"
  shows "hd (split_char (CHR ''#'') (base_id d)) = base_id d"
proof -
  have "CHR ''#'' \<notin> set (base_id d)"
    using identifier_no_hash [OF assms] by (simp add: base_id_def DID_PREFIX_def)
  then show ?thesis by (simp add: split_char_none)
qed

text \<open>A method for a valid identity, with a fixed fragment and a well-formed key text.\<close>

lemma vm_new_identity:
  assumes laws: "multiformat_laws L" and i: "validate_identifier L (ipns d) = Inr ()"
    and f: "validate_fragment f = Inr ()"
    and key: "k = public_key_multibase_encode L c b" "b \<noteq> []"
  shows "vm_new L (base_id d) (base_id d) ''Multikey'' f k =
    Inr \<lparr>vm_id = base_id d @ ''#'' @ f, vm_key_type = ''Multikey'', vm_controller = base_id d,
      vm_public_key_multibase = k\<rparr>"
proof -
  have "base_id d \<noteq> []" by (simp add: base_id_def DID_PREFIX_def)
  moreover have "k \<noteq> []"
    by (simp add: key public_key_multibase_encode_def multibase_encode_nonempty laws)
  moreover have "public_key_multibase_decode L k = Inr (c, b)"
    by (simp add: key public_key_roundtrip [OF laws])
  ultimately show ?thesis
    by (simp add: vm_new_def Let_def base_id_head [OF laws i] vm_validate_def validate_resource_def
        validate_bare_did_def did_try_from_def resource_id_parse [OF laws i f]
        base_id_parse [OF laws i])
qed

section \<open>Properties\<close>

text \<open>The two methods of an identity.\<close>

definition identity_method :: "did \<Rightarrow> string \<Rightarrow> string \<Rightarrow> verification_method" where
  "identity_method d f k = \<lparr>vm_id = base_id d @ ''#'' @ f, vm_key_type = ''Multikey'',
     vm_controller = base_id d, vm_public_key_multibase = k\<rparr>"

definition unsigned_identity :: "'x doc_lib_scheme \<Rightarrow> clock \<Rightarrow> did \<Rightarrow> string \<Rightarrow> string \<Rightarrow> document" where
  "unsigned_identity L now d k e =
     (document_new L now d d)
       \<lparr>doc_verification_method := [identity_method d ''sign'' k, identity_method d ''enc'' e],
        doc_assertion_method := [base_id d @ ''#sign''],
        doc_key_agreement := [base_id d @ ''#enc'']\<rparr>"

lemma build_identity_from_keys_eq:
  assumes laws: "crypto_laws L" and i: "validate_identifier L i = Inr ()"
    and sk: "signing_from_private_key_bytes L u s = Inr sk"
    and ek: "encryption_from_private_key_bytes L v t = Inr ek"
  defines "d \<equiv> \<lparr>ipns = i, fragment = None\<rparr>"
  shows "build_identity_from_keys L now i sk ek =
    bindR (map_err Validation (document_sign L sk (identity_method d ''sign'' (sk_public_key_multibase sk))
        (unsigned_identity L now d (sk_public_key_multibase sk) (ek_public_key_multibase ek))))
      (\<lambda>doc. Inr \<lparr>gi_subject_url = d, gi_document = doc,
        gi_signing_private_key_hex = hex_text L s, gi_encryption_private_key_hex = hex_text L t\<rparr>)"
proof -
  note ml = crypto_lawsD(1) [OF laws]
  have idd: "validate_identifier L (ipns d) = Inr ()" by (simp add: d_def i)
  have k: "sk_public_key_multibase sk = public_key_multibase_encode L CODEC_ED25519_PUB (ed25519_public L s)"
    "sk_key_type sk = ''Multikey''" "sk_secret_key sk = s"
    using sk by (auto simp: signing_from_private_key_bytes_def ASSERTION_METHOD_KEY_TYPE_def)
  have e: "ek_public_key_multibase ek = public_key_multibase_encode L CODEC_X25519_PUB (x25519_public L t)"
    "ek_key_type ek = ''Multikey''" "ek_private_key ek = t"
    using ek by (auto simp: encryption_from_private_key_bytes_def KEY_AGREEMENT_KEY_TYPE_def)
  have v1: "vm_new L (base_id d) (base_id d) (sk_key_type sk) ''sign'' (sk_public_key_multibase sk) =
      Inr (identity_method d ''sign'' (sk_public_key_multibase sk))"
    using vm_new_identity [OF ml idd fixed_fragments(1) k(1) public_keys_nonempty(1) [OF laws]]
    by (simp add: k(2) identity_method_def)
  have v2: "vm_new L (base_id d) (base_id d) (ek_key_type ek) ''enc'' (ek_public_key_multibase ek) =
      Inr (identity_method d ''enc'' (ek_public_key_multibase ek))"
    using vm_new_identity [OF ml idd fixed_fragments(2) e(1) public_keys_nonempty(2) [OF laws]]
    by (simp add: e(2) identity_method_def)
  have ne: "sk_public_key_multibase sk \<noteq> ek_public_key_multibase ek"
    using key_texts_differ [OF laws] k(1) e(1) by metis
  have n: "new_identity L i = Inr d" using i by (simp add: new_identity_def d_def)
  have a1: "add_verification_method L (identity_method d ''sign'' (sk_public_key_multibase sk))
      (document_new L now d d) = Inr ((document_new L now d d)
        \<lparr>doc_verification_method := [identity_method d ''sign'' (sk_public_key_multibase sk)]\<rparr>)"
    using vm_new_ok(1) [OF v1] by (simp add: add_verification_method_def document_new_def Let_def)
  have a2: "add_verification_method L (identity_method d ''enc'' (ek_public_key_multibase ek))
      ((document_new L now d d)
        \<lparr>doc_verification_method := [identity_method d ''sign'' (sk_public_key_multibase sk)]\<rparr>) =
      Inr ((document_new L now d d)
        \<lparr>doc_verification_method := [identity_method d ''sign'' (sk_public_key_multibase sk),
           identity_method d ''enc'' (ek_public_key_multibase ek)]\<rparr>)"
    using vm_new_ok(1) [OF v2] ne by (simp add: add_verification_method_def identity_method_def)
  show ?thesis
    by (simp add: build_identity_from_keys_def n v1 v2 a1 a2 unsigned_identity_def Let_def
        signing_private_key_bytes_def encryption_private_key_bytes_def k(3) e(3))
      (simp add: identity_method_def)
qed

lemma identity_method_valid:
  assumes "crypto_laws L" and "validate_identifier L (ipns d) = Inr ()"
    and "validate_fragment f = Inr ()" and "k = public_key_multibase_encode L c b" "b \<noteq> []"
  shows "vm_validate L (identity_method d f k) = Inr ()"
  using vm_new_ok(1) [OF vm_new_identity [OF crypto_lawsD(1) [OF assms(1)] assms(2-5)]]
  by (simp add: identity_method_def)

lemma unsigned_identity_validates:
  assumes laws: "crypto_laws L" "time_laws L" and i: "validate_identifier L (ipns d) = Inr ()"
    and k: "k = public_key_multibase_encode L CODEC_ED25519_PUB (ed25519_public L s)"
    and e: "e = public_key_multibase_encode L CODEC_X25519_PUB (x25519_public L t)"
  shows "document_validate L ((unsigned_identity L now d k e)\<lparr>doc_proof := p\<rparr>) = Inr ()"
proof -
  note ml = crypto_lawsD(1) [OF laws(1)]
  have bare: "validate_bare_did L (base_id d) = Inr ()"
    by (simp add: validate_bare_did_def did_try_from_def base_id_parse [OF ml i])
  have vms: "vm_validate L (identity_method d ''sign'' k) = Inr ()"
    "vm_validate L (identity_method d ''enc'' e) = Inr ()"
    using identity_method_valid [OF laws(1) i] k e public_keys_nonempty [OF laws(1)] by auto
  have res: "validate_resource L (base_id d @ CHR ''#'' # f) = Inr ()"
    if "validate_fragment f = Inr ()" for f
    by (simp add: validate_resource_def resource_id_parse [OF ml i that])
  have a: "validate_relationships L ((unsigned_identity L now d k e)\<lparr>doc_proof := p\<rparr>)
      [base_id d @ ''#sign''] CODEC_ED25519_PUB = Inr ()"
    using res [of "''sign''"]
    by (simp add: validate_relationships_Inr get_verification_method_by_id_def unsigned_identity_def
        identity_method_def k signing_key_decodes [OF laws(1)])
  have b: "validate_relationships L ((unsigned_identity L now d k e)\<lparr>doc_proof := p\<rparr>)
      [base_id d @ ''#enc''] CODEC_X25519_PUB = Inr ()"
    using res [of "''enc''"]
    by (simp add: validate_relationships_Inr get_verification_method_by_id_def unsigned_identity_def
        identity_method_def e encryption_key_decodes [OF laws(1)])
  show ?thesis
    using a b now_iso_utc_valid [OF laws(2), of now]
    by (simp add: document_validate_def unsigned_identity_def document_new_def Let_def bare vms)
qed

lemma unsigned_identity_keys:
  assumes laws: "crypto_laws L"
    and k: "k = public_key_multibase_encode L CODEC_ED25519_PUB (ed25519_public L s)"
    and e: "e = public_key_multibase_encode L CODEC_X25519_PUB (x25519_public L t)"
  shows "assertion_method_public_key L ((unsigned_identity L now d k e)\<lparr>doc_proof := p\<rparr>) =
      Inr (ed25519_public L s)"
    and "key_agreement_public_key_bytes L ((unsigned_identity L now d k e)\<lparr>doc_proof := p\<rparr>) =
      Inr (x25519_public L t)"
proof -
  have "verifying_key_for_method L (unsigned_identity L now d k e) (base_id d @ ''#sign'') =
      Inr (ed25519_public L s)"
    by (rule verifying_key_of_secret [OF laws, where vm = "identity_method d ''sign'' k"])
      (simp_all add: get_verification_method_by_id_def unsigned_identity_def identity_method_def k)
  then show "assertion_method_public_key L ((unsigned_identity L now d k e)\<lparr>doc_proof := p\<rparr>) =
      Inr (ed25519_public L s)"
    by (simp add: assertion_method_public_key_def) (simp add: unsigned_identity_def first_of_def)
  show "key_agreement_public_key_bytes L ((unsigned_identity L now d k e)\<lparr>doc_proof := p\<rparr>) =
      Inr (x25519_public L t)"
    by (simp add: key_agreement_public_key_bytes_def get_verification_method_by_id_def
        unsigned_identity_def first_of_def identity_method_def e encryption_key_decodes [OF laws]
        crypto_lawsD(7) [OF laws])
qed

lemma build_identity_succeeds:
  assumes laws: "crypto_laws L" "time_laws L" "document_codec_laws L"
    and i: "validate_identifier L i = Inr ()"
    and sk: "signing_from_private_key_bytes L u s = Inr sk"
    and ek: "encryption_from_private_key_bytes L v t = Inr ek"
  shows "\<exists>g. build_identity_from_keys L now i sk ek = Inr g
    \<and> gi_subject_url g = \<lparr>ipns = i, fragment = None\<rparr>
    \<and> doc_id (gi_document g) = DID_PREFIX @ i
    \<and> document_validate L (gi_document g) = Inr ()
    \<and> document_verify L (gi_document g) = Inr ()
    \<and> assertion_method_public_key L (gi_document g) = Inr (ed25519_public L s)
    \<and> key_agreement_public_key_bytes L (gi_document g) = Inr (x25519_public L t)"
proof -
  define d where "d = \<lparr>ipns = i, fragment = None\<rparr>"
  define k where "k = sk_public_key_multibase sk"
  define e where "e = ek_public_key_multibase ek"
  define D where "D = unsigned_identity L now d k e"
  define vm where "vm = identity_method d ''sign'' k"
  have k: "k = public_key_multibase_encode L CODEC_ED25519_PUB (ed25519_public L s)"
      "sk_secret_key sk = s"
    and e: "e = public_key_multibase_encode L CODEC_X25519_PUB (x25519_public L t)"
    using sk ek by (auto simp: k_def e_def signing_from_private_key_bytes_def
        encryption_from_private_key_bytes_def)
  have "doc_ma (payload_document D) = None"
    by (simp add: D_def unsigned_identity_def document_new_def Let_def payload_document_def)
  then obtain b where b: "document_encode L (payload_document D) = Inr b"
    using document_encode_total [OF laws(3)] by blast
  define p where "p = proof_new (signature_multibase_encode L CODEC_EDDSA_SIG
      (signing_sign L sk (blake3_hash L b))) (vm_id vm)"
  have sign: "document_sign L sk vm D = Inr (D\<lparr>doc_proof := p\<rparr>)"
    using b by (simp add: document_sign_def payload_hash_def payload_bytes_def Let_def p_def
        vm_def identity_method_def k_def)
  have listed: "get_verification_method_by_id D (vm_id vm) = Inr vm"
      "vm_id vm \<in> set (doc_assertion_method D)"
    by (simp_all add: D_def vm_def unsigned_identity_def get_verification_method_by_id_def
        identity_method_def)
  have "document_verify L (D\<lparr>doc_proof := p\<rparr>) = Inr ()"
    using sign_then_verify [OF laws(1) _ listed sign] k by (simp add: k_def)
  moreover have "document_validate L (D\<lparr>doc_proof := p\<rparr>) = Inr ()"
    unfolding D_def by (rule unsigned_identity_validates [OF laws(1,2) _ k(1) e]) (simp add: d_def i)
  moreover have "build_identity_from_keys L now i sk ek = Inr \<lparr>gi_subject_url = d,
      gi_document = D\<lparr>doc_proof := p\<rparr>, gi_signing_private_key_hex = hex_text L s,
      gi_encryption_private_key_hex = hex_text L t\<rparr>"
    using build_identity_from_keys_eq [OF laws(1) i sk ek, of now] sign
    by (simp add: d_def k_def e_def D_def vm_def)
  moreover have "doc_id (D\<lparr>doc_proof := p\<rparr>) = DID_PREFIX @ i"
    by (simp add: D_def unsigned_identity_def document_new_def Let_def base_id_def d_def)
  ultimately show ?thesis
    using unsigned_identity_keys [OF laws(1) k(1) e, where now = now and d = d and p = p] by (simp add: D_def d_def)
qed

text \<open>Building an identity from two secrets for a valid identifier succeeds, and its
  document validates, verifies under its own proof, and resolves to exactly the two public
  keys of the secrets.\<close>

theorem identity_from_keys_valid:
  assumes "crypto_laws L" and "time_laws L" and "document_codec_laws L"
    and "validate_identifier L i = Inr ()"
    and "signing_from_private_key_bytes L u s = Inr sk"
    and "encryption_from_private_key_bytes L v t = Inr ek"
  shows "\<exists>g. build_identity_from_keys L now i sk ek = Inr g
    \<and> gi_subject_url g = \<lparr>ipns = i, fragment = None\<rparr>
    \<and> doc_id (gi_document g) = DID_PREFIX @ i
    \<and> document_validate L (gi_document g) = Inr ()
    \<and> document_verify L (gi_document g) = Inr ()
    \<and> assertion_method_public_key L (gi_document g) = Inr (ed25519_public L s)
    \<and> key_agreement_public_key_bytes L (gi_document g) = Inr (x25519_public L t)"
  using assms by (rule build_identity_succeeds)

definition demo_encryption_key :: encryption_key where
  "demo_encryption_key = \<lparr>ek_did = \<lparr>ipns = ''6d61'', fragment = Some ''enc''\<rparr>,
     ek_key_type = ''Multikey'', ek_private_key = demo_secret,
     ek_public_key = x25519_public demo_doc_lib demo_secret,
     ek_public_key_multibase =
       public_key_multibase_encode demo_doc_lib CODEC_X25519_PUB (x25519_public demo_doc_lib demo_secret)\<rparr>"

lemma demo_keys_from_secret:
  "signing_from_private_key_bytes demo_doc_lib \<lparr>ipns = ''6d61'', fragment = Some ''sign''\<rparr> demo_secret =
     Inr demo_signing_key"
  "encryption_from_private_key_bytes demo_doc_lib \<lparr>ipns = ''6d61'', fragment = Some ''enc''\<rparr> demo_secret =
     Inr demo_encryption_key"
  by (simp_all add: signing_from_private_key_bytes_def encryption_from_private_key_bytes_def
      demo_signing_key_def demo_encryption_key_def ASSERTION_METHOD_KEY_TYPE_def
      KEY_AGREEMENT_KEY_TYPE_def)

theorem identity_from_keys_valid_witness:
  "\<exists>g. build_identity_from_keys demo_doc_lib (Some 0) ''6d61'' demo_signing_key demo_encryption_key = Inr g
    \<and> gi_subject_url g = \<lparr>ipns = ''6d61'', fragment = None\<rparr>
    \<and> doc_id (gi_document g) = DID_PREFIX @ ''6d61''
    \<and> document_validate demo_doc_lib (gi_document g) = Inr ()
    \<and> document_verify demo_doc_lib (gi_document g) = Inr ()
    \<and> assertion_method_public_key demo_doc_lib (gi_document g) =
        Inr (ed25519_public demo_doc_lib demo_secret)
    \<and> key_agreement_public_key_bytes demo_doc_lib (gi_document g) =
        Inr (x25519_public demo_doc_lib demo_secret)"
  by (rule identity_from_keys_valid [OF demo_doc_crypto demo_time_laws demo_document_codec
        demo_doc_identifier demo_keys_from_secret])

text \<open>The document above is the witness that a validated document has usable keys.\<close>

theorem validated_document_keys_witness:
  "\<exists>d. document_validate demo_doc_lib d = Inr ()
    \<and> ((\<exists>k. key_agreement_public_key_bytes demo_doc_lib d = Inr k \<and> length k = 32)
      \<or> (\<exists>n. n \<noteq> 32 \<and> key_agreement_public_key_bytes demo_doc_lib d = Inl (InvalidKeyLength 32 n)))
    \<and> ((\<exists>k. assertion_method_public_key demo_doc_lib d = Inr k)
      \<or> (\<exists>n. n \<noteq> 32 \<and> assertion_method_public_key demo_doc_lib d = Inl (InvalidKeyLength 32 n))
      \<or> assertion_method_public_key demo_doc_lib d = Inl Crypto)"
proof -
  obtain d where "document_validate demo_doc_lib d = Inr ()"
    using build_identity_succeeds [OF demo_doc_crypto demo_time_laws demo_document_codec
        demo_doc_identifier demo_keys_from_secret] by blast
  then show ?thesis using validated_document_keys by blast
qed

text \<open>A secret key file that was generated is loaded back as the same 32 bytes, a file that
  exists is never overwritten.\<close>

theorem secret_key_file_roundtrip:
  assumes "fs_laws F" and "length k = 32"
  shows "(\<forall>b w'. generate_secret_key_file F k path w = (Inr b, w') \<longrightarrow>
        \<not> fs_exists F path w \<and> b = k \<and> load_secret_key_bytes F path w' = Inr (Some k))
    \<and> (fs_exists F path w \<longrightarrow> snd (generate_secret_key_file F k path w) = w)"
  using assms
  by (auto simp: generate_secret_key_file_def load_secret_key_bytes_def fs_laws_def
      split: if_splits prod.splits sum.splits option.splits)

theorem secret_key_file_roundtrip_witness:
  "\<exists>w'. generate_secret_key_file demo_fs demo_secret ''/k'' Map.empty = (Inr demo_secret, w')
    \<and> load_secret_key_bytes demo_fs ''/k'' w' = Inr (Some demo_secret)"
proof -
  obtain w' where g: "generate_secret_key_file demo_fs demo_secret ''/k'' Map.empty = (Inr demo_secret, w')"
    by (simp add: generate_secret_key_file_def demo_fs_def)
  have "length demo_secret = 32" by (simp add: demo_secret_def)
  then show ?thesis using g secret_key_file_roundtrip [OF demo_fs_laws] by blast
qed

end
