(* ===== verification/Service.thy ===== *)
theory Service
  imports Strings
begin

text \<open>
  The well-known protocol identifiers, message types, content types and capability names
  of \<^verbatim>\<open>service.rs\<close>, \<^verbatim>\<open>constants.rs\<close> and \<^verbatim>\<open>acl/mod.rs\<close>.
\<close>

definition INBOX_PROTOCOL_ID :: string where "INBOX_PROTOCOL_ID = ''/ma/inbox/0.0.1''"
definition IPFS_PROTOCOL_ID :: string where "IPFS_PROTOCOL_ID = ''/ma/ipfs/0.0.1''"
definition CRUD_PROTOCOL_ID :: string where "CRUD_PROTOCOL_ID = ''/ma/crud/0.0.1''"

definition MESSAGE_TYPE_BROADCAST :: string where
  "MESSAGE_TYPE_BROADCAST = ''application/vnd.ma.broadcast''"
definition MESSAGE_TYPE_CHAT :: string where
  "MESSAGE_TYPE_CHAT = ''application/vnd.ma.chat''"
definition MESSAGE_TYPE_EMOTE :: string where
  "MESSAGE_TYPE_EMOTE = ''application/vnd.ma.emote''"
definition MESSAGE_TYPE_MESSAGE :: string where
  "MESSAGE_TYPE_MESSAGE = ''application/vnd.ma.message''"
definition MESSAGE_TYPE_IDENTITY_PUBLISH_REQUEST :: string where
  "MESSAGE_TYPE_IDENTITY_PUBLISH_REQUEST = ''application/vnd.ma.identity.publish.request''"
definition MESSAGE_TYPE_IPFS_REQUEST :: string where
  "MESSAGE_TYPE_IPFS_REQUEST = ''application/vnd.ma.ipfs.request''"
definition MESSAGE_TYPE_DOC :: string where
  "MESSAGE_TYPE_DOC = ''application/vnd.ma.doc''"
definition MESSAGE_TYPE_CRUD :: string where
  "MESSAGE_TYPE_CRUD = ''application/vnd.ma.crud.request''"
definition MESSAGE_TYPE_CRUD_REPLY :: string where
  "MESSAGE_TYPE_CRUD_REPLY = ''application/vnd.ma.crud.reply''"

definition CAP_INBOX :: string where "CAP_INBOX = ''inbox''"
definition CAP_IPFS :: string where "CAP_IPFS = ''ipfs''"
definition CAP_IDENTITY_PUBLISH :: string where "CAP_IDENTITY_PUBLISH = ''identity-publish''"
definition CAP_CRUD :: string where "CAP_CRUD = ''crud''"
definition CAP_READ :: string where "CAP_READ = ''read''"
definition CAP_CREATE :: string where "CAP_CREATE = ''create''"
definition CAP_UPDATE :: string where "CAP_UPDATE = ''update''"
definition CAP_DELETE :: string where "CAP_DELETE = ''delete''"
definition CAP_ACL :: string where "CAP_ACL = ''acl''"

definition CONTENT_TYPE_CBOR :: string where "CONTENT_TYPE_CBOR = ''application/cbor''"
definition CONTENT_TYPE_TERM :: string where "CONTENT_TYPE_TERM = ''application/vnd.ma.term''"
definition CONTENT_TYPE_TERM_CBOR :: string where
  "CONTENT_TYPE_TERM_CBOR = ''application/vnd.ma.term+cbor''"
definition CONTENT_TYPE_TERM_YAML :: string where
  "CONTENT_TYPE_TERM_YAML = ''application/vnd.ma.term+yaml''"

text \<open>\<open>rendezvous\<close> and the BLAKE3 key-derivation label of message contents.\<close>

definition NAME :: string where "NAME = ''ma''"
definition VERSION :: string where "VERSION = ''0.0.1''"
definition rendezvous :: string where "rendezvous = ''/'' @ NAME @ ''/'' @ VERSION"
definition BLAKE3_CONTENT_LABEL :: string where "BLAKE3_CONTENT_LABEL = rendezvous"
definition BLAKE3_HEADERS_LABEL :: string where "BLAKE3_HEADERS_LABEL = NAME"

lemmas message_type_defs = MESSAGE_TYPE_BROADCAST_def MESSAGE_TYPE_CHAT_def
  MESSAGE_TYPE_EMOTE_def MESSAGE_TYPE_MESSAGE_def MESSAGE_TYPE_IDENTITY_PUBLISH_REQUEST_def
  MESSAGE_TYPE_IPFS_REQUEST_def MESSAGE_TYPE_DOC_def MESSAGE_TYPE_CRUD_def
  MESSAGE_TYPE_CRUD_REPLY_def

lemmas protocol_defs = INBOX_PROTOCOL_ID_def IPFS_PROTOCOL_ID_def CRUD_PROTOCOL_ID_def

text \<open>The two keyed hashes of a message are domain separated.\<close>

lemma blake3_labels_differ: "BLAKE3_CONTENT_LABEL \<noteq> BLAKE3_HEADERS_LABEL"
  by (simp add: BLAKE3_CONTENT_LABEL_def BLAKE3_HEADERS_LABEL_def rendezvous_def NAME_def)

end
