(* ===== verification/Msg.thy ===== *)
theory Msg
  imports Identity Service
begin

text \<open>
  Messages and their headers (\<^verbatim>\<open>msg.rs\<close>): construction, signing, verification, and the
  freshness rule. Every reading of the clock is an argument, in the order the code takes
  them. CBOR, the keyed hash and the AEAD cipher are functions of \<open>msg_lib\<close>. The crate's
  \<open>now + 30\<close> is the unchecked addition of the release profile, which wraps.
\<close>

section \<open>Clock and freshness\<close>

definition DEFAULT_REPLAY_WINDOW_SECS :: u64 where "DEFAULT_REPLAY_WINDOW_SECS = 120"
definition DEFAULT_MAX_CLOCK_SKEW_SECS :: u64 where "DEFAULT_MAX_CLOCK_SKEW_SECS = 30"
definition DEFAULT_MESSAGE_TTL_SECS :: u64 where "DEFAULT_MESSAGE_TTL_SECS = 3600"

definition now_unix_secs :: "clock \<Rightarrow> u64 ma_result" where
  "now_unix_secs c = ok_or c InvalidMessageTimestamp"

definition validate_message_freshness :: "clock \<Rightarrow> u64 \<Rightarrow> u64 \<Rightarrow> unit ma_result" where
  "validate_message_freshness clk created_at exp =
     bindR (now_unix_secs clk) (\<lambda>now.
       if created_at > now + DEFAULT_MAX_CLOCK_SKEW_SECS then Inl MessageFromFuture
       else if exp = 0 then Inr ()
       else if now > exp + DEFAULT_MAX_CLOCK_SKEW_SECS then Inl MessageTooOld
       else Inr ())"

section \<open>Headers\<close>

definition MESSAGE_PREFIX :: string where "MESSAGE_PREFIX = ''/ma/''"

definition default_protocol :: string where
  "default_protocol = MESSAGE_PREFIX @ VERSION"

definition validate_message_id :: "string \<Rightarrow> unit ma_result" where
  "validate_message_id i =
     (if i = [] then Inl EmptyMessageId
      else if \<not> list_all fragment_char i then Inl InvalidMessageId
      else Inr ())"

definition validate_protocol :: "string \<Rightarrow> unit ma_result" where
  "validate_protocol kind = (if kind = default_protocol then Inr () else Inl InvalidMessageType)"

record headers =
  hd_id :: string
  hd_protocol :: string
  hd_type :: string
  hd_from :: string
  hd_to :: string
  hd_created_at :: u64
  hd_exp :: u64
  hd_content_type :: string
  hd_reply_to :: "string option"
  hd_content_hash :: bytes
  hd_signature :: bytes

definition headers_validate :: "'x did_lib_scheme \<Rightarrow> clock \<Rightarrow> headers \<Rightarrow> unit ma_result" where
  "headers_validate L clk h =
     bindR (validate_message_id (hd_id h)) (\<lambda>_.
     bindR (validate_protocol (hd_protocol h)) (\<lambda>_.
     bindR (case hd_reply_to h of Some r \<Rightarrow> validate_message_id r | None \<Rightarrow> Inr ()) (\<lambda>_.
     bindR (ensure (hd_content_type h \<noteq> []) MissingContentType) (\<lambda>_.
     bindR (validate L (hd_from h)) (\<lambda>_.
     let recipient_is_empty = trim (hd_to h) = [] in
     bindR (if hd_type h = MESSAGE_TYPE_BROADCAST
            then ensure recipient_is_empty BroadcastMustNotHaveRecipient
            else if recipient_is_empty then Inl MessageRequiresRecipient
            else map_err (\<lambda>_. InvalidRecipient) (validate_url L (hd_to h))) (\<lambda>_.
     validate_message_freshness clk (hd_created_at h) (hd_exp h)))))))"

section \<open>Messages\<close>

record message =
  msg_id :: string
  msg_protocol :: string
  msg_type :: string
  msg_from :: string
  msg_to :: string
  msg_created_at :: u64
  msg_exp :: u64
  msg_content_type :: string
  msg_reply_to :: "string option"
  msg_content :: bytes
  msg_signature :: bytes

record envelope =
  env_ephemeral_key :: bytes
  env_encrypted_content :: bytes
  env_encrypted_headers :: bytes

record msg_lib = identity_lib +
  blake3_derive_key :: "string \<Rightarrow> bytes \<Rightarrow> bytes"
  xchacha20_encrypt :: "bytes \<Rightarrow> bytes \<Rightarrow> bytes \<Rightarrow> bytes option"
  xchacha20_decrypt :: "bytes \<Rightarrow> bytes \<Rightarrow> bytes \<Rightarrow> bytes option"
  cbor_of_headers :: "headers \<Rightarrow> string + bytes"
  headers_of_cbor :: "bytes \<Rightarrow> string + headers"
  cbor_of_message :: "message \<Rightarrow> string + bytes"
  message_of_cbor :: "bytes \<Rightarrow> string + message"
  cbor_of_envelope :: "envelope \<Rightarrow> string + bytes"
  envelope_of_cbor :: "bytes \<Rightarrow> string + envelope"

definition CODEC_IDENTITY :: u64 where "CODEC_IDENTITY = 0"
definition CODEC_CBOR :: u64 where "CODEC_CBOR = 0x51"
definition CODEC_DAG_CBOR :: u64 where "CODEC_DAG_CBOR = 0x71"

definition encode_content :: "'x multiformat_lib_scheme \<Rightarrow> u64 \<Rightarrow> bytes \<Rightarrow> bytes" where
  "encode_content L codec payload = multicodec_encode L codec payload"

definition decode_content :: "'x multiformat_lib_scheme \<Rightarrow> bytes \<Rightarrow> (u64 \<times> bytes) ma_result" where
  "decode_content L content = multicodec_decode L content"

definition codec_for :: "string \<Rightarrow> u64" where
  "codec_for content_type =
     (if content_type = ''application/vnd.ipld.dag-cbor'' then CODEC_DAG_CBOR
      else if content_type = ''application/cbor'' \<or> content_type = ''application/vnd.ma.term''
      then CODEC_CBOR
      else CODEC_IDENTITY)"

definition content_hash :: "'x crypto_lib_scheme \<Rightarrow> bytes \<Rightarrow> bytes" where
  "content_hash L content = blake3_hash L content"

definition unsigned_headers :: "'x crypto_lib_scheme \<Rightarrow> message \<Rightarrow> headers" where
  "unsigned_headers L m =
     \<lparr>hd_id = msg_id m, hd_protocol = msg_protocol m, hd_type = msg_type m, hd_from = msg_from m,
      hd_to = msg_to m, hd_created_at = msg_created_at m, hd_exp = msg_exp m,
      hd_content_type = msg_content_type m, hd_reply_to = msg_reply_to m,
      hd_content_hash = content_hash L (msg_content m), hd_signature = []\<rparr>"

definition message_headers :: "'x crypto_lib_scheme \<Rightarrow> message \<Rightarrow> headers" where
  "message_headers L m = (unsigned_headers L m)\<lparr>hd_signature := msg_signature m\<rparr>"

definition headers_cbor :: "'x msg_lib_scheme \<Rightarrow> message \<Rightarrow> bytes ma_result" where
  "headers_cbor L m = map_err CborEncode (cbor_of_headers L (message_headers L m))"

definition unsigned_headers_cbor :: "'x msg_lib_scheme \<Rightarrow> message \<Rightarrow> bytes ma_result" where
  "unsigned_headers_cbor L m = map_err CborEncode (cbor_of_headers L (unsigned_headers L m))"

definition message_sign :: "'x msg_lib_scheme \<Rightarrow> signing_key \<Rightarrow> message \<Rightarrow> message ma_result" where
  "message_sign L k m =
     bindR (unsigned_headers_cbor L m) (\<lambda>b. Inr (m\<lparr>msg_signature := signing_sign L k b\<rparr>))"

definition validate_content :: "message \<Rightarrow> unit ma_result" where
  "validate_content m = ensure (msg_content m \<noteq> []) MissingContent"

text \<open>What the caller of a constructor gives: everything but the id, the times and the key.\<close>

record message_draft =
  dr_from :: string
  dr_to :: string
  dr_type :: string
  dr_content_type :: string
  dr_content :: bytes

text \<open>Clock readings: \<open>c1\<close> is \<open>created_at\<close>, \<open>c2\<close> is read by the validation.\<close>

definition new_with_options :: "'x msg_lib_scheme \<Rightarrow> clock \<Rightarrow> clock \<Rightarrow> string \<Rightarrow> message_draft \<Rightarrow>
    u64 \<Rightarrow> string option \<Rightarrow> signing_key \<Rightarrow> message ma_result" where
  "new_with_options L c1 c2 nanoid d exp reply_to k =
     (let encoded = encode_content L (codec_for (dr_content_type d)) (dr_content d) in
      bindR (now_unix_secs c1) (\<lambda>created_at.
      let m = \<lparr>msg_id = nanoid, msg_protocol = default_protocol, msg_type = dr_type d,
                msg_from = dr_from d, msg_to = dr_to d, msg_created_at = created_at,
                msg_exp = exp, msg_content_type = dr_content_type d, msg_reply_to = reply_to,
                msg_content = encoded, msg_signature = []\<rparr> in
      bindR (headers_validate L c2 (unsigned_headers L m)) (\<lambda>_.
      bindR (validate_content m) (\<lambda>_.
      message_sign L k m))))"

definition new_with_exp :: "'x msg_lib_scheme \<Rightarrow> clock \<Rightarrow> clock \<Rightarrow> string \<Rightarrow> message_draft \<Rightarrow>
    u64 \<Rightarrow> signing_key \<Rightarrow> message ma_result" where
  "new_with_exp L c1 c2 nanoid d exp k = new_with_options L c1 c2 nanoid d exp None k"

definition message_new :: "'x msg_lib_scheme \<Rightarrow> clock \<Rightarrow> clock \<Rightarrow> clock \<Rightarrow> string \<Rightarrow> message_draft \<Rightarrow>
    signing_key \<Rightarrow> message ma_result" where
  "message_new L c0 c1 c2 nanoid d k =
     bindR (now_unix_secs c0) (\<lambda>now.
       new_with_exp L c1 c2 nanoid d (now + DEFAULT_MESSAGE_TTL_SECS) k)"

definition message_new_reply :: "'x msg_lib_scheme \<Rightarrow> clock \<Rightarrow> clock \<Rightarrow> clock \<Rightarrow> string \<Rightarrow>
    message_draft \<Rightarrow> string \<Rightarrow> signing_key \<Rightarrow> message ma_result" where
  "message_new_reply L c0 c1 c2 nanoid d reply_to k =
     bindR (now_unix_secs c0) (\<lambda>now.
       new_with_options L c1 c2 nanoid d (now + DEFAULT_MESSAGE_TTL_SECS) (Some reply_to) k)"

definition message_encode :: "'x msg_lib_scheme \<Rightarrow> message \<Rightarrow> bytes ma_result" where
  "message_encode L m = map_err CborEncode (cbor_of_message L m)"

definition message_decode :: "'x msg_lib_scheme \<Rightarrow> bytes \<Rightarrow> message ma_result" where
  "message_decode L b = map_err CborDecode (message_of_cbor L b)"

definition message_payload :: "'x multiformat_lib_scheme \<Rightarrow> message \<Rightarrow> bytes" where
  "message_payload L m =
     (case decode_content L (msg_content m) of Inr (_, p) \<Rightarrow> p | Inl _ \<Rightarrow> msg_content m)"

definition verify_with_document :: "'x msg_lib_scheme \<Rightarrow> clock \<Rightarrow> message \<Rightarrow> document \<Rightarrow>
    unit ma_result" where
  "verify_with_document L clk m sender_document =
     bindR (ensure (msg_from m \<noteq> []) MissingSender) (\<lambda>_.
     bindR (ensure (msg_signature m \<noteq> []) MissingSignature) (\<lambda>_.
     bindR (did_try_from L (msg_from m)) (\<lambda>sender_did.
     bindR (ensure (doc_id sender_document = base_id sender_did) InvalidRecipient) (\<lambda>_.
     bindR (headers_validate L clk (message_headers L m)) (\<lambda>_.
     bindR (unsigned_headers_cbor L m) (\<lambda>b.
     bindR (ok_or (ed25519_signature_from_slice L (msg_signature m)) InvalidMessageSignature) (\<lambda>signature.
     bindR (assertion_method_public_key L sender_document) (\<lambda>pk.
     ensure (ed25519_verify L pk b signature) InvalidMessageSignature))))))))"

definition from_headers :: "'x did_lib_scheme \<Rightarrow> clock \<Rightarrow> headers \<Rightarrow> message ma_result" where
  "from_headers L clk h =
     bindR (headers_validate L clk h) (\<lambda>_. Inr
       \<lparr>msg_id = hd_id h, msg_protocol = hd_protocol h, msg_type = hd_type h, msg_from = hd_from h,
        msg_to = hd_to h, msg_created_at = hd_created_at h, msg_exp = hd_exp h,
        msg_content_type = hd_content_type h, msg_reply_to = hd_reply_to h, msg_content = [],
        msg_signature = hd_signature h\<rparr>)"

section \<open>What the packages promise\<close>

text \<open>
  Headers, messages and envelopes are strings, numbers and bytes: they always encode, and
  decoding undoes encoding. Decryption undoes encryption under the same key and nonce.
\<close>

definition msg_laws :: "'x msg_lib_scheme \<Rightarrow> bool" where
  "msg_laws L \<longleftrightarrow> crypto_laws L
   \<and> (\<forall>h. \<exists>b. cbor_of_headers L h = Inr b \<and> headers_of_cbor L b = Inr h)
   \<and> (\<forall>m. \<exists>b. cbor_of_message L m = Inr b \<and> message_of_cbor L b = Inr m)
   \<and> (\<forall>e. \<exists>b. cbor_of_envelope L e = Inr b \<and> envelope_of_cbor L b = Inr e)
   \<and> (\<forall>k n m c. xchacha20_encrypt L k n m = Some c \<longrightarrow> c \<noteq> [] \<and> xchacha20_decrypt L k n c = Some m)"

lemma msg_lawsD:
  assumes "msg_laws L"
  shows "crypto_laws L" and "multiformat_laws L"
    and "\<exists>b. cbor_of_headers L h = Inr b \<and> headers_of_cbor L b = Inr h"
    and "\<exists>b. cbor_of_message L m = Inr b \<and> message_of_cbor L b = Inr m"
    and "\<exists>b. cbor_of_envelope L e = Inr b \<and> envelope_of_cbor L b = Inr e"
    and "xchacha20_encrypt L k n p = Some c \<Longrightarrow> c \<noteq> [] \<and> xchacha20_decrypt L k n c = Some p"
  using assms crypto_lawsD(1) by (auto simp: msg_laws_def)

section \<open>Lemmas\<close>

lemma unat_plus_skew:
  "unat (x + DEFAULT_MAX_CLOCK_SKEW_SECS) = (unat x + 30) mod 2 ^ 64"
  by (simp add: DEFAULT_MAX_CLOCK_SKEW_SECS_def unat_word_ariths)


lemma headers_validate_ok:
  "headers_validate L clk h = Inr () \<longleftrightarrow>
     validate_message_id (hd_id h) = Inr () \<and> hd_protocol h = default_protocol
     \<and> (case hd_reply_to h of Some r \<Rightarrow> validate_message_id r = Inr () | None \<Rightarrow> True)
     \<and> hd_content_type h \<noteq> [] \<and> validate L (hd_from h) = Inr ()
     \<and> (if hd_type h = MESSAGE_TYPE_BROADCAST then trim (hd_to h) = []
        else trim (hd_to h) \<noteq> [] \<and> validate L (hd_to h) = Inr ())
     \<and> validate_message_freshness clk (hd_created_at h) (hd_exp h) = Inr ()"
  by (auto simp: headers_validate_def Let_def result_simps validate_protocol_def validate_url_def
      split: option.splits if_splits)

lemma headers_validate_signature [simp]:
  "headers_validate L clk (h\<lparr>hd_signature := s\<rparr>) = headers_validate L clk h"
  by (simp add: headers_validate_def Let_def)

lemma headers_validate_message [simp]:
  "headers_validate L clk (message_headers L' m) = headers_validate L clk (unsigned_headers L' m)"
  by (simp add: message_headers_def)

lemma unsigned_headers_signature [simp]:
  "unsigned_headers L (m\<lparr>msg_signature := s\<rparr>) = unsigned_headers L m"
  by (simp add: unsigned_headers_def)

lemma unsigned_headers_cbor_signature [simp]:
  "unsigned_headers_cbor L (m\<lparr>msg_signature := s\<rparr>) = unsigned_headers_cbor L m"
  by (simp add: unsigned_headers_cbor_def)

text \<open>Valid headers stay valid as long as the message stays fresh.\<close>

lemma headers_validate_later:
  assumes "headers_validate L c h = Inr ()"
    and "validate_message_freshness c' (hd_created_at h) (hd_exp h) = Inr ()"
  shows "headers_validate L c' h = Inr ()"
  using assms by (simp add: headers_validate_ok)

lemma from_headers_Inr:
  "from_headers L clk h = Inr m \<Longrightarrow> headers_validate L clk h = Inr () \<and>
     msg_content m = [] \<and> msg_signature m = hd_signature h"
  by (auto simp: from_headers_def result_simps)

lemma from_headers_message:
  assumes "headers_validate L clk (unsigned_headers L' m) = Inr ()"
  shows "from_headers L clk (message_headers L' m) = Inr (m\<lparr>msg_content := []\<rparr>)"
  using assms by (cases m) (simp add: from_headers_def, simp add: message_headers_def unsigned_headers_def)

lemma new_with_options_Inr:
  assumes "new_with_options L c1 c2 n d e r k = Inr m"
  shows "\<exists>t b. c1 = Some t \<and> msg_created_at m = t \<and> msg_exp m = e \<and> msg_from m = dr_from d
    \<and> msg_to m = dr_to d \<and> msg_type m = dr_type d \<and> msg_id m = n \<and> msg_reply_to m = r
    \<and> msg_content m = encode_content L (codec_for (dr_content_type d)) (dr_content d)
    \<and> unsigned_headers_cbor L m = Inr b \<and> msg_signature m = signing_sign L k b
    \<and> headers_validate L c2 (unsigned_headers L m) = Inr ()"
proof -
  obtain t where t: "c1 = Some t"
    using assms by (auto simp: new_with_options_def Let_def result_simps now_unix_secs_def)
  define m0 where "m0 = \<lparr>msg_id = n, msg_protocol = default_protocol, msg_type = dr_type d,
      msg_from = dr_from d, msg_to = dr_to d, msg_created_at = t, msg_exp = e,
      msg_content_type = dr_content_type d, msg_reply_to = r,
      msg_content = encode_content L (codec_for (dr_content_type d)) (dr_content d),
      msg_signature = []\<rparr>"
  have v: "headers_validate L c2 (unsigned_headers L m0) = Inr ()" and s: "message_sign L k m0 = Inr m"
    using assms t by (auto simp: new_with_options_def Let_def result_simps now_unix_secs_def m0_def)
  from s obtain b where b: "unsigned_headers_cbor L m0 = Inr b"
      "m = m0\<lparr>msg_signature := signing_sign L k b\<rparr>"
    by (auto simp: message_sign_def result_simps)
  have "unsigned_headers_cbor L m = Inr b" "unsigned_headers L m = unsigned_headers L m0"
    using b by simp_all
  then show ?thesis using t v b(2) by (simp add: m0_def)
qed

lemma verify_created_message:
  assumes laws: "msg_laws L"
    and new: "new_with_options L c1 c2 n d e r k = Inr m"
    and frm: "did_try_from L (dr_from d) = Inr sender" "doc_id doc = base_id sender"
    and key: "assertion_method_public_key L doc = Inr (ed25519_public L (sk_secret_key k))"
    and fresh: "validate_message_freshness c3 (msg_created_at m) (msg_exp m) = Inr ()"
  shows "verify_with_document L c3 m doc = Inr ()"
proof -
  obtain b where b: "unsigned_headers_cbor L m = Inr b" and sig: "msg_signature m = signing_sign L k b"
    and fr: "msg_from m = dr_from d" and v: "headers_validate L c2 (unsigned_headers L m) = Inr ()"
    using new_with_options_Inr [OF new] by blast
  have cl: "crypto_laws L" by (rule msg_lawsD(1) [OF laws])
  have "headers_validate L c3 (unsigned_headers L m) = Inr ()"
    by (rule headers_validate_later [OF v]) (use fresh in \<open>simp add: unsigned_headers_def\<close>)
  moreover have "dr_from d \<noteq> []"
    using frm(1) by (auto simp: did_try_from_def parse_def)
  moreover have "msg_signature m \<noteq> []"
    by (simp add: sig signing_sign_def public_keys_nonempty(3) [OF cl])
  ultimately show ?thesis
    using frm key b crypto_lawsD(5,6) [OF cl]
    by (simp add: verify_with_document_def fr sig signing_sign_def)
qed

section \<open>Properties\<close>


text \<open>The wrap-around is observable: a message whose expiry lies in the last 30 seconds of
  the 64-bit range is refused as too old at every time from second 30 on.\<close>

theorem far_expiry_too_old:
  assumes "2 ^ 64 - 30 \<le> unat exp" and "30 \<le> unat now" and "created_at \<le> now"
    and "unat now < 2 ^ 64 - 30"
  shows "validate_message_freshness (Some now) created_at exp = Inl MessageTooOld"
proof -
  have e: "unat exp < 2 ^ 64" using unsigned_less [of exp, where 'a = nat] by simp
  then have "(unat exp + 30) mod 2 ^ 64 = unat exp + 30 - 2 ^ 64"
    using assms(1) by (simp add: le_mod_geq)
  then have "exp + DEFAULT_MAX_CLOCK_SKEW_SECS < now"
    using e assms(2) by (simp add: word_less_nat_alt unat_plus_skew)
  moreover have "\<not> now + DEFAULT_MAX_CLOCK_SKEW_SECS < created_at"
    using assms(3,4) by (simp add: word_less_nat_alt word_le_nat_alt unat_plus_skew not_less)
  moreover have "exp \<noteq> 0" using assms(1) by auto
  ultimately show ?thesis by (simp add: validate_message_freshness_def now_unix_secs_def)
qed

theorem far_expiry_too_old_witness:
  "validate_message_freshness (Some 1700000000) 1700000000 0xFFFFFFFFFFFFFFFF = Inl MessageTooOld"
  by (rule far_expiry_too_old) simp_all

text \<open>A message made by any of the constructors verifies against the sender's document for
  as long as it is fresh.\<close>

theorem message_sign_verifies:
  assumes "msg_laws L"
    and "new_with_options L c1 c2 n d e r k = Inr m"
    and "did_try_from L (dr_from d) = Inr sender" and "doc_id doc = base_id sender"
    and "assertion_method_public_key L doc = Inr (ed25519_public L (sk_secret_key k))"
    and "validate_message_freshness c3 (msg_created_at m) (msg_exp m) = Inr ()"
  shows "verify_with_document L c3 m doc = Inr ()"
  using assms by (rule verify_created_message)

lemma same_signed_bytes:
  assumes "msg_laws L"
    and "unsigned_headers_cbor L m = Inr b" and "unsigned_headers_cbor L m' = Inr b"
  shows "unsigned_headers L m = unsigned_headers L m'"
  using assms(2,3) msg_lawsD(3) [OF assms(1), of "unsigned_headers L m"]
    msg_lawsD(3) [OF assms(1), of "unsigned_headers L m'"]
  by (auto simp: unsigned_headers_cbor_def result_simps)

text \<open>C17: The signed bytes bind the message: two messages with the same signed bytes agree in
  every header field but the signature (id, protocol, type, sender, recipient, both times,
  content type, correlation) and in the hash of their contents, so a signature cannot be
  moved to another one.\<close>

theorem signed_bytes_bind:
  assumes "msg_laws L"
    and "unsigned_headers_cbor L m = Inr b" and "unsigned_headers_cbor L m' = Inr b"
  shows "msg_id m = msg_id m' \<and> msg_protocol m = msg_protocol m' \<and> msg_type m = msg_type m'
    \<and> msg_from m = msg_from m' \<and> msg_to m = msg_to m'
    \<and> msg_created_at m = msg_created_at m' \<and> msg_exp m = msg_exp m'
    \<and> msg_content_type m = msg_content_type m' \<and> msg_reply_to m = msg_reply_to m'
    \<and> blake3_hash L (msg_content m) = blake3_hash L (msg_content m')"
  using same_signed_bytes [OF assms] by (auto simp: unsigned_headers_def content_hash_def)

lemma payload_created:
  assumes "multiformat_laws L" and "new_with_options L c1 c2 n d e r k = Inr m"
  shows "message_payload L m = (if dr_content d = []
    then varint_encode_u64 L (codec_for (dr_content_type d)) else dr_content d)"
proof -
  have "msg_content m = multicodec_encode L (codec_for (dr_content_type d)) (dr_content d)"
    using new_with_options_Inr [OF assms(2)] by (auto simp: encode_content_def)
  moreover have "multicodec_decode L (multicodec_encode L c []) = Inl InvalidPublicKeyMultibase" for c
  proof -
    have "varint_decode_u64 L (varint_encode_u64 L c @ []) = Some (c, [])"
      using assms(1) unfolding multiformat_laws_def by blast
    then show ?thesis by (simp add: multicodec_decode_def multicodec_encode_def)
  qed
  ultimately show ?thesis
    using multicodec_roundtrip [OF assms(1)]
    by (simp add: message_payload_def decode_content_def) (simp add: multicodec_encode_def)
qed

text \<open>The payload read from a message is the content it was made with, except that an empty
  content is read back as its codec prefix.\<close>

theorem payload_roundtrip:
  assumes "multiformat_laws L" and "new_with_options L c1 c2 n d e r k = Inr m"
  shows "message_payload L m = (if dr_content d = []
    then varint_encode_u64 L (codec_for (dr_content_type d)) else dr_content d)"
  using assms by (rule payload_created)

section \<open>Concrete packages and witnesses\<close>

definition put_option :: "('a \<Rightarrow> bytes) \<Rightarrow> 'a option \<Rightarrow> bytes" where
  "put_option p x = (case x of None \<Rightarrow> put_nat 0 | Some y \<Rightarrow> put_nat 1 @ p y)"

definition get_option :: "(bytes \<Rightarrow> ('a \<times> bytes) option) \<Rightarrow> bytes \<Rightarrow> ('a option \<times> bytes) option" where
  "get_option g b = Option.bind (get_nat b) (\<lambda>(n, b).
     if n = 0 then Some (None, b) else map_option (\<lambda>(x, r). (Some x, r)) (g b))"

lemma get_put_option [simp]:
  assumes "\<And>x r. g (p x @ r) = Some (x, r)"
  shows "get_option g (put_option p x @ r) = Some (x, r)"
  by (cases x) (simp_all add: get_option_def put_option_def assms)

definition put_u64 :: "u64 \<Rightarrow> bytes" where "put_u64 w = put_nat (unat w)"

definition get_u64 :: "bytes \<Rightarrow> (u64 \<times> bytes) option" where
  "get_u64 b = map_option (\<lambda>(n, r). (of_nat n, r)) (get_nat b)"

lemma get_put_u64 [simp]: "get_u64 (put_u64 w @ r) = Some (w, r)"
  by (simp add: get_u64_def put_u64_def)

definition put_headers :: "headers \<Rightarrow> bytes" where
  "put_headers h = put_string (hd_id h) @ put_string (hd_protocol h) @ put_string (hd_type h)
     @ put_string (hd_from h) @ put_string (hd_to h) @ put_u64 (hd_created_at h) @ put_u64 (hd_exp h)
     @ put_string (hd_content_type h) @ put_option put_string (hd_reply_to h)
     @ put_bytes (hd_content_hash h) @ put_bytes (hd_signature h)"

definition get_headers :: "bytes \<Rightarrow> headers option" where
  "get_headers b =
     Option.bind (get_string b) (\<lambda>(i, b). Option.bind (get_string b) (\<lambda>(p, b).
     Option.bind (get_string b) (\<lambda>(ty, b). Option.bind (get_string b) (\<lambda>(f, b).
     Option.bind (get_string b) (\<lambda>(t, b). Option.bind (get_u64 b) (\<lambda>(c, b).
     Option.bind (get_u64 b) (\<lambda>(e, b). Option.bind (get_string b) (\<lambda>(ct, b).
     Option.bind (get_option get_string b) (\<lambda>(r, b). Option.bind (get_bytes b) (\<lambda>(h, b).
     Option.bind (get_bytes b) (\<lambda>(s, b).
       Some \<lparr>hd_id = i, hd_protocol = p, hd_type = ty, hd_from = f, hd_to = t, hd_created_at = c,
         hd_exp = e, hd_content_type = ct, hd_reply_to = r, hd_content_hash = h,
         hd_signature = s\<rparr>)))))))))))"

lemma get_put_headers: "get_headers (put_headers h @ r) = Some h"
  by (simp add: get_headers_def put_headers_def)

text \<open>A message is sent as its headers, with the content in the place of the hash.\<close>

definition put_message :: "message \<Rightarrow> bytes" where
  "put_message m = put_nat 3 @ put_headers \<lparr>hd_id = msg_id m, hd_protocol = msg_protocol m, hd_type = msg_type m,
     hd_from = msg_from m, hd_to = msg_to m, hd_created_at = msg_created_at m, hd_exp = msg_exp m,
     hd_content_type = msg_content_type m, hd_reply_to = msg_reply_to m,
     hd_content_hash = msg_content m, hd_signature = msg_signature m\<rparr>"

definition get_message :: "bytes \<Rightarrow> message option" where
  "get_message b = Option.bind (get_nat b) (\<lambda>(n, b). if n \<noteq> 3 then None else map_option (\<lambda>h.
     \<lparr>msg_id = hd_id h, msg_protocol = hd_protocol h, msg_type = hd_type h, msg_from = hd_from h,
      msg_to = hd_to h, msg_created_at = hd_created_at h, msg_exp = hd_exp h,
      msg_content_type = hd_content_type h, msg_reply_to = hd_reply_to h,
      msg_content = hd_content_hash h, msg_signature = hd_signature h\<rparr>) (get_headers b))"

lemma get_put_message: "get_message (put_message m @ r) = Some m"
  by (simp add: get_message_def put_message_def get_put_headers)

definition put_envelope :: "envelope \<Rightarrow> bytes" where
  "put_envelope e = put_nat 7 @ put_bytes (env_ephemeral_key e)
     @ put_bytes (env_encrypted_content e) @ put_bytes (env_encrypted_headers e)"

definition get_envelope :: "bytes \<Rightarrow> envelope option" where
  "get_envelope b = Option.bind (get_nat b) (\<lambda>(n, b). if n \<noteq> 7 then None else
     Option.bind (get_bytes b) (\<lambda>(k, b). Option.bind (get_bytes b) (\<lambda>(c, b).
     Option.bind (get_bytes b) (\<lambda>(h, b).
       Some \<lparr>env_ephemeral_key = k, env_encrypted_content = c, env_encrypted_headers = h\<rparr>))))"

lemma get_envelope_message [simp]: "get_envelope (put_message m) = None"
  by (simp add: get_envelope_def put_message_def)

lemma get_put_envelope: "get_envelope (put_envelope e @ r) = Some e"
  by (simp add: get_envelope_def put_envelope_def)

definition or_malformed :: "'a option \<Rightarrow> string + 'a" where
  "or_malformed x = ok_or x ''malformed''"

text \<open>The cipher writes key, nonce and plain text, and reads back only under the same two.\<close>

definition demo_identity_lib :: identity_lib where
  "demo_identity_lib = doc_lib.extend demo_doc_lib
     (identity_lib.fields
        (\<lambda>s. if length s = 32 then Some s else None)
        (\<lambda>pk. pk) (\<lambda>p. p)
        (\<lambda>c h. \<lparr>cid_version = V1, cid_codec = c, cid_hash = h, cid_bytes = h\<rparr>))"

definition demo_msg_lib :: msg_lib where
  "demo_msg_lib = identity_lib.extend demo_identity_lib
     (msg_lib.fields
        (\<lambda>label s. fit 32 (as_bytes label @ s))
        (\<lambda>k n m. Some (0 # k @ n @ m))
        (\<lambda>k n c. if prefix (0 # k @ n) c then Some (drop (1 + length k + length n) c) else None)
        (\<lambda>h. Inr (put_headers h)) (\<lambda>b. or_malformed (get_headers b))
        (\<lambda>m. Inr (put_message m)) (\<lambda>b. or_malformed (get_message b))
        (\<lambda>e. Inr (put_envelope e)) (\<lambda>b. or_malformed (get_envelope b)))"

lemmas demo_lib_defs = demo_msg_lib_def demo_identity_lib_def identity_lib.defs msg_lib.defs
  doc_lib.defs crypto_lib.defs did_lib.defs

lemma demo_msg_crypto: "crypto_laws demo_msg_lib"
  using demo_doc_crypto
  by (simp add: crypto_laws_def multiformat_laws_def demo_lib_defs)

lemma demo_msg_time: "time_laws demo_msg_lib" and demo_msg_documents: "document_codec_laws demo_msg_lib"
  using demo_time_laws demo_document_codec
  by (simp_all add: time_laws_def is_valid_rfc3339_utc_def document_codec_laws_def demo_lib_defs)

lemma demo_msg_laws: "msg_laws demo_msg_lib"
  unfolding msg_laws_def
  using demo_msg_crypto get_put_headers [where r = "[]"] get_put_message [where r = "[]"]
    get_put_envelope [where r = "[]"]
  by (simp add: demo_lib_defs or_malformed_def)

lemma demo_msg_identifier [simp]: "validate_identifier demo_msg_lib ''6d61'' = Inr ()"
proof -
  have "validate_identifier demo_msg_lib ''6d61'' = validate_identifier demo_doc_lib ''6d61''"
    by (rule validate_identifier_cong) (simp_all add: demo_lib_defs)
  then show ?thesis by simp
qed

lemma demo_msg_parse [simp]:
  "parse demo_msg_lib ''did:ma:6d61'' = Inr (''6d61'', None)"
  "parse demo_msg_lib ''did:ma:6d61#inbox'' = Inr (''6d61'', Some ''inbox'')"
  using base_id_parse [of demo_msg_lib "\<lparr>ipns = ''6d61'', fragment = None\<rparr>"]
    resource_id_parse [of demo_msg_lib "\<lparr>ipns = ''6d61'', fragment = None\<rparr>" "''inbox''"]
  by (simp_all add: base_id_def DID_PREFIX_def crypto_lawsD(1) [OF demo_msg_crypto]
      validate_fragment_ok fragment_char_def ascii_defs)

text \<open>An identity and a message to itself.\<close>

lemma demo_msg_keys:
  "\<exists>sk ek g. signing_from_private_key_bytes demo_msg_lib \<lparr>ipns = ''6d61'', fragment = None\<rparr> demo_secret = Inr sk
    \<and> sk_secret_key sk = demo_secret
    \<and> encryption_from_private_key_bytes demo_msg_lib \<lparr>ipns = ''6d61'', fragment = None\<rparr> demo_secret = Inr ek
    \<and> ek_private_key ek = demo_secret \<and> doc_id g = ''did:ma:6d61''
    \<and> assertion_method_public_key demo_msg_lib g = Inr (ed25519_public demo_msg_lib demo_secret)
    \<and> key_agreement_public_key_bytes demo_msg_lib g = Inr (x25519_public demo_msg_lib demo_secret)"
proof -
  obtain sk ek where k: "signing_from_private_key_bytes demo_msg_lib \<lparr>ipns = ''6d61'', fragment = None\<rparr>
      demo_secret = Inr sk" "encryption_from_private_key_bytes demo_msg_lib
      \<lparr>ipns = ''6d61'', fragment = None\<rparr> demo_secret = Inr ek"
    and s: "sk_secret_key sk = demo_secret" "ek_private_key ek = demo_secret"
    by (simp add: signing_from_private_key_bytes_def encryption_from_private_key_bytes_def)
  show ?thesis
    using build_identity_succeeds [OF demo_msg_crypto demo_msg_time demo_msg_documents
        demo_msg_identifier k] k s
    by (auto simp: DID_PREFIX_def)
qed

definition demo_draft :: message_draft where
  "demo_draft = \<lparr>dr_from = ''did:ma:6d61'', dr_to = ''did:ma:6d61#inbox'',
     dr_type = MESSAGE_TYPE_MESSAGE, dr_content_type = ''text/plain'', dr_content = [104, 105]\<rparr>"

lemma demo_trim: "trim ''did:ma:6d61#inbox'' \<noteq> []"
  by (subst trim_solid) (simp_all add: solid_def code_def)

lemma demo_headers_valid:
  assumes "hd_id h = ''m1''" "hd_protocol h = default_protocol" "hd_type h = MESSAGE_TYPE_MESSAGE"
    "hd_from h = ''did:ma:6d61''" "hd_to h = ''did:ma:6d61#inbox''" "hd_created_at h = 1000"
    "hd_exp h = 4600" "hd_content_type h = ''text/plain''" "hd_reply_to h = None"
  shows "headers_validate demo_msg_lib (Some 1000) h = Inr ()"
  using assms demo_trim
  by (simp add: headers_validate_ok validate_message_id_def fragment_char_def ascii_defs
      validate_def message_type_defs validate_message_freshness_def now_unix_secs_def
      DEFAULT_MAX_CLOCK_SKEW_SECS_def)

lemma demo_message_created:
  "\<exists>m. new_with_options demo_msg_lib (Some 1000) (Some 1000) ''m1'' demo_draft 4600 None k = Inr m"
proof -
  have c: "encode_content demo_msg_lib c p \<noteq> []" for c p
    by (simp add: encode_content_def multicodec_encode_def demo_lib_defs demo_doc_lib_def
        demo_crypto_lib_def demo_did_lib_def demo_varint_encode_def)
  have s: "\<exists>b. message_sign demo_msg_lib k m = Inr b" for m
    using msg_lawsD(3) [OF demo_msg_laws]
    by (auto simp: message_sign_def unsigned_headers_cbor_def) (metis bindR_Inr map_err_Inr)
  show ?thesis
    using s by (simp add: new_with_options_def now_unix_secs_def Let_def demo_headers_valid
        unsigned_headers_def demo_draft_def validate_content_def c)
qed

theorem message_sign_verifies_witness:
  "\<exists>k m doc. new_with_options demo_msg_lib (Some 1000) (Some 1000) ''m1'' demo_draft 4600 None k = Inr m
     \<and> verify_with_document demo_msg_lib (Some 1010) m doc = Inr ()"
proof -
  obtain sk :: signing_key and doc :: document where k: "sk_secret_key sk = demo_secret" and doc: "doc_id doc = ''did:ma:6d61''"
    and pk: "assertion_method_public_key demo_msg_lib doc = Inr (ed25519_public demo_msg_lib demo_secret)"
    using demo_msg_keys by blast
  obtain m where m: "new_with_options demo_msg_lib (Some 1000) (Some 1000) ''m1'' demo_draft 4600 None sk = Inr m"
    using demo_message_created by blast
  have "msg_created_at m = 1000" "msg_exp m = 4600" using new_with_options_Inr [OF m] by auto
  then have f: "validate_message_freshness (Some 1010) (msg_created_at m) (msg_exp m) = Inr ()"
    by (simp add: validate_message_freshness_def now_unix_secs_def DEFAULT_MAX_CLOCK_SKEW_SECS_def)
  have d: "did_try_from demo_msg_lib (dr_from demo_draft) = Inr \<lparr>ipns = ''6d61'', fragment = None\<rparr>"
    by (simp add: did_try_from_def demo_draft_def)
  have "verify_with_document demo_msg_lib (Some 1010) m doc = Inr ()"
    by (rule message_sign_verifies [OF demo_msg_laws m d _ _ f]) (simp_all add: doc base_id_def DID_PREFIX_def pk k)
  then show ?thesis using m by blast
qed

definition demo_message :: message where
  "demo_message = \<lparr>msg_id = ''m1'', msg_protocol = default_protocol, msg_type = MESSAGE_TYPE_MESSAGE,
     msg_from = ''did:ma:6d61'', msg_to = ''did:ma:6d61#inbox'', msg_created_at = 1000, msg_exp = 4600,
     msg_content_type = ''text/plain'', msg_reply_to = None, msg_content = [0, 104], msg_signature = []\<rparr>"

theorem signed_bytes_bind_witness:
  "unsigned_headers_cbor demo_msg_lib demo_message =
      unsigned_headers_cbor demo_msg_lib (demo_message\<lparr>msg_signature := [1]\<rparr>)
    \<and> msg_protocol demo_message = msg_protocol (demo_message\<lparr>msg_signature := [1]\<rparr>)
    \<and> blake3_hash demo_msg_lib (msg_content demo_message) =
        blake3_hash demo_msg_lib (msg_content (demo_message\<lparr>msg_signature := [1]\<rparr>))"
proof -
  have b: "unsigned_headers_cbor demo_msg_lib demo_message =
      Inr (put_headers (unsigned_headers demo_msg_lib demo_message))"
    by (simp add: unsigned_headers_cbor_def) (simp add: demo_lib_defs)
  moreover have b': "unsigned_headers_cbor demo_msg_lib (demo_message\<lparr>msg_signature := [1]\<rparr>) =
      Inr (put_headers (unsigned_headers demo_msg_lib demo_message))"
    using b by simp
  ultimately show ?thesis using signed_bytes_bind [OF demo_msg_laws b b'] by (simp only:)
qed

theorem payload_roundtrip_witness:
  "\<exists>k m. new_with_options demo_msg_lib (Some 1000) (Some 1000) ''m1'' demo_draft 4600 None k = Inr m
     \<and> message_payload demo_msg_lib m = (if dr_content demo_draft = []
          then varint_encode_u64 demo_msg_lib (codec_for (dr_content_type demo_draft))
          else dr_content demo_draft)"
proof -
  obtain m where "new_with_options demo_msg_lib (Some 1000) (Some 1000) ''m1'' demo_draft 4600 None
      demo_signing_key = Inr m"
    using demo_message_created by blast
  then show ?thesis
    using payload_roundtrip [OF crypto_lawsD(1) [OF demo_msg_crypto]] by blast
qed

end
