(* ===== verification/Replay.thy ===== *)
theory Replay
  imports Msg
begin

text \<open>
  The sliding-window replay guard (\<open>ReplayGuard\<close> in \<^verbatim>\<open>msg.rs\<close>). The \<open>HashMap\<close> is a map from
  message ids to the second at which they were accepted. The interface the receiving side
  relies on is the locale \<open>replay_filter\<close>.
\<close>

section \<open>The guard\<close>

record replay_guard =
  seen :: "string \<Rightarrow> u64 option"
  window_secs :: u64

definition replay_new :: "u64 \<Rightarrow> replay_guard" where
  "replay_new w = \<lparr>seen = Map.empty, window_secs = w\<rparr>"

definition replay_default :: replay_guard where
  "replay_default = replay_new DEFAULT_REPLAY_WINDOW_SECS"

definition retain_recent :: "u64 \<Rightarrow> u64 \<Rightarrow> (string \<Rightarrow> u64 option) \<Rightarrow> string \<Rightarrow> u64 option" where
  "retain_recent now w s i =
     (case s i of None \<Rightarrow> None
      | Some seen_at \<Rightarrow> if saturating_sub now seen_at \<le> w then Some seen_at else None)"

definition prune_old :: "clock \<Rightarrow> replay_guard \<Rightarrow> unit ma_result \<times> replay_guard" where
  "prune_old clk g =
     (case now_unix_secs clk of
        Inl e \<Rightarrow> (Inl e, g)
      | Inr now \<Rightarrow> (Inr (), g\<lparr>seen := retain_recent now (window_secs g) (seen g)\<rparr>))"

text \<open>The three readings of the clock: validation, pruning, insertion.\<close>

record clocks3 =
  c_validate :: clock
  c_prune :: clock
  c_insert :: clock

definition check_and_insert :: "'x did_lib_scheme \<Rightarrow> clocks3 \<Rightarrow> headers \<Rightarrow> replay_guard \<Rightarrow>
    unit ma_result \<times> replay_guard" where
  "check_and_insert L c h g =
     (case headers_validate L (c_validate c) h of
        Inl e \<Rightarrow> (Inl e, g)
      | Inr _ \<Rightarrow>
          (case prune_old (c_prune c) g of
             (Inl e, g1) \<Rightarrow> (Inl e, g1)
           | (Inr _, g1) \<Rightarrow>
               if seen g1 (hd_id h) \<noteq> None then (Inl ReplayDetected, g1)
               else (case now_unix_secs (c_insert c) of
                       Inl e \<Rightarrow> (Inl e, g1)
                     | Inr now \<Rightarrow> (Inr (), g1\<lparr>seen := (seen g1)(hd_id h \<mapsto> now)\<rparr>))))"

section \<open>The interface: a replay filter\<close>

text \<open>
  A filter is offered events one after the other. An event has a key, a time at which the
  memory is consulted and a time at which it is stamped. An accepted event was not in the
  memory within the window, and is in it afterwards; whatever happens to other events, an
  entry is not forgotten within its window.
\<close>

locale replay_filter =
  fixes offer :: "'e \<Rightarrow> 's \<Rightarrow> bool \<times> 's"
    and memory :: "'s \<Rightarrow> 'k \<Rightarrow> nat option"
    and key :: "'e \<Rightarrow> 'k"
    and consulted :: "'e \<Rightarrow> nat"
    and stamped :: "'e \<Rightarrow> nat"
    and window :: "'s \<Rightarrow> nat"
  assumes window_fixed: "window (snd (offer e s)) = window s"
    and accept_unseen: "fst (offer e s) \<Longrightarrow> memory s (key e) = Some t \<Longrightarrow> window s < consulted e - t"
    and accept_stamps: "fst (offer e s) \<Longrightarrow> memory (snd (offer e s)) (key e) = Some (stamped e)"
    and keeps_recent: "memory s k = Some t \<Longrightarrow> consulted e - t \<le> window s \<Longrightarrow>
      fst (offer e s) \<longrightarrow> key e \<noteq> k \<Longrightarrow> memory (snd (offer e s)) k = Some t"
begin

text \<open>The events a run accepts, in order, and the state it ends in.\<close>

fun filter_run :: "'e list \<Rightarrow> 's \<Rightarrow> 'e list \<times> 's" where
  "filter_run [] s = ([], s)"
| "filter_run (e # es) s =
     (let (b, s1) = offer e s; (acc, s2) = filter_run es s1
      in (if b then e # acc else acc, s2))"

lemma filter_run_Cons:
  "fst (filter_run (e # es) s) =
     (if fst (offer e s) then e # fst (filter_run es (snd (offer e s)))
      else fst (filter_run es (snd (offer e s))))"
  by (simp add: case_prod_beta Let_def)

lemma filter_run_subset: "set (fst (filter_run es s)) \<subseteq> set es"
proof (induction es arbitrary: s)
  case (Cons e es)
  then show ?case unfolding filter_run_Cons by (auto dest: subsetD)
qed simp

text \<open>Within its window an entry blocks every event with its key.\<close>

lemma blocked:
  assumes "memory s k = Some t" and "\<forall>e\<in>set es. consulted e - t \<le> window s"
  shows "\<forall>e\<in>set (fst (filter_run es s)). key e \<noteq> k"
  using assms
proof (induction es arbitrary: s)
  case (Cons e es)
  have w: "consulted e - t \<le> window s" using Cons.prems(2) by simp
  have a: "fst (offer e s) \<longrightarrow> key e \<noteq> k"
    using accept_unseen [of e s t] Cons.prems(1) w by auto
  have "memory (snd (offer e s)) k = Some t" by (rule keeps_recent [OF Cons.prems(1) w a])
  then have "\<forall>x\<in>set (fst (filter_run es (snd (offer e s)))). key x \<noteq> k"
    using Cons.IH [of "snd (offer e s)"] Cons.prems(2) by (simp add: window_fixed)
  then show ?case using a unfolding filter_run_Cons by auto
qed simp

text \<open>
  In a run all of whose events are consulted within one window of the first event's stamp,
  the accepted keys are distinct.
\<close>

lemma accepted_distinct:
  assumes "\<forall>e\<in>set es. \<forall>e'\<in>set es. consulted e' - stamped e \<le> window s"
  shows "distinct (map key (fst (filter_run es s)))"
  using assms
proof (induction es arbitrary: s)
  case (Cons e es)
  let ?s = "snd (offer e s)"
  have ih: "distinct (map key (fst (filter_run es ?s)))"
    using Cons.IH [of ?s] Cons.prems by (simp add: window_fixed)
  show ?case
  proof (cases "fst (offer e s)")
    case True
    have "\<forall>x\<in>set (fst (filter_run es ?s)). key x \<noteq> key e"
      by (rule blocked [OF accept_stamps [OF True]]) (use Cons.prems in \<open>simp add: window_fixed\<close>)
    then show ?thesis using ih True unfolding filter_run_Cons by auto
  qed (use ih in \<open>unfold filter_run_Cons, simp\<close>)
qed simp

end

section \<open>The guard is a replay filter\<close>

text \<open>
  An event is a header offered at three readings of the clock. A reading before the epoch
  counts as second 0: nothing is accepted then.
\<close>

record replay_event =
  ev_clocks :: clocks3
  ev_headers :: headers

definition clock_nat :: "clock \<Rightarrow> nat" where
  "clock_nat c = (case c of None \<Rightarrow> 0 | Some t \<Rightarrow> unat t)"

definition guard_offer :: "'x did_lib_scheme \<Rightarrow> replay_event \<Rightarrow> replay_guard \<Rightarrow> bool \<times> replay_guard" where
  "guard_offer L e g =
     (let (r, g1) = check_and_insert L (ev_clocks e) (ev_headers e) g in (is_ok r, g1))"

definition guard_memory :: "replay_guard \<Rightarrow> string \<Rightarrow> nat option" where
  "guard_memory g i = map_option unat (seen g i)"

definition ev_key :: "replay_event \<Rightarrow> string" where
  "ev_key e = hd_id (ev_headers e)"

lemma retain_recent_Some:
  "retain_recent now w s i = Some t \<longleftrightarrow> s i = Some t \<and> unat now - unat t \<le> unat w"
  by (auto simp: retain_recent_def word_le_nat_alt unat_saturating_sub split: option.splits)

lemma check_and_insert_Inr:
  assumes "check_and_insert L c h g = (Inr u, g')"
  shows "\<exists>p n. c_prune c = Some p \<and> c_insert c = Some n \<and> headers_validate L (c_validate c) h = Inr ()
    \<and> retain_recent p (window_secs g) (seen g) (hd_id h) = None
    \<and> g' = g\<lparr>seen := (retain_recent p (window_secs g) (seen g))(hd_id h \<mapsto> n)\<rparr>"
  using assms
  by (cases "c_prune c"; cases "c_insert c")
    (auto simp: check_and_insert_def prune_old_def now_unix_secs_def split: sum.splits if_splits)

lemma check_and_insert_Inl:
  assumes "check_and_insert L c h g = (Inl e, g')"
  shows "g' = g \<or> (\<exists>p. c_prune c = Some p
    \<and> g' = g\<lparr>seen := retain_recent p (window_secs g) (seen g)\<rparr>)"
  using assms
  by (cases "c_prune c"; cases "c_insert c")
    (auto simp: check_and_insert_def prune_old_def now_unix_secs_def split: sum.splits if_splits)

text \<open>
  What the guard still remembers at second \<open>p\<close>: the ids accepted no longer than its window
  ago, with the second of their acceptance.
\<close>

definition recent_ids :: "u64 \<Rightarrow> replay_guard \<Rightarrow> string \<Rightarrow> u64 option" where
  "recent_ids p g =
     (\<lambda>i. case seen g i of None \<Rightarrow> None
        | Some t \<Rightarrow> if unat p - unat t \<le> unat (window_secs g) then Some t else None)"

lemma retain_recent_ids: "retain_recent p (window_secs g) (seen g) = recent_ids p g"
  by (auto simp: fun_eq_iff recent_ids_def retain_recent_def word_le_nat_alt unat_saturating_sub
      split: option.splits)

lemma check_and_insert_accepts:
  assumes "check_and_insert L c h g = (Inr u, g')"
  shows "headers_validate L (c_validate c) h = Inr ()
    \<and> (\<exists>p n. c_prune c = Some p \<and> c_insert c = Some n \<and> recent_ids p g (hd_id h) = None
        \<and> g' = g\<lparr>seen := (recent_ids p g)(hd_id h \<mapsto> n)\<rparr>)"
  using check_and_insert_Inr [OF assms] by (auto simp: retain_recent_ids)

text \<open>A refused offer leaves the guard alone, or drops its old entries and nothing else.\<close>

lemma check_and_insert_refuses:
  assumes "check_and_insert L c h g = (Inl e, g')"
  shows "g' = g \<and> (headers_validate L (c_validate c) h = Inl e \<or> c_prune c = None)
    \<or> (\<exists>p. headers_validate L (c_validate c) h = Inr () \<and> c_prune c = Some p
        \<and> g' = g\<lparr>seen := recent_ids p g\<rparr>
        \<and> (recent_ids p g (hd_id h) \<noteq> None \<and> e = ReplayDetected \<or> c_insert c = None))"
  using assms
  by (cases "c_prune c"; cases "c_insert c")
    (auto simp: check_and_insert_def prune_old_def now_unix_secs_def retain_recent_ids
      split: sum.splits if_splits)

lemma guard_offer_cases:
  obtains (accept) p n where "fst (guard_offer L e g)" "c_prune (ev_clocks e) = Some p"
      "c_insert (ev_clocks e) = Some n"
      "retain_recent p (window_secs g) (seen g) (ev_key e) = None"
      "snd (guard_offer L e g) =
        g\<lparr>seen := (retain_recent p (window_secs g) (seen g))(ev_key e \<mapsto> n)\<rparr>"
  | (keep) "\<not> fst (guard_offer L e g)" "snd (guard_offer L e g) = g"
  | (prune) p where "\<not> fst (guard_offer L e g)" "c_prune (ev_clocks e) = Some p"
      "snd (guard_offer L e g) = g\<lparr>seen := retain_recent p (window_secs g) (seen g)\<rparr>"
proof (cases "check_and_insert L (ev_clocks e) (ev_headers e) g")
  case (Pair r g1)
  show ?thesis
  proof (cases r)
    case (Inl x)
    then show ?thesis
      using check_and_insert_Inl [of L "ev_clocks e" "ev_headers e" g x g1] Pair keep prune
      by (auto simp: guard_offer_def)
  next
    case (Inr u)
    then show ?thesis
      using check_and_insert_Inr [of L "ev_clocks e" "ev_headers e" g u g1] Pair accept
      by (auto simp: guard_offer_def ev_key_def)
  qed
qed

interpretation guard: replay_filter "guard_offer L" guard_memory ev_key
  "\<lambda>e. clock_nat (c_prune (ev_clocks e))" "\<lambda>e. clock_nat (c_insert (ev_clocks e))"
  "\<lambda>g. unat (window_secs g)" for L
proof unfold_locales
  fix e g
  show "unat (window_secs (snd (guard_offer L e g))) = unat (window_secs g)"
    by (cases rule: guard_offer_cases [of L e g]) simp_all
next
  fix e g t
  assume "fst (guard_offer L e g)" and "guard_memory g (ev_key e) = Some t"
  then show "unat (window_secs g) < clock_nat (c_prune (ev_clocks e)) - t"
    by (cases rule: guard_offer_cases [of L e g])
      (auto simp: guard_memory_def clock_nat_def retain_recent_def word_le_nat_alt
        unat_saturating_sub split: if_splits)
next
  fix e g
  assume "fst (guard_offer L e g)"
  then show "guard_memory (snd (guard_offer L e g)) (ev_key e) =
      Some (clock_nat (c_insert (ev_clocks e)))"
    by (cases rule: guard_offer_cases [of L e g]) (simp_all add: guard_memory_def clock_nat_def)
next
  fix g k t e
  assume "guard_memory g k = Some t"
    and "clock_nat (c_prune (ev_clocks e)) - t \<le> unat (window_secs g)"
    and "fst (guard_offer L e g) \<longrightarrow> ev_key e \<noteq> k"
  then show "guard_memory (snd (guard_offer L e g)) k = Some t"
    by (cases rule: guard_offer_cases [of L e g])
      (auto simp: guard_memory_def clock_nat_def retain_recent_def word_le_nat_alt
        unat_saturating_sub)
qed

section \<open>Properties\<close>

text \<open>A run of the guard: the ids it accepts, in order.\<close>

fun accepted_ids :: "'x did_lib_scheme \<Rightarrow> replay_event list \<Rightarrow> replay_guard \<Rightarrow> string list" where
  "accepted_ids L [] g = []"
| "accepted_ids L (e # es) g =
     (let (r, g1) = check_and_insert L (ev_clocks e) (ev_headers e) g
      in (if is_ok r then hd_id (ev_headers e) # accepted_ids L es g1 else accepted_ids L es g1))"

lemma accepted_ids_run: "accepted_ids L es g = map ev_key (fst (replay_filter.filter_run (guard_offer L) es g))"
  by (induction es arbitrary: g)
    (simp_all add: guard_offer_def ev_key_def Let_def split: prod.splits)

text \<open>C22: Whatever is offered in whatever order, a message id is accepted at most once as long as
  no two events of the run are further apart than the replay window.\<close>

theorem replay_at_most_once:
  assumes "\<forall>e\<in>set es. \<forall>e'\<in>set es.
      clock_nat (c_prune (ev_clocks e')) - clock_nat (c_insert (ev_clocks e)) \<le> unat (window_secs g)"
  shows "distinct (accepted_ids L es g)"
  unfolding accepted_ids_run by (rule guard.accepted_distinct [OF assms])

definition demo_headers :: headers where
  "demo_headers = unsigned_headers demo_msg_lib demo_message"

definition at_second :: "u64 \<Rightarrow> replay_event" where
  "at_second t = \<lparr>ev_clocks = \<lparr>c_validate = Some t, c_prune = Some t, c_insert = Some t\<rparr>,
     ev_headers = demo_headers\<rparr>"

theorem replay_at_most_once_witness:
  "distinct (accepted_ids demo_msg_lib [at_second 1000, at_second 1060, at_second 1120] replay_default)"
  by (rule replay_at_most_once)
    (simp add: at_second_def clock_nat_def replay_default_def replay_new_def
      DEFAULT_REPLAY_WINDOW_SECS_def)

text \<open>Once the window has passed since an id was accepted, the guard forgets it: the same
  headers are accepted again if they still validate.\<close>

theorem replay_forgets:
  assumes "seen g (hd_id h) = Some t" and "unat (window_secs g) < unat now - unat t"
    and "headers_validate L (Some now) h = Inr ()"
  shows "fst (check_and_insert L \<lparr>c_validate = Some now, c_prune = Some now, c_insert = Some now\<rparr> h g)
    = Inr ()"
  using assms
  by (simp add: check_and_insert_def prune_old_def now_unix_secs_def retain_recent_def
      word_le_nat_alt unat_saturating_sub)

text \<open>The guard knows ids only: an id that one sender's message has used is refused to every other
  sender for the rest of the window, although nothing of theirs was accepted.\<close>

lemma id_taken_from_other_sender:
  assumes "check_and_insert L c h g = (Inr u, g1)" and "c_insert c = Some t"
    and "hd_id h' = hd_id h" and "hd_from h' \<noteq> hd_from h"
    and "headers_validate L (c_validate c') h' = Inr ()" and "c_prune c' = Some p"
    and "unat p - unat t \<le> unat (window_secs g)"
  shows "fst (check_and_insert L c' h' g1) = Inl ReplayDetected"
proof -
  have "seen g1 (hd_id h') = Some t" "window_secs g1 = window_secs g"
    using check_and_insert_Inr [OF assms(1)] assms(2,3) by auto
  then have "retain_recent p (window_secs g1) (seen g1) (hd_id h') = Some t"
    using assms(7) by (simp add: retain_recent_Some)
  then show ?thesis
    using assms(5,6) by (simp add: check_and_insert_def prune_old_def now_unix_secs_def)
qed

text \<open>
  The default window is 120 seconds, but a message lives for 3600: the witness is a message
  that is accepted again 121 seconds after it was first accepted.
\<close>

lemma demo_headers_fields:
  "hd_id demo_headers = ''m1'' \<and> hd_protocol demo_headers = default_protocol
   \<and> hd_type demo_headers = MESSAGE_TYPE_MESSAGE \<and> hd_from demo_headers = ''did:ma:6d61''
   \<and> hd_to demo_headers = ''did:ma:6d61#inbox'' \<and> hd_created_at demo_headers = 1000
   \<and> hd_exp demo_headers = 4600 \<and> hd_content_type demo_headers = ''text/plain''
   \<and> hd_reply_to demo_headers = None"
  by (simp add: demo_headers_def unsigned_headers_def demo_message_def)

lemma demo_headers_ok: "headers_validate demo_msg_lib (Some 1000) demo_headers = Inr ()"
  by (rule demo_headers_valid) (simp_all add: demo_headers_fields)

theorem replay_forgets_witness:
  "fst (check_and_insert demo_msg_lib \<lparr>c_validate = Some 1121, c_prune = Some 1121,
       c_insert = Some 1121\<rparr> demo_headers
     (snd (check_and_insert demo_msg_lib \<lparr>c_validate = Some 1000, c_prune = Some 1000,
        c_insert = Some 1000\<rparr> demo_headers replay_default))) = Inr ()"
proof (rule replay_forgets [where t = 1000])
  have g: "snd (check_and_insert demo_msg_lib \<lparr>c_validate = Some 1000, c_prune = Some 1000,
      c_insert = Some 1000\<rparr> demo_headers replay_default) =
      replay_default\<lparr>seen := [''m1'' \<mapsto> 1000]\<rparr>"
    by (simp add: check_and_insert_def demo_headers_ok prune_old_def now_unix_secs_def
        retain_recent_def replay_default_def replay_new_def demo_headers_fields fun_eq_iff)
  show "seen (snd (check_and_insert demo_msg_lib \<lparr>c_validate = Some 1000, c_prune = Some 1000,
      c_insert = Some 1000\<rparr> demo_headers replay_default)) (hd_id demo_headers) = Some 1000"
    unfolding g by (simp add: demo_headers_fields)
  show "unat (window_secs (snd (check_and_insert demo_msg_lib \<lparr>c_validate = Some 1000,
      c_prune = Some 1000, c_insert = Some 1000\<rparr> demo_headers replay_default))) <
      unat (1121 :: u64) - unat (1000 :: u64)"
    unfolding g by (simp add: replay_default_def replay_new_def DEFAULT_REPLAY_WINDOW_SECS_def)
  show "headers_validate demo_msg_lib (Some 1121) demo_headers = Inr ()"
    by (rule headers_validate_later [OF demo_headers_ok])
      (simp add: demo_headers_fields validate_message_freshness_def now_unix_secs_def
        DEFAULT_MAX_CLOCK_SKEW_SECS_def)
qed

end
