(* ===== verification/Envelope.thy ===== *)
theory Envelope
  imports Replay
begin

text \<open>
  Encrypted envelopes (\<open>Envelope\<close> and \<open>Message::enclose_for\<close> in \<^verbatim>\<open>msg.rs\<close>): X25519 agreement
  with an ephemeral secret, one key per label, headers and content encrypted separately
  behind a 24-byte nonce. The ephemeral secret and the nonces are arguments.
\<close>

section \<open>Sealing and opening bytes\<close>

definition derive_symmetric_key :: "'x msg_lib_scheme \<Rightarrow> bytes \<Rightarrow> string \<Rightarrow> bytes" where
  "derive_symmetric_key L shared_secret label = blake3_derive_key L label shared_secret"

definition encrypt :: "'x msg_lib_scheme \<Rightarrow> bytes \<Rightarrow> bytes \<Rightarrow> bytes \<Rightarrow> bytes ma_result" where
  "encrypt L nonce data key =
     bindR (ok_or (xchacha20_encrypt L key nonce data) Crypto) (\<lambda>c. Inr (nonce @ c))"

definition decrypt :: "'x msg_lib_scheme \<Rightarrow> bytes \<Rightarrow> bytes \<Rightarrow> string \<Rightarrow> bytes ma_result" where
  "decrypt L data shared_secret label =
     (if length data < 24 then Inl CiphertextTooShort
      else ok_or (xchacha20_decrypt L (derive_symmetric_key L shared_secret label)
             (take 24 data) (drop 24 data)) Crypto)"

definition compute_shared_secret :: "'x crypto_lib_scheme \<Rightarrow> bytes \<Rightarrow> encryption_key \<Rightarrow> bytes ma_result" where
  "compute_shared_secret L ephemeral_key_bytes rk =
     (if length ephemeral_key_bytes = 32 then Inr (encryption_shared_secret L rk ephemeral_key_bytes)
      else Inl InvalidEphemeralKeyLength)"

section \<open>Envelopes\<close>

definition enclose_for :: "'x msg_lib_scheme \<Rightarrow> clock \<Rightarrow> bytes \<Rightarrow> bytes \<Rightarrow> bytes \<Rightarrow> message \<Rightarrow>
    document \<Rightarrow> envelope ma_result" where
  "enclose_for L clk ephemeral nonce1 nonce2 m recipient_document =
     bindR (headers_validate L clk (message_headers L m)) (\<lambda>_.
     bindR (key_agreement_public_key_bytes L recipient_document) (\<lambda>recipient_public_key.
     let shared_secret = x25519_diffie_hellman L ephemeral recipient_public_key in
     bindR (headers_cbor L m) (\<lambda>h.
     bindR (encrypt L nonce1 h (derive_symmetric_key L shared_secret BLAKE3_HEADERS_LABEL))
       (\<lambda>encrypted_headers.
     bindR (encrypt L nonce2 (msg_content m)
         (derive_symmetric_key L shared_secret BLAKE3_CONTENT_LABEL)) (\<lambda>encrypted_content.
     Inr \<lparr>env_ephemeral_key = x25519_public L ephemeral,
       env_encrypted_content = encrypted_content, env_encrypted_headers = encrypted_headers\<rparr>)))))"

definition envelope_verify :: "envelope \<Rightarrow> unit ma_result" where
  "envelope_verify e =
     (if env_ephemeral_key e = [] then Inl (MissingEnvelopeField ''ephemeralKey'')
      else if length (env_ephemeral_key e) \<noteq> 32 then Inl InvalidEphemeralKeyLength
      else if env_encrypted_content e = [] then Inl (MissingEnvelopeField ''encryptedContent'')
      else if env_encrypted_headers e = [] then Inl (MissingEnvelopeField ''encryptedHeaders'')
      else Inr ())"

definition envelope_encode :: "'x msg_lib_scheme \<Rightarrow> envelope \<Rightarrow> bytes ma_result" where
  "envelope_encode L e = map_err CborEncode (cbor_of_envelope L e)"

definition envelope_decode :: "'x msg_lib_scheme \<Rightarrow> bytes \<Rightarrow> envelope ma_result" where
  "envelope_decode L b = map_err CborDecode (envelope_of_cbor L b)"

definition decrypt_headers :: "'x msg_lib_scheme \<Rightarrow> bytes \<Rightarrow> envelope \<Rightarrow> headers ma_result" where
  "decrypt_headers L shared_secret e =
     bindR (decrypt L (env_encrypted_headers e) shared_secret BLAKE3_HEADERS_LABEL)
       (\<lambda>b. map_err CborDecode (headers_of_cbor L b))"

definition decrypt_content :: "'x msg_lib_scheme \<Rightarrow> bytes \<Rightarrow> envelope \<Rightarrow> bytes ma_result" where
  "decrypt_content L shared_secret e =
     decrypt L (env_encrypted_content e) shared_secret BLAKE3_CONTENT_LABEL"

text \<open>Clock readings of \<open>decrypt\<close>: validation of the headers, then again in \<open>from_headers\<close>.\<close>

definition envelope_decrypt :: "'x msg_lib_scheme \<Rightarrow> clock \<Rightarrow> clock \<Rightarrow> encryption_key \<Rightarrow> envelope \<Rightarrow>
    message ma_result" where
  "envelope_decrypt L c1 c2 rk e =
     bindR (envelope_verify e) (\<lambda>_.
     bindR (compute_shared_secret L (env_ephemeral_key e) rk) (\<lambda>shared_secret.
     bindR (decrypt_headers L shared_secret e) (\<lambda>h.
     bindR (headers_validate L c1 h) (\<lambda>_.
     bindR (decrypt_content L shared_secret e) (\<lambda>content.
     bindR (from_headers L c2 h) (\<lambda>m. Inr (m\<lparr>msg_content := content\<rparr>)))))))"

definition envelope_open :: "'x msg_lib_scheme \<Rightarrow> clock \<Rightarrow> clock \<Rightarrow> clock \<Rightarrow> encryption_key \<Rightarrow> envelope \<Rightarrow>
    document \<Rightarrow> message ma_result" where
  "envelope_open L c1 c2 c3 rk e sender_document =
     bindR (envelope_verify e) (\<lambda>_.
     bindR (compute_shared_secret L (env_ephemeral_key e) rk) (\<lambda>shared_secret.
     bindR (decrypt_headers L shared_secret e) (\<lambda>h.
     bindR (headers_validate L c1 h) (\<lambda>_.
     bindR (decrypt_content L shared_secret e) (\<lambda>content.
     bindR (from_headers L c2 h) (\<lambda>m0.
     let m = m0\<lparr>msg_content := content\<rparr> in
     bindR (verify_with_document L c3 m sender_document) (\<lambda>_. Inr m)))))))"

definition open_with_replay_guard :: "'x msg_lib_scheme \<Rightarrow> clock \<Rightarrow> clock \<Rightarrow> clocks3 \<Rightarrow> encryption_key \<Rightarrow>
    envelope \<Rightarrow> document \<Rightarrow> replay_guard \<Rightarrow> message ma_result \<times> replay_guard" where
  "open_with_replay_guard L c1 c2 c3 rk e sender_document g =
     (case bindR (envelope_verify e) (\<lambda>_.
           bindR (compute_shared_secret L (env_ephemeral_key e) rk) (\<lambda>shared_secret.
           bindR (decrypt_headers L shared_secret e) (\<lambda>h.
           bindR (decrypt_content L shared_secret e) (\<lambda>content.
           bindR (from_headers L c1 h) (\<lambda>m0.
           let m = m0\<lparr>msg_content := content\<rparr> in
           bindR (verify_with_document L c2 m sender_document) (\<lambda>_. Inr m)))))) of
        Inl err \<Rightarrow> (Inl err, g)
      | Inr m \<Rightarrow>
          (case check_and_insert L c3 (message_headers L m) g of
             (Inl err, g1) \<Rightarrow> (Inl err, g1)
           | (Inr _, g1) \<Rightarrow> (Inr m, g1)))"

section \<open>Lemmas\<close>

lemma decrypt_encrypt:
  assumes "msg_laws L" and "length nonce = 24"
    and "encrypt L nonce data (derive_symmetric_key L s label) = Inr c"
  shows "decrypt L c s label = Inr data \<and> c \<noteq> []"
  using assms msg_lawsD(6) [OF assms(1)]
  by (auto simp: encrypt_def decrypt_def result_simps)

lemma enclose_for_Inr:
  assumes "enclose_for L clk eph n1 n2 m doc = Inr e"
  shows "\<exists>pk h. key_agreement_public_key_bytes L doc = Inr pk \<and> headers_cbor L m = Inr h
    \<and> headers_validate L clk (unsigned_headers L m) = Inr ()
    \<and> env_ephemeral_key e = x25519_public L eph
    \<and> encrypt L n1 h (derive_symmetric_key L (x25519_diffie_hellman L eph pk) BLAKE3_HEADERS_LABEL)
        = Inr (env_encrypted_headers e)
    \<and> encrypt L n2 (msg_content m)
        (derive_symmetric_key L (x25519_diffie_hellman L eph pk) BLAKE3_CONTENT_LABEL)
        = Inr (env_encrypted_content e)"
  using assms by (auto simp: enclose_for_def Let_def result_simps)

text \<open>What the recipient computes from an envelope that was sealed for it.\<close>

lemma sealed_envelope:
  assumes laws: "msg_laws L" and seal: "enclose_for L clk eph n1 n2 m doc = Inr e"
    and nonces: "length n1 = 24" "length n2 = 24"
    and key: "key_agreement_public_key_bytes L doc = Inr (x25519_public L (ek_private_key rk))"
  shows "envelope_verify e = Inr ()"
    and "\<exists>s. compute_shared_secret L (env_ephemeral_key e) rk = Inr s
      \<and> decrypt_headers L s e = Inr (message_headers L m)
      \<and> decrypt_content L s e = Inr (msg_content m)"
proof -
  note cl = msg_lawsD(1) [OF laws]
  define s where "s = x25519_diffie_hellman L eph (x25519_public L (ek_private_key rk))"
  obtain h where h: "headers_cbor L m = Inr h"
    and eph: "env_ephemeral_key e = x25519_public L eph"
    and eh: "encrypt L n1 h (derive_symmetric_key L s BLAKE3_HEADERS_LABEL) = Inr (env_encrypted_headers e)"
    and ec: "encrypt L n2 (msg_content m) (derive_symmetric_key L s BLAKE3_CONTENT_LABEL) =
        Inr (env_encrypted_content e)"
    using enclose_for_Inr [OF seal] key by (auto simp: s_def)
  note dh = decrypt_encrypt [OF laws nonces(1) eh] and dc = decrypt_encrypt [OF laws nonces(2) ec]
  show "envelope_verify e = Inr ()"
    using dh dc public_keys_nonempty(2) [OF cl] crypto_lawsD(7) [OF cl]
    by (simp add: envelope_verify_def eph)
  have "compute_shared_secret L (env_ephemeral_key e) rk = Inr s"
    using crypto_lawsD(7,8) [OF cl]
    by (simp add: compute_shared_secret_def eph encryption_shared_secret_def s_def)
  moreover have "headers_of_cbor L h = Inr (message_headers L m)"
    using h msg_lawsD(3) [OF laws, of "message_headers L m"]
    by (auto simp: headers_cbor_def result_simps)
  ultimately show "\<exists>s. compute_shared_secret L (env_ephemeral_key e) rk = Inr s
      \<and> decrypt_headers L s e = Inr (message_headers L m)
      \<and> decrypt_content L s e = Inr (msg_content m)"
    using dh dc by (auto simp: decrypt_headers_def decrypt_content_def)
qed

lemma decrypt_sealed:
  assumes "msg_laws L" and "enclose_for L clk eph n1 n2 m doc = Inr e"
    and "length n1 = 24" and "length n2 = 24"
    and "key_agreement_public_key_bytes L doc = Inr (x25519_public L (ek_private_key rk))"
    and "headers_validate L c1 (unsigned_headers L m) = Inr ()"
    and "headers_validate L c2 (unsigned_headers L m) = Inr ()"
  shows "envelope_decrypt L c1 c2 rk e = Inr m"
  using sealed_envelope [OF assms(1-5)] assms(6,7) from_headers_message [OF assms(7)]
  by (auto simp: envelope_decrypt_def)

text \<open>Whatever the clocks say, a sealed envelope opens to nothing but the message in it.\<close>

lemma decrypt_sealed_only:
  assumes "msg_laws L" and "enclose_for L clk eph n1 n2 m doc = Inr e"
    and "length n1 = 24" and "length n2 = 24"
    and "key_agreement_public_key_bytes L doc = Inr (x25519_public L (ek_private_key rk))"
    and opened: "envelope_decrypt L c1 c2 rk e = Inr m'"
  shows "m' = m"
proof -
  obtain m0 where m0: "from_headers L c2 (message_headers L m) = Inr m0" "m' = m0\<lparr>msg_content := msg_content m\<rparr>"
    using sealed_envelope [OF assms(1-5)] opened by (auto simp: envelope_decrypt_def result_simps)
  then have "headers_validate L c2 (unsigned_headers L m) = Inr ()"
    using from_headers_Inr [OF m0(1)] by simp
  then show ?thesis using from_headers_message m0 by fastforce
qed

lemma envelope_open_eq:
  "envelope_open L c1 c2 c3 rk e doc =
     bindR (envelope_decrypt L c1 c2 rk e) (\<lambda>m. bindR (verify_with_document L c3 m doc) (\<lambda>_. Inr m))"
  by (simp add: envelope_open_def envelope_decrypt_def bindR_assoc Let_def)

section \<open>Properties\<close>

text \<open>C6: What is sealed for a recipient is opened by that recipient, and only the sender's
  document has a say in whether it is accepted: opening an enclosed message yields the very
  same message if it verifies, and the verification error otherwise.\<close>

theorem envelope_roundtrip:
  assumes "msg_laws L" and "enclose_for L clk eph n1 n2 m rdoc = Inr e"
    and "length n1 = 24" and "length n2 = 24"
    and "key_agreement_public_key_bytes L rdoc = Inr (x25519_public L (ek_private_key rk))"
    and "validate_message_freshness c1 (msg_created_at m) (msg_exp m) = Inr ()"
    and "validate_message_freshness c2 (msg_created_at m) (msg_exp m) = Inr ()"
  shows "envelope_open L c1 c2 c3 rk e sdoc =
    (case verify_with_document L c3 m sdoc of Inl err \<Rightarrow> Inl err | Inr _ \<Rightarrow> Inr m)"
proof -
  obtain pk where v: "headers_validate L clk (unsigned_headers L m) = Inr ()"
    using enclose_for_Inr [OF assms(2)] by blast
  have "headers_validate L c1 (unsigned_headers L m) = Inr ()"
    by (rule headers_validate_later [OF v]) (use assms(6) in \<open>simp add: unsigned_headers_def\<close>)
  moreover have "headers_validate L c2 (unsigned_headers L m) = Inr ()"
    by (rule headers_validate_later [OF v]) (use assms(7) in \<open>simp add: unsigned_headers_def\<close>)
  ultimately have "envelope_decrypt L c1 c2 rk e = Inr m"
    by (rule decrypt_sealed [OF assms(1-5)])
  then show ?thesis
    by (cases "verify_with_document L c3 m sdoc") (simp_all add: envelope_open_eq)
qed

lemma demo_message_headers_valid:
  "headers_validate demo_msg_lib (Some 1000) (unsigned_headers demo_msg_lib demo_message) = Inr ()"
  using demo_headers_ok by (simp add: demo_headers_def)

lemma demo_enclosed:
  assumes "key_agreement_public_key_bytes demo_msg_lib doc = Inr pk"
  shows "\<exists>e. enclose_for demo_msg_lib (Some 1000) demo_secret (replicate 24 1) (replicate 24 2)
    demo_message doc = Inr e"
proof -
  obtain h where "headers_cbor demo_msg_lib demo_message = Inr h"
    using msg_lawsD(3) [OF demo_msg_laws, of "message_headers demo_msg_lib demo_message"]
    by (auto simp: headers_cbor_def)
  moreover have "xchacha20_encrypt demo_msg_lib k n p = Some (0 # k @ n @ p)" for k n p
    by (simp add: demo_lib_defs)
  ultimately show ?thesis
    using assms by (simp add: enclose_for_def demo_message_headers_valid Let_def encrypt_def)
qed

theorem envelope_roundtrip_witness:
  "\<exists>rk rdoc e. enclose_for demo_msg_lib (Some 1000) demo_secret (replicate 24 1) (replicate 24 2)
      demo_message rdoc = Inr e
    \<and> envelope_open demo_msg_lib (Some 1005) (Some 1005) (Some 1005) rk e rdoc =
       (case verify_with_document demo_msg_lib (Some 1005) demo_message rdoc of
          Inl err \<Rightarrow> Inl err | Inr _ \<Rightarrow> Inr demo_message)"
proof -
  obtain rk :: encryption_key and doc :: document where k: "ek_private_key rk = demo_secret"
    and pk: "key_agreement_public_key_bytes demo_msg_lib doc = Inr (x25519_public demo_msg_lib demo_secret)"
    using demo_msg_keys by blast
  obtain e where e: "enclose_for demo_msg_lib (Some 1000) demo_secret (replicate 24 1)
      (replicate 24 2) demo_message doc = Inr e"
    using demo_enclosed [OF pk] by blast
  have f: "validate_message_freshness (Some 1005) (msg_created_at demo_message) (msg_exp demo_message) = Inr ()"
    by (simp add: demo_message_def validate_message_freshness_def now_unix_secs_def
        DEFAULT_MAX_CLOCK_SKEW_SECS_def)
  show ?thesis
    using envelope_roundtrip [OF demo_msg_laws e _ _ _ f f, of rk "Some 1005" doc] e k pk by auto
qed

text \<open>The message that an envelope holds for the owner of a key, signed or not.\<close>

definition envelope_holds :: "'x msg_lib_scheme \<Rightarrow> clock \<Rightarrow> encryption_key \<Rightarrow> envelope \<Rightarrow> message \<Rightarrow> bool" where
  "envelope_holds L clk rk e m \<longleftrightarrow>
     (\<exists>s h m0 content. compute_shared_secret L (env_ephemeral_key e) rk = Inr s
        \<and> decrypt_headers L s e = Inr h \<and> decrypt_content L s e = Inr content
        \<and> from_headers L clk h = Inr m0 \<and> m = m0\<lparr>msg_content := content\<rparr>)"

text \<open>C8: Opening with a replay guard returns a message only if it is the one in the envelope, its
  signature verified against the sender's document, and the guard did not remember its id;
  then the guard has dropped what is older than its window and remembers the id. An envelope
  that holds no message, or one that does not verify against the document, leaves the guard
  exactly as it was, so a forged message cannot use up an id or drop one; and a refusal by
  the guard itself only drops what is older than the window.\<close>

theorem replay_guarded_open:
  "case open_with_replay_guard L c1 c2 c3 rk e doc g of
     (Inr m, g') \<Rightarrow> envelope_holds L c1 rk e m \<and> verify_with_document L c2 m doc = Inr ()
       \<and> (\<exists>p n. c_prune c3 = Some p \<and> c_insert c3 = Some n \<and> recent_ids p g (msg_id m) = None
            \<and> g' = g\<lparr>seen := (recent_ids p g)(msg_id m \<mapsto> n)\<rparr>)
   | (Inl err, g') \<Rightarrow> g' = g
       \<or> (\<exists>m p. envelope_holds L c1 rk e m \<and> verify_with_document L c2 m doc = Inr ()
            \<and> c_prune c3 = Some p \<and> g' = g\<lparr>seen := recent_ids p g\<rparr>
            \<and> (recent_ids p g (msg_id m) \<noteq> None \<and> err = ReplayDetected \<or> c_insert c3 = None))"
proof (cases "open_with_replay_guard L c1 c2 c3 rk e doc g")
  case (Pair r g')
  have i: "hd_id (message_headers L m) = msg_id m" for m
    by (simp add: message_headers_def unsigned_headers_def)
  show ?thesis
  proof (cases r)
    case (Inl err)
    then have "g' = g \<or> (\<exists>m. envelope_holds L c1 rk e m \<and> verify_with_document L c2 m doc = Inr ()
        \<and> check_and_insert L c3 (message_headers L m) g = (Inl err, g'))"
      using Pair by (auto simp: open_with_replay_guard_def envelope_holds_def Let_def result_simps
          split: sum.splits prod.splits)
    then show ?thesis using check_and_insert_refuses [where g = g] Pair Inl i by fastforce
  next
    case (Inr m)
    then have "envelope_holds L c1 rk e m \<and> verify_with_document L c2 m doc = Inr ()
        \<and> (\<exists>u. check_and_insert L c3 (message_headers L m) g = (Inr u, g'))"
      using Pair by (auto simp: open_with_replay_guard_def envelope_holds_def Let_def result_simps
          split: sum.splits prod.splits) 
    then show ?thesis using check_and_insert_accepts [where g = g] Pair Inr i by fastforce
  qed
qed

end
