(* ===== verification/TtlQueue.thy ===== *)
theory TtlQueue
  imports Prelude
begin

text \<open>
  The bounded FIFO queue with per-item expiry of \<^verbatim>\<open>ttl_queue.rs\<close>. The \<open>VecDeque\<close> is a
  list, front first; a panic is \<open>None\<close>. The interface a mailbox offers its consumers is
  the locale \<open>fifo_buffer\<close>, interpreted on the queue here and on the shared inbox in its
  own theory.
\<close>

section \<open>The queue and its operations\<close>

record 'a ttl_queue =
  buf :: "(u64 \<times> 'a) list"
  capacity :: nat

definition ttl_new :: "nat \<Rightarrow> 'a ttl_queue option" where
  "ttl_new cap = (if cap > 0 then Some \<lparr>buf = [], capacity = cap\<rparr> else None)"

text \<open>An absolute expiry of 0 never expires.\<close>

definition expired :: "u64 \<Rightarrow> u64 \<Rightarrow> bool" where
  "expired now expires_at \<longleftrightarrow> expires_at > 0 \<and> expires_at \<le> now"

fun evict_loop :: "u64 \<Rightarrow> (u64 \<times> 'a) list \<Rightarrow> (u64 \<times> 'a) list" where
  "evict_loop now [] = []"
| "evict_loop now ((e, x) # q) = (if expired now e then evict_loop now q else (e, x) # q)"

definition evict :: "u64 \<Rightarrow> 'a ttl_queue \<Rightarrow> 'a ttl_queue" where
  "evict now q = q\<lparr>buf := evict_loop now (buf q)\<rparr>"

definition ttl_push :: "u64 \<Rightarrow> u64 \<Rightarrow> 'a \<Rightarrow> 'a ttl_queue \<Rightarrow> 'a ttl_queue" where
  "ttl_push now expires_at item q =
     (let q1 = evict now q;
          b = (if length (buf q1) \<ge> capacity q1 then tl (buf q1) else buf q1)
      in q1\<lparr>buf := b @ [(expires_at, item)]\<rparr>)"

definition ttl_pop :: "u64 \<Rightarrow> 'a ttl_queue \<Rightarrow> 'a option \<times> 'a ttl_queue" where
  "ttl_pop now q =
     (let q1 = evict now q
      in case buf q1 of [] \<Rightarrow> (None, q1) | (e, x) # b \<Rightarrow> (Some x, q1\<lparr>buf := b\<rparr>))"

definition ttl_peek :: "u64 \<Rightarrow> 'a ttl_queue \<Rightarrow> 'a option \<times> 'a ttl_queue" where
  "ttl_peek now q =
     (let q1 = evict now q
      in (case buf q1 of [] \<Rightarrow> None | (e, x) # b \<Rightarrow> Some x, q1))"

definition ttl_drain :: "u64 \<Rightarrow> 'a ttl_queue \<Rightarrow> 'a list \<times> 'a ttl_queue" where
  "ttl_drain now q = (let q1 = evict now q in (map snd (buf q1), q1\<lparr>buf := []\<rparr>))"

definition ttl_len :: "'a ttl_queue \<Rightarrow> nat" where
  "ttl_len q = length (buf q)"

definition ttl_is_empty :: "'a ttl_queue \<Rightarrow> bool" where
  "ttl_is_empty q \<longleftrightarrow> buf q = []"

section \<open>The eviction loop\<close>

lemma evict_loop_dropWhile: "evict_loop now b = dropWhile (\<lambda>(e, x). expired now e) b"
  by (induction now b rule: evict_loop.induct) auto

lemma capacity_ops [simp]:
  "capacity (evict now q) = capacity q"
  "capacity (ttl_push now e x q) = capacity q"
  "capacity (snd (ttl_pop now q)) = capacity q"
  "capacity (snd (ttl_peek now q)) = capacity q"
  "capacity (snd (ttl_drain now q)) = capacity q"
  by (auto simp: evict_def ttl_push_def ttl_pop_def ttl_peek_def ttl_drain_def Let_def
      split: list.splits prod.splits)

lemma buf_evict: "buf (evict now q) = dropWhile (\<lambda>(e, x). expired now e) (buf q)"
  by (simp add: evict_def evict_loop_dropWhile)

lemma evict_drop: "\<exists>k. buf (evict now q) = drop k (buf q)"
  unfolding buf_evict by (metis dropWhile_eq_drop)

lemma length_evict_le: "length (buf (evict now q)) \<le> length (buf q)"
  by (simp add: buf_evict length_dropWhile_le)

lemma hd_evict_fresh: "buf (evict now q) = (e, x) # b \<Longrightarrow> \<not> expired now e"
  by (auto simp: buf_evict dropWhile_eq_Cons_conv)

lemma evict_idem [simp]: "evict now (evict now q) = evict now q"
  by (simp add: evict_def evict_loop_dropWhile)

lemma expired_mono: "expired now e \<Longrightarrow> now \<le> now' \<Longrightarrow> expired now' e"
  by (auto simp: expired_def)

section \<open>Invariant\<close>

text \<open>The buffer never outgrows a positive capacity.\<close>

definition ttl_inv :: "'a ttl_queue \<Rightarrow> bool" where
  "ttl_inv q \<longleftrightarrow> 0 < capacity q \<and> length (buf q) \<le> capacity q"

lemma ttl_inv_new: "ttl_new cap = Some q \<Longrightarrow> ttl_inv q \<and> buf q = []"
  by (auto simp: ttl_new_def ttl_inv_def split: if_splits)

lemma ttl_inv_evict: "ttl_inv q \<Longrightarrow> ttl_inv (evict now q)"
  using length_evict_le [of now q] by (simp add: ttl_inv_def)

lemma buf_ttl_push:
  "buf (ttl_push now e x q) =
     (if length (buf (evict now q)) \<ge> capacity q then tl (buf (evict now q))
      else buf (evict now q)) @ [(e, x)]"
  by (simp add: ttl_push_def Let_def)

lemma ttl_inv_push: "ttl_inv q \<Longrightarrow> ttl_inv (ttl_push now e x q)"
  using ttl_inv_evict [of q now] by (auto simp: ttl_inv_def buf_ttl_push)

lemma buf_ttl_pop: "buf (snd (ttl_pop now q)) = tl (buf (evict now q))"
  by (auto simp: ttl_pop_def Let_def split: list.splits)

lemma fst_ttl_pop:
  "fst (ttl_pop now q) = (case buf (evict now q) of [] \<Rightarrow> None | p # b \<Rightarrow> Some (snd p))"
  by (auto simp: ttl_pop_def Let_def split: list.splits)

lemma ttl_inv_pop: "ttl_inv q \<Longrightarrow> ttl_inv (snd (ttl_pop now q))"
  using ttl_inv_evict [of q now] by (auto simp: ttl_inv_def buf_ttl_pop)

lemma ttl_inv_peek: "ttl_inv q \<Longrightarrow> ttl_inv (snd (ttl_peek now q))"
  by (simp add: ttl_peek_def Let_def ttl_inv_evict)

lemma ttl_inv_drain: "ttl_inv q \<Longrightarrow> ttl_inv (snd (ttl_drain now q))"
  by (simp add: ttl_drain_def Let_def ttl_inv_def)

section \<open>The consumer's view: a lossy FIFO buffer\<close>

text \<open>
  A run of a buffer is a sequence of pushes and of reads; a read hands over a list of
  items. The same run functions serve the queue and the shared inbox.
\<close>

datatype ('i, 'a, 't) buffer_op = Push 'i 'a | Read 't

fun buffer_run :: "('i \<Rightarrow> 'a \<Rightarrow> 'q \<Rightarrow> 'q) \<Rightarrow> ('t \<Rightarrow> 'q \<Rightarrow> 'a list \<times> 'q) \<Rightarrow>
    ('i, 'a, 't) buffer_op list \<Rightarrow> 'q \<Rightarrow> 'a list \<times> 'q" where
  "buffer_run push read [] q = ([], q)"
| "buffer_run push read (Push i x # ops) q = buffer_run push read ops (push i x q)"
| "buffer_run push read (Read t # ops) q =
     (let (xs, q1) = read t q; (ys, q2) = buffer_run push read ops q1 in (xs @ ys, q2))"

fun pushed :: "('i, 'a, 't) buffer_op list \<Rightarrow> 'a list" where
  "pushed [] = []"
| "pushed (Push i x # ops) = x # pushed ops"
| "pushed (Read t # ops) = pushed ops"

text \<open>
  What a consumer relies on: a push appends one item and may lose items at the front, a
  read hands over a front segment and may lose items before it, and what a read hands over
  leaves the buffer.
\<close>

locale fifo_buffer =
  fixes contents :: "'q \<Rightarrow> 'a list"
    and push :: "'i \<Rightarrow> 'a \<Rightarrow> 'q \<Rightarrow> 'q"
    and read :: "'t \<Rightarrow> 'q \<Rightarrow> 'a list \<times> 'q"
  assumes push_contents: "\<exists>k. contents (push i x q) = drop k (contents q) @ [x]"
    and read_contents: "\<exists>k. fst (read t q) @ contents (snd (read t q)) = drop k (contents q)"
begin

text \<open>
  Over any run, what was handed over followed by what is left is a subsequence of what was
  there followed by what was pushed: nothing is duplicated, reordered or made up.
\<close>

lemma run_subseq:
  "subseq (fst (buffer_run push read ops q) @ contents (snd (buffer_run push read ops q)))
     (contents q @ pushed ops)"
proof (induction ops arbitrary: q)
  case Nil
  then show ?case by simp
next
  case (Cons op ops)
  show ?case
  proof (cases op)
    case (Push i x)
    obtain k where "contents (push i x q) = drop k (contents q) @ [x]"
      using push_contents by blast
    then have "subseq (contents (push i x q) @ pushed ops) (contents q @ pushed (op # ops))"
      using Push by (simp add: list_emb_append_mono suffix_drop suffix_imp_subseq)
    then show ?thesis
      using Cons [of "push i x q"] Push subseq_order.trans by fastforce
  next
    case (Read t)
    obtain k where k: "fst (read t q) @ contents (snd (read t q)) = drop k (contents q)"
      using read_contents by blast
    have "subseq (fst (read t q) @ contents (snd (read t q)) @ pushed ops)
        (contents q @ pushed ops)"
      unfolding append_assoc [symmetric] k
      by (simp add: list_emb_append_mono suffix_drop suffix_imp_subseq)
    moreover have "subseq (fst (read t q) @
        fst (buffer_run push read ops (snd (read t q))) @
        contents (snd (buffer_run push read ops (snd (read t q)))))
        (fst (read t q) @ contents (snd (read t q)) @ pushed ops)"
      using Cons [of "snd (read t q)"] by (simp add: list_emb_append_mono)
    ultimately show ?thesis
      using Read subseq_order.trans by (auto simp: Let_def split: prod.splits)
  qed
qed

lemma delivered_subseq:
  assumes "contents q = []"
  shows "subseq (fst (buffer_run push read ops q)) (pushed ops)"
  using run_subseq [of ops q] assms
  by (metis append_Nil prefixI prefix_imp_subseq subseq_order.trans)

end

text \<open>The queue's reads: \<open>pop\<close> and \<open>drain\<close>, each at a reading of the clock.\<close>

datatype queue_read = Pop u64 | Drain u64

fun ttl_read :: "queue_read \<Rightarrow> 'a ttl_queue \<Rightarrow> 'a list \<times> 'a ttl_queue" where
  "ttl_read (Pop now) q =
     (case ttl_pop now q of (None, q1) \<Rightarrow> ([], q1) | (Some x, q1) \<Rightarrow> ([x], q1))"
| "ttl_read (Drain now) q = ttl_drain now q"

definition ttl_push_at :: "u64 \<times> u64 \<Rightarrow> 'a \<Rightarrow> 'a ttl_queue \<Rightarrow> 'a ttl_queue" where
  "ttl_push_at t x q = ttl_push (fst t) (snd t) x q"

definition ttl_items :: "'a ttl_queue \<Rightarrow> 'a list" where
  "ttl_items q = map snd (buf q)"

lemma evict_items: "\<exists>k. map snd (buf (evict now q)) = drop k (ttl_items q)"
  using evict_drop [of now q] by (metis drop_map ttl_items_def)

interpretation ttl: fifo_buffer ttl_items ttl_push_at ttl_read
proof unfold_locales
  fix i :: "u64 \<times> u64" and x :: 'a and q :: "'a ttl_queue"
  obtain k where k: "map snd (buf (evict (fst i) q)) = drop k (ttl_items q)"
    using evict_items by blast
  show "\<exists>k. ttl_items (ttl_push_at i x q) = drop k (ttl_items q) @ [x]"
    using k by (auto simp: ttl_push_at_def ttl_items_def [of "ttl_push _ _ _ _"] buf_ttl_push
        map_tl tl_drop drop_Suc [symmetric])
next
  fix t :: queue_read and q :: "'a ttl_queue"
  obtain k where k: "map snd (buf (evict (case t of Pop n \<Rightarrow> n | Drain n \<Rightarrow> n) q)) =
      drop k (ttl_items q)"
    using evict_items by blast
  then show "\<exists>k. fst (ttl_read t q) @ ttl_items (snd (ttl_read t q)) = drop k (ttl_items q)"
    by (cases t) (auto simp: ttl_pop_def ttl_drain_def Let_def ttl_items_def [of "_\<lparr>buf := _\<rparr>"]
        ttl_items_def [of "evict _ _"] split: list.splits)
qed

section \<open>Properties of the queue\<close>

lemma snd_ttl_read:
  "snd (ttl_read t q) = (case t of Pop n \<Rightarrow> snd (ttl_pop n q) | Drain n \<Rightarrow> snd (ttl_drain n q))"
  by (cases t) (simp_all split: prod.split option.split)

lemma ttl_inv_read: "ttl_inv q \<Longrightarrow> ttl_inv (snd (ttl_read t q))"
  by (simp add: snd_ttl_read ttl_inv_pop ttl_inv_drain split: queue_read.split)

lemma capacity_read: "capacity (snd (ttl_read t q)) = capacity q"
  by (simp add: snd_ttl_read split: queue_read.split)

lemma ttl_run_inv:
  "ttl_inv q \<Longrightarrow> ttl_inv (snd (buffer_run ttl_push_at ttl_read ops q))
     \<and> capacity (snd (buffer_run ttl_push_at ttl_read ops q)) = capacity q"
proof (induction ops arbitrary: q)
  case (Cons op ops)
  show ?case
  proof (cases op)
    case (Push t x)
    then show ?thesis using Cons by (simp add: ttl_push_at_def ttl_inv_push)
  next
    case (Read t)
    then show ?thesis
      using Cons.IH [OF ttl_inv_read [OF Cons.prems, of t]]
      by (auto simp: Let_def capacity_read split: prod.splits)
  qed
qed simp

lemma ttl_run_bounded:
  assumes "ttl_new cap = Some q"
  shows "length (buf (snd (buffer_run ttl_push_at ttl_read ops q))) \<le> cap"
proof -
  have "capacity q = cap" using assms by (auto simp: ttl_new_def split: if_splits)
  then show ?thesis
    using ttl_inv_new [OF assms] ttl_run_inv [of q ops] by (simp add: ttl_inv_def)
qed

text \<open>A pop throws away exactly the expired items in front of the first fresh one, hands
  that one over and keeps the rest; it returns nothing only if every item had expired.\<close>

theorem ttl_pop_spec:
  "case ttl_pop now q of
     (None, q') \<Rightarrow> list_all (\<lambda>(e, x). expired now e) (buf q) \<and> buf q' = []
   | (Some x, q') \<Rightarrow>
       (\<exists>pre e. buf q = pre @ (e, x) # buf q' \<and> list_all (\<lambda>(e, x). expired now e) pre
          \<and> \<not> expired now e)"
proof (cases "dropWhile (\<lambda>(e, x). expired now e) (buf q)")
  case Nil
  then have "list_all (\<lambda>(e, x). expired now e) (buf q)" by (simp add: list_all_iff dropWhile_eq_Nil_conv)
  moreover have "buf (evict now q) = []" using Nil by (simp only: buf_evict)
  ultimately show ?thesis by (simp add: ttl_pop_def)
next
  case (Cons p rest)
  obtain e x where p: "p = (e, x)" by force
  have "buf q = takeWhile (\<lambda>(e, x). expired now e) (buf q) @ (e, x) # rest"
    using Cons p by (metis takeWhile_dropWhile_id)
  moreover have "list_all (\<lambda>(e, x). expired now e) (takeWhile (\<lambda>(e, x). expired now e) (buf q))"
    by (auto simp: list_all_iff dest: set_takeWhileD)
  moreover have "\<not> expired now e" using Cons p by (auto simp: dropWhile_eq_Cons_conv)
  ultimately show ?thesis
    using Cons p by (auto simp: ttl_pop_def Let_def buf_evict)
qed

text \<open>A push keeps the new item and as many of the unevicted items as fit, the newest
  ones: only the oldest is dropped, and only when the queue is full.\<close>

theorem ttl_push_spec:
  assumes "ttl_inv q"
  shows "buf (ttl_push now e x q) =
    drop (length (buf (evict now q)) + 1 - capacity q) (buf (evict now q)) @ [(e, x)]"
proof -
  have "length (buf (evict now q)) \<le> capacity q"
    using ttl_inv_evict [OF assms] by (simp add: ttl_inv_def)
  then show ?thesis by (auto simp: buf_ttl_push drop_Suc dest: le_antisym)
qed

theorem ttl_push_spec_witness:
  "buf (ttl_push 5 9 ''c'' \<lparr>buf = [(4, ''x''), (8, ''a''), (0, ''b'')], capacity = 3\<rparr>) =
     drop (length (buf (evict 5 \<lparr>buf = [(4, ''x''), (8, ''a''), (0, ''b'')], capacity = 3\<rparr>)) + 1
        - capacity \<lparr>buf = [(4, ''x''), (8, ''a''), (0, ''b'')], capacity = 3\<rparr>)
       (buf (evict 5 \<lparr>buf = [(4, ''x''), (8, ''a''), (0, ''b'')], capacity = 3\<rparr>)) @ [(9, ''c'')]"
  by (rule ttl_push_spec) (simp add: ttl_inv_def)

text \<open>
  Expiry only looks at the head: when items arrive in the order they expire, that is enough
  for a drain to hand over the fresh items and nothing else.
\<close>

definition expiry_ordered :: "(u64 \<times> 'a) list \<Rightarrow> bool" where
  "expiry_ordered b \<longleftrightarrow> sorted_wrt (\<lambda>p q. fst q = 0 \<or> (fst p > 0 \<and> fst p \<le> fst q)) b"

lemma dropWhile_expired_ordered:
  "expiry_ordered b \<Longrightarrow>
     dropWhile (\<lambda>(e, x). expired now e) b = filter (\<lambda>(e, x). \<not> expired now e) b"
proof (induction b)
  case (Cons p b)
  then have ih: "dropWhile (\<lambda>(e, x). expired now e) b = filter (\<lambda>(e, x). \<not> expired now e) b"
    by (simp add: expiry_ordered_def)
  show ?case
  proof (cases "expired now (fst p)")
    case False
    have "\<not> expired now (fst r)" if "r \<in> set b" for r
      using Cons.prems that False by (fastforce simp: expiry_ordered_def expired_def)
    then have "filter (\<lambda>(e, x). \<not> expired now e) b = b" by (fastforce simp: filter_id_conv)
    then show ?thesis using False by (auto split: prod.splits)
  qed (use ih in \<open>auto split: prod.splits\<close>)
qed simp

text \<open>If the items are queued in the order in which they expire, a drain returns exactly
  the items that have not expired, in order, and empties the queue.\<close>

theorem ttl_drain_ordered:
  assumes "expiry_ordered (buf q)"
  shows "fst (ttl_drain now q) = map snd (filter (\<lambda>(e, x). \<not> expired now e) (buf q))
    \<and> buf (snd (ttl_drain now q)) = []"
  using dropWhile_expired_ordered [OF assms] by (simp add: ttl_drain_def Let_def buf_evict)

theorem ttl_drain_ordered_witness:
  "fst (ttl_drain 5 \<lparr>buf = [(4, ''x''), (8, ''a''), (0, ''b'')], capacity = 3\<rparr>) =
     map snd (filter (\<lambda>(e, x). \<not> expired 5 e)
       (buf \<lparr>buf = [(4, ''x''), (8, ''a''), (0, ''b'')], capacity = 3\<rparr>))
   \<and> buf (snd (ttl_drain 5 \<lparr>buf = [(4, ''x''), (8, ''a''), (0, ''b'')], capacity = 3\<rparr>)) = []"
  by (rule ttl_drain_ordered) (simp add: expiry_ordered_def)

text \<open>Without that order a drain can return an item whose lifetime is over: one that
  waits behind a head that is still fresh is handed over however long ago it expired.\<close>

theorem ttl_drain_returns_expired:
  "\<exists>(q :: string ttl_queue) e x now. ttl_inv q \<and> (e, x) \<in> set (buf q) \<and> expired now e
     \<and> x \<in> set (fst (ttl_drain now q))"
proof -
  let ?q = "\<lparr>buf = [(300, ''fresh''), (150, ''stale'')], capacity = 8\<rparr> :: string ttl_queue"
  have "ttl_inv ?q \<and> (150, ''stale'') \<in> set (buf ?q) \<and> expired 200 150
     \<and> ''stale'' \<in> set (fst (ttl_drain 200 ?q))"
    by (simp add: ttl_inv_def expired_def ttl_drain_def evict_def Let_def)
  then show ?thesis by blast
qed

end
