(* ===== verification/Inbox.thy ===== *)
theory Inbox
  imports TtlQueue
begin

text \<open>
  The shared inbox handle of \<^verbatim>\<open>inbox.rs\<close>. An \<open>Arc<Mutex<TtlQueue>>\<close> is an address of a
  store, so that clones of a handle alias the same queue; each operation locks, and is one
  atomic step on the store.
\<close>

section \<open>The store and the handle\<close>

record 'a inbox_store =
  cells :: "nat \<Rightarrow> 'a ttl_queue"
  next_cell :: nat

record inbox =
  queue :: nat

definition inbox_new :: "nat \<Rightarrow> 'a inbox_store \<Rightarrow> (inbox \<times> 'a inbox_store) option" where
  "inbox_new cap s =
     (case ttl_new cap of
        None \<Rightarrow> None
      | Some q \<Rightarrow>
          Some (\<lparr>queue = next_cell s\<rparr>,
                s\<lparr>cells := (cells s)(next_cell s := q), next_cell := next_cell s + 1\<rparr>))"

definition inbox_clone :: "inbox \<Rightarrow> inbox" where
  "inbox_clone i = \<lparr>queue = queue i\<rparr>"

text \<open>Run one operation of the queue under the lock of a handle.\<close>

definition with_lock :: "inbox \<Rightarrow> ('a ttl_queue \<Rightarrow> 'r \<times> 'a ttl_queue) \<Rightarrow> 'a inbox_store \<Rightarrow>
    'r \<times> 'a inbox_store" where
  "with_lock i f s =
     (let (r, q) = f (cells s (queue i)) in (r, s\<lparr>cells := (cells s)(queue i := q)\<rparr>))"

definition inbox_push :: "inbox \<Rightarrow> u64 \<Rightarrow> u64 \<Rightarrow> 'a \<Rightarrow> 'a inbox_store \<Rightarrow> 'a inbox_store" where
  "inbox_push i now expires_at item s =
     snd (with_lock i (\<lambda>q. ((), ttl_push now expires_at item q)) s)"

definition inbox_pop :: "inbox \<Rightarrow> u64 \<Rightarrow> 'a inbox_store \<Rightarrow> 'a option \<times> 'a inbox_store" where
  "inbox_pop i now s = with_lock i (ttl_pop now) s"

definition inbox_peek :: "inbox \<Rightarrow> u64 \<Rightarrow> 'a inbox_store \<Rightarrow> 'a option \<times> 'a inbox_store" where
  "inbox_peek i now s = with_lock i (ttl_peek now) s"

definition inbox_drain :: "inbox \<Rightarrow> u64 \<Rightarrow> 'a inbox_store \<Rightarrow> 'a list \<times> 'a inbox_store" where
  "inbox_drain i now s = with_lock i (ttl_drain now) s"



section \<open>Aliasing\<close>

lemma cells_with_lock [simp]:
  "cells (snd (with_lock i f s)) = (cells s)(queue i := snd (f (cells s (queue i))))"
  "fst (with_lock i f s) = fst (f (cells s (queue i)))"
  "next_cell (snd (with_lock i f s)) = next_cell s"
  by (simp_all add: with_lock_def split: prod.splits)

lemma cells_inbox_ops:
  "cells (inbox_push i now e x s) = (cells s)(queue i := ttl_push now e x (cells s (queue i)))"
  "cells (snd (inbox_pop i now s)) = (cells s)(queue i := snd (ttl_pop now (cells s (queue i))))"
  "cells (snd (inbox_drain i now s)) = (cells s)(queue i := snd (ttl_drain now (cells s (queue i))))"
  by (simp_all add: inbox_push_def inbox_pop_def inbox_drain_def)

text \<open>
  A handle whose inbox exists; the inbox store is well formed when every inbox in it keeps
  the queue's invariant.
\<close>

definition store_inv :: "'a inbox_store \<Rightarrow> bool" where
  "store_inv s \<longleftrightarrow> (\<forall>a < next_cell s. ttl_inv (cells s a))"

lemma store_inv_lock:
  "store_inv s \<Longrightarrow> (\<And>q. ttl_inv q \<Longrightarrow> ttl_inv (snd (f q))) \<Longrightarrow> store_inv (snd (with_lock i f s))"
  by (simp add: store_inv_def)

lemma store_inv_ops:
  assumes "store_inv s"
  shows "store_inv (inbox_push i now e x s)" and "store_inv (snd (inbox_pop i now s))"
    and "store_inv (snd (inbox_peek i now s))" and "store_inv (snd (inbox_drain i now s))"
    and "inbox_new cap s = Some (h, s') \<Longrightarrow> store_inv s'"
  using assms
  by (auto simp: inbox_push_def inbox_pop_def inbox_peek_def inbox_drain_def inbox_new_def
      store_inv_def less_Suc_eq ttl_inv_push ttl_inv_pop ttl_inv_peek ttl_inv_drain
      dest: ttl_inv_new split: option.splits)

lemma inbox_new_fresh:
  assumes "inbox_new cap s = Some (h, s')"
  shows "queue h = next_cell s \<and> buf (cells s' (queue h)) = []
    \<and> (\<forall>a. a \<noteq> queue h \<longrightarrow> cells s' a = cells s a)"
  using assms by (auto simp: inbox_new_def dest: ttl_inv_new split: option.splits)

section \<open>The inbox as a lossy FIFO buffer\<close>

datatype inbox_read = InboxPop u64 | InboxDrain u64

fun inbox_take :: "inbox \<Rightarrow> inbox_read \<Rightarrow> 'a inbox_store \<Rightarrow> 'a list \<times> 'a inbox_store" where
  "inbox_take i (InboxPop now) s =
     (case inbox_pop i now s of (None, s1) \<Rightarrow> ([], s1) | (Some x, s1) \<Rightarrow> ([x], s1))"
| "inbox_take i (InboxDrain now) s = inbox_drain i now s"

definition inbox_items :: "inbox \<Rightarrow> 'a inbox_store \<Rightarrow> 'a list" where
  "inbox_items i s = ttl_items (cells s (queue i))"

definition inbox_push_at :: "inbox \<Rightarrow> u64 \<times> u64 \<Rightarrow> 'a \<Rightarrow> 'a inbox_store \<Rightarrow> 'a inbox_store" where
  "inbox_push_at i t x s = inbox_push i (fst t) (snd t) x s"

fun queue_view :: "inbox_read \<Rightarrow> queue_read" where
  "queue_view (InboxPop now) = Pop now"
| "queue_view (InboxDrain now) = Drain now"

lemma inbox_take_queue:
  "fst (inbox_take i t s) = fst (ttl_read (queue_view t) (cells s (queue i)))"
  "cells (snd (inbox_take i t s)) =
     (cells s)(queue i := snd (ttl_read (queue_view t) (cells s (queue i))))"
  by (cases t; auto simp: inbox_pop_def inbox_drain_def with_lock_def
      split: prod.splits option.splits)+

interpretation shared: fifo_buffer "inbox_items i" "inbox_push_at i" "inbox_take i" for i
proof unfold_locales
  fix t :: "u64 \<times> u64" and x :: 'a and s :: "'a inbox_store"
  show "\<exists>k. inbox_items i (inbox_push_at i t x s) = drop k (inbox_items i s) @ [x]"
    using ttl.push_contents [of t x "cells s (queue i)"]
    by (simp add: inbox_items_def inbox_push_at_def cells_inbox_ops ttl_push_at_def)
next
  fix t :: inbox_read and s :: "'a inbox_store"
  show "\<exists>k. fst (inbox_take i t s) @ inbox_items i (snd (inbox_take i t s)) =
      drop k (inbox_items i s)"
    using ttl.read_contents [of "queue_view t" "cells s (queue i)"]
    by (simp add: inbox_items_def inbox_take_queue)
qed

section \<open>Interleaving\<close>

text \<open>
  A schedule interleaves the pushes and reads that many threads make through many handles;
  its trace lists, for each read, the address read and the items handed over.
\<close>

type_synonym 'a inbox_event = "inbox \<times> (u64 \<times> u64, 'a, inbox_read) buffer_op"

fun inbox_schedule :: "'a inbox_event list \<Rightarrow> 'a inbox_store \<Rightarrow>
    (nat \<times> 'a list) list \<times> 'a inbox_store" where
  "inbox_schedule [] s = ([], s)"
| "inbox_schedule ((i, Push t x) # evs) s = inbox_schedule evs (inbox_push_at i t x s)"
| "inbox_schedule ((i, Read t) # evs) s =
     (let (xs, s1) = inbox_take i t s; (tr, s2) = inbox_schedule evs s1
      in ((queue i, xs) # tr, s2))"

definition delivered_at :: "nat \<Rightarrow> (nat \<times> 'a list) list \<Rightarrow> 'a list" where
  "delivered_at a tr = concat (map snd (filter (\<lambda>p. fst p = a) tr))"

fun queue_op :: "('i, 'a, inbox_read) buffer_op \<Rightarrow> ('i, 'a, queue_read) buffer_op" where
  "queue_op (Push t x) = Push t x"
| "queue_op (Read t) = Read (queue_view t)"

definition ops_at :: "nat \<Rightarrow> 'a inbox_event list \<Rightarrow> (u64 \<times> u64, 'a, queue_read) buffer_op list" where
  "ops_at a evs = map (queue_op \<circ> snd) (filter (\<lambda>ev. queue (fst ev) = a) evs)"

lemma ops_at_simps [simp]:
  "ops_at a [] = []"
  "ops_at a (ev # evs) =
     (if queue (fst ev) = a then queue_op (snd ev) # ops_at a evs else ops_at a evs)"
  by (simp_all add: ops_at_def)

text \<open>Seen from one address, the schedule is the run of the operations on that address.\<close>

lemma schedule_projection:
  "(delivered_at a (fst (inbox_schedule evs s)), cells (snd (inbox_schedule evs s)) a) =
     buffer_run ttl_push_at ttl_read (ops_at a evs) (cells s a)"
proof (induction evs s rule: inbox_schedule.induct)
  case (1 s)
  then show ?case by (simp add: delivered_at_def)
next
  case (2 i t x evs s)
  then show ?case by (simp add: inbox_push_at_def ttl_push_at_def cells_inbox_ops)
next
  case (3 i t evs s)
  have IH: "(delivered_at a (fst (inbox_schedule evs (snd (inbox_take i t s)))),
      cells (snd (inbox_schedule evs (snd (inbox_take i t s)))) a) =
      buffer_run ttl_push_at ttl_read (ops_at a evs) (cells (snd (inbox_take i t s)) a)"
    using 3 [OF refl, of "fst (inbox_take i t s)" "snd (inbox_take i t s)"] by simp
  show ?case
    using IH inbox_take_queue [of i t s]
    by (auto simp: delivered_at_def Let_def split: prod.splits if_splits)
qed

text \<open>However reads and pushes through any number of cloned handles interleave, what the
  readers of one inbox receive is a subsequence of what was pushed to that inbox: no message
  is delivered twice, out of order, or from another inbox, and the queue stays bounded.\<close>

theorem inbox_interleaving_fifo:
  assumes "inbox_new cap s0 = Some (h, s)"
  shows "subseq (delivered_at (queue h) (fst (inbox_schedule evs s))) (pushed (ops_at (queue h) evs))
    \<and> length (buf (cells (snd (inbox_schedule evs s)) (queue h))) \<le> cap"
proof -
  have q: "ttl_new cap = Some (cells s (queue h))"
    using assms by (auto simp: inbox_new_def split: option.splits)
  then show ?thesis
    using schedule_projection [of "queue h" evs s] ttl_run_bounded [OF q, of "ops_at (queue h) evs"]
      ttl.delivered_subseq [of "cells s (queue h)" "ops_at (queue h) evs"] ttl_inv_new [OF q]
    by (auto simp: ttl_items_def prod_eq_iff)
qed

definition empty_store :: "'a inbox_store" where
  "empty_store = \<lparr>cells = (\<lambda>_. \<lparr>buf = [], capacity = 0\<rparr>), next_cell = 0\<rparr>"

theorem inbox_interleaving_fifo_witness:
  "subseq (delivered_at (queue \<lparr>queue = 0\<rparr>)
        (fst (inbox_schedule [(\<lparr>queue = 0\<rparr>, Push (1, 9) ''a''), (\<lparr>queue = 0\<rparr>, Read (InboxPop 2))]
          (empty_store\<lparr>cells := (cells empty_store)(0 := \<lparr>buf = [], capacity = 4\<rparr>),
             next_cell := 0 + 1\<rparr>))))
      (pushed (ops_at (queue \<lparr>queue = 0\<rparr>)
        [(\<lparr>queue = 0\<rparr>, Push (1, 9) ''a''), (\<lparr>queue = 0\<rparr>, Read (InboxPop 2))]))
   \<and> length (buf (cells (snd (inbox_schedule
        [(\<lparr>queue = 0\<rparr>, Push (1, 9) ''a''), (\<lparr>queue = 0\<rparr>, Read (InboxPop 2))]
          (empty_store\<lparr>cells := (cells empty_store)(0 := \<lparr>buf = [], capacity = 4\<rparr>),
             next_cell := 0 + 1\<rparr>))) (queue \<lparr>queue = 0\<rparr>))) \<le> 4"
  by (rule inbox_interleaving_fifo [where ?s0.0 = empty_store])
    (simp add: inbox_new_def ttl_new_def empty_store_def)

text \<open>A clone is the same queue; another inbox is not touched.\<close>

lemma inbox_clone_id [simp]: "inbox_clone i = i"
  by (cases i) (simp add: inbox_clone_def)

lemma inbox_clone_alias: "inbox_pop (inbox_clone i) now s = inbox_pop i now s"
  by (cases i) (simp add: inbox_clone_def)

lemma inbox_frame:
  "queue j \<noteq> queue i \<Longrightarrow> inbox_items j (snd (inbox_pop i now s)) = inbox_items j s"
  "queue j \<noteq> queue i \<Longrightarrow> inbox_items j (inbox_push i now e x s) = inbox_items j s"
  by (simp_all add: inbox_items_def cells_inbox_ops)

section \<open>The contract of a mailbox\<close>













end
