(* ===== verification/Inbound.thy ===== *)
theory Inbound
  imports Envelope Inbox
begin

text \<open>
  The receiving side (\<open>InboundSecurity\<close> and the stream handlers of
  \<^verbatim>\<open>iroh/endpoint.rs\<close>): decoding a payload, the encryption policy, verification against the
  resolved sender document, the replay guard, and the push into the inbox. The resolver is
  a parameter. The \<open>Arc<Mutex<ReplayGuard>>\<close> shared by all handlers is the guard in the
  state that the handlers pass along.
\<close>

section \<open>Decoding\<close>

definition DEFAULT_MAX_INBOUND_MESSAGE_SIZE :: nat where
  "DEFAULT_MAX_INBOUND_MESSAGE_SIZE = 1024 * 1024"

definition skip_resolver_verification :: "string \<Rightarrow> string \<Rightarrow> bool" where
  "skip_resolver_verification protocol message_type \<longleftrightarrow>
     protocol = IPFS_PROTOCOL_ID \<and> message_type = MESSAGE_TYPE_IDENTITY_PUBLISH_REQUEST"

definition same_base_did :: "'x did_lib_scheme \<Rightarrow> string \<Rightarrow> string \<Rightarrow> bool result" where
  "same_base_did L left right =
     bindR (map_err Validation (parse L left)) (\<lambda>(l, _).
     bindR (map_err Validation (parse L right)) (\<lambda>(r, _). Inr (l = r)))"

record inbound_security =
  is_recipient_key :: encryption_key
  is_replay_guard :: replay_guard

definition inbound_security_new :: "encryption_key \<Rightarrow> inbound_security" where
  "inbound_security_new rk = \<lparr>is_recipient_key = rk, is_replay_guard = replay_default\<rparr>"

text \<open>
  The clock readings of one decoding: two by \<open>decrypt\<close>, one by the verification, three by
  the guard.
\<close>

record decode_clocks =
  dc_decrypt1 :: clock
  dc_decrypt2 :: clock
  dc_verify :: clock
  dc_guard :: clocks3

text \<open>The message in a payload and whether it was encrypted.\<close>

definition unwrap_payload :: "'x msg_lib_scheme \<Rightarrow> decode_clocks \<Rightarrow> encryption_key \<Rightarrow> bytes \<Rightarrow>
    (message \<times> bool) result" where
  "unwrap_payload L c rk payload =
     (case envelope_decode L payload of
        Inr envelope \<Rightarrow>
          bindR (map_err Validation (envelope_decrypt L (dc_decrypt1 c) (dc_decrypt2 c) rk envelope))
            (\<lambda>m. Inr (m, True))
      | Inl _ \<Rightarrow> bindR (map_err Validation (message_decode L payload)) (\<lambda>m. Inr (m, False)))"

text \<open>The checks that come before the replay guard.\<close>

definition admit_message :: "'x msg_lib_scheme \<Rightarrow> (string \<Rightarrow> document result) \<Rightarrow> decode_clocks \<Rightarrow>
    encryption_key \<Rightarrow> bytes \<Rightarrow> string \<Rightarrow> message result" where
  "admit_message L resolve c rk payload protocol =
     bindR (unwrap_payload L c rk payload) (\<lambda>(m, encrypted).
     if encrypted \<and> msg_type m = MESSAGE_TYPE_BROADCAST
     then Inl (Validation BroadcastMustNotBeEncrypted)
     else if \<not> encrypted \<and> msg_type m \<noteq> MESSAGE_TYPE_BROADCAST
     then Inl (Validation EncryptionRequired)
     else bindR (if encrypted then same_base_did L (msg_to m) (did_id (ek_did rk)) else Inr True)
       (\<lambda>same.
     if encrypted \<and> \<not> same then Inl (Validation InvalidRecipient)
     else bindR (if \<not> skip_resolver_verification protocol (msg_type m)
            then bindR (resolve (msg_from m)) (\<lambda>sender_document.
                   map_err Validation (verify_with_document L (dc_verify c) m sender_document))
            else Inr ()) (\<lambda>_. Inr m)))"

definition inbound_decode :: "'x msg_lib_scheme \<Rightarrow> (string \<Rightarrow> document result) \<Rightarrow> decode_clocks \<Rightarrow>
    bytes \<Rightarrow> string \<Rightarrow> inbound_security \<Rightarrow> message result \<times> inbound_security" where
  "inbound_decode L resolve c payload protocol s =
     (case admit_message L resolve c (is_recipient_key s) payload protocol of
        Inl e \<Rightarrow> (Inl e, s)
      | Inr m \<Rightarrow>
          (case check_and_insert L (dc_guard c) (message_headers L m) (is_replay_guard s) of
             (Inl e, g) \<Rightarrow> (Inl (Validation e), s\<lparr>is_replay_guard := g\<rparr>)
           | (Inr _, g) \<Rightarrow> (Inr m, s\<lparr>is_replay_guard := g\<rparr>)))"

section \<open>The stream handler\<close>

text \<open>
  What reading a stream to its end gives: the payload, a read error (also when the payload
  exceeds the limit), or the 30 second timeout.
\<close>

datatype stream_read = ReadOk bytes | ReadErr string | ReadTimeout

definition read_to_end :: "nat \<Rightarrow> bytes \<Rightarrow> stream_read" where
  "read_to_end limit sent = (if length sent \<le> limit then ReadOk sent else ReadErr ''stream too long'')"

text \<open>
  The task spawned per stream, for inbound connections (\<open>InboxProtocolHandler::accept\<close>) and
  for streams the peer opens on an outbound connection: every failure is logged and drops
  the stream. \<open>now_secs\<close> panics when the clock is before the epoch, which ends the task.
\<close>

definition handle_stream :: "'x msg_lib_scheme \<Rightarrow> (string \<Rightarrow> document result) \<Rightarrow> decode_clocks \<Rightarrow> clock \<Rightarrow>
    string \<Rightarrow> inbox \<Rightarrow> stream_read \<Rightarrow> inbound_security \<times> message inbox_store \<Rightarrow>
    inbound_security \<times> message inbox_store" where
  "handle_stream L resolve c now protocol i r st =
     (case r of
        ReadErr _ \<Rightarrow> st
      | ReadTimeout \<Rightarrow> st
      | ReadOk payload \<Rightarrow>
          (case inbound_decode L resolve c payload protocol (fst st) of
             (Inl _, s) \<Rightarrow> (s, snd st)
           | (Inr m, s) \<Rightarrow>
               (case now of
                  None \<Rightarrow> (s, snd st)
                | Some t \<Rightarrow> (s, inbox_push i t (msg_exp m) m (snd st)))))"

section \<open>Lemmas\<close>

lemma envelope_decrypt_valid:
  assumes "envelope_decrypt L c1 c2 rk e = Inr m"
  shows "headers_validate L c2 (unsigned_headers L m) = Inr ()"
proof -
  obtain h m0 content where "from_headers L c2 h = Inr m0" "m = m0\<lparr>msg_content := content\<rparr>"
    using assms by (auto simp: envelope_decrypt_def result_simps)
  then show ?thesis
    by (auto simp: from_headers_def result_simps headers_validate_ok unsigned_headers_def)
qed

lemma admit_message_Inr:
  assumes "admit_message L resolve c rk payload protocol = Inr m"
  shows "\<exists>encrypted. unwrap_payload L c rk payload = Inr (m, encrypted)
    \<and> (msg_type m = MESSAGE_TYPE_BROADCAST \<longleftrightarrow> \<not> encrypted)
    \<and> (encrypted \<longrightarrow> same_base_did L (msg_to m) (did_id (ek_did rk)) = Inr True)
    \<and> (skip_resolver_verification protocol (msg_type m)
       \<or> (\<exists>doc. resolve (msg_from m) = Inr doc \<and> verify_with_document L (dc_verify c) m doc = Inr ()))"
  using assms
  by (auto simp: admit_message_def result_simps split: if_splits prod.splits)

lemma unwrap_payload_Inr:
  assumes "unwrap_payload L c rk payload = Inr (m, encrypted)"
  shows "encrypted \<Longrightarrow> \<exists>e. envelope_decode L payload = Inr e
      \<and> envelope_decrypt L (dc_decrypt1 c) (dc_decrypt2 c) rk e = Inr m"
    and "\<not> encrypted \<Longrightarrow> message_decode L payload = Inr m"
  using assms by (auto simp: unwrap_payload_def result_simps split: sum.splits)

lemma inbound_decode_Inr:
  assumes "inbound_decode L resolve c payload protocol s = (Inr m, s')"
  shows "admit_message L resolve c (is_recipient_key s) payload protocol = Inr m
    \<and> (\<exists>g. check_and_insert L (dc_guard c) (message_headers L m) (is_replay_guard s) = (Inr (), g)
        \<and> s' = s\<lparr>is_replay_guard := g\<rparr>)"
  using assms by (auto simp: inbound_decode_def split: sum.splits prod.splits)

lemma message_headers_id [simp]: "hd_id (message_headers L m) = msg_id m"
  by (simp add: message_headers_def unsigned_headers_def)

section \<open>Safety of what is accepted\<close>

text \<open>C1: A payload is accepted only if every check of the receiving side held: a message that is
  not a broadcast came encrypted and is addressed to this endpoint's identity, a broadcast
  came in the clear and without a recipient, the headers are valid and fresh, and the
  message verifies against the document that its sender resolves to (the one exception being
  identity publication on the IPFS protocol). Its id was not among those that the guard
  still remembered; afterwards the guard remembers it with the second of the acceptance,
  and otherwise exactly what it remembered within the window.\<close>

theorem inbound_accept_safe:
  assumes "inbound_decode L resolve c payload protocol s = (Inr m, s')"
  shows "(if msg_type m = MESSAGE_TYPE_BROADCAST
      then message_decode L payload = Inr m \<and> trim (msg_to m) = []
      else (\<exists>e. envelope_decode L payload = Inr e
            \<and> envelope_decrypt L (dc_decrypt1 c) (dc_decrypt2 c) (is_recipient_key s) e = Inr m)
        \<and> same_base_did L (msg_to m) (did_id (ek_did (is_recipient_key s))) = Inr True)
    \<and> headers_validate L (c_validate (dc_guard c)) (message_headers L m) = Inr ()
    \<and> (skip_resolver_verification protocol (msg_type m)
       \<or> (\<exists>doc. resolve (msg_from m) = Inr doc \<and> verify_with_document L (dc_verify c) m doc = Inr ()))
    \<and> (\<exists>p n. c_prune (dc_guard c) = Some p \<and> c_insert (dc_guard c) = Some n
        \<and> recent_ids p (is_replay_guard s) (msg_id m) = None
        \<and> s' = s\<lparr>is_replay_guard := (is_replay_guard s)\<lparr>seen :=
              (recent_ids p (is_replay_guard s))(msg_id m \<mapsto> n)\<rparr>\<rparr>)"
proof -
  note a = inbound_decode_Inr [OF assms]
  then obtain g where g: "check_and_insert L (dc_guard c) (message_headers L m) (is_replay_guard s) = (Inr (), g)"
    and s': "s' = s\<lparr>is_replay_guard := g\<rparr>" by blast
  note guard = check_and_insert_accepts [OF g, unfolded message_headers_id]
  obtain encrypted where u: "unwrap_payload L c (is_recipient_key s) payload = Inr (m, encrypted)"
    and e: "msg_type m = MESSAGE_TYPE_BROADCAST \<longleftrightarrow> \<not> encrypted"
    and r: "encrypted \<longrightarrow> same_base_did L (msg_to m) (did_id (ek_did (is_recipient_key s))) = Inr True"
    and k: "skip_resolver_verification protocol (msg_type m)
       \<or> (\<exists>doc. resolve (msg_from m) = Inr doc \<and> verify_with_document L (dc_verify c) m doc = Inr ())"
    using admit_message_Inr [OF conjunct1 [OF a]] by blast
  have "trim (msg_to m) = []" if "msg_type m = MESSAGE_TYPE_BROADCAST"
    using conjunct1 [OF guard] that by (simp add: headers_validate_ok) (simp add: unsigned_headers_def)
  then show ?thesis
    using unwrap_payload_Inr [OF u] e r k guard s' by (cases encrypted) auto
qed

text \<open>C38: A rejected payload does no harm. One that fails a check before the replay guard, with the
  error of that check, leaves the state exactly as it was; so does one that the guard refuses
  for its headers. Otherwise the guard refused a replay, or the clock failed, and all that
  happened is that ids older than the window were dropped: no rejected payload uses up a
  message id or makes the guard forget one within the window.\<close>

theorem inbound_reject_harmless:
  assumes "inbound_decode L resolve c payload protocol s = (Inl e, s')"
  shows "case admit_message L resolve c (is_recipient_key s) payload protocol of
      Inl e' \<Rightarrow> e = e' \<and> s' = s
    | Inr m \<Rightarrow> s' = s \<and> (c_prune (dc_guard c) = None
          \<or> (\<exists>e'. e = Validation e' \<and> headers_validate L (c_validate (dc_guard c)) (message_headers L m) = Inl e'))
        \<or> (\<exists>p. c_prune (dc_guard c) = Some p
            \<and> s' = s\<lparr>is_replay_guard := (is_replay_guard s)\<lparr>seen := recent_ids p (is_replay_guard s)\<rparr>\<rparr>
            \<and> (recent_ids p (is_replay_guard s) (msg_id m) \<noteq> None \<and> e = Validation ReplayDetected
               \<or> c_insert (dc_guard c) = None))"
proof (cases "admit_message L resolve c (is_recipient_key s) payload protocol")
  case (Inl e')
  then show ?thesis using assms by (simp add: inbound_decode_def)
next
  case (Inr m)
  then obtain e' g where g: "check_and_insert L (dc_guard c) (message_headers L m) (is_replay_guard s) = (Inl e', g)"
    and e: "e = Validation e'" "s' = s\<lparr>is_replay_guard := g\<rparr>"
    using assms by (auto simp: inbound_decode_def split: sum.splits prod.splits)
  then show ?thesis
    using Inr check_and_insert_refuses [OF g] by auto
qed

section \<open>The receiving side is a replay filter\<close>

text \<open>One payload arriving on a protocol, with the clock readings its decoding takes.\<close>

record inbound_event =
  ie_clocks :: decode_clocks
  ie_payload :: bytes
  ie_protocol :: string

text \<open>
  The id an event carries: that of the message it would be admitted as, with the given key;
  the empty string, which is no message id, when it is not admitted.
\<close>

definition inbound_key :: "'x msg_lib_scheme \<Rightarrow> (string \<Rightarrow> document result) \<Rightarrow> encryption_key \<Rightarrow>
    inbound_event \<Rightarrow> string" where
  "inbound_key L resolve rk e =
     (case admit_message L resolve (ie_clocks e) rk (ie_payload e) (ie_protocol e) of
        Inr m \<Rightarrow> msg_id m | Inl _ \<Rightarrow> [])"

text \<open>The state is the replay guard; the recipient key is the endpoint's.\<close>

definition inbound_offer :: "'x msg_lib_scheme \<Rightarrow> (string \<Rightarrow> document result) \<Rightarrow> encryption_key \<Rightarrow>
    inbound_event \<Rightarrow> replay_guard \<Rightarrow> bool \<times> replay_guard" where
  "inbound_offer L resolve rk e g =
     (let (r, s) = inbound_decode L resolve (ie_clocks e) (ie_payload e) (ie_protocol e)
            \<lparr>is_recipient_key = rk, is_replay_guard = g\<rparr>
      in (is_ok r, is_replay_guard s))"

lemma inbound_offer_guard:
  "inbound_offer L resolve rk e g =
     (case admit_message L resolve (ie_clocks e) rk (ie_payload e) (ie_protocol e) of
        Inl _ \<Rightarrow> (False, g)
      | Inr m \<Rightarrow> guard_offer L \<lparr>ev_clocks = dc_guard (ie_clocks e), ev_headers = message_headers L m\<rparr> g)"
  by (auto simp: inbound_offer_def inbound_decode_def guard_offer_def Let_def
      split: sum.splits prod.splits)

interpretation inbound: replay_filter "inbound_offer L resolve rk" guard_memory
  "inbound_key L resolve rk"
  "\<lambda>e. clock_nat (c_prune (dc_guard (ie_clocks e)))"
  "\<lambda>e. clock_nat (c_insert (dc_guard (ie_clocks e)))"
  "\<lambda>g. unat (window_secs g)" for L resolve rk
proof unfold_locales
  fix e g
  show "unat (window_secs (snd (inbound_offer L resolve rk e g))) = unat (window_secs g)"
    by (auto simp: inbound_offer_guard guard.window_fixed split: sum.split)
next
  fix e g t
  assume "fst (inbound_offer L resolve rk e g)"
    and "guard_memory g (inbound_key L resolve rk e) = Some t"
  then show "unat (window_secs g) < clock_nat (c_prune (dc_guard (ie_clocks e))) - t"
    using guard.accept_unseen [where L = L and s = g and t = t]
    by (fastforce simp: inbound_offer_guard inbound_key_def ev_key_def split: sum.splits)
next
  fix e g
  assume "fst (inbound_offer L resolve rk e g)"
  then show "guard_memory (snd (inbound_offer L resolve rk e g)) (inbound_key L resolve rk e) =
      Some (clock_nat (c_insert (dc_guard (ie_clocks e))))"
    using guard.accept_stamps [where L = L and s = g]
    by (fastforce simp: inbound_offer_guard inbound_key_def ev_key_def split: sum.splits)
next
  fix g k t e
  assume "guard_memory g k = Some t"
    and "clock_nat (c_prune (dc_guard (ie_clocks e))) - t \<le> unat (window_secs g)"
    and "fst (inbound_offer L resolve rk e g) \<longrightarrow> inbound_key L resolve rk e \<noteq> k"
  then show "guard_memory (snd (inbound_offer L resolve rk e g)) k = Some t"
    using guard.keeps_recent [where L = L and s = g and t = t and k = k]
    by (fastforce simp: inbound_offer_guard inbound_key_def ev_key_def split: sum.splits)
qed

text \<open>The messages that a sequence of payloads delivers, in order.\<close>

fun delivered :: "'x msg_lib_scheme \<Rightarrow> (string \<Rightarrow> document result) \<Rightarrow> inbound_event list \<Rightarrow>
    inbound_security \<Rightarrow> message list" where
  "delivered L resolve [] s = []"
| "delivered L resolve (e # es) s =
     (case inbound_decode L resolve (ie_clocks e) (ie_payload e) (ie_protocol e) s of
        (Inl _, s1) \<Rightarrow> delivered L resolve es s1
      | (Inr m, s1) \<Rightarrow> m # delivered L resolve es s1)"

lemma inbound_decode_recipient:
  "is_recipient_key (snd (inbound_decode L resolve c p q s)) = is_recipient_key s"
  by (auto simp: inbound_decode_def split: sum.splits prod.splits)

lemma delivered_run:
  "map msg_id (delivered L resolve es s) =
     map (inbound_key L resolve (is_recipient_key s))
       (fst (replay_filter.filter_run (inbound_offer L resolve (is_recipient_key s)) es (is_replay_guard s)))"
proof (induction es arbitrary: s)
  case (Cons e es)
  obtain r s1 where d: "inbound_decode L resolve (ie_clocks e) (ie_payload e) (ie_protocol e) s = (r, s1)"
    by (cases "inbound_decode L resolve (ie_clocks e) (ie_payload e) (ie_protocol e) s")
  have rk: "is_recipient_key s1 = is_recipient_key s"
    using inbound_decode_recipient [of L resolve "ie_clocks e" "ie_payload e" "ie_protocol e" s] d by simp
  have eta: "\<lparr>is_recipient_key = is_recipient_key s, is_replay_guard = is_replay_guard s\<rparr> = s" by simp
  have o: "inbound_offer L resolve (is_recipient_key s) e (is_replay_guard s) = (is_ok r, is_replay_guard s1)"
    by (simp add: inbound_offer_def eta d)
  have k: "inbound_key L resolve (is_recipient_key s) e = msg_id m" if "r = Inr m" for m
    using inbound_decode_Inr d that by (fastforce simp: inbound_key_def)
  show ?case
    using Cons [of s1] d o k rk by (cases r) (simp_all add: case_prod_beta Let_def)
qed simp

text \<open>Over any sequence of payloads whose decodings happen within one replay window, no
  message id is delivered twice, whatever an attacker replays or forges in between.\<close>

theorem inbound_delivers_once:
  assumes "\<forall>e\<in>set es. \<forall>e'\<in>set es. clock_nat (c_prune (dc_guard (ie_clocks e')))
      - clock_nat (c_insert (dc_guard (ie_clocks e))) \<le> unat (window_secs (is_replay_guard s))"
  shows "distinct (map msg_id (delivered L resolve es s))"
  unfolding delivered_run by (rule inbound.accepted_distinct [OF assms])

section \<open>The skew allowance ends in the inbox\<close>

text \<open>A message received in the seconds after its expiry that the clock skew allowance still grants
  passes every check and its id is recorded, but the inbox takes it as expired: alone in its
  inbox it is never handed out, while a second copy would be refused as a replay.\<close>

theorem grace_message_lost:
  assumes "inbound_decode L resolve c payload protocol s = (Inr m, s')" and "expired t (msg_exp m)"
    and "buf (cells st (queue i)) = []" and "t \<le> t'"
    and "handle_stream L resolve c (Some t) protocol i (ReadOk payload) (s, st) = (s', st')"
  shows "fst (inbox_pop i t' st') = None \<and> fst (inbox_drain i t' st') = []
    \<and> seen (is_replay_guard s') (msg_id m) \<noteq> None"
proof -
  have "st' = inbox_push i t (msg_exp m) m st" using assms(1,5) by (simp add: handle_stream_def)
  then have "buf (cells st' (queue i)) = [(msg_exp m, m)]"
    using assms(3) by (simp add: inbox_push_def with_lock_def buf_ttl_push evict_def)
  moreover have "expired t' (msg_exp m)" using assms(2,4) by (rule expired_mono)
  ultimately have "fst (inbox_pop i t' st') = None" "fst (inbox_drain i t' st') = []"
    by (simp_all add: inbox_pop_def inbox_drain_def with_lock_def ttl_pop_def ttl_drain_def evict_def Let_def)
  moreover obtain g where g: "check_and_insert L (dc_guard c) (message_headers L m) (is_replay_guard s) = (Inr (), g)"
      "s' = s\<lparr>is_replay_guard := g\<rparr>"
    using inbound_decode_Inr [OF assms(1)] by blast
  have "seen (is_replay_guard s') (msg_id m) \<noteq> None" using check_and_insert_Inr [OF g(1)] g(2) by auto
  ultimately show ?thesis by blast
qed

section \<open>Witnesses\<close>

definition demo_broadcast_draft :: message_draft where
  "demo_broadcast_draft = \<lparr>dr_from = ''did:ma:6d61'', dr_to = [], dr_type = MESSAGE_TYPE_BROADCAST,
     dr_content_type = ''text/plain'', dr_content = [104, 105]\<rparr>"

definition demo_clocks :: "u64 \<Rightarrow> decode_clocks" where
  "demo_clocks t = \<lparr>dc_decrypt1 = Some t, dc_decrypt2 = Some t, dc_verify = Some t,
     dc_guard = \<lparr>c_validate = Some t, c_prune = Some t, c_insert = Some t\<rparr>\<rparr>"

lemma demo_broadcast_valid:
  assumes "hd_id h = ''m1''" "hd_protocol h = default_protocol" "hd_type h = MESSAGE_TYPE_BROADCAST"
    "hd_from h = ''did:ma:6d61''" "hd_to h = []" "hd_created_at h = 1000"
    "hd_exp h = 4600" "hd_content_type h = ''text/plain''" "hd_reply_to h = None"
  shows "headers_validate demo_msg_lib (Some 1000) h = Inr ()"
  using assms
  by (simp add: headers_validate_ok validate_message_id_def fragment_char_def ascii_defs
      validate_def validate_message_freshness_def now_unix_secs_def DEFAULT_MAX_CLOCK_SKEW_SECS_def)

lemma demo_broadcast_created:
  "\<exists>m. new_with_options demo_msg_lib (Some 1000) (Some 1000) ''m1'' demo_broadcast_draft 4600 None k = Inr m"
proof -
  have c: "encode_content demo_msg_lib c p \<noteq> []" for c p
    by (simp add: encode_content_def multicodec_encode_def demo_lib_defs demo_doc_lib_def
        demo_crypto_lib_def demo_did_lib_def demo_varint_encode_def)
  have s: "\<exists>b. message_sign demo_msg_lib k m = Inr b" for m
    using msg_lawsD(3) [OF demo_msg_laws]
    by (auto simp: message_sign_def unsigned_headers_cbor_def) (metis bindR_Inr map_err_Inr)
  show ?thesis
    using s by (simp add: new_with_options_def now_unix_secs_def Let_def demo_broadcast_valid
        unsigned_headers_def demo_broadcast_draft_def validate_content_def c)
qed

text \<open>A signed broadcast, encoded, is admitted by an endpoint that resolves its sender.\<close>

lemma demo_broadcast_admitted_by:
  assumes r: "resolve ''did:ma:6d61'' = Inr document" and i: "doc_id document = ''did:ma:6d61''"
    and f: "validate_message_freshness (Some t) 1000 4600 = Inr ()"
    and pk: "assertion_method_public_key demo_msg_lib document = Inr (ed25519_public demo_msg_lib demo_secret)"
    and k: "sk_secret_key sk = demo_secret"
  shows "\<exists>m. new_with_options demo_msg_lib (Some 1000) (Some 1000) ''m1'' demo_broadcast_draft 4600 None sk = Inr m
    \<and> admit_message demo_msg_lib resolve (demo_clocks t) rk (put_message m) INBOX_PROTOCOL_ID = Inr m"
proof -
  obtain m where m: "new_with_options demo_msg_lib (Some 1000) (Some 1000) ''m1''
      demo_broadcast_draft 4600 None sk = Inr m"
    using demo_broadcast_created by blast
  note mi = new_with_options_Inr [OF m]
  have f': "validate_message_freshness (Some t) (msg_created_at m) (msg_exp m) = Inr ()"
    using mi f by auto
  have d: "did_try_from demo_msg_lib (dr_from demo_broadcast_draft) = Inr \<lparr>ipns = ''6d61'', fragment = None\<rparr>"
    by (simp add: did_try_from_def demo_broadcast_draft_def)
  have v: "verify_with_document demo_msg_lib (Some t) m document = Inr ()"
    by (rule verify_created_message [OF demo_msg_laws m d _ _ f'])
      (simp_all add: i base_id_def DID_PREFIX_def pk k)
  have ty: "msg_type m = MESSAGE_TYPE_BROADCAST" "msg_id m = ''m1''" "msg_from m = ''did:ma:6d61''"
    using mi by (auto simp: demo_broadcast_draft_def)
  have e: "envelope_decode demo_msg_lib (put_message m) = Inl (CborDecode ''malformed'')"
    by (simp add: envelope_decode_def) (simp add: demo_lib_defs or_malformed_def)
  have dm: "message_decode demo_msg_lib (put_message m) = Inr m"
    using get_put_message [of m "[]"]
    by (simp add: message_decode_def) (simp add: demo_lib_defs or_malformed_def)
  have "admit_message demo_msg_lib resolve (demo_clocks t) rk (put_message m) INBOX_PROTOCOL_ID = Inr m"
    by (simp add: admit_message_def unwrap_payload_def e dm ty v r demo_clocks_def
        skip_resolver_verification_def protocol_defs)
  then show ?thesis using m by blast
qed

lemma demo_broadcast_admitted_at:
  assumes "resolve ''did:ma:6d61'' = Inr document" and "doc_id document = ''did:ma:6d61''"
    and "validate_message_freshness (Some t) 1000 4600 = Inr ()"
    and "assertion_method_public_key demo_msg_lib document = Inr (ed25519_public demo_msg_lib demo_secret)"
  shows "\<exists>m sk. new_with_options demo_msg_lib (Some 1000) (Some 1000) ''m1'' demo_broadcast_draft 4600 None sk = Inr m
    \<and> admit_message demo_msg_lib resolve (demo_clocks t) rk (put_message m) INBOX_PROTOCOL_ID = Inr m"
proof -
  obtain sk :: signing_key where k: "sk_secret_key sk = demo_secret"
    using demo_msg_keys by blast
  show ?thesis using demo_broadcast_admitted_by [where resolve = resolve, OF assms k] by blast
qed

lemma demo_broadcast_admitted:
  assumes r: "resolve ''did:ma:6d61'' = Inr document" and i: "doc_id document = ''did:ma:6d61''"
    and pk: "assertion_method_public_key demo_msg_lib document = Inr (ed25519_public demo_msg_lib demo_secret)"
  shows "\<exists>m sk. new_with_options demo_msg_lib (Some 1000) (Some 1000) ''m1'' demo_broadcast_draft 4600 None sk = Inr m
    \<and> admit_message demo_msg_lib resolve (demo_clocks 1000) rk (put_message m) INBOX_PROTOCOL_ID = Inr m"
  by (rule demo_broadcast_admitted_at [where resolve = resolve, OF r i _ pk])
    (simp add: validate_message_freshness_def now_unix_secs_def DEFAULT_MAX_CLOCK_SKEW_SECS_def)

text \<open>A fresh replay guard takes it.\<close>

lemma demo_broadcast_guarded_at:
  assumes "new_with_options demo_msg_lib (Some 1000) (Some 1000) ''m1'' demo_broadcast_draft 4600 None sk = Inr m"
    and "validate_message_freshness (Some t) 1000 4600 = Inr ()"
  shows "\<exists>g. check_and_insert demo_msg_lib (dc_guard (demo_clocks t)) (message_headers demo_msg_lib m)
      replay_default = (Inr (), g)"
proof -
  have "headers_validate demo_msg_lib (Some t) (message_headers demo_msg_lib m) = Inr ()"
    using new_with_options_Inr [OF assms(1)] assms(2)
    by (auto simp: unsigned_headers_def intro: headers_validate_later)
  then show ?thesis
    by (simp add: check_and_insert_def demo_clocks_def prune_old_def now_unix_secs_def replay_default_def
        replay_new_def retain_recent_def)
qed

lemma demo_broadcast_guarded:
  assumes "new_with_options demo_msg_lib (Some 1000) (Some 1000) ''m1'' demo_broadcast_draft 4600 None sk = Inr m"
  shows "\<exists>g. check_and_insert demo_msg_lib (dc_guard (demo_clocks 1000)) (message_headers demo_msg_lib m)
      replay_default = (Inr (), g)"
  by (rule demo_broadcast_guarded_at [OF assms])
    (simp add: validate_message_freshness_def now_unix_secs_def DEFAULT_MAX_CLOCK_SKEW_SECS_def)

lemma demo_broadcast_accepted_from:
  assumes r: "resolve ''did:ma:6d61'' = Inr document" and i: "doc_id document = ''did:ma:6d61''"
    and pk: "assertion_method_public_key demo_msg_lib document = Inr (ed25519_public demo_msg_lib demo_secret)"
  shows "\<exists>b m s'. inbound_decode demo_msg_lib resolve (demo_clocks 1000) b INBOX_PROTOCOL_ID
     (inbound_security_new rk) = (Inr m, s') \<and> msg_from m = ''did:ma:6d61''"
proof -
  obtain m sk where m: "new_with_options demo_msg_lib (Some 1000) (Some 1000) ''m1'' demo_broadcast_draft 4600 None sk = Inr m"
    and a: "admit_message demo_msg_lib resolve (demo_clocks 1000) rk (put_message m) INBOX_PROTOCOL_ID = Inr m"
    using demo_broadcast_admitted [where resolve = resolve and rk = rk, OF assms] by blast
  have "msg_from m = ''did:ma:6d61''"
    using new_with_options_Inr [OF m] by (auto simp: demo_broadcast_draft_def)
  then show ?thesis
    using a demo_broadcast_guarded [OF m]
    by (auto simp: inbound_decode_def inbound_security_new_def intro!: exI [of _ "put_message m"])
qed

lemma demo_broadcast_accepted:
  "\<exists>doc b m s'. inbound_decode demo_msg_lib (\<lambda>_. Inr doc) (demo_clocks 1000) b INBOX_PROTOCOL_ID
     (inbound_security_new rk) = (Inr m, s')"
proof -
  obtain doc :: document where "doc_id doc = ''did:ma:6d61''"
    and "assertion_method_public_key demo_msg_lib doc = Inr (ed25519_public demo_msg_lib demo_secret)"
    using demo_msg_keys by blast
  then show ?thesis using demo_broadcast_accepted_from [of "\<lambda>_. Inr doc" doc] by blast
qed

theorem inbound_accept_safe_witness:
  "\<exists>doc b m s'. inbound_decode demo_msg_lib (\<lambda>_. Inr doc) (demo_clocks 1000) b INBOX_PROTOCOL_ID
       (inbound_security_new demo_encryption_key) = (Inr m, s')
    \<and> seen (is_replay_guard s') (msg_id m) = Some 1000"
proof -
  obtain doc b m s' where a: "inbound_decode demo_msg_lib (\<lambda>_. Inr doc) (demo_clocks 1000) b
      INBOX_PROTOCOL_ID (inbound_security_new demo_encryption_key) = (Inr m, s')"
    using demo_broadcast_accepted by blast
  have "seen (is_replay_guard s') (msg_id m) = Some 1000"
    using inbound_accept_safe [OF a] by (auto simp: demo_clocks_def)
  then show ?thesis using a by blast
qed

text \<open>The same payload once more.\<close>

theorem inbound_reject_harmless_witness:
  "\<exists>doc b m s' s''. inbound_decode demo_msg_lib (\<lambda>_. Inr doc) (demo_clocks 1000) b INBOX_PROTOCOL_ID
       (inbound_security_new demo_encryption_key) = (Inr m, s')
    \<and> inbound_decode demo_msg_lib (\<lambda>_. Inr doc) (demo_clocks 1000) b INBOX_PROTOCOL_ID s' =
        (Inl (Validation ReplayDetected), s'')
    \<and> s'' = s'\<lparr>is_replay_guard := (is_replay_guard s')\<lparr>seen := recent_ids 1000 (is_replay_guard s')\<rparr>\<rparr>"
proof -
  obtain doc b m s' where a: "inbound_decode demo_msg_lib (\<lambda>_. Inr doc) (demo_clocks 1000) b
      INBOX_PROTOCOL_ID (inbound_security_new demo_encryption_key) = (Inr m, s')"
    using demo_broadcast_accepted by blast
  then obtain g where adm: "admit_message demo_msg_lib (\<lambda>_. Inr doc) (demo_clocks 1000)
      (is_recipient_key (inbound_security_new demo_encryption_key)) b INBOX_PROTOCOL_ID = Inr m"
    and g: "check_and_insert demo_msg_lib (dc_guard (demo_clocks 1000)) (message_headers demo_msg_lib m)
      (is_replay_guard (inbound_security_new demo_encryption_key)) = (Inr (), g)"
    and s': "s' = inbound_security_new demo_encryption_key\<lparr>is_replay_guard := g\<rparr>"
    using inbound_decode_Inr [OF a] by blast
  have v: "headers_validate demo_msg_lib (Some 1000) (message_headers demo_msg_lib m) = Inr ()"
    and t: "seen g (msg_id m) = Some 1000"
    using check_and_insert_accepts [OF g] by (auto simp: demo_clocks_def)
  have k: "is_recipient_key s' = is_recipient_key (inbound_security_new demo_encryption_key)"
    by (simp add: s' inbound_security_new_def)
  have "recent_ids 1000 g (msg_id m) = Some 1000" by (simp add: recent_ids_def t)
  then have "fst (check_and_insert demo_msg_lib (dc_guard (demo_clocks 1000)) (message_headers demo_msg_lib m) g)
      = Inl ReplayDetected"
    by (simp add: check_and_insert_def demo_clocks_def v [simplified] prune_old_def now_unix_secs_def
        retain_recent_ids)
  then obtain s'' where r: "inbound_decode demo_msg_lib (\<lambda>_. Inr doc) (demo_clocks 1000) b INBOX_PROTOCOL_ID s' =
        (Inl (Validation ReplayDetected), s'')"
    using adm unfolding inbound_decode_def k
    by (cases "check_and_insert demo_msg_lib (dc_guard (demo_clocks 1000)) (message_headers demo_msg_lib m) g")
      (simp add: s')
  have "s'' = s'\<lparr>is_replay_guard := (is_replay_guard s')\<lparr>seen := recent_ids 1000 (is_replay_guard s')\<rparr>\<rparr>"
    using inbound_reject_harmless [OF r, unfolded k, unfolded adm] v
    by (simp add: demo_clocks_def)
  then show ?thesis using a r by blast
qed

theorem inbound_delivers_once_witness:
  "distinct (map msg_id (delivered demo_msg_lib (\<lambda>_. Inl (NoInboxTransport [])) 
     [\<lparr>ie_clocks = demo_clocks 1000, ie_payload = [1, 0], ie_protocol = INBOX_PROTOCOL_ID\<rparr>,
      \<lparr>ie_clocks = demo_clocks 1100, ie_payload = [1, 0], ie_protocol = INBOX_PROTOCOL_ID\<rparr>]
     (inbound_security_new demo_encryption_key)))"
  by (rule inbound_delivers_once)
    (simp add: demo_clocks_def clock_nat_def inbound_security_new_def replay_default_def
      replay_new_def DEFAULT_REPLAY_WINDOW_SECS_def)

text \<open>Received ten seconds after its expiry.\<close>

theorem grace_message_lost_witness:
  "\<exists>doc m s' st'. handle_stream demo_msg_lib (\<lambda>_. Inr doc) (demo_clocks 4610) (Some 4610) INBOX_PROTOCOL_ID
      \<lparr>queue = 0\<rparr> (ReadOk (put_message m)) (inbound_security_new demo_encryption_key, empty_store\<lparr>cells := (\<lambda>_. \<lparr>buf = [], capacity = 256\<rparr>)\<rparr>) = (s', st')
    \<and> fst (inbox_pop \<lparr>queue = 0\<rparr> 4610 st') = None \<and> seen (is_replay_guard s') (msg_id m) \<noteq> None"
proof -
  obtain doc :: document where d: "doc_id doc = ''did:ma:6d61''"
    "assertion_method_public_key demo_msg_lib doc = Inr (ed25519_public demo_msg_lib demo_secret)"
    using demo_msg_keys by blast
  have f: "validate_message_freshness (Some 4610) 1000 4600 = Inr ()"
    by (simp add: validate_message_freshness_def now_unix_secs_def DEFAULT_MAX_CLOCK_SKEW_SECS_def)
  obtain m sk where m: "new_with_options demo_msg_lib (Some 1000) (Some 1000) ''m1'' demo_broadcast_draft 4600 None sk = Inr m"
    and a: "admit_message demo_msg_lib (\<lambda>_. Inr doc) (demo_clocks 4610) (is_recipient_key
      (inbound_security_new demo_encryption_key)) (put_message m) INBOX_PROTOCOL_ID = Inr m"
    using demo_broadcast_admitted_at [where resolve = "\<lambda>_. Inr doc", OF refl d(1) f d(2)] by blast
  obtain s' where s': "inbound_decode demo_msg_lib (\<lambda>_. Inr doc) (demo_clocks 4610) (put_message m) INBOX_PROTOCOL_ID
      (inbound_security_new demo_encryption_key) = (Inr m, s')"
    using a demo_broadcast_guarded_at [OF m f] by (auto simp: inbound_decode_def inbound_security_new_def)
  have e: "expired 4610 (msg_exp m)" using new_with_options_Inr [OF m] by (auto simp: expired_def)
  obtain st' where h: "handle_stream demo_msg_lib (\<lambda>_. Inr doc) (demo_clocks 4610) (Some 4610) INBOX_PROTOCOL_ID
      \<lparr>queue = 0\<rparr> (ReadOk (put_message m)) (inbound_security_new demo_encryption_key, empty_store\<lparr>cells := (\<lambda>_. \<lparr>buf = [], capacity = 256\<rparr>)\<rparr>) = (s', st')"
    using s' by (simp add: handle_stream_def)
  have "buf (cells (empty_store\<lparr>cells := (\<lambda>_. \<lparr>buf = [], capacity = 256\<rparr>)\<rparr>) (queue \<lparr>queue = 0\<rparr>)) = []" by simp
  from grace_message_lost [OF s' e this order_refl h] show ?thesis using h by blast
qed

end
