(* ===== verification/StreamTasks.thy ===== *)
theory StreamTasks
  imports Inbound
begin

text \<open>
  The receiving side under concurrency (\<open>InboxProtocolHandler::accept\<close> and the accept loop of
  outbound connections in \<^verbatim>\<open>iroh/endpoint.rs\<close>): every stream of every connection is a task of
  its own, and all of them share one replay guard behind a mutex. A step is what one task does
  between two points at which others can run: reading its stream, decrypting and verifying
  (which touches no shared state), one section under the guard's mutex, and the push.
\<close>

section \<open>Tasks\<close>

datatype stream_phase =
    NoStream
  | Reading
  | Decoding bytes
  | Guarding message
  | Pushing message
  | Finished

text \<open>
  The last two fields record the history: what was offered to the guard, in the order of its
  mutex, and what was pushed by which task.
\<close>

record rx_state =
  rx_guard :: replay_guard
  rx_store :: "message inbox_store"
  rx_phase :: "nat \<Rightarrow> stream_phase"
  rx_offers :: "(nat \<times> message \<times> clocks3) list"
  rx_pushed :: "(nat \<times> message) list"

definition rx_move :: "nat \<Rightarrow> stream_phase \<Rightarrow> rx_state \<Rightarrow> rx_state" where
  "rx_move t p s = s\<lparr>rx_phase := (rx_phase s)(t := p)\<rparr>"

text \<open>
  The steps of task \<open>t\<close>, whose handler serves the protocol and inbox \<open>h t\<close>. The resolver's
  answers may differ from call to call: each call is answered by a member of \<open>R\<close>.
\<close>

inductive stream_step :: "'x msg_lib_scheme \<Rightarrow> (string \<Rightarrow> document result) set \<Rightarrow> encryption_key \<Rightarrow>
    (nat \<Rightarrow> string \<times> inbox) \<Rightarrow> nat \<Rightarrow> rx_state \<Rightarrow> rx_state \<Rightarrow> bool" for L R rk h t where
  spawned: "rx_phase s t = NoStream \<Longrightarrow> stream_step L R rk h t s (rx_move t Reading s)"
| read_payload: "rx_phase s t = Reading \<Longrightarrow> length payload \<le> DEFAULT_MAX_INBOUND_MESSAGE_SIZE \<Longrightarrow>
    stream_step L R rk h t s (rx_move t (Decoding payload) s)"
| read_failed: "rx_phase s t = Reading \<Longrightarrow> stream_step L R rk h t s (rx_move t Finished s)"
| admitted: "rx_phase s t = Decoding payload \<Longrightarrow> resolve \<in> R \<Longrightarrow>
    admit_message L resolve c rk payload (fst (h t)) = Inr m \<Longrightarrow>
    stream_step L R rk h t s (rx_move t (Guarding m) s)"
| not_admitted: "rx_phase s t = Decoding payload \<Longrightarrow> resolve \<in> R \<Longrightarrow>
    admit_message L resolve c rk payload (fst (h t)) = Inl e \<Longrightarrow>
    stream_step L R rk h t s (rx_move t Finished s)"
| guard_accepts: "rx_phase s t = Guarding m \<Longrightarrow>
    check_and_insert L c (message_headers L m) (rx_guard s) = (Inr u, g) \<Longrightarrow>
    stream_step L R rk h t s
      (rx_move t (Pushing m) (s\<lparr>rx_guard := g, rx_offers := rx_offers s @ [(t, m, c)]\<rparr>))"
| guard_rejects: "rx_phase s t = Guarding m \<Longrightarrow>
    check_and_insert L c (message_headers L m) (rx_guard s) = (Inl e, g) \<Longrightarrow>
    stream_step L R rk h t s
      (rx_move t Finished (s\<lparr>rx_guard := g, rx_offers := rx_offers s @ [(t, m, c)]\<rparr>))"
| pushed: "rx_phase s t = Pushing m \<Longrightarrow>
    stream_step L R rk h t s
      (rx_move t Finished (s\<lparr>rx_store := inbox_push (snd (h t)) now (msg_exp m) m (rx_store s),
         rx_pushed := rx_pushed s @ [(t, m)]\<rparr>))"
| clock_panic: "rx_phase s t = Pushing m \<Longrightarrow> stream_step L R rk h t s (rx_move t Finished s)"

text \<open>Between the steps of the tasks the program takes messages out of its inboxes.\<close>

inductive rx_step :: "'x msg_lib_scheme \<Rightarrow> (string \<Rightarrow> document result) set \<Rightarrow> encryption_key \<Rightarrow>
    (nat \<Rightarrow> string \<times> inbox) \<Rightarrow> rx_state \<Rightarrow> rx_state \<Rightarrow> bool" for L R rk h where
  task: "stream_step L R rk h t s s' \<Longrightarrow> rx_step L R rk h s s'"
| take_message: "rx_step L R rk h s (s\<lparr>rx_store := snd (inbox_take i r (rx_store s))\<rparr>)"

definition rx_initial :: "message inbox_store \<Rightarrow> rx_state" where
  "rx_initial st = \<lparr>rx_guard = replay_default, rx_store = st, rx_phase = (\<lambda>_. NoStream),
     rx_offers = [], rx_pushed = []\<rparr>"

inductive_cases stream_stepE: "stream_step L R rk h t s s'"
inductive_cases rx_stepE: "rx_step L R rk h s s'"

section \<open>The order of the mutex\<close>

definition offered_event :: "'x msg_lib_scheme \<Rightarrow> nat \<times> message \<times> clocks3 \<Rightarrow> replay_event" where
  "offered_event L o3 = \<lparr>ev_clocks = snd (snd o3), ev_headers = message_headers L (fst (snd o3))\<rparr>"

text \<open>The state of the guard, and which offers it accepted, replayed in the order of the mutex.\<close>

fun replay_offers :: "'x msg_lib_scheme \<Rightarrow> (nat \<times> message \<times> clocks3) list \<Rightarrow> replay_guard \<Rightarrow>
    (nat \<times> message) list \<times> replay_guard" where
  "replay_offers L [] g = ([], g)"
| "replay_offers L (x # xs) g =
     (let (b, g1) = guard_offer L (offered_event L x) g; (acc, g2) = replay_offers L xs g1
      in (if b then (fst x, fst (snd x)) # acc else acc, g2))"

lemma replay_offers_snoc:
  "replay_offers L (xs @ [x]) g =
     (let (acc, g1) = replay_offers L xs g; (b, g2) = guard_offer L (offered_event L x) g1
      in (if b then acc @ [(fst x, fst (snd x))] else acc, g2))"
  by (induction xs arbitrary: g) (simp_all add: Let_def split: prod.split)

lemma replay_offers_run:
  "map (\<lambda>x. msg_id (snd x)) (fst (replay_offers L xs g)) =
     map ev_key (fst (replay_filter.filter_run (guard_offer L) (map (offered_event L) xs) g))"
  by (induction xs arbitrary: g)
    (simp_all add: guard.filter_run_Cons case_prod_beta Let_def offered_event_def ev_key_def)

lemma replay_offers_subset: "set (fst (replay_offers L xs g)) \<subseteq> (\<lambda>x. (fst x, fst (snd x))) ` set xs"
proof (induction xs arbitrary: g)
  case (Cons x xs)
  show ?case using Cons [of "snd (guard_offer L (offered_event L x) g)"]
    by (auto simp: case_prod_beta Let_def)
qed simp

section \<open>The invariant\<close>

text \<open>
  The guard is as if the offers had been made one after the other, in the order of its mutex;
  a task offers at most once and pushes at most once, and what it pushes or is about to push
  was accepted.
\<close>

definition rx_inv :: "'x msg_lib_scheme \<Rightarrow> rx_state \<Rightarrow> bool" where
  "rx_inv L s \<longleftrightarrow>
     rx_guard s = snd (replay_offers L (rx_offers s) replay_default)
   \<and> distinct (map fst (rx_offers s)) \<and> distinct (map fst (rx_pushed s))
   \<and> (\<forall>t\<in>fst ` set (rx_offers s). rx_phase s t = Finished \<or> (\<exists>m. rx_phase s t = Pushing m))
   \<and> (\<forall>t\<in>fst ` set (rx_pushed s). rx_phase s t = Finished)
   \<and> set (rx_pushed s) \<subseteq> set (fst (replay_offers L (rx_offers s) replay_default))
   \<and> (\<forall>t m. rx_phase s t = Pushing m \<longrightarrow>
        (t, m) \<in> set (fst (replay_offers L (rx_offers s) replay_default)))"

lemma rx_inv_initial: "rx_inv L (rx_initial st)"
  by (simp add: rx_inv_def rx_initial_def)

lemma rx_phase_move [simp]: "rx_phase (rx_move t p s) u = (if u = t then p else rx_phase s u)"
  and rx_frame_move [simp]: "rx_guard (rx_move t p s) = rx_guard s" "rx_store (rx_move t p s) = rx_store s"
    "rx_offers (rx_move t p s) = rx_offers s" "rx_pushed (rx_move t p s) = rx_pushed s"
  by (simp_all add: rx_move_def)

lemma rx_invD:
  assumes "rx_inv L s"
  shows "rx_guard s = snd (replay_offers L (rx_offers s) replay_default)"
    and "distinct (map fst (rx_offers s))" and "distinct (map fst (rx_pushed s))"
    and "t \<in> fst ` set (rx_offers s) \<Longrightarrow> rx_phase s t = Finished \<or> (\<exists>m. rx_phase s t = Pushing m)"
    and "t \<in> fst ` set (rx_pushed s) \<Longrightarrow> rx_phase s t = Finished"
    and "set (rx_pushed s) \<subseteq> set (fst (replay_offers L (rx_offers s) replay_default))"
    and "rx_phase s t = Pushing m \<Longrightarrow>
      (t, m) \<in> set (fst (replay_offers L (rx_offers s) replay_default))"
  using assms unfolding rx_inv_def by blast+

text \<open>A step that leaves guard and history alone and the task before the guard or at its end.\<close>

lemma rx_inv_move:
  assumes "rx_inv L s" and "\<And>m. p \<noteq> Pushing m"
    and "p = Finished \<or> (rx_phase s t \<noteq> Finished \<and> (\<forall>m. rx_phase s t \<noteq> Pushing m))"
  shows "rx_inv L (rx_move t p s)"
  using assms unfolding rx_inv_def by auto

lemma guard_offer_check:
  "check_and_insert L c (message_headers L m) g = (r, g') \<Longrightarrow>
     guard_offer L (offered_event L (t, m, c)) g = (is_ok r, g')"
  by (simp add: guard_offer_def offered_event_def)

lemma rx_inv_offer:
  assumes inv: "rx_inv L s" and p: "rx_phase s t = Guarding m"
    and c: "check_and_insert L c (message_headers L m) (rx_guard s) = (r, g)"
  shows "rx_inv L (rx_move t (if is_ok r then Pushing m else Finished)
    (s\<lparr>rx_guard := g, rx_offers := rx_offers s @ [(t, m, c)]\<rparr>))"
proof -
  obtain acc where acc: "replay_offers L (rx_offers s) replay_default = (acc, rx_guard s)"
    using rx_invD(1) [OF inv] by (metis prod.collapse)
  have r: "replay_offers L (rx_offers s @ [(t, m, c)]) replay_default =
      (if is_ok r then acc @ [(t, m)] else acc, g)"
    by (simp add: replay_offers_snoc acc guard_offer_check [OF c])
  have n: "t \<notin> fst ` set (rx_offers s)" "t \<notin> fst ` set (rx_pushed s)"
    using rx_invD(4,5) [OF inv, of t] p by auto
  show ?thesis
    using rx_invD [OF inv] n acc unfolding rx_inv_def by (auto simp: r)
qed

lemma rx_inv_push:
  assumes inv: "rx_inv L s" and p: "rx_phase s t = Pushing m"
  shows "rx_inv L (rx_move t Finished (s\<lparr>rx_store := st, rx_pushed := rx_pushed s @ [(t, m)]\<rparr>))"
proof -
  have "t \<notin> fst ` set (rx_pushed s)" using rx_invD(5) [OF inv, of t] p by auto
  then show ?thesis using rx_invD [OF inv] p unfolding rx_inv_def by auto
qed

lemma rx_inv_step:
  assumes "rx_inv L s" and "rx_step L R rk h s s'"
  shows "rx_inv L s'"
  using assms(2)
proof cases
  case (task t)
  show ?thesis using task
  proof (cases rule: stream_step.cases)
    case (guard_accepts m c u g)
    then show ?thesis using rx_inv_offer [OF assms(1) guard_accepts(2,3)] by simp
  next
    case (guard_rejects m c e g)
    then show ?thesis using rx_inv_offer [OF assms(1) guard_rejects(2,3)] by simp
  next
    case (pushed m now)
    then show ?thesis using rx_inv_push [OF assms(1) pushed(2)] by simp
  qed (use assms(1) in \<open>auto intro!: rx_inv_move\<close>)
next
  case (take_message i r)
  then show ?thesis using assms(1) by (simp add: rx_inv_def)
qed

lemma rx_inv_reachable:
  assumes "(rx_step L R rk h)\<^sup>*\<^sup>* (rx_initial st) s"
  shows "rx_inv L s"
  using assms by (induction rule: rtranclp_induct) (auto intro: rx_inv_initial rx_inv_step)

text \<open>What reaches the guard passed every earlier check, for the protocol of its stream.\<close>

definition admissible :: "'x msg_lib_scheme \<Rightarrow> (string \<Rightarrow> document result) set \<Rightarrow> encryption_key \<Rightarrow>
    string \<Rightarrow> message \<Rightarrow> bool" where
  "admissible L R rk protocol m \<longleftrightarrow>
     (\<exists>resolve\<in>R. \<exists>c payload. length payload \<le> DEFAULT_MAX_INBOUND_MESSAGE_SIZE
        \<and> admit_message L resolve c rk payload protocol = Inr m)"

definition rx_checked :: "'x msg_lib_scheme \<Rightarrow> (string \<Rightarrow> document result) set \<Rightarrow> encryption_key \<Rightarrow>
    (nat \<Rightarrow> string \<times> inbox) \<Rightarrow> rx_state \<Rightarrow> bool" where
  "rx_checked L R rk h s \<longleftrightarrow>
     (\<forall>(t, m, c)\<in>set (rx_offers s). admissible L R rk (fst (h t)) m)
   \<and> (\<forall>t m. rx_phase s t = Guarding m \<longrightarrow> admissible L R rk (fst (h t)) m)
   \<and> (\<forall>t b. rx_phase s t = Decoding b \<longrightarrow> length b \<le> DEFAULT_MAX_INBOUND_MESSAGE_SIZE)"

lemma rx_checked_step:
  assumes "rx_checked L R rk h s" and "rx_step L R rk h s s'"
  shows "rx_checked L R rk h s'"
  using assms(2)
proof cases
  case (task t)
  show ?thesis using task
  proof (cases rule: stream_step.cases)
    case (admitted payload resolve c m)
    then have "admissible L R rk (fst (h t)) m"
      using assms(1) unfolding rx_checked_def admissible_def by blast
    then show ?thesis using assms(1) admitted(1) unfolding rx_checked_def by auto
  qed (use assms(1) in \<open>auto simp: rx_checked_def\<close>)
next
  case (take_message i r)
  then show ?thesis using assms(1) by (simp add: rx_checked_def)
qed

lemma rx_checked_reachable:
  assumes "(rx_step L R rk h)\<^sup>*\<^sup>* (rx_initial st) s"
  shows "rx_checked L R rk h s"
  using assms
proof (induction rule: rtranclp_induct)
  case base
  show ?case by (simp add: rx_checked_def rx_initial_def)
qed (rule rx_checked_step)

section \<open>Properties\<close>

text \<open>All readings of the clock at the guard lie within one replay window.\<close>

definition within_window :: "(nat \<times> message \<times> clocks3) list \<Rightarrow> bool" where
  "within_window os \<longleftrightarrow> (\<forall>(_, _, c)\<in>set os. \<forall>(_, _, c')\<in>set os.
     clock_nat (c_prune c') - clock_nat (c_insert c) \<le> unat DEFAULT_REPLAY_WINDOW_SECS)"

lemma accepted_offers_distinct:
  assumes "within_window os"
  shows "distinct (map (\<lambda>x. msg_id (snd x)) (fst (replay_offers L os replay_default)))"
  unfolding replay_offers_run
proof (rule guard.accepted_distinct)
  show "\<forall>e\<in>set (map (offered_event L) os). \<forall>e'\<in>set (map (offered_event L) os).
      clock_nat (c_prune (ev_clocks e')) - clock_nat (c_insert (ev_clocks e)) \<le> unat (window_secs replay_default)"
    using assms by (fastforce simp: within_window_def offered_event_def replay_default_def replay_new_def)
qed

lemma pushed_ids_distinct:
  assumes inv: "rx_inv L s" and win: "within_window (rx_offers s)"
  shows "distinct (map (\<lambda>x. msg_id (snd x)) (rx_pushed s))"
proof -
  have "inj_on (\<lambda>x. msg_id (snd x)) (set (fst (replay_offers L (rx_offers s) replay_default)))"
    using accepted_offers_distinct [OF win, of L] by (simp add: distinct_map)
  then show ?thesis
    using rx_invD(3,6) [OF inv] by (auto simp: distinct_map intro: inj_on_subset)
qed

lemma pushed_was_offered:
  assumes "rx_inv L s" and "(t, m) \<in> set (rx_pushed s)"
  shows "\<exists>c. (t, m, c) \<in> set (rx_offers s)"
  using rx_invD(6) [OF assms(1)] assms(2) replay_offers_subset [of L "rx_offers s" replay_default]
  by fastforce

text \<open>C7: However the tasks of all streams and connections interleave, within one replay window no
  message id is pushed into any inbox twice, and every message that is pushed passed every
  check of the receiving side for the protocol of its stream: encryption policy, recipient,
  signature by the resolved sender, and the size limit.\<close>

theorem concurrent_delivers_once:
  assumes "(rx_step L R rk h)\<^sup>*\<^sup>* (rx_initial st) s" and "within_window (rx_offers s)"
  shows "distinct (map (\<lambda>x. msg_id (snd x)) (rx_pushed s))
    \<and> list_all (\<lambda>(t, m). admissible L R rk (fst (h t)) m) (rx_pushed s)"
proof -
  note inv = rx_inv_reachable [OF assms(1)]
  have "admissible L R rk (fst (h t)) m" if "(t, m) \<in> set (rx_pushed s)" for t m
    using pushed_was_offered [OF inv that] rx_checked_reachable [OF assms(1)] by (auto simp: rx_checked_def)
  then show ?thesis using pushed_ids_distinct [OF inv assms(2)] by (auto simp: list_all_iff)
qed

lemma guard_step:
  assumes "rx_phase s t = Guarding m" and "check_and_insert L c (message_headers L m) (rx_guard s) = (r, g)"
  shows "stream_step L R rk h t s (rx_move t (if is_ok r then Pushing m else Finished)
    (s\<lparr>rx_guard := g, rx_offers := rx_offers s @ [(t, m, c)]\<rparr>))"
  using assms stream_step.guard_accepts [OF assms(1)] stream_step.guard_rejects [OF assms(1)]
  by (cases r) fastforce+

text \<open>
  A task never waits for another: no lock is held across an await, so a stream that stalls
  holds up nobody.
\<close>

lemma stream_never_blocked:
  assumes "rx_phase s t \<noteq> Finished" and "R \<noteq> {}"
  shows "\<exists>s'. stream_step L R rk h t s s'"
proof (cases "rx_phase s t")
  case (Decoding payload)
  obtain resolve and c :: decode_clocks where r: "resolve \<in> R" using assms(2) by blast
  show ?thesis
    using stream_step.admitted [OF Decoding r] stream_step.not_admitted [OF Decoding r]
    by (cases "admit_message L resolve c rk payload (fst (h t))") blast+
next
  case (Guarding m)
  obtain c :: clocks3 where True by blast
  then show ?thesis
    using guard_step [OF Guarding] by (cases "check_and_insert L c (message_headers L m) (rx_guard s)") blast
qed (use assms(1) in \<open>auto intro: stream_step.intros\<close>)

text \<open>The steps of one task that nobody disturbs, from each of its points to the end.\<close>

definition finishes :: "'x msg_lib_scheme \<Rightarrow> (string \<Rightarrow> document result) set \<Rightarrow> encryption_key \<Rightarrow>
    (nat \<Rightarrow> string \<times> inbox) \<Rightarrow> nat \<Rightarrow> rx_state \<Rightarrow> replay_guard \<Rightarrow> message inbox_store \<Rightarrow> bool" where
  "finishes L R rk h t s g st \<longleftrightarrow>
     (\<exists>s'. (stream_step L R rk h t)\<^sup>*\<^sup>* s s' \<and> rx_phase s' t = Finished \<and> rx_guard s' = g \<and> rx_store s' = st)"

lemma finishes_now: "rx_phase s t = Finished \<Longrightarrow> finishes L R rk h t s (rx_guard s) (rx_store s)"
  unfolding finishes_def by blast

lemma finishes_step:
  "stream_step L R rk h t s s1 \<Longrightarrow> finishes L R rk h t s1 g st \<Longrightarrow> finishes L R rk h t s g st"
  unfolding finishes_def by (blast intro: converse_rtranclp_into_rtranclp)

lemma finishes_end:
  assumes "stream_step L R rk h t s s1" and "rx_phase s1 t = Finished"
  shows "finishes L R rk h t s (rx_guard s1) (rx_store s1)"
  by (rule finishes_step [OF assms(1) finishes_now [OF assms(2)]])

text \<open>The last line of a task: \<open>now_secs\<close> panics before the epoch.\<close>

definition push_at_end :: "clock \<Rightarrow> inbox \<Rightarrow> message \<Rightarrow> message inbox_store \<Rightarrow> message inbox_store" where
  "push_at_end now i m st = (case now of None \<Rightarrow> st | Some n \<Rightarrow> inbox_push i n (msg_exp m) m st)"

lemma finishes_push:
  assumes "rx_phase s t = Pushing m"
  shows "finishes L R rk h t s (rx_guard s) (push_at_end now (snd (h t)) m (rx_store s))"
  unfolding push_at_end_def
  using finishes_end [OF stream_step.clock_panic [where L = L and R = R and rk = rk and h = h, OF assms]]
    finishes_end [OF stream_step.pushed [where L = L and R = R and rk = rk and h = h, OF assms]]
  by (cases now) simp_all

lemma finishes_guard:
  assumes p: "rx_phase s t = Guarding m"
    and c: "check_and_insert L c (message_headers L m) (rx_guard s) = (q, g)"
  shows "finishes L R rk h t s g (case q of Inl e \<Rightarrow> rx_store s | Inr u \<Rightarrow> push_at_end now (snd (h t)) m (rx_store s))"
proof -
  define s1 where "s1 = rx_move t (if is_ok q then Pushing m else Finished)
    (s\<lparr>rx_guard := g, rx_offers := rx_offers s @ [(t, m, c)]\<rparr>)"
  have step: "stream_step L R rk h t s s1" unfolding s1_def by (rule guard_step [OF p c])
  have f: "rx_guard s1 = g" "rx_store s1 = rx_store s"
    "rx_phase s1 t = (if is_ok q then Pushing m else Finished)" by (simp_all add: s1_def)
  show ?thesis
  proof (cases q)
    case (Inl e)
    then show ?thesis using finishes_end [OF step] f by simp
  next
    case (Inr u)
    then have "rx_phase s1 t = Pushing m" using f(3) by simp
    then show ?thesis
      using finishes_step [OF step finishes_push [of s1 t m L R rk h now]] f(1,2) Inr by simp
  qed
qed

lemma finishes_decode:
  assumes p: "rx_phase s t = Decoding payload" and r: "resolve \<in> R"
    and d: "inbound_decode L resolve c payload (fst (h t))
      \<lparr>is_recipient_key = rk, is_replay_guard = rx_guard s\<rparr> = (q, sec)"
  shows "finishes L R rk h t s (is_replay_guard sec) (case q of Inl e \<Rightarrow> rx_store s | Inr m \<Rightarrow> push_at_end now (snd (h t)) m (rx_store s))"
proof (cases "admit_message L resolve c rk payload (fst (h t))")
  case (Inl e)
  then have "q = Inl e" "is_replay_guard sec = rx_guard s" using d by (auto simp: inbound_decode_def)
  then show ?thesis using finishes_end [OF stream_step.not_admitted [where h = h and t = t, OF p r Inl]] by simp
next
  case (Inr m)
  define s1 where "s1 = rx_move t (Guarding m) s"
  have step: "stream_step L R rk h t s s1"
    unfolding s1_def by (rule stream_step.admitted [where h = h and t = t, OF p r Inr])
  obtain x g where x: "check_and_insert L (dc_guard c) (message_headers L m) (rx_guard s) = (x, g)"
    by (cases "check_and_insert L (dc_guard c) (message_headers L m) (rx_guard s)")
  have "is_replay_guard sec = g" and "q = (case x of Inl e \<Rightarrow> Inl (Validation e) | Inr u \<Rightarrow> Inr m)"
    using d Inr x by (auto simp: inbound_decode_def split: sum.splits)
  then show ?thesis
    using finishes_step [OF step finishes_guard [where s = s1 and t = t and m = m and L = L and c = "dc_guard c" and R = R and rk = rk and h = h and now = now]] x
    by (cases x) (simp_all add: s1_def)
qed

text \<open>
  The sequential handler agrees with the concurrent one: what it does to guard and inboxes
  is what the steps of one undisturbed task do.
\<close>

lemma handle_stream_is_schedule:
  assumes "rx_phase s t = Reading" and "resolve \<in> R"
    and "r = read_to_end DEFAULT_MAX_INBOUND_MESSAGE_SIZE sent \<or> r = ReadTimeout"
    and "handle_stream L resolve c now (fst (h t)) (snd (h t)) r
      (\<lparr>is_recipient_key = rk, is_replay_guard = rx_guard s\<rparr>, rx_store s) = (sec, st)"
  shows "finishes L R rk h t s (is_replay_guard sec) st"
proof (cases r)
  case (ReadOk payload)
  then have len: "length payload \<le> DEFAULT_MAX_INBOUND_MESSAGE_SIZE"
    using assms(3) by (auto simp: read_to_end_def split: if_splits)
  obtain q sec1 where d: "inbound_decode L resolve c payload (fst (h t))
      \<lparr>is_recipient_key = rk, is_replay_guard = rx_guard s\<rparr> = (q, sec1)" by fastforce
  have "sec = sec1" and "st = (case q of Inl e \<Rightarrow> rx_store s | Inr m \<Rightarrow> push_at_end now (snd (h t)) m (rx_store s))"
    using assms(4) ReadOk d by (auto simp: handle_stream_def push_at_end_def split: sum.splits option.splits)
  moreover let ?s1 = "rx_move t (Decoding payload) s"
  have "finishes L R rk h t ?s1 (is_replay_guard sec1)
      (case q of Inl e \<Rightarrow> rx_store ?s1 | Inr m \<Rightarrow> push_at_end now (snd (h t)) m (rx_store ?s1))"
    by (rule finishes_decode [where c = c, OF _ assms(2)], simp, unfold rx_frame_move, rule d)
  then have "finishes L R rk h t s (is_replay_guard sec1)
      (case q of Inl e \<Rightarrow> rx_store ?s1 | Inr m \<Rightarrow> push_at_end now (snd (h t)) m (rx_store ?s1))"
    by (rule finishes_step [OF stream_step.read_payload [OF assms(1) len]])
  ultimately show ?thesis unfolding rx_frame_move by simp
next
  case (ReadErr e)
  then show ?thesis
    using assms(4) finishes_end [OF stream_step.read_failed [where L = L and R = R and rk = rk and h = h, OF assms(1)]]
    by (auto simp: handle_stream_def)
next
  case ReadTimeout
  then show ?thesis
    using assms(4) finishes_end [OF stream_step.read_failed [where L = L and R = R and rk = rk and h = h, OF assms(1)]]
    by (auto simp: handle_stream_def)
qed

section \<open>Witnesses\<close>

lemma put_lengths [simp]:
  "length (put_nat n) = Suc n" "length (put_bytes x) = Suc (2 * length x)"
  "length (put_string t) = Suc (2 * length t)" "length (put_u64 w) = Suc (unat w)"
  by (simp_all add: put_nat_def put_bytes_def put_string_def put_u64_def as_bytes_def)

lemma demo_broadcast_small:
  assumes "new_with_options demo_msg_lib (Some 1000) (Some 1000) ''m1'' demo_broadcast_draft 4600 None sk = Inr m"
  shows "length (put_message m) \<le> DEFAULT_MAX_INBOUND_MESSAGE_SIZE"
proof -
  have "length (ed25519_sign demo_msg_lib k b) = 64" for k b
    by (rule crypto_lawsD [OF demo_msg_crypto])
  moreover have "unat (codec_for c) \<le> 10000" for c
    by (simp add: codec_for_def CODEC_CBOR_def CODEC_DAG_CBOR_def CODEC_IDENTITY_def)
  then have "length (encode_content demo_msg_lib (codec_for c) [104, 105]) \<le> 10003" for c
    by (simp add: encode_content_def multicodec_encode_def demo_lib_defs demo_doc_lib_def
        demo_crypto_lib_def demo_did_lib_def demo_varint_encode_def)
  then have "length (encode_content demo_msg_lib (codec_for ''text/plain'') [104, 105]) \<le> 10003" .
  ultimately show ?thesis using assms
    by (auto simp: new_with_options_def Let_def result_simps now_unix_secs_def message_sign_def signing_sign_def
        put_message_def put_headers_def demo_broadcast_draft_def put_option_def DEFAULT_MAX_INBOUND_MESSAGE_SIZE_def
        default_protocol_def MESSAGE_TYPE_BROADCAST_def MESSAGE_PREFIX_def VERSION_def)
qed

text \<open>The tasks of two streams on which the same broadcast arrives.\<close>

definition demo_handlers :: "nat \<Rightarrow> string \<times> inbox" where
  "demo_handlers t = (INBOX_PROTOCOL_ID, \<lparr>queue = 0\<rparr>)"

lemma demo_stream_decoded:
  assumes "rx_phase s t = NoStream" and "resolve \<in> R" and "length b \<le> DEFAULT_MAX_INBOUND_MESSAGE_SIZE"
    and "admit_message L resolve c rk b INBOX_PROTOCOL_ID = Inr m"
  shows "(rx_step L R rk demo_handlers)\<^sup>*\<^sup>* s
    (rx_move t (Guarding m) (rx_move t (Decoding b) (rx_move t Reading s)))"
proof -
  have "stream_step L R rk demo_handlers t s (rx_move t Reading s)"
    by (rule stream_step.spawned [OF assms(1)])
  moreover have "stream_step L R rk demo_handlers t (rx_move t Reading s) (rx_move t (Decoding b) (rx_move t Reading s))"
    by (rule stream_step.read_payload [OF _ assms(3)]) simp
  moreover have "stream_step L R rk demo_handlers t (rx_move t (Decoding b) (rx_move t Reading s))
      (rx_move t (Guarding m) (rx_move t (Decoding b) (rx_move t Reading s)))"
    by (rule stream_step.admitted [where resolve = resolve and payload = b and c = c])
      (simp_all add: assms(2,4) demo_handlers_def)
  ultimately show ?thesis
    by (meson rx_step.task converse_rtranclp_into_rtranclp rtranclp.rtrancl_refl)
qed

theorem concurrent_delivers_once_witness:
  "\<exists>R rk s. (rx_step demo_msg_lib R rk demo_handlers)\<^sup>*\<^sup>* (rx_initial empty_store) s
    \<and> length (rx_pushed s) = 1 \<and> distinct (map (\<lambda>x. msg_id (snd x)) (rx_pushed s))"
proof -
  obtain doc :: document where doc: "doc_id doc = ''did:ma:6d61''"
    and key: "assertion_method_public_key demo_msg_lib doc = Inr (ed25519_public demo_msg_lib demo_secret)"
    using demo_msg_keys by blast
  define R where "R = {\<lambda>_ :: string. Inr doc :: document result}"
  obtain m sk where m: "new_with_options demo_msg_lib (Some 1000) (Some 1000) ''m1'' demo_broadcast_draft 4600 None sk = Inr m"
    and a: "admit_message demo_msg_lib (\<lambda>_. Inr doc) (demo_clocks 1000) demo_encryption_key (put_message m)
      INBOX_PROTOCOL_ID = Inr m"
    using demo_broadcast_admitted [where resolve = "\<lambda>_. Inr doc" and rk = demo_encryption_key, OF refl doc key] by blast
  obtain g where g: "check_and_insert demo_msg_lib (dc_guard (demo_clocks 1000)) (message_headers demo_msg_lib m)
      replay_default = (Inr (), g)"
    using demo_broadcast_guarded [OF m] by blast
  let ?step = "rx_step demo_msg_lib R demo_encryption_key demo_handlers"
  define s1 where "s1 = rx_move 7 (Guarding m) (rx_move 7 (Decoding (put_message m)) (rx_move 7 Reading (rx_initial empty_store)))"
  have f1: "rx_guard s1 = replay_default" "rx_offers s1 = []" "rx_pushed s1 = []" "rx_phase s1 7 = Guarding m"
    by (simp_all add: s1_def rx_initial_def)
  have "?step\<^sup>*\<^sup>* (rx_initial empty_store) s1" unfolding s1_def
    by (rule demo_stream_decoded [OF _ _ demo_broadcast_small [OF m] a]) (simp_all add: rx_initial_def R_def)
  moreover define s2 where "s2 = rx_move 7 (Pushing m) (s1\<lparr>rx_guard := g,
    rx_offers := rx_offers s1 @ [(7, m, dc_guard (demo_clocks 1000))]\<rparr>)"
  have "?step s1 s2" unfolding s2_def
    by (rule rx_step.task [OF stream_step.guard_accepts]) (simp_all add: f1 g)
  moreover have f2: "rx_offers s2 = [(7, m, dc_guard (demo_clocks 1000))]" "rx_pushed s2 = []" "rx_phase s2 7 = Pushing m"
    by (simp_all add: s2_def f1)
  moreover define s3 where "s3 = rx_move 7 Finished (s2\<lparr>rx_store := inbox_push (snd (demo_handlers 7)) 1000 (msg_exp m) m (rx_store s2),
    rx_pushed := rx_pushed s2 @ [(7, m)]\<rparr>)"
  have "?step s2 s3" unfolding s3_def by (rule rx_step.task [OF stream_step.pushed]) (simp add: f2)
  ultimately have r: "?step\<^sup>*\<^sup>* (rx_initial empty_store) s3" by (meson rtranclp.rtrancl_into_rtrancl)
  have "within_window (rx_offers s3)"
    by (simp add: s3_def f2 within_window_def demo_clocks_def clock_nat_def)
  then have "distinct (map (\<lambda>x. msg_id (snd x)) (rx_pushed s3))"
    using concurrent_delivers_once [OF r] by blast
  then show ?thesis using r by (intro exI [of _ R] exI [of _ demo_encryption_key] exI [of _ s3]) (simp add: s3_def f2)
qed

end
