(* ===== verification/Outbox.thy ===== *)
theory Outbox
  imports Inbound
begin

text \<open>
  The sending handle (\<^verbatim>\<open>outbox.rs\<close>). The boxed \<open>OutboxWire\<close> is a value of type \<open>'k\<close>; what
  sending on it does is the parameter \<open>wire\<close>, a function on the state \<open>'w\<close> of the outside
  world.
\<close>

section \<open>The handle\<close>

record 'k outbox =
  ob_inner :: "'k option"
  ob_recipient_document :: document
  ob_local :: bool
  ob_did :: string
  ob_protocol :: string

definition outbox_from_transport :: "'k \<Rightarrow> document \<Rightarrow> bool \<Rightarrow> string \<Rightarrow> string \<Rightarrow> 'k outbox" where
  "outbox_from_transport transport doc loc did protocol =
     \<lparr>ob_inner = Some transport, ob_recipient_document = doc, ob_local = loc, ob_did = did,
      ob_protocol = protocol\<rparr>"

text \<open>What sealing one message draws: the ephemeral secret and two nonces.\<close>

record seal_draw =
  sd_ephemeral :: bytes
  sd_nonce1 :: bytes
  sd_nonce2 :: bytes

text \<open>\<open>c1\<close> is read by the validation, \<open>c2\<close> by \<open>enclose_for\<close>.\<close>

definition outbox_payload :: "'x msg_lib_scheme \<Rightarrow> clock \<Rightarrow> clock \<Rightarrow> seal_draw \<Rightarrow> message \<Rightarrow> 'k outbox \<Rightarrow>
    bytes result" where
  "outbox_payload L c1 c2 r m ob =
     bindR (map_err Validation (headers_validate L c1 (message_headers L m))) (\<lambda>_.
     let unencrypted = (ob_local ob \<or> msg_type m = MESSAGE_TYPE_BROADCAST) in
     if unencrypted then map_err Validation (message_encode L m)
     else bindR (map_err Validation (enclose_for L c2 (sd_ephemeral r) (sd_nonce1 r) (sd_nonce2 r) m
              (ob_recipient_document ob))) (\<lambda>e. map_err Validation (envelope_encode L e)))"

definition outbox_send :: "'x msg_lib_scheme \<Rightarrow> ('k \<Rightarrow> bytes \<Rightarrow> 'w \<Rightarrow> unit result \<times> 'w) \<Rightarrow> clock \<Rightarrow> clock \<Rightarrow>
    seal_draw \<Rightarrow> message \<Rightarrow> 'k outbox \<Rightarrow> 'w \<Rightarrow> unit result \<times> 'w" where
  "outbox_send L wire c1 c2 r m ob w =
     (case outbox_payload L c1 c2 r m ob of
        Inl e \<Rightarrow> (Inl e, w)
      | Inr payload \<Rightarrow>
          (case ob_inner ob of
             Some transport \<Rightarrow> wire transport payload w
           | None \<Rightarrow> (Inl (ConnectionClosed ''outbox is closed''), w)))"

definition outbox_did :: "'k outbox \<Rightarrow> string" where "outbox_did ob = ob_did ob"

definition outbox_protocol :: "'k outbox \<Rightarrow> string" where "outbox_protocol ob = ob_protocol ob"

definition outbox_close :: "('k \<Rightarrow> 'w \<Rightarrow> 'w) \<Rightarrow> 'k outbox \<Rightarrow> 'w \<Rightarrow> 'w" where
  "outbox_close close_box ob w = (case ob_inner ob of Some transport \<Rightarrow> close_box transport w | None \<Rightarrow> w)"

section \<open>Lemmas\<close>

lemma outbox_send_Inr:
  assumes "outbox_send L wire c1 c2 r m ob w = (Inr u, w')"
  shows "\<exists>k b. ob_inner ob = Some k \<and> outbox_payload L c1 c2 r m ob = Inr b \<and> wire k b w = (Inr u, w')"
  using assms by (auto simp: outbox_send_def split: sum.splits option.splits)

lemma outbox_payload_Inr:
  assumes "outbox_payload L c1 c2 r m ob = Inr b"
  shows "headers_validate L c1 (message_headers L m) = Inr ()"
    and "ob_local ob \<or> msg_type m = MESSAGE_TYPE_BROADCAST \<Longrightarrow> message_encode L m = Inr b"
    and "\<not> ob_local ob \<Longrightarrow> msg_type m \<noteq> MESSAGE_TYPE_BROADCAST \<Longrightarrow>
      \<exists>e. enclose_for L c2 (sd_ephemeral r) (sd_nonce1 r) (sd_nonce2 r) m (ob_recipient_document ob) = Inr e
        \<and> envelope_encode L e = Inr b"
  using assms by (auto simp: outbox_payload_def Let_def result_simps split: if_splits)

text \<open>
  The two wire formats are told apart: the encoding of a message is not the encoding of an
  envelope, because its map lacks the envelope's fields.
\<close>

definition wire_formats_disjoint :: "'x msg_lib_scheme \<Rightarrow> bool" where
  "wire_formats_disjoint L \<longleftrightarrow>
     (\<forall>m b. cbor_of_message L m = Inr b \<longrightarrow> \<not> is_ok (envelope_of_cbor L b))"

text \<open>What a remote outbox seals, the holder of the recipient's key unwraps.\<close>

lemma remote_payload_opened:
  assumes laws: "msg_laws L" and b: "outbox_payload L c1 c2 r m ob = Inr b"
    and remote: "\<not> ob_local ob" "msg_type m \<noteq> MESSAGE_TYPE_BROADCAST"
    and draw: "length (sd_nonce1 r) = 24" "length (sd_nonce2 r) = 24"
    and key: "key_agreement_public_key_bytes L (ob_recipient_document ob) =
      Inr (x25519_public L (ek_private_key rk))"
    and fresh: "validate_message_freshness (dc_decrypt1 c) (msg_created_at m) (msg_exp m) = Inr ()"
      "validate_message_freshness (dc_decrypt2 c) (msg_created_at m) (msg_exp m) = Inr ()"
  shows "unwrap_payload L c rk b = Inr (m, True)"
proof -
  obtain e where e: "enclose_for L c2 (sd_ephemeral r) (sd_nonce1 r) (sd_nonce2 r) m
      (ob_recipient_document ob) = Inr e" and be: "envelope_encode L e = Inr b"
    using outbox_payload_Inr(3) [OF b remote] by blast
  have v: "headers_validate L c1 (unsigned_headers L m) = Inr ()"
    using outbox_payload_Inr(1) [OF b] by simp
  have v1: "headers_validate L (dc_decrypt1 c) (unsigned_headers L m) = Inr ()"
    by (rule headers_validate_later [OF v]) (use fresh in \<open>simp add: unsigned_headers_def\<close>)
  have v2: "headers_validate L (dc_decrypt2 c) (unsigned_headers L m) = Inr ()"
    by (rule headers_validate_later [OF v]) (use fresh in \<open>simp add: unsigned_headers_def\<close>)
  have "envelope_decode L b = Inr e"
    using be msg_lawsD(5) [OF laws, of e] by (auto simp: envelope_encode_def envelope_decode_def result_simps)
  then show ?thesis
    by (simp add: unwrap_payload_def decrypt_sealed [OF laws e draw key v1 v2])
qed

section \<open>Properties\<close>

text \<open>C5: An outbox to a remote peer never puts a message on the wire in the clear unless it is a
  broadcast. Whatever comes of the send: either it failed and the wire was not used, or the
  recipient's document has a key agreement key and what the wire was given, whether or not it
  then failed, is one envelope: the ephemeral public key, and headers and content encrypted
  under the two keys derived from the agreement with the recipient's key, each behind its
  nonce. The holder of that key opens it to exactly the message that was sent, while it is
  fresh.\<close>

theorem remote_send_sealed:
  assumes laws: "msg_laws L" and remote: "\<not> ob_local ob" "msg_type m \<noteq> MESSAGE_TYPE_BROADCAST"
    and draw: "length (sd_nonce1 r) = 24" "length (sd_nonce2 r) = 24"
    and send: "outbox_send L wire c1 c2 r m ob w = (res, w')"
  shows "(\<exists>e. res = Inl e \<and> w' = w)
    \<or> (\<exists>k b pk h eh ec. ob_inner ob = Some k \<and> wire k b w = (res, w')
        \<and> key_agreement_public_key_bytes L (ob_recipient_document ob) = Inr pk
        \<and> cbor_of_headers L (message_headers L m) = Inr h
        \<and> xchacha20_encrypt L (blake3_derive_key L BLAKE3_HEADERS_LABEL
             (x25519_diffie_hellman L (sd_ephemeral r) pk)) (sd_nonce1 r) h = Some eh
        \<and> xchacha20_encrypt L (blake3_derive_key L BLAKE3_CONTENT_LABEL
             (x25519_diffie_hellman L (sd_ephemeral r) pk)) (sd_nonce2 r) (msg_content m) = Some ec
        \<and> cbor_of_envelope L \<lparr>env_ephemeral_key = x25519_public L (sd_ephemeral r),
             env_encrypted_content = sd_nonce2 r @ ec, env_encrypted_headers = sd_nonce1 r @ eh\<rparr> = Inr b
        \<and> (\<forall>rk c. pk = x25519_public L (ek_private_key rk)
             \<and> validate_message_freshness (dc_decrypt1 c) (msg_created_at m) (msg_exp m) = Inr ()
             \<and> validate_message_freshness (dc_decrypt2 c) (msg_created_at m) (msg_exp m) = Inr ()
             \<longrightarrow> unwrap_payload L c rk b = Inr (m, True)))"
proof (cases "outbox_payload L c1 c2 r m ob")
  case (Inl e)
  then show ?thesis using send by (intro disjI1) (auto simp: outbox_send_def)
next
  case (Inr b)
  show ?thesis
  proof (cases "ob_inner ob")
    case None
    then show ?thesis using send Inr by (intro disjI1) (auto simp: outbox_send_def)
  next
    case (Some k)
    have wire: "wire k b w = (res, w')" using send Inr Some by (simp add: outbox_send_def)
    obtain e where e: "enclose_for L c2 (sd_ephemeral r) (sd_nonce1 r) (sd_nonce2 r) m
        (ob_recipient_document ob) = Inr e" and be: "cbor_of_envelope L e = Inr b"
      using outbox_payload_Inr(3) [OF Inr remote] by (auto simp: envelope_encode_def result_simps)
    have eta: "e = \<lparr>env_ephemeral_key = env_ephemeral_key e, env_encrypted_content = env_encrypted_content e,
        env_encrypted_headers = env_encrypted_headers e\<rparr>" by simp
    obtain pk h eh ec where "key_agreement_public_key_bytes L (ob_recipient_document ob) = Inr pk"
        "cbor_of_headers L (message_headers L m) = Inr h"
        "xchacha20_encrypt L (blake3_derive_key L BLAKE3_HEADERS_LABEL
             (x25519_diffie_hellman L (sd_ephemeral r) pk)) (sd_nonce1 r) h = Some eh"
        "xchacha20_encrypt L (blake3_derive_key L BLAKE3_CONTENT_LABEL
             (x25519_diffie_hellman L (sd_ephemeral r) pk)) (sd_nonce2 r) (msg_content m) = Some ec"
        "env_ephemeral_key e = x25519_public L (sd_ephemeral r)"
        "env_encrypted_content e = sd_nonce2 r @ ec" "env_encrypted_headers e = sd_nonce1 r @ eh"
      using enclose_for_Inr [OF e]
      by (auto simp: headers_cbor_def encrypt_def derive_symmetric_key_def result_simps)
    then show ?thesis
      using be [unfolded arg_cong [OF eta, of "cbor_of_envelope L"]] wire Some
        remote_payload_opened [OF laws Inr remote draw] by auto
  qed
qed

text \<open>Broadcasts, and messages an endpoint sends to itself, are transmitted as the plain
  message, which the receiving side reads back as not encrypted; a closed outbox and a
  message with invalid headers transmit nothing.\<close>

theorem plain_send_received:
  assumes "msg_laws L" and "wire_formats_disjoint L"
    and "ob_local ob \<or> msg_type m = MESSAGE_TYPE_BROADCAST"
  shows "case outbox_send L wire c1 c2 r m ob w of
      (Inr _, w') \<Rightarrow> (\<exists>k b. ob_inner ob = Some k \<and> wire k b w = (Inr (), w')
        \<and> unwrap_payload L c rk b = Inr (m, False))
    | (Inl e, w') \<Rightarrow> w' = w \<or> (\<exists>k b. ob_inner ob = Some k \<and> wire k b w = (Inl e, w'))"
proof (cases "outbox_send L wire c1 c2 r m ob w")
  case (Pair res w')
  show ?thesis
  proof (cases res)
    case (Inl e)
    then show ?thesis using Pair
      by (auto simp: outbox_send_def split: sum.splits option.splits)
  next
    case (Inr u)
    then obtain k b where k: "ob_inner ob = Some k" "wire k b w = (Inr (), w')"
      and b: "outbox_payload L c1 c2 r m ob = Inr b"
      using outbox_send_Inr [of L wire c1 c2 r m ob w u w'] Pair by auto
    have "cbor_of_message L m = Inr b"
      using outbox_payload_Inr(2) [OF b assms(3)] by (auto simp: message_encode_def result_simps)
    then have "message_decode L b = Inr m" and "\<not> is_ok (envelope_of_cbor L b)"
      using msg_lawsD(4) [OF assms(1), of m] assms(2)
      by (auto simp: message_decode_def wire_formats_disjoint_def)
    then have "unwrap_payload L c rk b = Inr (m, False)"
      by (cases "envelope_of_cbor L b") (auto simp: unwrap_payload_def envelope_decode_def)
    then show ?thesis using Pair Inr k by auto
  qed
qed

section \<open>Witnesses\<close>

text \<open>A wire that records what it is given.\<close>

definition demo_wire :: "unit \<Rightarrow> bytes \<Rightarrow> bytes list \<Rightarrow> unit result \<times> bytes list" where
  "demo_wire k b w = (Inr (), w @ [b])"

definition demo_seal :: seal_draw where
  "demo_seal = \<lparr>sd_ephemeral = demo_secret, sd_nonce1 = replicate 24 1, sd_nonce2 = replicate 24 2\<rparr>"

theorem remote_send_sealed_witness:
  "\<exists>doc rk w'. outbox_send demo_msg_lib demo_wire (Some 1000) (Some 1000) demo_seal demo_message
       (outbox_from_transport () doc False ''did:ma:6d61'' INBOX_PROTOCOL_ID) [] = (Inr (), w')
    \<and> (\<exists>k b. ob_inner (outbox_from_transport () doc False ''did:ma:6d61'' INBOX_PROTOCOL_ID) = Some k
        \<and> demo_wire k b [] = (Inr (), w')
        \<and> unwrap_payload demo_msg_lib (demo_clocks 1000) rk b = Inr (demo_message, True))"
proof -
  obtain rk :: encryption_key and doc :: document where k: "ek_private_key rk = demo_secret"
    and pk: "key_agreement_public_key_bytes demo_msg_lib doc = Inr (x25519_public demo_msg_lib demo_secret)"
    using demo_msg_keys by blast
  let ?ob = "outbox_from_transport () doc False ''did:ma:6d61'' INBOX_PROTOCOL_ID"
  obtain e where e: "enclose_for demo_msg_lib (Some 1000) demo_secret (replicate 24 1)
      (replicate 24 2) demo_message doc = Inr e"
    using demo_enclosed [OF pk] by blast
  obtain b0 where b: "envelope_encode demo_msg_lib e = Inr b0"
    using msg_lawsD(5) [OF demo_msg_laws, of e] by (auto simp: envelope_encode_def)
  have t: "msg_type demo_message \<noteq> MESSAGE_TYPE_BROADCAST"
    by (simp add: demo_message_def message_type_defs)
  have s: "outbox_send demo_msg_lib demo_wire (Some 1000) (Some 1000) demo_seal demo_message ?ob [] =
      (Inr (), [b0])"
    using t b e by (simp add: outbox_send_def outbox_payload_def demo_message_headers_valid
        outbox_from_transport_def demo_seal_def demo_wire_def)
  have f: "validate_message_freshness (Some 1000) (msg_created_at demo_message) (msg_exp demo_message) = Inr ()"
    by (simp add: demo_message_def validate_message_freshness_def now_unix_secs_def
        DEFAULT_MAX_CLOCK_SKEW_SECS_def)
  have f': "validate_message_freshness (dc_decrypt1 (demo_clocks 1000)) (msg_created_at demo_message)
      (msg_exp demo_message) = Inr ()" "validate_message_freshness (dc_decrypt2 (demo_clocks 1000))
      (msg_created_at demo_message) (msg_exp demo_message) = Inr ()"
    using f by (simp_all add: demo_clocks_def)
  have o: "\<not> ob_local ?ob" "ob_recipient_document ?ob = doc"
      "length (sd_nonce1 demo_seal) = 24" "length (sd_nonce2 demo_seal) = 24"
    by (simp_all add: outbox_from_transport_def demo_seal_def)
  have "\<exists>k b. ob_inner ?ob = Some k \<and> demo_wire k b [] = (Inr (), [b0])
      \<and> unwrap_payload demo_msg_lib (demo_clocks 1000) rk b = Inr (demo_message, True)"
    using remote_send_sealed [OF demo_msg_laws o(1) t o(3,4) s] f' k pk unfolding o(2) by auto
  with s show ?thesis by (intro exI [of _ doc] exI [of _ rk] exI [of _ "[b0]"] conjI)
qed

lemma demo_formats_disjoint: "wire_formats_disjoint demo_msg_lib"
  by (simp add: wire_formats_disjoint_def) (simp add: demo_lib_defs or_malformed_def)

theorem plain_send_received_witness:
  "case outbox_send demo_msg_lib demo_wire (Some 1000) (Some 1000) demo_seal demo_message
       (outbox_from_transport () demo_document True ''did:ma:6d61'' INBOX_PROTOCOL_ID) [] of
      (Inr _, w') \<Rightarrow> (\<exists>k b. ob_inner (outbox_from_transport () demo_document True ''did:ma:6d61''
          INBOX_PROTOCOL_ID) = Some k \<and> demo_wire k b [] = (Inr (), w')
        \<and> unwrap_payload demo_msg_lib (demo_clocks 1000) demo_encryption_key b = Inr (demo_message, False))
    | (Inl e, w') \<Rightarrow> w' = [] \<or> (\<exists>k b. ob_inner (outbox_from_transport () demo_document True
          ''did:ma:6d61'' INBOX_PROTOCOL_ID) = Some k \<and> demo_wire k b [] = (Inl e, w'))"
  by (rule plain_send_received [OF demo_msg_laws demo_formats_disjoint])
    (simp add: outbox_from_transport_def)

end
