(* ===== verification/Network.thy ===== *)
theory Network
  imports StreamTasks Outbox
begin

text \<open>
  Any number of parties and a network that an attacker owns. A party signs messages
  (\<^verbatim>\<open>msg.rs\<close>) and documents (\<^verbatim>\<open>doc.rs\<close>), its outboxes seal and send (\<^verbatim>\<open>outbox.rs\<close>), and its
  endpoint runs the receiving tasks of \<^verbatim>\<open>StreamTasks\<close> (\<^verbatim>\<open>iroh/endpoint.rs\<close>). The network may
  lose, delay, duplicate, reorder and redirect what is sent, and the attacker may put any
  payload into it, except that it cannot forge signatures of parties whose keys it lacks.
\<close>

section \<open>Parties and network\<close>

text \<open>The honest parties are those whose signing keys nobody else has.\<close>

record net_config =
  nc_honest :: "nat set"
  nc_sign :: "nat \<Rightarrow> signing_key"
  nc_decrypt :: "nat \<Rightarrow> encryption_key"
  nc_resolvers :: "nat \<Rightarrow> (string \<Rightarrow> document result) set"
  nc_handlers :: "nat \<Rightarrow> nat \<Rightarrow> string \<times> inbox"

text \<open>
  The receiving side of every party; who made which message; every byte string that was signed
  with a party's key; and every payload that is or ever was on its way to a party.
\<close>

record net_state =
  ns_rx :: "nat \<Rightarrow> rx_state"
  ns_made :: "(nat \<times> message) set"
  ns_signed :: "(nat \<times> bytes) set"
  ns_flight :: "(nat \<times> bytes) set"

definition net_initial :: "(nat \<Rightarrow> message inbox_store) \<Rightarrow> net_state" where
  "net_initial st = \<lparr>ns_rx = \<lambda>b. rx_initial (st b), ns_made = {}, ns_signed = {}, ns_flight = {}\<rparr>"

text \<open>
  Existential unforgeability: where a signature verifies under the public key of an honest
  party, that party has signed these bytes.
\<close>

definition unforged :: "'x msg_lib_scheme \<Rightarrow> net_config \<Rightarrow> (nat \<times> bytes) set \<Rightarrow> message \<Rightarrow> bool" where
  "unforged L C S m \<longleftrightarrow>
     (\<forall>a\<in>nc_honest C. \<forall>x sig. unsigned_headers_cbor L m = Inr x \<longrightarrow>
        ed25519_signature_from_slice L (msg_signature m) = Some sig \<longrightarrow>
        ed25519_verify L (ed25519_public L (sk_secret_key (nc_sign C a))) x sig \<longrightarrow> (a, x) \<in> S)"

text \<open>Whatever the party finds in the payload, in whichever way it reads the clock.\<close>

definition unforged_payload :: "'x msg_lib_scheme \<Rightarrow> net_config \<Rightarrow> (nat \<times> bytes) set \<Rightarrow> nat \<Rightarrow> bytes \<Rightarrow> bool" where
  "unforged_payload L C S b payload \<longleftrightarrow>
     (\<forall>c m encrypted. unwrap_payload L c (nc_decrypt C b) payload = Inr (m, encrypted) \<longrightarrow>
        unforged L C S m)"

text \<open>
  A party makes a message, with any headers the constructor lets it make (its signature may happen
  to verify under the key of another honest party only if that party signed the same bytes);
  signs a document; sends
  a message it made through a remote outbox, as a broadcast to anyone and otherwise with the
  document of the party it goes to; the attacker injects a payload; or a task of a receiving
  party takes a step, where what it reads from its stream is a payload on the way to it. The
  transport inside an outbox is of no account here: what it transmits is the payload.
\<close>

inductive net_step :: "'x msg_lib_scheme \<Rightarrow> net_config \<Rightarrow> net_state \<Rightarrow> net_state \<Rightarrow> bool" for L C where
  makes: "new_with_options L c1 c2 n d e r (nc_sign C a) = Inr m \<Longrightarrow> unsigned_headers_cbor L m = Inr x \<Longrightarrow>
    unforged L C (insert (a, x) (ns_signed s)) m \<Longrightarrow>
    net_step L C s (s\<lparr>ns_made := insert (a, m) (ns_made s), ns_signed := insert (a, x) (ns_signed s)\<rparr>)"
| certifies: "document_sign L (nc_sign C a) vm d = Inr d' \<Longrightarrow> payload_hash L d = Inr x \<Longrightarrow>
    net_step L C s (s\<lparr>ns_signed := insert (a, x) (ns_signed s)\<rparr>)"
| sends: "(a, m) \<in> ns_made s \<Longrightarrow> outbox_payload L o1 o2 q m (ob :: unit outbox) = Inr payload \<Longrightarrow> \<not> ob_local ob \<Longrightarrow>
    length (sd_nonce1 q) = 24 \<Longrightarrow> length (sd_nonce2 q) = 24 \<Longrightarrow>
    msg_type m = MESSAGE_TYPE_BROADCAST \<or> key_agreement_public_key_bytes L (ob_recipient_document ob) =
      Inr (x25519_public L (ek_private_key (nc_decrypt C b))) \<Longrightarrow>
    net_step L C s (s\<lparr>ns_flight := insert (b, payload) (ns_flight s)\<rparr>)"
| injects: "unforged_payload L C (ns_signed s) b payload \<Longrightarrow>
    net_step L C s (s\<lparr>ns_flight := insert (b, payload) (ns_flight s)\<rparr>)"
| receives: "rx_step L (nc_resolvers C b) (nc_decrypt C b) (nc_handlers C b) (ns_rx s b) r \<Longrightarrow>
    (\<And>t payload. rx_phase r t = Decoding payload \<Longrightarrow>
      rx_phase (ns_rx s b) t = Decoding payload \<or> (b, payload) \<in> ns_flight s) \<Longrightarrow>
    net_step L C s (s\<lparr>ns_rx := (ns_rx s)(b := r)\<rparr>)"

inductive_cases net_stepE: "net_step L C s s'"

section \<open>Invariant\<close>

lemma unforged_mono: "unforged L C S m \<Longrightarrow> S \<subseteq> T \<Longrightarrow> unforged L C T m"
  by (auto simp: unforged_def)

lemma unforged_payload_mono: "unforged_payload L C S b p \<Longrightarrow> S \<subseteq> T \<Longrightarrow> unforged_payload L C T b p"
  unfolding unforged_payload_def by (meson unforged_mono)

text \<open>The message task \<open>t\<close> of party \<open>b\<close> works on was admitted from a payload of the network.\<close>

definition came_in :: "'x msg_lib_scheme \<Rightarrow> net_config \<Rightarrow> (nat \<times> bytes) set \<Rightarrow> nat \<Rightarrow> nat \<Rightarrow> message \<Rightarrow> bool" where
  "came_in L C F b t m \<longleftrightarrow> (\<exists>payload c. \<exists>resolve\<in>nc_resolvers C b. (b, payload) \<in> F
     \<and> admit_message L resolve c (nc_decrypt C b) payload (fst (nc_handlers C b t)) = Inr m)"

definition rx_traced :: "'x msg_lib_scheme \<Rightarrow> net_config \<Rightarrow> (nat \<times> bytes) set \<Rightarrow> nat \<Rightarrow> rx_state \<Rightarrow> bool" where
  "rx_traced L C F b r \<longleftrightarrow>
     (\<forall>t payload. rx_phase r t = Decoding payload \<longrightarrow> (b, payload) \<in> F)
   \<and> (\<forall>t m. rx_phase r t = Guarding m \<longrightarrow> came_in L C F b t m)
   \<and> (\<forall>(t, m, c)\<in>set (rx_offers r). came_in L C F b t m)"

lemma rx_tracedD:
  assumes "rx_traced L C F b r"
  shows "rx_phase r t = Decoding payload \<Longrightarrow> (b, payload) \<in> F"
    and "rx_phase r t = Guarding m \<Longrightarrow> came_in L C F b t m"
    and "(t, m, c) \<in> set (rx_offers r) \<Longrightarrow> came_in L C F b t m"
  using assms by (auto simp: rx_traced_def)

lemma rx_traced_mono: "rx_traced L C F b r \<Longrightarrow> F \<subseteq> G \<Longrightarrow> rx_traced L C G b r"
  unfolding rx_traced_def came_in_def by fast

lemma rx_traced_step:
  assumes tr: "rx_traced L C F b r"
    and st: "rx_step L (nc_resolvers C b) (nc_decrypt C b) (nc_handlers C b) r r'"
    and new: "\<And>t payload. rx_phase r' t = Decoding payload \<Longrightarrow>
      rx_phase r t = Decoding payload \<or> (b, payload) \<in> F"
  shows "rx_traced L C F b r'"
  using st
proof cases
  case (task t)
  have dec: "(b, payload) \<in> F" if "rx_phase r' u = Decoding payload" for u payload
    using new [OF that] rx_tracedD(1) [OF tr] by blast
  show ?thesis using task
  proof (cases rule: stream_step.cases)
    case (admitted payload resolve c m)
    then have "came_in L C F b t m"
      using rx_tracedD(1) [OF tr, of t payload] unfolding came_in_def by blast
    then show ?thesis using tr admitted(1) unfolding rx_traced_def by auto
  qed (use tr dec in \<open>auto simp: rx_traced_def\<close>)
next
  case (take_message i q)
  then show ?thesis using tr by (simp add: rx_traced_def)
qed

text \<open>
  The invariant of the network: its payloads and the messages made are unforged, what was signed
  is the header bytes of a message made by that party or the hash of a document, and what any
  party receives comes from the network.
\<close>

definition net_inv :: "'x msg_lib_scheme \<Rightarrow> net_config \<Rightarrow> net_state \<Rightarrow> bool" where
  "net_inv L C s \<longleftrightarrow>
     (\<forall>(b, p)\<in>ns_flight s. unforged_payload L C (ns_signed s) b p)
   \<and> (\<forall>(a, m)\<in>ns_made s. unforged L C (ns_signed s) m)
   \<and> (\<forall>(a, x)\<in>ns_signed s. (\<exists>m. (a, m) \<in> ns_made s \<and> unsigned_headers_cbor L m = Inr x)
        \<or> x \<in> range (blake3_hash L))
   \<and> (\<forall>b. rx_traced L C (ns_flight s) b (ns_rx s b) \<and> rx_inv L (ns_rx s b))"

lemma net_invD:
  assumes "net_inv L C s"
  shows "(b, p) \<in> ns_flight s \<Longrightarrow> unforged_payload L C (ns_signed s) b p"
    and "(a, m) \<in> ns_made s \<Longrightarrow> unforged L C (ns_signed s) m"
    and "(a, x) \<in> ns_signed s \<Longrightarrow> x \<notin> range (blake3_hash L) \<Longrightarrow>
      \<exists>m. (a, m) \<in> ns_made s \<and> unsigned_headers_cbor L m = Inr x"
    and "rx_traced L C (ns_flight s) b (ns_rx s b)" and "rx_inv L (ns_rx s b)"
  using assms unfolding net_inv_def by blast+

lemma net_inv_initial: "net_inv L C (net_initial st)"
  by (simp add: net_inv_def net_initial_def rx_traced_def rx_initial_def rx_inv_initial [unfolded rx_initial_def])

text \<open>What an honest party sends holds its own message and nothing else.\<close>

lemma sent_payload_unwraps:
  assumes laws: "msg_laws L" "wire_formats_disjoint L"
    and p: "outbox_payload L o1 o2 q m ob = Inr payload" and remote: "\<not> ob_local ob"
    and draw: "length (sd_nonce1 q) = 24" "length (sd_nonce2 q) = 24"
    and key: "msg_type m = MESSAGE_TYPE_BROADCAST \<or> key_agreement_public_key_bytes L (ob_recipient_document ob) =
      Inr (x25519_public L (ek_private_key rk))"
    and un: "unwrap_payload L c rk payload = Inr (m', encrypted)"
  shows "m' = m"
proof (cases "msg_type m = MESSAGE_TYPE_BROADCAST")
  case True
  then have "cbor_of_message L m = Inr payload"
    using outbox_payload_Inr(2) [OF p] by (auto simp: message_encode_def result_simps)
  then have "message_decode L payload = Inr m" and "\<not> is_ok (envelope_of_cbor L payload)"
    using msg_lawsD(4) [OF laws(1), of m] laws(2)
    by (auto simp: message_decode_def wire_formats_disjoint_def)
  then have "unwrap_payload L c rk payload = Inr (m, False)"
    by (cases "envelope_of_cbor L payload") (auto simp: unwrap_payload_def envelope_decode_def)
  then show ?thesis using un by simp
next
  case False
  then obtain e where e: "enclose_for L o2 (sd_ephemeral q) (sd_nonce1 q) (sd_nonce2 q) m
      (ob_recipient_document ob) = Inr e" and be: "envelope_encode L e = Inr payload"
    using outbox_payload_Inr(3) [OF p remote] by blast
  have "envelope_decode L payload = Inr e"
    using be msg_lawsD(5) [OF laws(1), of e] by (auto simp: envelope_encode_def envelope_decode_def result_simps)
  then have "envelope_decrypt L (dc_decrypt1 c) (dc_decrypt2 c) rk e = Inr m'"
    using un by (auto simp: unwrap_payload_def result_simps)
  moreover have "key_agreement_public_key_bytes L (ob_recipient_document ob) =
      Inr (x25519_public L (ek_private_key rk))" using key False by blast
  ultimately show ?thesis by (blast intro: decrypt_sealed_only [OF laws(1) e draw])
qed

lemma net_inv_flight:
  assumes "net_inv L C s" and "unforged_payload L C (ns_signed s) b payload"
  shows "net_inv L C (s\<lparr>ns_flight := insert (b, payload) (ns_flight s)\<rparr>)"
proof -
  have "rx_traced L C (insert (b, payload) (ns_flight s)) u (ns_rx s u)" for u
    by (rule rx_traced_mono [OF net_invD(4) [OF assms(1)]]) blast
  then show ?thesis using assms unfolding net_inv_def by simp
qed

lemma net_inv_step:
  assumes laws: "msg_laws L" "wire_formats_disjoint L"
    and inv: "net_inv L C s" and st: "net_step L C s s'"
  shows "net_inv L C s'"
  using st
proof cases
  case (makes c1 c2 n d e r a m x)
  have up: "ns_signed s \<subseteq> insert (a, x) (ns_signed s)" by blast
  show ?thesis
    using inv makes(2-4) unforged_mono [OF _ up] unforged_payload_mono [OF _ up]
    unfolding net_inv_def makes(1) by fastforce
next
  case (certifies a vm d d' x)
  have up: "ns_signed s \<subseteq> insert (a, x) (ns_signed s)" by blast
  have "x \<in> range (blake3_hash L)" using certifies(3) by (auto simp: payload_hash_def result_simps)
  then show ?thesis
    using inv unforged_mono [OF _ up] unforged_payload_mono [OF _ up]
    unfolding net_inv_def certifies(1) by fastforce
next
  case (sends a m o1 o2 q ob payload b)
  have "unforged_payload L C (ns_signed s) b payload"
    unfolding unforged_payload_def
    using sent_payload_unwraps [OF laws sends(3-7)] net_invD(2) [OF inv sends(2)] by blast
  then show ?thesis unfolding sends(1) by (rule net_inv_flight [OF inv])
next
  case (injects b payload)
  then show ?thesis using net_inv_flight [OF inv] by simp
next
  case (receives b r)
  have "rx_traced L C (ns_flight s) b r"
    by (rule rx_traced_step [OF net_invD(4) [OF inv] receives(2,3)])
  moreover have "rx_inv L r" by (rule rx_inv_step [OF net_invD(5) [OF inv] receives(2)])
  ultimately show ?thesis using inv unfolding net_inv_def receives(1) by auto
qed

lemma net_inv_reachable:
  assumes "msg_laws L" "wire_formats_disjoint L" and "(net_step L C)\<^sup>*\<^sup>* (net_initial st) s"
  shows "net_inv L C s"
  using assms(3)
  by (induction rule: rtranclp_induct) (auto intro: net_inv_initial net_inv_step [OF assms(1,2)])

section \<open>Delivery\<close>

definition at_party :: "nat \<Rightarrow> rx_state \<Rightarrow> net_state \<Rightarrow> net_state" where
  "at_party b r s = s\<lparr>ns_rx := (ns_rx s)(b := r)\<rparr>"

lemma at_party_simps [simp]:
  "ns_rx (at_party b r s) b = r" "ns_made (at_party b r s) = ns_made s"
  "ns_signed (at_party b r s) = ns_signed s" "ns_flight (at_party b r s) = ns_flight s"
  "at_party b q (at_party b r s) = at_party b q s" "at_party b (ns_rx s b) s = s"
  by (simp_all add: at_party_def)

lemma stream_step_others:
  "stream_step L R rk h t s s' \<Longrightarrow> u \<noteq> t \<Longrightarrow> rx_phase s' u = rx_phase s u"
  by (erule stream_stepE) simp_all

lemma net_task:
  assumes "stream_step L (nc_resolvers C b) (nc_decrypt C b) (nc_handlers C b) t (ns_rx s b) r"
    and "\<And>payload. rx_phase r t = Decoding payload \<Longrightarrow> (b, payload) \<in> ns_flight s"
  shows "net_step L C s (at_party b r s)"
  unfolding at_party_def
proof (rule net_step.receives [OF rx_step.task [OF assms(1)]])
  fix u payload assume "rx_phase r u = Decoding payload"
  then show "rx_phase (ns_rx s b) u = Decoding payload \<or> (b, payload) \<in> ns_flight s"
    using assms stream_step_others [OF assms(1), of u] by (cases "u = t") auto
qed

text \<open>
  A payload on its way, admitted by the receiving party and new to its replay guard, can be
  delivered: the task of a new stream reads it and runs to its push.
\<close>

lemma flight_delivered:
  fixes s :: net_state
  assumes p: "(b, payload) \<in> ns_flight s" "length payload \<le> DEFAULT_MAX_INBOUND_MESSAGE_SIZE"
    and adm: "resolve \<in> nc_resolvers C b"
      "admit_message L resolve c (nc_decrypt C b) payload (fst (nc_handlers C b t)) = Inr m"
    and new: "check_and_insert L c3 (message_headers L m) (rx_guard (ns_rx s b)) = (Inr u, g)"
    and idle: "rx_phase (ns_rx s b) t = NoStream"
  shows "\<exists>r. (net_step L C)\<^sup>*\<^sup>* s (at_party b r s) \<and> rx_guard r = g
    \<and> rx_offers r = rx_offers (ns_rx s b) @ [(t, m, c3)] \<and> rx_pushed r = rx_pushed (ns_rx s b) @ [(t, m)]
    \<and> rx_store r = inbox_push (snd (nc_handlers C b t)) now (msg_exp m) m (rx_store (ns_rx s b))"
proof -
  let ?step = "stream_step L (nc_resolvers C b) (nc_decrypt C b) (nc_handlers C b) t"
  define r0 where "r0 = ns_rx s b"
  define r1 where "r1 = rx_move t Reading r0"
  define r2 where "r2 = rx_move t (Decoding payload) r1"
  define r3 where "r3 = rx_move t (Guarding m) r2"
  define r4 where "r4 = rx_move t (Pushing m) (r3\<lparr>rx_guard := g, rx_offers := rx_offers r3 @ [(t, m, c3)]\<rparr>)"
  define r5 where "r5 = rx_move t Finished (r4\<lparr>rx_store := inbox_push (snd (nc_handlers C b t)) now (msg_exp m) m (rx_store r4),
    rx_pushed := rx_pushed r4 @ [(t, m)]\<rparr>)"
  note d = r0_def r1_def r2_def r3_def r4_def r5_def
  have "?step r0 r1" unfolding r1_def by (rule stream_step.spawned) (simp add: r0_def idle)
  then have "net_step L C (at_party b r0 s) (at_party b r1 s)"
    using net_task [where L = L and C = C and b = b and s = "at_party b r0 s" and r = r1 and t = t] by (simp add: r1_def)
  moreover have "?step r1 r2" unfolding r2_def by (rule stream_step.read_payload [OF _ p(2)]) (simp add: r1_def)
  then have "net_step L C (at_party b r1 s) (at_party b r2 s)"
    using net_task [where L = L and C = C and b = b and s = "at_party b r1 s" and r = r2 and t = t] p(1) by (simp add: r2_def)
  moreover have "?step r2 r3" unfolding r3_def
    by (rule stream_step.admitted [where resolve = resolve and payload = payload and c = c])
      (use adm in \<open>simp_all add: r2_def\<close>)
  then have "net_step L C (at_party b r2 s) (at_party b r3 s)"
    using net_task [where L = L and C = C and b = b and s = "at_party b r2 s" and r = r3 and t = t] by (simp add: r3_def)
  moreover have "?step r3 r4" unfolding r4_def
    by (rule stream_step.guard_accepts) (use new in \<open>simp_all add: r3_def r2_def r1_def r0_def\<close>)
  then have "net_step L C (at_party b r3 s) (at_party b r4 s)"
    using net_task [where L = L and C = C and b = b and s = "at_party b r3 s" and r = r4 and t = t] by (simp add: r4_def)
  moreover have "?step r4 r5" unfolding r5_def by (rule stream_step.pushed) (simp add: r4_def)
  then have "net_step L C (at_party b r4 s) (at_party b r5 s)"
    using net_task [where L = L and C = C and b = b and s = "at_party b r4 s" and r = r5 and t = t] by (simp add: r5_def)
  ultimately have "(net_step L C)\<^sup>*\<^sup>* (at_party b r0 s) (at_party b r5 s)"
    by (meson converse_rtranclp_into_rtranclp rtranclp.rtrancl_refl)
  then show ?thesis by (intro exI [of _ r5]) (simp add: d)
qed

text \<open>A whole journey: a message is made, sent, received by a party that has seen nothing yet, and pushed.\<close>

lemma message_travels:
  assumes made: "new_with_options L c1 c2 n d e r (nc_sign C a) = Inr m" "nc_honest C \<subseteq> {a}"
    and sent: "outbox_payload L o1 o2 q m (ob :: unit outbox) = Inr payload" "\<not> ob_local ob"
      "length (sd_nonce1 q) = 24" "length (sd_nonce2 q) = 24"
      "msg_type m = MESSAGE_TYPE_BROADCAST \<or> key_agreement_public_key_bytes L (ob_recipient_document ob) =
        Inr (x25519_public L (ek_private_key (nc_decrypt C b)))"
    and received: "length payload \<le> DEFAULT_MAX_INBOUND_MESSAGE_SIZE" "resolve \<in> nc_resolvers C b"
      "admit_message L resolve c (nc_decrypt C b) payload (fst (nc_handlers C b t)) = Inr m"
      "check_and_insert L c3 (message_headers L m) replay_default = (Inr (), g)"
  shows "\<exists>s. (net_step L C)\<^sup>*\<^sup>* (net_initial st) s \<and> (a, m) \<in> ns_made s
    \<and> rx_pushed (ns_rx s b) = [(t, m)] \<and> rx_offers (ns_rx s b) = [(t, m, c3)]"
proof -
  let ?s0 = "net_initial st"
  obtain x where x: "unsigned_headers_cbor L m = Inr x" using new_with_options_Inr [OF made(1)] by blast
  define s1 where "s1 = ?s0\<lparr>ns_made := {(a, m)}, ns_signed := {(a, x)}\<rparr>"
  define s2 where "s2 = s1\<lparr>ns_flight := {(b, payload)}\<rparr>"
  have "unforged L C {(a, x)} m" using made(2) x by (auto simp: unforged_def)
  then have "net_step L C ?s0 s1"
    using net_step.makes [where L = L and C = C and s = ?s0, OF made(1) x] by (simp add: s1_def net_initial_def)
  moreover have "net_step L C s1 s2"
    using net_step.sends [where L = L and C = C and s = s1 and a = a, OF _ sent] by (simp add: s1_def s2_def net_initial_def)
  moreover have f: "rx_offers (ns_rx s2 b) = []" "rx_pushed (ns_rx s2 b) = []"
    "(b, payload) \<in> ns_flight s2" "rx_guard (ns_rx s2 b) = replay_default" "rx_phase (ns_rx s2 b) t = NoStream"
    by (simp_all add: s2_def s1_def net_initial_def rx_initial_def)
  note flight_delivered [where L = L and C = C and b = b and t = t, OF f(3) received(1-3) _ f(5)]
  then obtain rx where "(net_step L C)\<^sup>*\<^sup>* s2 (at_party b rx s2)" "rx_offers rx = [(t, m, c3)]" "rx_pushed rx = [(t, m)]"
    using received(4) unfolding f by (metis append_Nil)
  moreover from calculation have "(net_step L C)\<^sup>*\<^sup>* ?s0 (at_party b rx s2)"
    by (meson converse_rtranclp_into_rtranclp)
  ultimately show ?thesis by (intro exI [of _ "at_party b rx s2"]) (simp add: s2_def s1_def)
qed

section \<open>Injective agreement\<close>

text \<open>
  The signing key serves two purposes, and their inputs cannot be confused: a document is signed
  by its 32-byte hash, and the encoding of message headers holds the 32-byte hash of the
  content and more.
\<close>

definition signing_domains :: "'x msg_lib_scheme \<Rightarrow> bool" where
  "signing_domains L \<longleftrightarrow> (\<forall>x. length (blake3_hash L x) = 32)
     \<and> (\<forall>h b. cbor_of_headers L h = Inr b \<longrightarrow> length (hd_content_hash h) < length b)"

lemma header_bytes_no_hash:
  assumes "signing_domains L" and "unsigned_headers_cbor L m = Inr x"
  shows "x \<notin> range (blake3_hash L)"
  using assms
  by (auto simp: signing_domains_def unsigned_headers_cbor_def result_simps unsigned_headers_def content_hash_def)
    (metis headers.select_convs(10) less_irrefl)

text \<open>The message claims to come from the identity of party \<open>a\<close>.\<close>

definition claims_from :: "'x msg_lib_scheme \<Rightarrow> net_config \<Rightarrow> nat \<Rightarrow> message \<Rightarrow> bool" where
  "claims_from L C a m \<longleftrightarrow> (\<exists>d. did_try_from L (msg_from m) = Inr d \<and> base_id d = base_id (sk_did (nc_sign C a)))"

text \<open>
  The resolvers of party \<open>b\<close> may fail and may lie about anybody else, but a document with the
  identifier of \<open>a\<close> lists the assertion key of \<open>a\<close>.
\<close>

definition resolvers_know :: "'x msg_lib_scheme \<Rightarrow> net_config \<Rightarrow> nat \<Rightarrow> nat \<Rightarrow> bool" where
  "resolvers_know L C b a \<longleftrightarrow> (\<forall>resolve\<in>nc_resolvers C b. \<forall>did doc. resolve did = Inr doc \<longrightarrow>
     doc_id doc = base_id (sk_did (nc_sign C a)) \<longrightarrow>
     assertion_method_public_key L doc = Inr (ed25519_public L (sk_secret_key (nc_sign C a))))"

text \<open>What tasks of party \<open>b\<close> pushed as messages of party \<open>a\<close>, with the sender verified.\<close>

definition pushed_from :: "'x msg_lib_scheme \<Rightarrow> net_config \<Rightarrow> net_state \<Rightarrow> nat \<Rightarrow> nat \<Rightarrow> (nat \<times> message) set" where
  "pushed_from L C s b a = {(t, m)\<in>set (rx_pushed (ns_rx s b)). claims_from L C a m
     \<and> \<not> skip_resolver_verification (fst (nc_handlers C b t)) (msg_type m)}"

lemma verify_with_document_Inr:
  assumes "verify_with_document L clk m doc = Inr ()"
  shows "\<exists>d x sig pk. did_try_from L (msg_from m) = Inr d \<and> doc_id doc = base_id d
    \<and> unsigned_headers_cbor L m = Inr x \<and> ed25519_signature_from_slice L (msg_signature m) = Some sig
    \<and> assertion_method_public_key L doc = Inr pk \<and> ed25519_verify L pk x sig"
  using assms by (auto simp: verify_with_document_def result_simps)

text \<open>A message that came in as one of an honest party's was made by that party, for this recipient.\<close>

lemma came_in_made:
  assumes laws: "msg_laws L" "signing_domains L" and inv: "net_inv L C s"
    and a: "a \<in> nc_honest C" "resolvers_know L C b a"
    and m: "came_in L C (ns_flight s) b t m" "claims_from L C a m"
    and checked: "\<not> skip_resolver_verification (fst (nc_handlers C b t)) (msg_type m)"
  shows "\<exists>m'. (a, m') \<in> ns_made s \<and> unsigned_headers L m = unsigned_headers L m'"
    and "msg_type m = MESSAGE_TYPE_BROADCAST
      \<or> same_base_did L (msg_to m) (did_id (ek_did (nc_decrypt C b))) = Inr True"
proof -
  obtain payload c resolve where p: "(b, payload) \<in> ns_flight s" "resolve \<in> nc_resolvers C b"
    and adm: "admit_message L resolve c (nc_decrypt C b) payload (fst (nc_handlers C b t)) = Inr m"
    using m(1) unfolding came_in_def by blast
  obtain encrypted doc where u: "unwrap_payload L c (nc_decrypt C b) payload = Inr (m, encrypted)"
    and e: "msg_type m = MESSAGE_TYPE_BROADCAST \<longleftrightarrow> \<not> encrypted"
      "encrypted \<longrightarrow> same_base_did L (msg_to m) (did_id (ek_did (nc_decrypt C b))) = Inr True"
    and doc: "resolve (msg_from m) = Inr doc" "verify_with_document L (dc_verify c) m doc = Inr ()"
    using admit_message_Inr [OF adm] checked by blast
  then show "msg_type m = MESSAGE_TYPE_BROADCAST
      \<or> same_base_did L (msg_to m) (did_id (ek_did (nc_decrypt C b))) = Inr True" by blast
  obtain x sig pk where v: "unsigned_headers_cbor L m = Inr x" "assertion_method_public_key L doc = Inr pk"
      "ed25519_signature_from_slice L (msg_signature m) = Some sig" "ed25519_verify L pk x sig"
    and "doc_id doc = base_id (sk_did (nc_sign C a))"
    using verify_with_document_Inr [OF doc(2)] m(2) by (auto simp: claims_from_def)
  then have "pk = ed25519_public L (sk_secret_key (nc_sign C a))"
    using a(2) p(2) doc(1) by (auto simp: resolvers_know_def)
  then have "(a, x) \<in> ns_signed s"
    using net_invD(1) [OF inv p(1)] u v a(1) unfolding unforged_payload_def unforged_def by blast
  then obtain m' where "(a, m') \<in> ns_made s" "unsigned_headers_cbor L m' = Inr x"
    using net_invD(3) [OF inv] header_bytes_no_hash [OF laws(2) v(1)] by blast
  then show "\<exists>m'. (a, m') \<in> ns_made s \<and> unsigned_headers L m = unsigned_headers L m'"
    using same_signed_bytes [OF laws(1) v(1)] by blast
qed

lemma agreement:
  assumes laws: "msg_laws L" "wire_formats_disjoint L" "signing_domains L"
    and run: "(net_step L C)\<^sup>*\<^sup>* (net_initial st) s"
    and a: "a \<in> nc_honest C" "resolvers_know L C b a"
    and win: "within_window (rx_offers (ns_rx s b))"
  shows "\<exists>f. inj_on f (pushed_from L C s b a) \<and> (\<forall>(t, m)\<in>pushed_from L C s b a.
      (a, f (t, m)) \<in> ns_made s \<and> unsigned_headers L m = unsigned_headers L (f (t, m))
    \<and> (msg_type m = MESSAGE_TYPE_BROADCAST
       \<or> same_base_did L (msg_to m) (did_id (ek_did (nc_decrypt C b))) = Inr True))"
proof -
  note inv = net_inv_reachable [OF laws(1,2) run]
  let ?P = "pushed_from L C s b a"
  have in_: "came_in L C (ns_flight s) b t m" if "(t, m) \<in> ?P" for t m
    using that pushed_was_offered [OF net_invD(5) [OF inv]] rx_tracedD(3) [OF net_invD(4) [OF inv]]
    unfolding pushed_from_def by blast
  have made: "\<exists>m'. (a, m') \<in> ns_made s \<and> unsigned_headers L m = unsigned_headers L m'"
    and to: "msg_type m = MESSAGE_TYPE_BROADCAST
      \<or> same_base_did L (msg_to m) (did_id (ek_did (nc_decrypt C b))) = Inr True"
    if "(t, m) \<in> ?P" for t m
    using came_in_made [OF laws(1,3) inv a in_ [OF that]] that by (auto simp: pushed_from_def)
  then obtain f where f: "\<forall>(t, m)\<in>?P. (a, f (t, m)) \<in> ns_made s \<and> unsigned_headers L m = unsigned_headers L (f (t, m))"
    using bchoice [of ?P "\<lambda>q m'. (a, m') \<in> ns_made s \<and> unsigned_headers L (snd q) = unsigned_headers L m'"]
    by fastforce
  have "inj_on (\<lambda>q. msg_id (snd q)) ?P"
    using pushed_ids_distinct [OF net_invD(5) [OF inv] win]
    by (auto simp: distinct_map pushed_from_def intro: inj_on_subset)
  moreover have "msg_id (snd q) = msg_id (f q)" if "q \<in> ?P" for q
    using f that by (auto simp: unsigned_headers_def)
  ultimately have "inj_on f ?P" unfolding inj_on_def by metis
  with f to show ?thesis by (intro exI [of _ f]) blast
qed

text \<open>C4: Injective agreement, against an attacker who owns the network. Of everything the tasks of a
  party push into its inboxes as messages of an honest party, with the sender verified, each
  was made by that party, with the same headers and the same hash of the content, and is a
  broadcast or addressed to the identity of the receiving party; and within one replay window
  no two of them go back to the same message made. The hypotheses are the laws of the
  packages, that the two uses of the signing key have different inputs, and that the
  receiver's resolvers give no document of that party with a key that is not the party's.\<close>

theorem injective_agreement:
  assumes laws: "msg_laws L" "wire_formats_disjoint L" "signing_domains L"
    and run: "(net_step L C)\<^sup>*\<^sup>* (net_initial st) s"
    and a: "a \<in> nc_honest C" "resolvers_know L C b a"
    and win: "within_window (rx_offers (ns_rx s b))"
  shows "\<exists>f. inj_on f (pushed_from L C s b a) \<and> (\<forall>(t, m)\<in>pushed_from L C s b a.
      (a, f (t, m)) \<in> ns_made s \<and> unsigned_headers L m = unsigned_headers L (f (t, m))
    \<and> (msg_type m = MESSAGE_TYPE_BROADCAST
       \<or> same_base_did L (msg_to m) (did_id (ek_did (nc_decrypt C b))) = Inr True))"
  by (rule agreement [OF assms])

section \<open>Witnesses\<close>

text \<open>Party 0 sends the broadcast of \<^verbatim>\<open>Inbound\<close> to party 2, whose handlers are those of \<^verbatim>\<open>StreamTasks\<close>.\<close>

definition demo_net_config :: "document \<Rightarrow> net_config" where
  "demo_net_config doc = \<lparr>nc_honest = {0}, nc_sign = \<lambda>_. demo_signing_key, nc_decrypt = \<lambda>_. demo_encryption_key,
     nc_resolvers = \<lambda>_. {\<lambda>_. Inr doc}, nc_handlers = \<lambda>_. demo_handlers\<rparr>"

lemma demo_signing_domains: "signing_domains demo_msg_lib"
  by (simp add: signing_domains_def)
    (auto simp: demo_lib_defs demo_doc_lib_def demo_crypto_lib_def demo_did_lib_def put_headers_def)

lemma demo_net_run:
  assumes doc: "doc_id doc = ''did:ma:6d61''"
    "assertion_method_public_key demo_msg_lib doc = Inr (ed25519_public demo_msg_lib demo_secret)"
  shows "\<exists>s m. (net_step demo_msg_lib (demo_net_config doc))\<^sup>*\<^sup>* (net_initial (\<lambda>_. empty_store)) s
    \<and> rx_pushed (ns_rx s 2) = [(7, m)] \<and> rx_offers (ns_rx s 2) = [(7, m, dc_guard (demo_clocks 1000))]
    \<and> msg_from m = ''did:ma:6d61'' \<and> msg_type m = MESSAGE_TYPE_BROADCAST"
proof -
  let ?L = demo_msg_lib and ?C = "demo_net_config doc"
  obtain m where m: "new_with_options ?L (Some 1000) (Some 1000) ''m1'' demo_broadcast_draft 4600 None demo_signing_key = Inr m"
    and adm: "admit_message ?L (\<lambda>_. Inr doc) (demo_clocks 1000) demo_encryption_key (put_message m) INBOX_PROTOCOL_ID = Inr m"
    using demo_broadcast_admitted_by [where resolve = "\<lambda>_. Inr doc" and t = 1000, OF refl doc(1) _ doc(2)]
    by (force simp: demo_signing_key_def validate_message_freshness_def now_unix_secs_def DEFAULT_MAX_CLOCK_SKEW_SECS_def)
  have ty: "msg_type m = MESSAGE_TYPE_BROADCAST" and frm: "msg_from m = ''did:ma:6d61''"
    and v: "headers_validate ?L (Some 1000) (unsigned_headers ?L m) = Inr ()"
    using new_with_options_Inr [OF m] by (auto simp: demo_broadcast_draft_def)
  obtain g where g: "check_and_insert ?L (dc_guard (demo_clocks 1000)) (message_headers ?L m) replay_default = (Inr (), g)"
    using demo_broadcast_guarded [OF m] by blast
  let ?ob = "outbox_from_transport () doc False [] INBOX_PROTOCOL_ID"
  have p: "outbox_payload ?L (Some 1000) None demo_seal m ?ob = Inr (put_message m)"
    by (simp add: outbox_payload_def ty v message_encode_def) (simp add: demo_lib_defs)
  have C: "nc_sign ?C 0 = demo_signing_key" "nc_honest ?C \<subseteq> {0}" "fst (nc_handlers ?C 2 7) = INBOX_PROTOCOL_ID"
    "nc_decrypt ?C 2 = demo_encryption_key" "(\<lambda>_. Inr doc) \<in> nc_resolvers ?C 2"
    by (simp_all add: demo_net_config_def demo_handlers_def)
  have "\<exists>s. (net_step ?L ?C)\<^sup>*\<^sup>* (net_initial (\<lambda>_. empty_store)) s \<and> (0, m) \<in> ns_made s
    \<and> rx_pushed (ns_rx s 2) = [(7, m)] \<and> rx_offers (ns_rx s 2) = [(7, m, dc_guard (demo_clocks 1000))]"
    by (rule message_travels [OF m [folded C(1)] C(2) p _ _ _ disjI1 [OF ty] demo_broadcast_small [OF m] C(5)
          adm [folded C(3,4)] g])
      (simp_all add: outbox_from_transport_def demo_seal_def)
  then show ?thesis using frm ty by blast
qed

theorem injective_agreement_witness:
  "\<exists>C s f m. (net_step demo_msg_lib C)\<^sup>*\<^sup>* (net_initial (\<lambda>_. empty_store)) s
    \<and> pushed_from demo_msg_lib C s 2 0 = {(7, m)} \<and> (0, f (7::nat, m)) \<in> ns_made s
    \<and> unsigned_headers demo_msg_lib m = unsigned_headers demo_msg_lib (f (7, m))"
proof -
  obtain doc :: document where doc: "doc_id doc = ''did:ma:6d61''"
    "assertion_method_public_key demo_msg_lib doc = Inr (ed25519_public demo_msg_lib demo_secret)"
    using demo_msg_keys by blast
  let ?C = "demo_net_config doc"
  obtain s m where s: "(net_step demo_msg_lib ?C)\<^sup>*\<^sup>* (net_initial (\<lambda>_. empty_store)) s"
    and p: "rx_pushed (ns_rx s 2) = [(7, m)]" "rx_offers (ns_rx s 2) = [(7, m, dc_guard (demo_clocks 1000))]"
      "msg_from m = ''did:ma:6d61''" "msg_type m = MESSAGE_TYPE_BROADCAST"
    using demo_net_run [OF doc] by blast
  have k: "resolvers_know demo_msg_lib ?C 2 0" "0 \<in> nc_honest ?C"
    using doc(2) by (simp_all add: resolvers_know_def demo_net_config_def demo_signing_key_def)
  have w: "within_window (rx_offers (ns_rx s 2))"
    by (simp add: p within_window_def demo_clocks_def clock_nat_def)
  have "claims_from demo_msg_lib ?C 0 m"
    by (simp add: claims_from_def p did_try_from_def base_id_def DID_PREFIX_def demo_net_config_def demo_signing_key_def)
  then have one: "pushed_from demo_msg_lib ?C s 2 0 = {(7, m)}"
    by (auto simp: pushed_from_def p demo_net_config_def demo_handlers_def skip_resolver_verification_def protocol_defs)
  obtain f where f: "\<forall>(t, m)\<in>pushed_from demo_msg_lib ?C s 2 0. (0, f (t, m)) \<in> ns_made s
      \<and> unsigned_headers demo_msg_lib m = unsigned_headers demo_msg_lib (f (t, m))
      \<and> (msg_type m = MESSAGE_TYPE_BROADCAST
         \<or> same_base_did demo_msg_lib (msg_to m) (did_id (ek_did (nc_decrypt ?C 2))) = Inr True)"
    using injective_agreement [OF demo_msg_laws demo_formats_disjoint demo_signing_domains s k(2,1) w] by blast
  then have "(0, f (7, m)) \<in> ns_made s" "unsigned_headers demo_msg_lib m = unsigned_headers demo_msg_lib (f (7, m))"
    unfolding one by simp_all
  with s one show ?thesis by (intro exI [of _ ?C] exI [of _ s] exI [of _ f] exI [of _ m]) (intro conjI)
qed

end
