(* ===== verification/Transport.thy ===== *)
theory Transport
  imports Service
begin

text \<open>
  Transport strings \<open>/iroh/<endpoint-id>/<protocol>\<close> and their resolution from the
  \<open>services\<close> entry of a DID document (\<^verbatim>\<open>transport.rs\<close>). A JSON value is the datatype
  \<open>json\<close> (\<open>serde_json::Value\<close>); an object is its list of members.
\<close>

datatype json =
    JNull
  | JBool bool
  | JNumber int
  | JString string
  | JArray "json list"
  | JObject "(string \<times> json) list"

definition as_str :: "json \<Rightarrow> string option" where
  "as_str v = (case v of JString s \<Rightarrow> Some s | _ \<Rightarrow> None)"

definition as_array :: "json \<Rightarrow> json list option" where
  "as_array v = (case v of JArray xs \<Rightarrow> Some xs | _ \<Rightarrow> None)"

definition as_object :: "json \<Rightarrow> (string \<times> json) list option" where
  "as_object v = (case v of JObject m \<Rightarrow> Some m | _ \<Rightarrow> None)"

text \<open>\<open>for x in xs { if let Some(y) = f(x) { return Some(y) } }\<close>.\<close>

fun first_some :: "('a \<Rightarrow> 'b option) \<Rightarrow> 'a list \<Rightarrow> 'b option" where
  "first_some f [] = None"
| "first_some f (x # xs) = (case f x of Some y \<Rightarrow> Some y | None \<Rightarrow> first_some f xs)"

section \<open>Parsing\<close>

definition normalize_endpoint_id :: "string \<Rightarrow> string option" where
  "normalize_endpoint_id address =
     (let value = trim address;
          endpoint = (case strip_prefix value ''/iroh/'' of None \<Rightarrow> value | Some e \<Rightarrow> e)
      in if length endpoint \<noteq> 64 \<or> \<not> list_all is_ascii_hexdigit endpoint then None
         else Some (to_ascii_lowercase endpoint))"

definition normalize_protocol :: "string \<Rightarrow> string" where
  "normalize_protocol input =
     (let protocol = trim input
      in if protocol = [] then [] else CHR ''/'' # trim_start_char (CHR ''/'') protocol)"

definition endpoint_id_from_transport :: "string \<Rightarrow> string option" where
  "endpoint_id_from_transport input =
     (let value = trim input
      in if value = [] then None
         else case strip_prefix value ''/iroh/'' of
             Some rest \<Rightarrow>
               (let endpoint = trim (hd (split_char (CHR ''/'') rest))
                in if endpoint = [] then None else normalize_endpoint_id endpoint)
           | None \<Rightarrow> normalize_endpoint_id value)"

definition protocol_from_transport :: "string \<Rightarrow> string option" where
  "protocol_from_transport input =
     (case strip_prefix (trim input) ''/iroh/'' of
        None \<Rightarrow> None
      | Some rest \<Rightarrow>
          (case find_char (CHR ''/'') rest of
             None \<Rightarrow> None
           | Some after_id \<Rightarrow>
               (let protocol = drop after_id rest
                in if protocol \<noteq> [] then Some protocol else None)))"

definition transport_string :: "string \<Rightarrow> string \<Rightarrow> string" where
  "transport_string endpoint_id protocol = ''/iroh/'' @ endpoint_id @ normalize_protocol protocol"

section \<open>Resolution from the services of a document\<close>

definition endpoint_keys :: "string list" where
  "endpoint_keys = [''endpoint_id'', ''endpointId'', ''iroh'', ''address'']"

text \<open>The loop over the four keys: a member that is not a string, or not an endpoint, is skipped.\<close>

definition endpoint_member :: "(string \<times> json) list \<Rightarrow> string \<Rightarrow> string option" where
  "endpoint_member m key =
     (case map_of m key of Some (JString s) \<Rightarrow> endpoint_id_from_transport s | _ \<Rightarrow> None)"

definition endpoint_id_from_transport_value :: "json \<Rightarrow> string option" where
  "endpoint_id_from_transport_value v =
     (case v of
        JString s \<Rightarrow> endpoint_id_from_transport s
      | JObject m \<Rightarrow> first_some (endpoint_member m) endpoint_keys
      | _ \<Rightarrow> None)"

definition resolve_inbox_endpoint_id :: "json option \<Rightarrow> string option" where
  "resolve_inbox_endpoint_id services =
     (case services of
        None \<Rightarrow> None
      | Some v \<Rightarrow>
          (case as_array v of
             Some items \<Rightarrow> first_some endpoint_id_from_transport_value items
           | None \<Rightarrow> endpoint_id_from_transport_value v))"

definition endpoint_for_service_item :: "json \<Rightarrow> string \<Rightarrow> string option" where
  "endpoint_for_service_item item target =
     (case as_str item of
        Some s \<Rightarrow>
          (case protocol_from_transport s of
             None \<Rightarrow> None
           | Some protocol \<Rightarrow>
               if normalize_protocol protocol = target then endpoint_id_from_transport s
               else None)
      | None \<Rightarrow>
          (case as_object item of
             None \<Rightarrow> None
           | Some m \<Rightarrow>
               (case Option.bind (or_else (or_else (map_of m ''protocol'') (map_of m ''service''))
                       (map_of m ''alpn'')) as_str of
                  None \<Rightarrow> None
                | Some protocol \<Rightarrow>
                    if normalize_protocol protocol \<noteq> target then None
                    else first_some (endpoint_member m) endpoint_keys)))"

definition resolve_endpoint_for_protocol :: "json option \<Rightarrow> string \<Rightarrow> string option" where
  "resolve_endpoint_for_protocol services target_protocol =
     (let target = normalize_protocol target_protocol
      in case services of
           None \<Rightarrow> None
         | Some v \<Rightarrow>
             (case as_array v of
                Some items \<Rightarrow> first_some (\<lambda>item. endpoint_for_service_item item target) items
              | None \<Rightarrow> endpoint_for_service_item v target))"

section \<open>Lemmas\<close>

lemma first_some_None [simp]: "first_some f xs = None \<longleftrightarrow> (\<forall>x\<in>set xs. f x = None)"
  by (induction xs) (auto split: option.splits)

lemma first_some_SomeD: "first_some f xs = Some y \<Longrightarrow> \<exists>x\<in>set xs. f x = Some y"
  by (induction xs) (auto split: option.splits)

lemma first_some_Some_iff:
  "first_some f xs = Some y \<longleftrightarrow>
     (\<exists>pre x post. xs = pre @ x # post \<and> list_all (\<lambda>z. f z = None) pre \<and> f x = Some y)"
proof
  show "first_some f xs = Some y \<Longrightarrow>
     \<exists>pre x post. xs = pre @ x # post \<and> list_all (\<lambda>z. f z = None) pre \<and> f x = Some y"
  proof (induction xs)
    case (Cons a xs)
    show ?case
    proof (cases "f a")
      case None
      with Cons obtain pre x post where "xs = pre @ x # post \<and> list_all (\<lambda>z. f z = None) pre \<and> f x = Some y"
        by auto
      with None have "a # xs = (a # pre) @ x # post \<and> list_all (\<lambda>z. f z = None) (a # pre) \<and> f x = Some y"
        by simp
      then show ?thesis by blast
    next
      case (Some b)
      with Cons.prems have "a # xs = [] @ a # xs \<and> list_all (\<lambda>z. f z = None) [] \<and> f a = Some y"
        by simp
      then show ?thesis by blast
    qed
  qed simp
next
  have "list_all (\<lambda>z. f z = None) pre \<Longrightarrow> f x = Some y \<Longrightarrow> first_some f (pre @ x # post) = Some y"
    for pre x post
    by (induction pre) simp_all
  then show "\<exists>pre x post. xs = pre @ x # post \<and> list_all (\<lambda>z. f z = None) pre \<and> f x = Some y \<Longrightarrow>
     first_some f xs = Some y"
    by blast
qed

lemma first_some_unique:
  assumes "\<exists>x\<in>set xs. f x \<noteq> None" and "\<And>x z. x \<in> set xs \<Longrightarrow> f x = Some z \<Longrightarrow> z = y"
  shows "first_some f xs = Some y"
proof (cases "first_some f xs")
  case None
  then show ?thesis using assms(1) by auto
next
  case (Some z)
  then show ?thesis using assms(2) first_some_SomeD by fastforce
qed

text \<open>An endpoint id as the crate writes it: 64 lower-case hexadecimal digits.\<close>

definition endpoint_id_ok :: "string \<Rightarrow> bool" where
  "endpoint_id_ok e \<longleftrightarrow> length e = 64 \<and> list_all is_ascii_hexdigit e \<and> to_ascii_lowercase e = e"

lemma slash_solid [simp]: "solid (CHR ''/'')"
  by (simp add: solid_def code_def)

lemma hexdigit_not_slash: "is_ascii_hexdigit c \<Longrightarrow> c \<noteq> CHR ''/''"
  by (auto simp: ascii_defs)

lemma hex_trim:
  assumes "length e = 64" and "list_all is_ascii_hexdigit e"
  shows "trim e = e"
proof (rule trim_solid)
  show ne: "e \<noteq> []" using assms(1) by auto
  show "solid (hd e)" and "solid (last e)"
    using ne assms(2) by (auto simp: list_all_iff intro: solid_hexdigit)
qed

lemma hex_strip: "list_all is_ascii_hexdigit e \<Longrightarrow> strip_prefix e ''/iroh/'' = None"
  by (cases e) (auto simp: strip_prefix_eq_None ascii_defs)

lemma normalize_endpoint_id_hex:
  "length e = 64 \<Longrightarrow> list_all is_ascii_hexdigit e \<Longrightarrow>
     normalize_endpoint_id e = Some (to_ascii_lowercase e)"
  by (simp add: normalize_endpoint_id_def hex_trim hex_strip)

lemma normalize_endpoint_id_ok: "normalize_endpoint_id a = Some e \<Longrightarrow> endpoint_id_ok e"
  by (auto simp: normalize_endpoint_id_def endpoint_id_ok_def Let_def list_all_iff
      to_ascii_lowercase_def split: if_splits)

lemma endpoint_id_from_transport_ok: "endpoint_id_from_transport a = Some e \<Longrightarrow> endpoint_id_ok e"
  by (auto simp: endpoint_id_from_transport_def Let_def split: if_splits option.splits
      dest: normalize_endpoint_id_ok)

text \<open>No white space encoding has a solid byte, so a solid byte shields what precedes it.\<close>

lemma white_space_no_solid: "w \<in> set white_space \<Longrightarrow> n \<in> set w \<Longrightarrow> \<not> solid_code n"
proof -
  have "list_all (list_all (\<lambda>n. \<not> solid_code n)) white_space"
    by (simp add: white_space_def solid_code_def)
  then show "w \<in> set white_space \<Longrightarrow> n \<in> set w \<Longrightarrow> \<not> solid_code n"
    by (auto simp: list_all_iff)
qed

lemma match_len_shield:
  assumes "solid c" and "match_len (map rev white_space) (rev t) = 0"
  shows "match_len (map rev white_space) (rev (a @ c # t)) = 0"
proof -
  have "\<not> prefix (rev w) (map code (rev (a @ c # t)))" if w: "w \<in> set white_space" for w
  proof
    assume p: "prefix (rev w) (map code (rev (a @ c # t)))"
    have "\<not> prefix (rev w) (map code (rev t))"
      using assms(2) white_space_ends [OF w] w by (auto simp: match_len_zero)
    with p obtain k where "rev w = map code (rev t) @ code c # k"
      by (auto simp: prefix_append Cons_eq_append_conv prefix_Cons)
    then have "code c \<in> set w" by (metis in_set_conv_decomp set_rev)
    then show False using white_space_no_solid [OF w] assms(1) by (auto simp: solid_def solid_code_def)
  qed
  then show ?thesis by (auto simp: match_len_zero)
qed

lemma normalize_protocol_cases:
  "normalize_protocol p = [] \<or>
   (\<exists>t. normalize_protocol p = CHR ''/'' # t \<and> trim_start_char (CHR ''/'') t = t
      \<and> match_len (map rev white_space) (rev t) = 0)"
proof (cases "trim p = []")
  case False
  define t where "t = trim_start_char (CHR ''/'') (trim p)"
  have "suffix t (trim p)" by (simp add: t_def suffix_trim_start_char)
  then have "match_len (map rev white_space) (rev t) = 0"
    using trimmed_back_suffix trimmed_trim [of p] unfolding trimmed_def by blast
  moreover have "trim_start_char (CHR ''/'') t = t"
    unfolding t_def by (rule trim_start_char_fix, rule trim_start_char_hd)
  ultimately show ?thesis using False by (simp add: normalize_protocol_def Let_def t_def)
qed (simp add: normalize_protocol_def)

lemma trim_normalize_protocol: "trim (normalize_protocol p) = normalize_protocol p"
proof -
  consider "normalize_protocol p = []"
    | t where "normalize_protocol p = CHR ''/'' # t" "match_len (map rev white_space) (rev t) = 0"
    using normalize_protocol_cases by blast
  then show ?thesis
  proof cases
    case 2
    then show ?thesis
      using match_len_shield [of "CHR ''/''" t "[]"] match_len_solid_front [of "CHR ''/'' # t"]
      by (simp add: trim_trimmed trimmed_def)
  qed simp
qed

lemma normalize_protocol_idem [simp]:
  "normalize_protocol (normalize_protocol p) = normalize_protocol p"
proof (cases "normalize_protocol p = []")
  case False
  then obtain t where t: "normalize_protocol p = CHR ''/'' # t" "trim_start_char (CHR ''/'') t = t"
    using normalize_protocol_cases by blast
  then show ?thesis
    using trim_normalize_protocol [of p]
    by (simp add: normalize_protocol_def [of "CHR ''/'' # t"] trim_start_char_def)
qed (simp add: normalize_protocol_def)

lemma normalize_protocol_Nil [simp]: "normalize_protocol [] = []"
  by (simp add: normalize_protocol_def)

lemma trim_transport_string:
  assumes e: "length e = 64" "list_all is_ascii_hexdigit e"
  shows "trim (transport_string e p) = transport_string e p"
proof -
  let ?s = "transport_string e p"
  have hd: "match_len white_space ?s = 0"
    by (rule match_len_solid_front) (simp_all add: transport_string_def)
  have "match_len (map rev white_space) (rev ?s) = 0"
  proof (cases "normalize_protocol p = []")
    case True
    have "e \<noteq> []" using e(1) by auto
    then have "solid (last ?s)"
      using True e(2) by (auto simp: transport_string_def list_all_iff intro!: solid_hexdigit)
    then show ?thesis by (intro match_len_solid_back) (simp_all add: transport_string_def)
  next
    case False
    then show ?thesis
      using normalize_protocol_cases [of p] match_len_shield [of "CHR ''/''" _ "''/iroh/'' @ e"]
      by (auto simp: transport_string_def simp del: rev_append)
  qed
  with hd show ?thesis by (simp add: trim_trimmed trimmed_def)
qed

lemma hd_split_transport:
  assumes "list_all is_ascii_hexdigit e"
  shows "hd (split_char (CHR ''/'') (e @ normalize_protocol p)) = e"
proof -
  have "CHR ''/'' \<notin> set e" using assms hexdigit_not_slash by (auto simp: list_all_iff)
  then show ?thesis
    using normalize_protocol_cases [of p] by (auto simp: split_char_append split_char_none)
qed

text \<open>What the crate prints, it parses back: endpoint id and protocol.\<close>

lemma endpoint_id_transport_string:
  assumes e: "length e = 64" "list_all is_ascii_hexdigit e"
  shows "endpoint_id_from_transport (transport_string e p) = Some (to_ascii_lowercase e)"
proof -
  have "strip_prefix (transport_string e p) ''/iroh/'' = Some (e @ normalize_protocol p)"
    by (simp add: transport_string_def)
  moreover have "e \<noteq> []" "transport_string e p \<noteq> []" using e(1) by (auto simp: transport_string_def)
  ultimately show ?thesis
    using e by (simp add: endpoint_id_from_transport_def trim_transport_string
        hd_split_transport hex_trim normalize_endpoint_id_hex del: strip_prefix_eq_Some)
qed

lemma protocol_transport_string:
  assumes e: "length e = 64" "list_all is_ascii_hexdigit e"
  shows "protocol_from_transport (transport_string e p) =
    (if normalize_protocol p = [] then None else Some (normalize_protocol p))"
proof -
  have "strip_prefix (transport_string e p) ''/iroh/'' = Some (e @ normalize_protocol p)"
    by (simp add: transport_string_def)
  moreover have ns: "CHR ''/'' \<notin> set e" using e(2) hexdigit_not_slash by (auto simp: list_all_iff)
  moreover have "find_char (CHR ''/'') (e @ normalize_protocol p) =
      (if normalize_protocol p = [] then None else Some (length e))"
    using normalize_protocol_cases [of p] ns by (auto simp: find_char_append)
  ultimately show ?thesis
    using e by (simp add: protocol_from_transport_def trim_transport_string del: strip_prefix_eq_Some)
qed

text \<open>A transport string parses back to the endpoint id, in lower case, and to the
  normalized protocol it was built from; with an empty protocol there is none to parse.\<close>

theorem transport_string_roundtrip:
  assumes "length e = 64" and "list_all is_ascii_hexdigit e"
  shows "endpoint_id_from_transport (transport_string e p) = Some (to_ascii_lowercase e)
    \<and> protocol_from_transport (transport_string e p) =
        (if normalize_protocol p = [] then None else Some (normalize_protocol p))"
  using assms by (simp add: endpoint_id_transport_string protocol_transport_string)

theorem transport_string_roundtrip_witness:
  "endpoint_id_from_transport (transport_string (replicate 64 (CHR ''A'')) ''ma/inbox/0.0.1'') =
     Some (to_ascii_lowercase (replicate 64 (CHR ''A'')))
   \<and> protocol_from_transport (transport_string (replicate 64 (CHR ''A'')) ''ma/inbox/0.0.1'') =
        (if normalize_protocol ''ma/inbox/0.0.1'' = [] then None
         else Some (normalize_protocol ''ma/inbox/0.0.1''))"
  by (rule transport_string_roundtrip) (simp_all add: list_all_iff ascii_defs)

text \<open>
  Resolution on the services an endpoint advertises: one transport string per protocol.
\<close>

lemma endpoint_for_own_item:
  assumes "endpoint_id_ok e"
  shows "endpoint_for_service_item (JString (transport_string e p)) target =
    (if normalize_protocol p \<noteq> [] \<and> normalize_protocol p = target then Some e else None)"
proof -
  have "length e = 64" and "list_all is_ascii_hexdigit e" and "to_ascii_lowercase e = e"
    using assms by (simp_all add: endpoint_id_ok_def)
  then show ?thesis
    by (cases "normalize_protocol p = []"; cases "target = normalize_protocol p")
      (auto simp: endpoint_for_service_item_def as_str_def protocol_transport_string
        endpoint_id_transport_string)
qed

lemma resolve_advertised:
  assumes "endpoint_id_ok e"
  shows "resolve_endpoint_for_protocol
      (Some (JArray (map (\<lambda>p. JString (transport_string e p)) ps))) target =
    (if normalize_protocol target \<noteq> [] \<and> normalize_protocol target \<in> normalize_protocol ` set ps
     then Some e else None)"
  by (induction ps)
    (auto simp: resolve_endpoint_for_protocol_def Let_def as_array_def endpoint_for_own_item [OF assms])

text \<open>Resolving a protocol in a list of transport strings advertised by one endpoint
  finds that endpoint exactly when one of the advertised protocols is the wanted one up to
  normalization.\<close>

theorem resolve_endpoint_advertised:
  assumes "endpoint_id_ok e"
  shows "resolve_endpoint_for_protocol
      (Some (JArray (map (\<lambda>p. JString (transport_string e p)) ps))) target =
    (if normalize_protocol target \<noteq> [] \<and> normalize_protocol target \<in> normalize_protocol ` set ps
     then Some e else None)"
  using assms by (rule resolve_advertised)

theorem resolve_endpoint_advertised_witness:
  "resolve_endpoint_for_protocol
      (Some (JArray (map (\<lambda>p. JString (transport_string (replicate 64 (CHR ''a'')) p))
        [''/ma/crud/0.0.1'', INBOX_PROTOCOL_ID]))) ''ma/inbox/0.0.1'' =
    (if normalize_protocol ''ma/inbox/0.0.1'' \<noteq> []
        \<and> normalize_protocol ''ma/inbox/0.0.1'' \<in> normalize_protocol ` set [''/ma/crud/0.0.1'', INBOX_PROTOCOL_ID]
     then Some (replicate 64 (CHR ''a'')) else None)"
  by (rule resolve_endpoint_advertised)
    (simp add: endpoint_id_ok_def list_all_iff ascii_defs to_ascii_lowercase_def ascii_lower_def)

text \<open>
  Every endpoint id that any of the resolvers returns is 64 lower-case hexadecimal digits.
\<close>

lemma endpoint_member_ok: "endpoint_member m k = Some e \<Longrightarrow> endpoint_id_ok e"
  by (auto simp: endpoint_member_def split: option.splits json.splits
      dest: endpoint_id_from_transport_ok)

lemma endpoint_value_ok: "endpoint_id_from_transport_value v = Some e \<Longrightarrow> endpoint_id_ok e"
  by (auto simp: endpoint_id_from_transport_value_def split: json.splits
      dest!: first_some_SomeD dest: endpoint_member_ok endpoint_id_from_transport_ok)

lemma endpoint_item_ok: "endpoint_for_service_item v t = Some e \<Longrightarrow> endpoint_id_ok e"
  by (auto simp: endpoint_for_service_item_def split: option.splits if_splits
      dest!: first_some_SomeD dest: endpoint_member_ok endpoint_id_from_transport_ok)

lemma resolve_inbox_ok: "resolve_inbox_endpoint_id s = Some e \<Longrightarrow> endpoint_id_ok e"
  by (auto simp: resolve_inbox_endpoint_id_def split: option.splits
      dest!: first_some_SomeD dest: endpoint_value_ok)

lemma resolve_endpoint_ok: "resolve_endpoint_for_protocol s t = Some e \<Longrightarrow> endpoint_id_ok e"
  by (auto simp: resolve_endpoint_for_protocol_def Let_def split: option.splits
      dest!: first_some_SomeD dest: endpoint_item_ok)

end
