(* ===== verification/Endpoint.thy ===== *)
theory Endpoint
  imports Outbox Transport
begin

text \<open>
  The iroh-backed endpoint (\<^verbatim>\<open>endpoint.rs\<close>, \<^verbatim>\<open>iroh/endpoint.rs\<close>, \<^verbatim>\<open>iroh/channel.rs\<close>): the service
  registry with its inboxes and router, the connection cache, and the transports of an
  outbox. The QUIC stack is the record \<open>net_lib\<close> of functions on the state \<open>'w\<close> of the
  network; connections and streams are numbers. The functions here run without
  interference; the interleavings of concurrent connection attempts are in \<open>ConnCache\<close>.
\<close>

section \<open>The network\<close>

record endpoint_addr =
  addr_id :: string
  addr_relay :: "string option"

record 'w net_lib =
  net_bind_addr :: "string \<Rightarrow> string + unit"
  net_bind :: "bytes \<Rightarrow> bool \<Rightarrow> 'w \<Rightarrow> (string + string) \<times> 'w"
  net_is_closed :: "nat \<Rightarrow> 'w \<Rightarrow> bool"
  net_connect :: "endpoint_addr \<Rightarrow> bytes \<Rightarrow> 'w \<Rightarrow> (string + nat) \<times> 'w"
  net_open_bi :: "nat \<Rightarrow> 'w \<Rightarrow> (string + nat) \<times> 'w"
  net_stop_recv :: "nat \<Rightarrow> 'w \<Rightarrow> 'w"
  net_write_all :: "nat \<Rightarrow> bytes \<Rightarrow> 'w \<Rightarrow> (string + unit) \<times> 'w"
  net_flush :: "nat \<Rightarrow> 'w \<Rightarrow> (string + unit) \<times> 'w"
  net_finish :: "nat \<Rightarrow> 'w \<Rightarrow> 'w"
  net_close :: "nat \<Rightarrow> 'w \<Rightarrow> 'w"
  net_close_endpoint :: "'w \<Rightarrow> 'w"
  net_parse_id :: "string \<Rightarrow> string + string"
  net_relay_url :: "'w \<Rightarrow> string option"

section \<open>Channels\<close>

record channel =
  ch_connection :: nat
  ch_send :: nat

text \<open>A write followed by a flush, with the two error messages of the crate.\<close>

definition write_flush :: "('w, 'x) net_lib_scheme \<Rightarrow> nat \<Rightarrow> bytes \<Rightarrow> 'w \<Rightarrow> unit result \<times> 'w" where
  "write_flush N s payload w =
     (case net_write_all N s payload w of
        (Inl e, w1) \<Rightarrow> (Inl (error.Transport (''channel write failed: '' @ e)), w1)
      | (Inr _, w1) \<Rightarrow>
          (case net_flush N s w1 of
             (Inl e, w2) \<Rightarrow> (Inl (error.Transport (''channel flush failed: '' @ e)), w2)
           | (Inr _, w2) \<Rightarrow> (Inr (), w2)))"

definition channel_send :: "('w, 'x) net_lib_scheme \<Rightarrow> channel \<Rightarrow> bytes \<Rightarrow> 'w \<Rightarrow> unit result \<times> 'w" where
  "channel_send N ch payload w = write_flush N (ch_send ch) payload w"

definition channel_connection :: "channel \<Rightarrow> nat" where
  "channel_connection ch = ch_connection ch"

definition channel_close :: "('w, 'x) net_lib_scheme \<Rightarrow> channel \<Rightarrow> 'w \<Rightarrow> 'w" where
  "channel_close N ch w = net_finish N (ch_send ch) w"

section \<open>The endpoint\<close>

type_synonym cache_key = "string \<times> string"

text \<open>
  \<open>ep_router\<close> maps the protocols the running router accepts to the inboxes of their
  handlers; \<open>ep_loops\<close> are the accept loops spawned on outbound connections.
\<close>

record iroh_endpoint =
  ep_id :: string
  ep_security :: inbound_security
  ep_protocols :: "string list"
  ep_inboxes :: "string \<Rightarrow> inbox option"
  ep_router :: "(string \<times> inbox) list option"
  ep_cache :: "cache_key \<Rightarrow> nat option"
  ep_connect_locks :: "cache_key set"
  ep_loops :: "(nat \<times> string \<times> inbox) list"

record 'w system =
  sys_ep :: iroh_endpoint
  sys_store :: "message inbox_store"
  sys_net :: 'w

definition DEFAULT_INBOX_CAPACITY :: nat where "DEFAULT_INBOX_CAPACITY = 256"

definition endpoint_new :: "('w, 'x) net_lib_scheme \<Rightarrow> bytes \<Rightarrow> encryption_key \<Rightarrow> bool \<Rightarrow> 'w \<Rightarrow>
    iroh_endpoint result \<times> 'w" where
  "endpoint_new N secret_bytes rk ipv6 w =
     (case (if ipv6 then Inr () else net_bind_addr N ''0.0.0.0:0'') of
        Inl e \<Rightarrow> (Inl (error.Transport (''endpoint bind_addr failed: '' @ e)), w)
      | Inr _ \<Rightarrow>
     (case net_bind N secret_bytes ipv6 w of
        (Inl e, w1) \<Rightarrow> (Inl (error.Transport (''endpoint bind failed: '' @ e)), w1)
      | (Inr i, w1) \<Rightarrow>
          (Inr \<lparr>ep_id = i, ep_security = inbound_security_new rk, ep_protocols = [],
             ep_inboxes = Map.empty, ep_router = None, ep_cache = Map.empty,
             ep_connect_locks = {}, ep_loops = []\<rparr>, w1)))"

text \<open>\<open>iroh::new_endpoint\<close> and the public constructor, which boxes what it returns.\<close>

definition new_endpoint :: "('w, 'x) net_lib_scheme \<Rightarrow> bytes \<Rightarrow> encryption_key \<Rightarrow> bool \<Rightarrow> 'w \<Rightarrow>
    iroh_endpoint result \<times> 'w" where
  "new_endpoint N secret_bytes rk ipv6 w = endpoint_new N secret_bytes rk ipv6 w"

definition new_ma_endpoint :: "('w, 'x) net_lib_scheme \<Rightarrow> bytes \<Rightarrow> encryption_key \<Rightarrow> bool \<Rightarrow> 'w \<Rightarrow>
    iroh_endpoint result \<times> 'w" where
  "new_ma_endpoint N secret_bytes rk ipv6 w =
     (case new_endpoint N secret_bytes rk ipv6 w of
        (Inl e, w1) \<Rightarrow> (Inl e, w1)
      | (Inr ep, w1) \<Rightarrow> (Inr ep, w1))"

text \<open>\<open>MaEndpoint::id\<close> and the typed identifier print alike.\<close>

definition ma_endpoint_id :: "iroh_endpoint \<Rightarrow> string" where
  "ma_endpoint_id ep = ep_id ep"

subsection \<open>Services and router\<close>

definition router_handlers :: "iroh_endpoint \<Rightarrow> (string \<times> inbox) list" where
  "router_handlers ep =
     concat (map (\<lambda>p. case ep_inboxes ep p of Some i \<Rightarrow> [(p, i)] | None \<Rightarrow> []) (ep_protocols ep))"

definition start_router :: "iroh_endpoint \<Rightarrow> iroh_endpoint" where
  "start_router ep =
     (if ep_router ep \<noteq> None then ep else ep\<lparr>ep_router := Some (router_handlers ep)\<rparr>)"

definition reload_router_if_running :: "iroh_endpoint \<Rightarrow> iroh_endpoint" where
  "reload_router_if_running ep =
     (if ep_router ep = None then ep else start_router (ep\<lparr>ep_router := None\<rparr>))"

definition remove_service :: "string \<Rightarrow> iroh_endpoint \<Rightarrow> bool \<times> iroh_endpoint" where
  "remove_service protocol ep =
     (let normalized = normalize_protocol protocol
      in if ep_inboxes ep normalized = None then (False, ep)
         else (True, reload_router_if_running
           (ep\<lparr>ep_inboxes := (ep_inboxes ep)(normalized := None),
               ep_protocols := filter (\<lambda>p. p \<noteq> normalized) (ep_protocols ep)\<rparr>)))"

text \<open>
  \<open>Inbox::new\<close> panics only for capacity 0, so its result is a handle.
\<close>

definition new_inbox :: "message inbox_store \<Rightarrow> inbox \<times> message inbox_store" where
  "new_inbox st = (case inbox_new DEFAULT_INBOX_CAPACITY st of Some r \<Rightarrow> r | None \<Rightarrow> (\<lparr>queue = 0\<rparr>, st))"

definition service :: "string \<Rightarrow> iroh_endpoint \<times> message inbox_store \<Rightarrow>
    inbox \<times> iroh_endpoint \<times> message inbox_store" where
  "service protocol s =
     (let (ep, st) = s;
          normalized = normalize_protocol protocol;
          ep1 = (if normalized \<in> set (ep_protocols ep) then ep
                 else ep\<lparr>ep_protocols := ep_protocols ep @ [normalized]\<rparr>)
      in case ep_inboxes ep1 normalized of
           Some existing \<Rightarrow> (inbox_clone existing, ep1, st)
         | None \<Rightarrow>
             (let (i, st1) = new_inbox st;
                  ep2 = ep1\<lparr>ep_inboxes := (ep_inboxes ep1)(normalized \<mapsto> inbox_clone i)\<rparr>;
                  ep3 = (if ep_router ep2 \<noteq> None then reload_router_if_running ep2
                         else start_router ep2)
              in (i, ep3, st1)))"

definition services :: "iroh_endpoint \<Rightarrow> string list" where
  "services ep = map (transport_string (ep_id ep)) (ep_protocols ep)"

definition services_json :: "iroh_endpoint \<Rightarrow> json" where
  "services_json ep = JArray (map JString (services ep))"

definition endpoint_ma_extension :: "iroh_endpoint \<Rightarrow> ma_extension" where
  "endpoint_ma_extension ep = ext_services (services ep) ma_extension_new"

subsection \<open>Connections\<close>

definition resolve_addr :: "('w, 'x) net_lib_scheme \<Rightarrow> string \<Rightarrow> 'w \<Rightarrow> endpoint_addr result" where
  "resolve_addr N endpoint_id w =
     bindR (map_err (\<lambda>e. error.Transport (''invalid endpoint id: '' @ e)) (net_parse_id N (trim endpoint_id)))
       (\<lambda>target. Inr \<lparr>addr_id = target, addr_relay = net_relay_url N w\<rparr>)"

definition open_stream :: "('w, 'x) net_lib_scheme \<Rightarrow> nat \<Rightarrow> 'w \<Rightarrow> nat result \<times> 'w" where
  "open_stream N conn w =
     (case net_open_bi N conn w of
        (Inl e, w1) \<Rightarrow> (Inl (error.Transport (''open_bi failed: '' @ e)), w1)
      | (Inr s, w1) \<Rightarrow> (Inr s, net_stop_recv N s w1))"

definition open_addr :: "('w, 'x) net_lib_scheme \<Rightarrow> endpoint_addr \<Rightarrow> string \<Rightarrow> 'w \<Rightarrow> channel result \<times> 'w" where
  "open_addr N addr protocol w =
     (case net_connect N addr (as_bytes protocol) w of
        (Inl e, w1) \<Rightarrow> (Inl (error.Transport (''connect failed: '' @ e)), w1)
      | (Inr conn, w1) \<Rightarrow>
          (case open_stream N conn w1 of
             (Inl e, w2) \<Rightarrow> (Inl e, w2)
           | (Inr s, w2) \<Rightarrow> (Inr \<lparr>ch_connection = conn, ch_send = s\<rparr>, w2)))"

definition endpoint_open :: "('w, 'x) net_lib_scheme \<Rightarrow> string \<Rightarrow> string \<Rightarrow> 'w \<Rightarrow> channel result \<times> 'w" where
  "endpoint_open N target protocol w =
     (case resolve_addr N target w of
        Inl e \<Rightarrow> (Inl e, w)
      | Inr addr \<Rightarrow> open_addr N addr protocol w)"

definition evict_if_closed :: "('w, 'x) net_lib_scheme \<Rightarrow> cache_key \<Rightarrow> 'w system \<Rightarrow> 'w system" where
  "evict_if_closed N k s =
     (case ep_cache (sys_ep s) k of
        Some c \<Rightarrow>
          if net_is_closed N c (sys_net s)
          then s\<lparr>sys_ep := (sys_ep s)\<lparr>ep_cache := (ep_cache (sys_ep s))(k := None)\<rparr>\<rparr> else s
      | None \<Rightarrow> s)"

definition try_cached_channel :: "('w, 'x) net_lib_scheme \<Rightarrow> cache_key \<Rightarrow> 'w system \<Rightarrow>
    channel option \<times> 'w system" where
  "try_cached_channel N k s =
     (case ep_cache (sys_ep s) k of
        None \<Rightarrow> (None, s)
      | Some conn \<Rightarrow>
          if net_is_closed N conn (sys_net s) then (None, evict_if_closed N k s)
          else (case net_open_bi N conn (sys_net s) of
                  (Inr st, w1) \<Rightarrow>
                    (Some \<lparr>ch_connection = conn, ch_send = st\<rparr>, s\<lparr>sys_net := net_stop_recv N st w1\<rparr>)
                | (Inl _, w1) \<Rightarrow> (None, evict_if_closed N k (s\<lparr>sys_net := w1\<rparr>))))"

definition spawn_outbound_accept_loop :: "nat \<Rightarrow> string \<Rightarrow> iroh_endpoint \<Rightarrow> iroh_endpoint" where
  "spawn_outbound_accept_loop conn protocol ep =
     (let normalized = normalize_protocol protocol
      in case ep_inboxes ep normalized of
           None \<Rightarrow> ep
         | Some i \<Rightarrow> ep\<lparr>ep_loops := (conn, normalized, inbox_clone i) # ep_loops ep\<rparr>)"

definition connect_lock :: "cache_key \<Rightarrow> 'w system \<Rightarrow> 'w system" where
  "connect_lock k s =
     s\<lparr>sys_ep := (sys_ep s)\<lparr>ep_connect_locks := insert k (ep_connect_locks (sys_ep s))\<rparr>\<rparr>"

definition cache_insert :: "cache_key \<Rightarrow> nat \<Rightarrow> iroh_endpoint \<Rightarrow> iroh_endpoint" where
  "cache_insert k conn ep = ep\<lparr>ep_cache := (ep_cache ep)(k \<mapsto> conn)\<rparr>"

definition open_addr_cached :: "('w, 'x) net_lib_scheme \<Rightarrow> string \<Rightarrow> endpoint_addr \<Rightarrow> string \<Rightarrow>
    'w system \<Rightarrow> channel result \<times> 'w system" where
  "open_addr_cached N endpoint_id addr protocol s =
     (let k = (endpoint_id, protocol) in
      case try_cached_channel N k s of
        (Some ch, s1) \<Rightarrow> (Inr ch, s1)
      | (None, s1) \<Rightarrow>
          (case try_cached_channel N k (connect_lock k s1) of
             (Some ch, s2) \<Rightarrow> (Inr ch, s2)
           | (None, s2) \<Rightarrow>
               (case net_connect N addr (as_bytes protocol) (sys_net s2) of
                  (Inl e, w3) \<Rightarrow>
                    (Inl (error.Transport (''connect failed: '' @ e)), s2\<lparr>sys_net := w3\<rparr>)
                | (Inr conn, w3) \<Rightarrow>
                    (case open_stream N conn w3 of
                       (Inl e, w4) \<Rightarrow> (Inl e, s2\<lparr>sys_net := w4\<rparr>)
                     | (Inr st, w4) \<Rightarrow>
                         (Inr \<lparr>ch_connection = conn, ch_send = st\<rparr>,
                          s2\<lparr>sys_net := w4, sys_ep := spawn_outbound_accept_loop conn protocol
                             (cache_insert k conn (sys_ep s2))\<rparr>)))))"

text \<open>One look at the cache in \<open>get_or_connect\<close>: a live entry is used, a dead one evicted.\<close>

definition live_cached :: "('w, 'x) net_lib_scheme \<Rightarrow> cache_key \<Rightarrow> 'w system \<Rightarrow>
    nat option \<times> 'w system" where
  "live_cached N k s =
     (case ep_cache (sys_ep s) k of
        None \<Rightarrow> (None, s)
      | Some conn \<Rightarrow>
          if \<not> net_is_closed N conn (sys_net s) then (Some conn, s)
          else (None, evict_if_closed N k s))"

definition get_or_connect :: "('w, 'x) net_lib_scheme \<Rightarrow> string \<Rightarrow> endpoint_addr \<Rightarrow> string \<Rightarrow>
    'w system \<Rightarrow> nat result \<times> 'w system" where
  "get_or_connect N endpoint_id addr protocol s =
     (let k = (endpoint_id, protocol) in
      case live_cached N k s of
        (Some conn, s1) \<Rightarrow> (Inr conn, s1)
      | (None, s1) \<Rightarrow>
          (case live_cached N k (connect_lock k s1) of
             (Some conn, s2) \<Rightarrow> (Inr conn, s2)
           | (None, s2) \<Rightarrow>
               (case net_connect N addr (as_bytes protocol) (sys_net s2) of
                  (Inl e, w3) \<Rightarrow>
                    (Inl (error.Transport (''connect failed: '' @ e)), s2\<lparr>sys_net := w3\<rparr>)
                | (Inr conn, w3) \<Rightarrow>
                    (Inr conn, s2\<lparr>sys_net := w3, sys_ep := spawn_outbound_accept_loop conn protocol
                       (cache_insert k conn (sys_ep s2))\<rparr>))))"

text \<open>Shutting down: every cached connection is closed and the cache emptied, then the endpoint.\<close>

definition endpoint_close :: "('w, 'x) net_lib_scheme \<Rightarrow> nat list \<Rightarrow> 'w system \<Rightarrow> 'w system" where
  "endpoint_close N cached s =
     s\<lparr>sys_ep := (sys_ep s)\<lparr>ep_cache := Map.empty, ep_router := None\<rparr>,
       sys_net := net_close_endpoint N (fold (net_close N) cached (sys_net s))\<rparr>"

subsection \<open>Transports of an outbox\<close>

datatype wire = Loopback inbox | CachedChannel nat | ChannelWire channel

definition loopback_send_payload :: "'x msg_lib_scheme \<Rightarrow> clock \<Rightarrow> u64 \<Rightarrow> inbox \<Rightarrow> bytes \<Rightarrow>
    message inbox_store \<Rightarrow> unit result \<times> message inbox_store" where
  "loopback_send_payload L clk now i payload st =
     (case bindR (map_err Validation (message_decode L payload)) (\<lambda>m.
           bindR (map_err Validation (headers_validate L clk (message_headers L m))) (\<lambda>_. Inr m)) of
        Inl e \<Rightarrow> (Inl e, st)
      | Inr m \<Rightarrow> (Inr (), inbox_push i now (msg_exp m) m st))"

definition cached_send_payload :: "('w, 'x) net_lib_scheme \<Rightarrow> nat \<Rightarrow> bytes \<Rightarrow> 'w \<Rightarrow> unit result \<times> 'w" where
  "cached_send_payload N conn payload w =
     (case open_stream N conn w of
        (Inl e, w1) \<Rightarrow> (Inl e, w1)
      | (Inr s, w1) \<Rightarrow>
          (case write_flush N s payload w1 of
             (Inl e, w2) \<Rightarrow> (Inl e, w2)
           | (Inr _, w2) \<Rightarrow> (Inr (), net_finish N s w2)))"

text \<open>
  \<open>clk\<close> and \<open>now\<close> are the clock readings of the loopback delivery: \<open>now_secs\<close> panics for a
  clock before the epoch, which is excluded here.
\<close>

definition send_payload :: "'x msg_lib_scheme \<Rightarrow> ('w, 'y) net_lib_scheme \<Rightarrow> clock \<Rightarrow> u64 \<Rightarrow> wire \<Rightarrow> bytes \<Rightarrow>
    'w system \<Rightarrow> unit result \<times> 'w system" where
  "send_payload L N clk now k payload s =
     (case k of
        Loopback i \<Rightarrow>
          (let (r, st) = loopback_send_payload L clk now i payload (sys_store s)
           in (r, s\<lparr>sys_store := st\<rparr>))
      | CachedChannel conn \<Rightarrow>
          (let (r, w) = cached_send_payload N conn payload (sys_net s) in (r, s\<lparr>sys_net := w\<rparr>))
      | ChannelWire ch \<Rightarrow>
          (let (r, w) = channel_send N ch payload (sys_net s) in (r, s\<lparr>sys_net := w\<rparr>)))"

text \<open>\<open>OutboxWire::close_box\<close>: the cached connection belongs to the cache and stays open.\<close>

definition wire_close :: "('w, 'x) net_lib_scheme \<Rightarrow> wire \<Rightarrow> 'w system \<Rightarrow> 'w system" where
  "wire_close N k s =
     (case k of
        Loopback i \<Rightarrow> s
      | CachedChannel conn \<Rightarrow> s
      | ChannelWire ch \<Rightarrow> s\<lparr>sys_net := channel_close N ch (sys_net s)\<rparr>)"

definition connect_outbox :: "('w, 'x) net_lib_scheme \<Rightarrow> document \<Rightarrow> string \<Rightarrow> string \<Rightarrow> string \<Rightarrow>
    'w system \<Rightarrow> wire outbox result \<times> 'w system" where
  "connect_outbox N doc endpoint_id did protocol s =
     (if endpoint_id = ep_id (sys_ep s)
      then (case ep_inboxes (sys_ep s) (normalize_protocol protocol) of
              None \<Rightarrow> (Inl (NoInboxTransport (''no local inbox for '' @ protocol)), s)
            | Some i \<Rightarrow> (Inr (outbox_from_transport (Loopback (inbox_clone i)) doc True did protocol), s))
      else case resolve_addr N endpoint_id (sys_net s) of
             Inl e \<Rightarrow> (Inl e, s)
           | Inr addr \<Rightarrow>
               (case get_or_connect N endpoint_id addr protocol s of
                  (Inl e, s1) \<Rightarrow> (Inl e, s1)
                | (Inr conn, s1) \<Rightarrow>
                    (Inr (outbox_from_transport (CachedChannel conn) doc False did protocol), s1)))"

text \<open>
  The \<open>services\<close> member of the document's extension, as a JSON value; \<open>to_json\<close> is
  \<open>serde_json::to_value\<close> on IPLD.
\<close>

definition document_services :: "(ipld \<Rightarrow> json option) \<Rightarrow> document \<Rightarrow> json option" where
  "document_services to_json doc =
     (case doc_ma doc of
        Some (IMap m) \<Rightarrow> Option.bind (map_of m ''services'') to_json
      | _ \<Rightarrow> None)"

definition endpoint_outbox :: "(ipld \<Rightarrow> json option) \<Rightarrow> (string \<Rightarrow> document result) \<Rightarrow>
    ('w, 'x) net_lib_scheme \<Rightarrow> string \<Rightarrow> string \<Rightarrow> 'w system \<Rightarrow> wire outbox result \<times> 'w system" where
  "endpoint_outbox to_json resolve N did protocol s =
     (case resolve did of
        Inl e \<Rightarrow> (Inl e, s)
      | Inr doc \<Rightarrow>
          (case resolve_endpoint_for_protocol (document_services to_json doc) protocol of
             None \<Rightarrow> (Inl (NoInboxTransport (did @ '' has no service for '' @ protocol)), s)
           | Some endpoint_id \<Rightarrow> connect_outbox N doc endpoint_id did protocol s))"

definition send_broadcast_to :: "'x msg_lib_scheme \<Rightarrow> ('w, 'y) net_lib_scheme \<Rightarrow> clock \<Rightarrow> u64 \<Rightarrow> string \<Rightarrow>
    string \<Rightarrow> message \<Rightarrow> 'w system \<Rightarrow> unit result \<times> 'w system" where
  "send_broadcast_to L N clk now target protocol m s =
     (case map_err Validation (headers_validate L clk (message_headers L m)) of
        Inl e \<Rightarrow> (Inl e, s)
      | Inr _ \<Rightarrow>
          if msg_type m \<noteq> MESSAGE_TYPE_BROADCAST then (Inl (Validation InvalidMessageType), s)
          else if target = ep_id (sys_ep s)
          then (case ep_inboxes (sys_ep s) (normalize_protocol protocol) of
                  None \<Rightarrow> (Inl (NoInboxTransport (''no local inbox for '' @ protocol)), s)
                | Some i \<Rightarrow> (Inr (), s\<lparr>sys_store := inbox_push i now (msg_exp m) m (sys_store s)\<rparr>))
          else (case bindR (map_err Validation (message_encode L m)) (\<lambda>b.
                     bindR (resolve_addr N target (sys_net s)) (\<lambda>addr. Inr (b, addr))) of
                  Inl e \<Rightarrow> (Inl e, s)
                | Inr (b, addr) \<Rightarrow>
                    (case open_addr_cached N target addr protocol s of
                       (Inl e, s1) \<Rightarrow> (Inl e, s1)
                     | (Inr ch, s1) \<Rightarrow>
                         (let (r, w) = channel_send N ch b (sys_net s1)
                          in (r, s1\<lparr>sys_net := channel_close N ch w\<rparr>)))))"

section \<open>The interface: a registry with normalized names\<close>

text \<open>
  What the users of a registry rely on: names are compared up to a normal form, registering
  a name returns the handle it is registered with from then on, a name that is registered
  keeps its handle, and other names are not affected.
\<close>

locale normalized_registry =
  fixes norm :: "'k \<Rightarrow> 'k"
    and lookup :: "'s \<Rightarrow> 'k \<Rightarrow> 'v option"
    and register :: "'k \<Rightarrow> 's \<Rightarrow> 'v \<times> 's"
  assumes norm_idem: "norm (norm k) = norm k"
    and lookup_norm: "lookup s (norm k) = lookup s k"
    and register_self: "lookup (snd (register k s)) k = Some (fst (register k s))"
    and register_other: "norm k' \<noteq> norm k \<Longrightarrow> lookup (snd (register k s)) k' = lookup s k'"
    and register_again: "lookup s k = Some v \<Longrightarrow> fst (register k s) = v"
begin

fun register_all :: "'k list \<Rightarrow> 's \<Rightarrow> 'v list \<times> 's" where
  "register_all [] s = ([], s)"
| "register_all (k # ks) s =
     (fst (register k s) # fst (register_all ks (snd (register k s))),
      snd (register_all ks (snd (register k s))))"

lemma lookup_same: "norm k = norm k' \<Longrightarrow> lookup s k = lookup s k'"
  using lookup_norm [of s k] lookup_norm [of s k'] by simp

lemma register_keeps: "lookup s k' = Some v \<Longrightarrow> lookup (snd (register k s)) k' = Some v"
proof (cases "norm k' = norm k")
  case True
  assume v: "lookup s k' = Some v"
  then have "lookup s k = Some v" using lookup_same [OF True] by simp
  then have "fst (register k s) = v" by (rule register_again)
  then show ?thesis using register_self [of k s] lookup_same [OF True, of "snd (register k s)"] by simp
qed (simp add: register_other)

lemma persists: "lookup s k = Some v \<Longrightarrow> lookup (snd (register_all ks s)) k = Some v"
  by (induction ks arbitrary: s) (simp_all add: register_keeps)

text \<open>Every handle that was handed out is the one its name has at the end.\<close>

lemma handles_agree:
  "(k, v) \<in> set (zip ks (fst (register_all ks s))) \<Longrightarrow> lookup (snd (register_all ks s)) k = Some v"
proof (induction ks arbitrary: s)
  case (Cons a ks)
  then show ?case using persists [OF register_self [of a s], of ks] by auto
qed simp

lemma same_name_same_handle:
  assumes "(k, v) \<in> set (zip ks (fst (register_all ks s)))"
    and "(k', v') \<in> set (zip ks (fst (register_all ks s)))" and "norm k = norm k'"
  shows "v = v'"
  using handles_agree [OF assms(1)] handles_agree [OF assms(2)] lookup_same [OF assms(3)] by simp

end

definition service_lookup :: "iroh_endpoint \<times> message inbox_store \<Rightarrow> string \<Rightarrow> inbox option" where
  "service_lookup s p = ep_inboxes (fst s) (normalize_protocol p)"

lemma inboxes_start_router [simp]: "ep_inboxes (start_router ep) = ep_inboxes ep"
  by (simp add: start_router_def)

lemma inboxes_reload_router [simp]: "ep_inboxes (reload_router_if_running ep) = ep_inboxes ep"
  by (simp add: reload_router_if_running_def)

lemma service_inboxes:
  "ep_inboxes (fst (snd (service p s))) =
     (ep_inboxes (fst s))(normalize_protocol p \<mapsto> fst (service p s))"
proof (cases "ep_inboxes (fst s) (normalize_protocol p)")
  case None
  then show ?thesis
    by (auto simp: service_def Let_def split: prod.splits)
next
  case (Some i)
  then have "(ep_inboxes (fst s))(normalize_protocol p \<mapsto> i) = ep_inboxes (fst s)"
    by (simp add: fun_upd_idem)
  then show ?thesis using Some
    by (auto simp: service_def Let_def split: prod.splits)
qed

interpretation registry: normalized_registry normalize_protocol service_lookup service
proof unfold_locales
  fix s k v
  assume "service_lookup s k = Some v"
  then show "fst (service k s) = v"
    by (auto simp: service_lookup_def service_def Let_def split: prod.splits)
qed (simp_all add: service_lookup_def service_inboxes)

section \<open>The registry's invariant\<close>

text \<open>
  The advertised protocols are distinct, in normal form, and exactly those with an inbox;
  inboxes exist in the store and no two protocols share one; a running router serves exactly
  the registered protocols.
\<close>

definition endpoint_inv :: "iroh_endpoint \<times> message inbox_store \<Rightarrow> bool" where
  "endpoint_inv s \<longleftrightarrow>
     (let (ep, st) = s in
       distinct (ep_protocols ep)
       \<and> list_all (\<lambda>p. normalize_protocol p = p) (ep_protocols ep)
       \<and> set (ep_protocols ep) = dom (ep_inboxes ep)
       \<and> (\<forall>p i. ep_inboxes ep p = Some i \<longrightarrow> queue i < next_cell st)
       \<and> (\<forall>p q i j. ep_inboxes ep p = Some i \<longrightarrow> ep_inboxes ep q = Some j \<longrightarrow> queue i = queue j \<longrightarrow> p = q)
       \<and> (\<forall>hs. ep_router ep = Some hs \<longrightarrow> hs = router_handlers ep))"

lemma new_inbox_handle:
  "new_inbox st = (i, st') \<Longrightarrow> queue i = next_cell st \<and> next_cell st' = Suc (next_cell st)"
  by (auto simp: new_inbox_def inbox_new_def ttl_new_def DEFAULT_INBOX_CAPACITY_def)

lemma router_handlers_router [simp]: "router_handlers (ep\<lparr>ep_router := r\<rparr>) = router_handlers ep"
  by (simp add: router_handlers_def)

lemma start_router_handlers:
  "ep_router ep = None \<Longrightarrow> start_router ep = ep\<lparr>ep_router := Some (router_handlers ep)\<rparr>"
  by (simp add: start_router_def)

lemma reload_router_handlers:
  "ep_router ep \<noteq> None \<Longrightarrow> reload_router_if_running ep = ep\<lparr>ep_router := Some (router_handlers ep)\<rparr>"
  by (simp add: reload_router_if_running_def start_router_def)

lemma endpoint_inv_service:
  assumes "endpoint_inv s"
  shows "endpoint_inv (snd (service p s))"
proof -
  obtain ep st where s: "s = (ep, st)" by force
  let ?n = "normalize_protocol p"
  have inv: "distinct (ep_protocols ep)" "list_all (\<lambda>p. normalize_protocol p = p) (ep_protocols ep)"
      "set (ep_protocols ep) = dom (ep_inboxes ep)"
      "\<forall>p i. ep_inboxes ep p = Some i \<longrightarrow> queue i < next_cell st"
      "\<forall>p q i j. ep_inboxes ep p = Some i \<longrightarrow> ep_inboxes ep q = Some j \<longrightarrow> queue i = queue j \<longrightarrow> p = q"
      "\<forall>hs. ep_router ep = Some hs \<longrightarrow> hs = router_handlers ep"
    using assms by (auto simp: s endpoint_inv_def)
  show ?thesis
  proof (cases "ep_inboxes ep ?n")
    case (Some i)
    then have "?n \<in> set (ep_protocols ep)" using inv(3) by auto
    then show ?thesis using assms Some by (simp add: s service_def Let_def)
  next
    case None
    obtain i st1 where i: "new_inbox st = (i, st1)" by force
    have n: "?n \<notin> set (ep_protocols ep)" using None inv(3) by auto
    define ep2 where "ep2 = ep\<lparr>ep_protocols := ep_protocols ep @ [?n],
        ep_inboxes := (ep_inboxes ep)(?n \<mapsto> i)\<rparr>"
    have e: "snd (service p s) = (ep2\<lparr>ep_router := Some (router_handlers ep2)\<rparr>, st1)"
      using None n i
      by (auto simp: s service_def Let_def ep2_def reload_router_handlers start_router_handlers)
    have q: "queue j \<noteq> queue i" if "ep_inboxes ep x = Some j" for x j
      using inv(4) that new_inbox_handle [OF i] by fastforce
    have "endpoint_inv (ep2\<lparr>ep_router := Some (router_handlers ep2)\<rparr>, st1)"
      using inv n q new_inbox_handle [OF i]
      by (auto simp: endpoint_inv_def ep2_def less_Suc_eq dest: q)
    then show ?thesis by (simp add: e)
  qed
qed

lemma endpoint_inv_remove:
  assumes "endpoint_inv (ep, st)"
  shows "endpoint_inv (snd (remove_service p ep), st)"
proof -
  let ?n = "normalize_protocol p"
  define ep1 where "ep1 = ep\<lparr>ep_inboxes := (ep_inboxes ep)(?n := None),
      ep_protocols := filter (\<lambda>p. p \<noteq> ?n) (ep_protocols ep)\<rparr>"
  have inv1: "endpoint_inv (ep1\<lparr>ep_router := r\<rparr>, st)" if "r = None \<or> r = Some (router_handlers ep1)" for r
    using assms that by (auto simp: endpoint_inv_def ep1_def list_all_iff split: if_splits)
  show ?thesis
  proof (cases "ep_inboxes ep ?n")
    case None
    then show ?thesis using assms by (simp add: remove_service_def)
  next
    case (Some i)
    then have r: "snd (remove_service p ep) = reload_router_if_running ep1"
      by (simp add: remove_service_def Let_def ep1_def)
    show ?thesis
    proof (cases "ep_router ep")
      case None
      then have same: "ep1\<lparr>ep_router := None\<rparr> = ep1" and off: "ep_router ep1 = None"
        by (simp_all add: ep1_def)
      have "endpoint_inv (ep1, st)" using inv1 [of None] unfolding same by simp
      then show ?thesis using off by (simp add: r reload_router_if_running_def)
    next
      case (Some hs)
      then have "ep_router ep1 \<noteq> None" by (simp add: ep1_def)
      then show ?thesis using inv1 by (simp add: r reload_router_handlers)
    qed
  qed
qed

text \<open>Any sequence of registrations and removals.\<close>

datatype registry_op = Register string | Remove string

fun registry_step :: "registry_op \<Rightarrow> iroh_endpoint \<times> message inbox_store \<Rightarrow>
    iroh_endpoint \<times> message inbox_store" where
  "registry_step (Register p) s = snd (service p s)"
| "registry_step (Remove p) s = (snd (remove_service p (fst s)), snd s)"

lemma endpoint_inv_steps: "endpoint_inv s \<Longrightarrow> endpoint_inv (fold registry_step ops s)"
proof (induction ops arbitrary: s)
  case (Cons op ops)
  have "endpoint_inv (registry_step op s)"
    using Cons.prems endpoint_inv_service [of s] endpoint_inv_remove [of "fst s" "snd s"]
    by (cases op) simp_all
  then show ?case using Cons.IH by simp
qed simp

lemma endpoint_inv_new:
  "endpoint_new N b rk v w = (Inr ep, w') \<Longrightarrow> endpoint_inv (ep, st)"
  by (auto simp: endpoint_new_def endpoint_inv_def split: prod.splits sum.splits)

section \<open>Properties\<close>

text \<open>C26: After any sequence of service registrations and removals on a new endpoint, the
  advertised protocols are distinct and normalized, each has its own inbox and no other
  protocol has one, and a running router serves exactly these.\<close>

theorem registry_invariant:
  assumes "endpoint_new N b rk ipv6 w = (Inr ep, w')"
  shows "endpoint_inv (fold registry_step ops (ep, st))"
  by (rule endpoint_inv_steps) (rule endpoint_inv_new [OF assms])

text \<open>A sequence of registrations and the handles it returns.\<close>

fun register_services :: "string list \<Rightarrow> iroh_endpoint \<times> message inbox_store \<Rightarrow>
    inbox list \<times> iroh_endpoint \<times> message inbox_store" where
  "register_services [] s = ([], s)"
| "register_services (p # ps) s =
     (let (i, s1) = service p s; (rest, s2) = register_services ps s1 in (i # rest, s2))"

lemma register_services_registry: "register_services ps s = registry.register_all ps s"
  by (induction ps arbitrary: s) (simp_all add: case_prod_beta)

text \<open>Registering protocols, in any order and under any spelling, hands out for each of them
  the inbox that is registered for it at the end; two spellings of one protocol get the same
  inbox and no registration replaces an inbox that was handed out.\<close>

theorem service_handles_stable:
  assumes "(p, i) \<in> set (zip ps (fst (register_services ps s)))"
  shows "ep_inboxes (fst (snd (register_services ps s))) (normalize_protocol p) = Some i"
  using registry.handles_agree [of p i ps s] assms
  by (simp add: service_lookup_def register_services_registry)

text \<open>What an endpoint advertises resolves back to it: looking up a protocol in the services
  of a well-formed endpoint yields its own id exactly for the registered protocols.\<close>

theorem services_resolve_to_self:
  assumes "endpoint_inv (ep, st)" and "endpoint_id_ok (ep_id ep)"
  shows "resolve_endpoint_for_protocol (Some (services_json ep)) target =
    (if normalize_protocol target \<noteq> [] \<and> ep_inboxes ep (normalize_protocol target) \<noteq> None
     then Some (ep_id ep) else None)"
proof -
  have "normalize_protocol ` set (ep_protocols ep) = dom (ep_inboxes ep)"
    using assms(1) by (auto simp: endpoint_inv_def list_all_iff image_iff)
  then show ?thesis
    using resolve_advertised [OF assms(2), of "ep_protocols ep" target]
    by (auto simp: services_json_def services_def o_def)
qed

text \<open>An outbox is local exactly when the endpoint it was opened to is this endpoint, and then
  it writes into the inbox registered for the protocol; every other outbox writes to a cached
  network connection. So the unencrypted path never leaves the process.\<close>

theorem connect_outbox_local:
  assumes "connect_outbox N doc endpoint_id did protocol s = (Inr ob, s')"
  shows "ob_recipient_document ob = doc \<and> ob_did ob = did \<and> ob_protocol ob = protocol
    \<and> (if endpoint_id = ep_id (sys_ep s)
       then ob_local ob \<and> s' = s
         \<and> (\<exists>i. ep_inboxes (sys_ep s) (normalize_protocol protocol) = Some i \<and> ob_inner ob = Some (Loopback i))
       else \<not> ob_local ob \<and> (\<exists>conn. ob_inner ob = Some (CachedChannel conn)))"
  using assms
  by (auto simp: connect_outbox_def outbox_from_transport_def split: if_splits option.splits sum.splits prod.splits)

text \<open>Loopback delivery checks the headers of a message but not its signature: whatever bytes
  stand in the signature field, a message with valid headers reaches the inbox.\<close>

theorem loopback_unverified:
  assumes "msg_laws L" and "headers_validate L clk (message_headers L m) = Inr ()"
  shows "\<exists>b. message_encode L (m\<lparr>msg_signature := sig\<rparr>) = Inr b
    \<and> loopback_send_payload L clk now i b st =
        (Inr (), inbox_push i now (msg_exp m) (m\<lparr>msg_signature := sig\<rparr>) st)"
proof -
  obtain b where b: "cbor_of_message L (m\<lparr>msg_signature := sig\<rparr>) = Inr b"
      "message_of_cbor L b = Inr (m\<lparr>msg_signature := sig\<rparr>)"
    using msg_lawsD(4) [OF assms(1)] by blast
  then show ?thesis
    using assms(2)
    by (intro exI [of _ b]) (simp add: message_encode_def loopback_send_payload_def message_decode_def)
qed

section \<open>Witnesses\<close>

definition demo_endpoint_id :: string where "demo_endpoint_id = replicate 64 (CHR ''a'')"

text \<open>A network of which every operation succeeds and connections are numbered.\<close>

definition demo_net :: "nat net_lib" where
  "demo_net =
     \<lparr>net_bind_addr = (\<lambda>a. Inr ()),
      net_bind = (\<lambda>b v w. (Inr demo_endpoint_id, w)),
      net_is_closed = (\<lambda>c w. False),
      net_connect = (\<lambda>a p w. (Inr w, Suc w)),
      net_open_bi = (\<lambda>c w. (Inr w, Suc w)),
      net_stop_recv = (\<lambda>c w. w),
      net_write_all = (\<lambda>c b w. (Inr (), w)),
      net_flush = (\<lambda>c w. (Inr (), w)),
      net_finish = (\<lambda>c w. w),
      net_close = (\<lambda>c w. w),
      net_close_endpoint = (\<lambda>w. w),
      net_parse_id = Inr,
      net_relay_url = (\<lambda>w. None)\<rparr>"

definition demo_endpoint :: iroh_endpoint where
  "demo_endpoint = \<lparr>ep_id = demo_endpoint_id, ep_security = inbound_security_new demo_encryption_key,
     ep_protocols = [], ep_inboxes = Map.empty, ep_router = None, ep_cache = Map.empty,
     ep_connect_locks = {}, ep_loops = []\<rparr>"

lemma demo_endpoint_new:
  "endpoint_new demo_net demo_secret demo_encryption_key True 0 = (Inr demo_endpoint, 0)"
  by (simp add: endpoint_new_def demo_net_def demo_endpoint_def)

theorem registry_invariant_witness:
  "endpoint_inv (fold registry_step [Register ''ma/inbox/0.0.1'', Register '' /ma/crud/0.0.1'',
     Remove ''/ma/inbox/0.0.1'', Register ''ma/inbox/0.0.1''] (demo_endpoint, empty_store))"
  by (rule registry_invariant [OF demo_endpoint_new])

theorem service_handles_stable_witness:
  "ep_inboxes (fst (snd (register_services [''ma/inbox/0.0.1''] (demo_endpoint, empty_store))))
     (normalize_protocol ''ma/inbox/0.0.1'') =
   Some (fst (service ''ma/inbox/0.0.1'' (demo_endpoint, empty_store)))"
  by (rule service_handles_stable) (simp add: case_prod_beta)

theorem services_resolve_to_self_witness:
  "resolve_endpoint_for_protocol (Some (services_json demo_endpoint)) INBOX_PROTOCOL_ID =
    (if normalize_protocol INBOX_PROTOCOL_ID \<noteq> []
        \<and> ep_inboxes demo_endpoint (normalize_protocol INBOX_PROTOCOL_ID) \<noteq> None
     then Some (ep_id demo_endpoint) else None)"
  by (rule services_resolve_to_self [OF endpoint_inv_new [OF demo_endpoint_new, where st = empty_store]])
    (simp add: demo_endpoint_def demo_endpoint_id_def endpoint_id_ok_def list_all_iff ascii_defs
      to_ascii_lowercase_def ascii_lower_def)

definition demo_system :: "nat system" where
  "demo_system = \<lparr>sys_ep = demo_endpoint, sys_store = empty_store, sys_net = 0\<rparr>"

lemma demo_other_endpoint: "''bb'' \<noteq> demo_endpoint_id"
  by (rule notI) (drule arg_cong [where f = length], simp add: demo_endpoint_id_def)

theorem connect_outbox_local_witness:
  "\<exists>ob s'. connect_outbox demo_net demo_document ''bb'' ''did:ma:6d61'' INBOX_PROTOCOL_ID demo_system = (Inr ob, s')
    \<and> \<not> ob_local ob \<and> (\<exists>conn. ob_inner ob = Some (CachedChannel conn))"
proof -
  obtain ob s' where c: "connect_outbox demo_net demo_document ''bb'' ''did:ma:6d61'' INBOX_PROTOCOL_ID
      demo_system = (Inr ob, s')"
    using demo_other_endpoint
    by (simp add: connect_outbox_def demo_system_def demo_endpoint_def resolve_addr_def demo_net_def
        get_or_connect_def live_cached_def connect_lock_def Let_def)
  moreover have "''bb'' \<noteq> ep_id (sys_ep demo_system)"
    using demo_other_endpoint by (simp add: demo_system_def demo_endpoint_def)
  ultimately show ?thesis using connect_outbox_local [OF c] by auto
qed

theorem loopback_unverified_witness:
  "\<exists>b. message_encode demo_msg_lib (demo_message\<lparr>msg_signature := [1, 2, 3]\<rparr>) = Inr b
    \<and> loopback_send_payload demo_msg_lib (Some 1000) 1000 \<lparr>queue = 0\<rparr> b empty_store =
        (Inr (), inbox_push \<lparr>queue = 0\<rparr> 1000 (msg_exp demo_message)
           (demo_message\<lparr>msg_signature := [1, 2, 3]\<rparr>) empty_store)"
  by (rule loopback_unverified [OF demo_msg_laws]) (simp add: demo_message_headers_valid)

lemma normalize_inbox: "normalize_protocol INBOX_PROTOCOL_ID = INBOX_PROTOCOL_ID"
proof -
  have "trim INBOX_PROTOCOL_ID = INBOX_PROTOCOL_ID"
    by (rule trim_solid) (simp_all add: INBOX_PROTOCOL_ID_def solid_def code_def)
  then show ?thesis by (simp add: normalize_protocol_def INBOX_PROTOCOL_ID_def trim_start_char_def)
qed

end
