(* ===== verification/Effects.thy ===== *)
theory Effects
  imports Prelude
begin

text \<open>
  Computations that run against a world \<open>'w\<close> (the disk, the network, the daemon) and may
  fail: a function from the world to a result and the world left behind. \<open>eio\<close> is general in
  the error; \<open>io\<close> has the text of an \<open>anyhow::Error\<close> or an \<open>io::Error\<close>.
\<close>

type_synonym ('e, 'a, 'w) eio = "'w \<Rightarrow> ('e + 'a) \<times> 'w"
type_synonym ('a, 'w) io = "(string, 'a, 'w) eio"

definition io_ret :: "'a \<Rightarrow> ('e, 'a, 'w) eio" where
  "io_ret x w = (Inr x, w)"

definition io_lift :: "'e + 'a \<Rightarrow> ('e, 'a, 'w) eio" where
  "io_lift r w = (r, w)"

text \<open>\<open>f(m.await?)\<close>.\<close>

definition io_bind :: "('e, 'a, 'w) eio \<Rightarrow> ('a \<Rightarrow> ('e, 'b, 'w) eio) \<Rightarrow> ('e, 'b, 'w) eio" where
  "io_bind m f w = (case m w of (Inl e, w1) \<Rightarrow> (Inl e, w1) | (Inr x, w1) \<Rightarrow> f x w1)"

definition io_map_err :: "('e \<Rightarrow> 'f) \<Rightarrow> ('e, 'a, 'w) eio \<Rightarrow> ('f, 'a, 'w) eio" where
  "io_map_err g m w = (map_err g (fst (m w)), snd (m w))"

named_theorems io_simps \<open>decomposition of a run of effects that returned a value\<close>

lemma io_ret_iff [io_simps]: "io_ret x w = (Inr y, w') \<longleftrightarrow> y = x \<and> w' = w"
  by (auto simp: io_ret_def)

lemma io_lift_iff [io_simps]: "io_lift r w = (Inr y, w') \<longleftrightarrow> r = Inr y \<and> w' = w"
  by (auto simp: io_lift_def)

lemma io_bind_iff [io_simps]:
  "io_bind m f w = (Inr y, w') \<longleftrightarrow> (\<exists>x w1. m w = (Inr x, w1) \<and> f x w1 = (Inr y, w'))"
  by (auto simp: io_bind_def split: prod.splits sum.splits)

lemma io_map_err_iff [io_simps]: "io_map_err g m w = (Inr y, w') \<longleftrightarrow> m w = (Inr y, w')"
  by (cases "m w") (auto simp: io_map_err_def result_simps)

lemma io_bind_step: "m w = (Inr x, w1) \<Longrightarrow> io_bind m f w = f x w1"
  by (simp add: io_bind_def)

lemma io_bind_fail: "m w = (Inl e, w1) \<Longrightarrow> io_bind m f w = (Inl e, w1)"
  by (simp add: io_bind_def)

lemma io_bind_assoc: "io_bind (io_bind m f) g = io_bind m (\<lambda>x. io_bind (f x) g)"
  by (rule ext) (simp add: io_bind_def split: prod.split sum.split)

lemma io_ret_bind [simp]: "io_bind (io_ret x) f = f x"
  by (rule ext) (simp add: io_bind_def io_ret_def)

lemma io_lift_bind [simp]: "io_bind (io_lift (Inr x)) f = f x"
  by (rule ext) (simp add: io_bind_def io_lift_def)

text \<open>An effect that keeps a property of the world keeps it whatever it returns.\<close>

definition io_keeps :: "('w \<Rightarrow> bool) \<Rightarrow> ('w \<Rightarrow> 'a \<times> 'w) \<Rightarrow> bool" where
  "io_keeps P m \<longleftrightarrow> (\<forall>w. P w \<longrightarrow> P (snd (m w)))"

lemma io_keeps_bind [intro]:
  "io_keeps P m \<Longrightarrow> (\<And>x. io_keeps P (f x)) \<Longrightarrow> io_keeps P (io_bind m f)"
  unfolding io_keeps_def io_bind_def by (auto split: prod.split sum.split)

lemma io_keeps_basic [simp]:
  "io_keeps P (io_ret x)" "io_keeps P (io_lift r)" "io_keeps P (io_map_err g m) = io_keeps P m"
  by (simp_all add: io_keeps_def io_ret_def io_lift_def io_map_err_def)

named_theorems keeps_intros \<open>what a composed effect leaves as it was\<close>

lemma keeps_lift [keeps_intros]: "io_keeps P (io_lift r)"
  and keeps_ret [keeps_intros]: "io_keeps P (io_ret x)"
  by simp_all

lemma keeps_bind [keeps_intros]:
  "io_keeps P m \<Longrightarrow> (\<And>x. io_keeps P (f x)) \<Longrightarrow> io_keeps P (io_bind m f)"
  by (rule io_keeps_bind)

lemma keepsD: "io_keeps P m \<Longrightarrow> P w \<Longrightarrow> m w = (r, w') \<Longrightarrow> P w'"
  by (metis io_keeps_def snd_conv)

lemma keeps_runD: "io_keeps P m \<Longrightarrow> P w \<Longrightarrow> P (snd (m w))"
  by (simp add: io_keeps_def)

end
