(* ===== verification/IndexMap.thy ===== *)
theory IndexMap
  imports Prelude "HOL-Library.Multiset"
begin

text \<open>
  Maps that keep their entries in an order (the \<open>Mapping\<close> of \<open>serde_yaml\<close>, an iteration of a
  \<open>HashMap\<close>) as association lists without duplicate keys. Inserting under a key that is
  present replaces the value in its place; removing moves the last entry into the hole, the
  documented behaviour of \<open>swap_remove\<close>. The locale states what a client of such a map may
  use, whatever the order of its entries.
\<close>

section \<open>The operations\<close>

definition im_ok :: "('k \<times> 'v) list \<Rightarrow> bool" where
  "im_ok m \<longleftrightarrow> distinct (map fst m)"

abbreviation im_get :: "('k \<times> 'v) list \<Rightarrow> 'k \<Rightarrow> 'v option" where
  "im_get \<equiv> map_of"

fun im_insert :: "'k \<Rightarrow> 'v \<Rightarrow> ('k \<times> 'v) list \<Rightarrow> ('k \<times> 'v) list" where
  "im_insert k v [] = [(k, v)]"
| "im_insert k v ((k', v') # m) = (if k = k' then (k', v) # m else (k', v') # im_insert k v m)"

fun im_remove :: "'k \<Rightarrow> ('k \<times> 'v) list \<Rightarrow> ('k \<times> 'v) list" where
  "im_remove k [] = []"
| "im_remove k ((k', v') # m) =
     (if k = k' then (if m = [] then [] else last m # butlast m)
      else (k', v') # im_remove k m)"

section \<open>What a client relies on\<close>

locale key_map =
  fixes get :: "'m \<Rightarrow> 'k \<Rightarrow> 'v option"
    and put :: "'k \<Rightarrow> 'v \<Rightarrow> 'm \<Rightarrow> 'm"
    and del :: "'k \<Rightarrow> 'm \<Rightarrow> 'm"
    and ok :: "'m \<Rightarrow> bool"
  assumes get_put: "ok m \<Longrightarrow> get (put k v m) = (get m)(k \<mapsto> v)"
    and get_del: "ok m \<Longrightarrow> get (del k m) = (get m)(k := None)"
    and ok_put: "ok m \<Longrightarrow> ok (put k v m)"
    and ok_del: "ok m \<Longrightarrow> ok (del k m)"
begin

text \<open>Removing a list of keys, and inserting a list of entries.\<close>

lemma dels_spec:
  "ok m \<Longrightarrow> ok (fold del ks m) \<and> get (fold del ks m) = (\<lambda>k. if k \<in> set ks then None else get m k)"
  by (induction ks arbitrary: m) (auto simp: ok_del get_del fun_eq_iff)

lemma puts_spec:
  "ok m \<Longrightarrow> ok (fold (\<lambda>(k, v). put k v) es m)
     \<and> get (fold (\<lambda>(k, v). put k v) es m) = get m ++ map_of (rev es)"
proof (induction es arbitrary: m)
  case (Cons e es)
  obtain k v where "e = (k, v)" by (cases e)
  then show ?case
    using Cons.IH [OF ok_put [OF Cons.prems, of k v]] by (auto simp: get_put [OF Cons.prems] fun_eq_iff map_add_def split: option.split)
qed simp

text \<open>The order in which keys are removed does not matter.\<close>

lemma dels_order:
  "ok m \<Longrightarrow> set ks = set ls \<Longrightarrow> get (fold del ks m) = get (fold del ls m)"
  by (simp add: dels_spec)

end

section \<open>The lists provide it\<close>

lemma im_remove_mset:
  "im_ok m \<Longrightarrow> mset (im_remove k m) = filter_mset (\<lambda>e. fst e \<noteq> k) (mset m)"
proof (induction k m rule: im_remove.induct)
  case (2 k k' v' m)
  show ?case
  proof (cases "k = k'")
    case True
    have "filter_mset (\<lambda>e. fst e \<noteq> k) (mset m) = mset m"
      using 2(2) True by (auto simp: im_ok_def image_iff filter_mset_eq_conv)
    moreover have "mset (last m # butlast m) = mset m" if "m \<noteq> []"
      using that by (metis append_butlast_last_id mset_append add_mset_add_single mset.simps(2)
          union_commute mset_single_iff_right)
    ultimately show ?thesis using True by auto
  next
    case False
    then show ?thesis using 2 by (simp add: im_ok_def)
  qed
qed simp

lemma im_ok_perm: "mset m' = mset m \<Longrightarrow> im_ok m' \<longleftrightarrow> im_ok m"
  unfolding im_ok_def by (metis mset_eq_imp_distinct_iff mset_map)

lemma im_ok_sub: "im_ok m \<Longrightarrow> mset m' \<subseteq># mset m \<Longrightarrow> im_ok m'"
proof -
  assume ok: "im_ok m" and "mset m' \<subseteq># mset m"
  then obtain A where "mset m = mset m' + A" by (auto simp: mset_subset_eq_exists_conv)
  moreover obtain r where "A = mset r" using ex_mset by metis
  ultimately have "mset (m' @ r) = mset m" by simp
  then show "im_ok m'" using ok im_ok_perm by (fastforce simp: im_ok_def)
qed

lemma im_remove_ok: "im_ok m \<Longrightarrow> im_ok (im_remove k m)"
  using im_ok_perm [of "im_remove k m" "filter (\<lambda>e. fst e \<noteq> k) m"]
  by (simp add: im_remove_mset) (simp add: im_ok_def distinct_map_filter)

text \<open>Two maps with the same entries read the same.\<close>

lemma im_get_mset:
  assumes "im_ok m" and "mset m' = mset m"
  shows "im_get m' = im_get m"
proof -
  have "im_ok m'" using im_ok_perm assms by blast
  moreover have "set m' = set m" using assms(2) by (metis set_mset_mset)
  ultimately show ?thesis
    using assms(1) by (metis im_ok_def map_of_inject_set)
qed

lemma im_get_remove:
  assumes "im_ok m"
  shows "im_get (im_remove k m) = (im_get m)(k := None)"
proof -
  have "mset (filter (\<lambda>e. fst e \<noteq> k) m) = mset (im_remove k m)"
    by (simp add: im_remove_mset [OF assms])
  then have "im_get (im_remove k m) = im_get (filter (\<lambda>e. fst e \<noteq> k) m)"
    using im_get_mset [OF im_remove_ok [OF assms]] by metis
  also have "\<dots> = (im_get m)(k := None)"
    by (induction m) (auto simp: fun_eq_iff)
  finally show ?thesis .
qed

lemma im_insert_keys: "fst ` set (im_insert k v m) = insert k (fst ` set m)"
  by (induction k v m rule: im_insert.induct) (auto simp: insert_commute)

lemma im_get_insert: "im_get (im_insert k v m) = (im_get m)(k \<mapsto> v)"
  by (induction k v m rule: im_insert.induct) (auto simp: fun_eq_iff)

lemma im_insert_ok: "im_ok m \<Longrightarrow> im_ok (im_insert k v m)"
proof (induction k v m rule: im_insert.induct)
  case (2 k v k' v' m)
  then show ?case using im_insert_keys [of k v m] by (auto simp: im_ok_def)
qed (simp add: im_ok_def)

interpretation im: key_map im_get im_insert im_remove im_ok
  by unfold_locales (simp_all add: im_get_insert im_get_remove im_insert_ok im_remove_ok)

lemma im_ok_Nil [simp]: "im_ok []"
  by (simp add: im_ok_def)

lemma im_remove_absent: "k \<notin> fst ` set m \<Longrightarrow> im_remove k m = m"
  by (induction k m rule: im_remove.induct) auto

lemma im_dels_mset:
  "im_ok m \<Longrightarrow> mset (fold im_remove ks m) = filter_mset (\<lambda>e. fst e \<notin> set ks) (mset m)"
proof (induction ks arbitrary: m)
  case (Cons k ks)
  show ?case
    using Cons.IH [OF im_remove_ok [OF Cons.prems]]
    by (simp add: im_remove_mset [OF Cons.prems] multiset_eq_iff)
qed simp


end
