(* ===== verification/Config.thy ===== *)
theory Config
  imports Errors Files Effects IndexMap Wire
begin

text \<open>
  Configuration (\<^verbatim>\<open>config/mod.rs\<close>, \<^verbatim>\<open>config/cli.rs\<close>): the YAML form of a configuration,
  its resolution from arguments, environment, file and defaults, the paths, secure file
  writing, and saving. \<open>serde_yaml\<close>'s parser and printer are the functions of \<open>yaml_lib\<close>; its
  public \<open>Value\<close> is a datatype. Paths are UTF-8 texts, as in every configuration that was
  read from YAML. The environment is a function from names to values, the XDG directories
  are an argument, and the disk is the world of \<^verbatim>\<open>Files\<close>.
\<close>

section \<open>YAML values\<close>

datatype yaml_number = YInt int | YFloat u64

datatype yaml =
    YNull
  | YBool bool
  | YNumber yaml_number
  | YString string
  | YSequence "yaml list"
  | YMapping "(yaml \<times> yaml) list"
  | YTagged string yaml

type_synonym yaml_map = "(yaml \<times> yaml) list"

text \<open>\<open>Value::as_str\<close> looks through tags, \<open>Number::as_u64\<close> wants an unsigned 64-bit integer.\<close>

fun untag :: "yaml \<Rightarrow> yaml" where
  "untag (YTagged t v) = untag v"
| "untag v = v"

definition yaml_as_str :: "yaml \<Rightarrow> string option" where
  "yaml_as_str v = (case untag v of YString s \<Rightarrow> Some s | _ \<Rightarrow> None)"

definition number_as_u64 :: "yaml_number \<Rightarrow> u64 option" where
  "number_as_u64 n =
     (case n of YInt i \<Rightarrow> if 0 \<le> i \<and> i < 2 ^ 64 then Some (word_of_int i) else None | YFloat _ \<Rightarrow> None)"

text \<open>The two closures on values that the readers share: a number or a bool may be written as text.\<close>

definition value_u64 :: "yaml \<Rightarrow> u64 option" where
  "value_u64 v = (case v of YNumber n \<Rightarrow> number_as_u64 n | YString s \<Rightarrow> parse_u64 s | _ \<Rightarrow> None)"

definition value_bool :: "yaml \<Rightarrow> bool option" where
  "value_bool v = (case v of YBool b \<Rightarrow> Some b | YString s \<Rightarrow> parse_bool s | _ \<Rightarrow> None)"

definition yaml_get :: "yaml_map \<Rightarrow> string \<Rightarrow> yaml option" where
  "yaml_get m key = im_get m (YString key)"

definition yaml_str :: "yaml_map \<Rightarrow> string \<Rightarrow> string option" where
  "yaml_str m key = Option.bind (yaml_get m key) yaml_as_str"

definition yaml_path :: "yaml_map \<Rightarrow> string \<Rightarrow> string option" where
  "yaml_path m key = Option.bind (yaml_get m key) yaml_as_str"

definition yaml_u64 :: "yaml_map \<Rightarrow> string \<Rightarrow> u64 option" where
  "yaml_u64 m key = Option.bind (yaml_get m key) value_u64"

definition yaml_bool :: "yaml_map \<Rightarrow> string \<Rightarrow> bool option" where
  "yaml_bool m key = Option.bind (yaml_get m key) value_bool"

text \<open>A value the parser can return: no mapping in it has a key twice.\<close>

fun yaml_ok :: "yaml \<Rightarrow> bool" where
  "yaml_ok (YSequence l) = list_all yaml_ok l"
| "yaml_ok (YMapping m) = (distinct (map fst m) \<and> list_all (\<lambda>(k, v). yaml_ok k \<and> yaml_ok v) m)"
| "yaml_ok (YTagged t v) = yaml_ok v"
| "yaml_ok v = True"

record yaml_lib =
  yaml_from_str :: "string \<Rightarrow> string + yaml"
  yaml_to_string :: "yaml \<Rightarrow> string + string"

section \<open>The configuration\<close>

definition DEFAULT_LOG_LEVEL :: string where "DEFAULT_LOG_LEVEL = ''info''"
definition DEFAULT_LOG_LEVEL_STDOUT :: string where "DEFAULT_LOG_LEVEL_STDOUT = ''info''"
definition DEFAULT_DID_RESOLVER_POSITIVE_TTL_SECS :: u64 where
  "DEFAULT_DID_RESOLVER_POSITIVE_TTL_SECS = 60"
definition DEFAULT_DID_RESOLVER_NEGATIVE_TTL_SECS :: u64 where
  "DEFAULT_DID_RESOLVER_NEGATIVE_TTL_SECS = 10"
definition DEFAULT_KUBO_RPC_URL :: string where "DEFAULT_KUBO_RPC_URL = ''http://127.0.0.1:5001''"

record remote_pin_config =
  rpc_service :: string
  rpc_name :: string
  rpc_overwrite :: bool

record config =
  cfg_slug :: string
  cfg_log_level :: string
  cfg_log_level_stdout :: string
  cfg_did_resolver_positive_ttl_secs :: u64
  cfg_did_resolver_negative_ttl_secs :: u64
  cfg_log_file :: "string option"
  cfg_kubo_rpc_url :: string
  cfg_kubo_key_alias :: string
  cfg_secret_bundle :: "string option"
  cfg_secret_bundle_passphrase :: "string option"
  cfg_config_path :: "string option"
  cfg_pin_remote :: bool
  cfg_pin_remote_service :: "string option"
  cfg_pin_remote_name :: "string option"
  cfg_pin_overwrite :: bool
  cfg_extra :: yaml_map

text \<open>
  The arguments of a daemon (\<^verbatim>\<open>cli.rs\<close>). \<open>clap\<close> has already filled \<open>config\<close> and \<open>slug\<close> from
  \<open>MA_CONFIG\<close> and \<open>MA_SLUG\<close> when they were not on the command line.
\<close>

record ma_args =
  arg_config :: "string option"
  arg_slug :: "string option"
  arg_log_level :: "string option"
  arg_log_file :: "string option"
  arg_log_level_stdout :: "string option"
  arg_did_resolver_positive_ttl_secs :: "u64 option"
  arg_did_resolver_negative_ttl_secs :: "u64 option"
  arg_secret_bundle :: "string option"
  arg_secret_bundle_passphrase :: "string option"
  arg_kubo_rpc_url :: "string option"
  arg_kubo_key_alias :: "string option"
  arg_pin_remote :: "bool option"
  arg_pin_remote_service :: "string option"
  arg_pin_remote_name :: "string option"
  arg_pin_overwrite :: "bool option"
  arg_gen_headless_config :: bool

definition ma_args_default :: ma_args where
  "ma_args_default = \<lparr>arg_config = None, arg_slug = None, arg_log_level = None, arg_log_file = None,
     arg_log_level_stdout = None, arg_did_resolver_positive_ttl_secs = None,
     arg_did_resolver_negative_ttl_secs = None, arg_secret_bundle = None,
     arg_secret_bundle_passphrase = None, arg_kubo_rpc_url = None, arg_kubo_key_alias = None,
     arg_pin_remote = None, arg_pin_remote_service = None, arg_pin_remote_name = None,
     arg_pin_overwrite = None, arg_gen_headless_config = False\<rparr>"

definition new_for_storage :: "string \<Rightarrow> config" where
  "new_for_storage slug =
     \<lparr>cfg_slug = slug, cfg_log_level = DEFAULT_LOG_LEVEL,
      cfg_log_level_stdout = DEFAULT_LOG_LEVEL_STDOUT,
      cfg_did_resolver_positive_ttl_secs = DEFAULT_DID_RESOLVER_POSITIVE_TTL_SECS,
      cfg_did_resolver_negative_ttl_secs = DEFAULT_DID_RESOLVER_NEGATIVE_TTL_SECS,
      cfg_log_file = None, cfg_kubo_rpc_url = DEFAULT_KUBO_RPC_URL, cfg_kubo_key_alias = slug,
      cfg_secret_bundle = None, cfg_secret_bundle_passphrase = None, cfg_config_path = None,
      cfg_pin_remote = False, cfg_pin_remote_service = None, cfg_pin_remote_name = None,
      cfg_pin_overwrite = True, cfg_extra = []\<rparr>"

definition unwrap_or :: "'a option \<Rightarrow> 'a \<Rightarrow> 'a" where
  "unwrap_or m d = (case m of Some x \<Rightarrow> x | None \<Rightarrow> d)"

lemma unwrap_or_simps [simp]: "unwrap_or None d = d" "unwrap_or (Some x) d = x"
  by (simp_all add: unwrap_or_def)

section \<open>Reading YAML text\<close>

text \<open>\<open>take_str\<close>, \<open>take_path\<close>, \<open>take_u64\<close>, \<open>take_bool\<close>: remove the key, convert its value.\<close>

definition take_with :: "(yaml \<Rightarrow> 'a option) \<Rightarrow> yaml_map \<Rightarrow> string \<Rightarrow> 'a option \<times> yaml_map" where
  "take_with f m key = (Option.bind (im_get m (YString key)) f, im_remove (YString key) m)"

abbreviation take_str :: "yaml_map \<Rightarrow> string \<Rightarrow> string option \<times> yaml_map" where
  "take_str \<equiv> take_with yaml_as_str"

abbreviation take_u64 :: "yaml_map \<Rightarrow> string \<Rightarrow> u64 option \<times> yaml_map" where
  "take_u64 \<equiv> take_with value_u64"

abbreviation take_bool :: "yaml_map \<Rightarrow> string \<Rightarrow> bool option \<times> yaml_map" where
  "take_bool \<equiv> take_with value_bool"

definition from_yaml_mapping :: "yaml_map \<Rightarrow> config" where
  "from_yaml_mapping m =
     (let (slug, m) = take_str m ''slug''; slug = unwrap_or slug ''ma'';
          (log_level, m) = take_str m ''log_level'';
          (log_level_stdout, m) = take_str m ''log_level_stdout'';
          (positive_ttl, m) = take_u64 m ''did_resolver_positive_ttl_secs'';
          (negative_ttl, m) = take_u64 m ''did_resolver_negative_ttl_secs'';
          (_, m) = take_str m ''config_path'';
          (_, m) = take_u64 m ''old_pin_batch_size'';
          (kubo_rpc_url, m) = take_str m ''kubo_rpc_url'';
          (kubo_key_alias, m) = take_str m ''kubo_key_alias'';
          (log_file, m) = take_str m ''log_file'';
          (secret_bundle, m) = take_str m ''secret_bundle'';
          (passphrase, m) = take_str m ''secret_bundle_passphrase'';
          (pin_remote, m) = take_bool m ''pin_remote'';
          (pin_remote_service, m) = take_str m ''pin_remote_service'';
          (pin_remote_name, m) = take_str m ''pin_remote_name'';
          (pin_overwrite, m) = take_bool m ''pin_overwrite''
      in \<lparr>cfg_slug = slug,
          cfg_log_level = unwrap_or log_level DEFAULT_LOG_LEVEL,
          cfg_log_level_stdout = unwrap_or log_level_stdout DEFAULT_LOG_LEVEL_STDOUT,
          cfg_did_resolver_positive_ttl_secs =
            unwrap_or positive_ttl DEFAULT_DID_RESOLVER_POSITIVE_TTL_SECS,
          cfg_did_resolver_negative_ttl_secs =
            unwrap_or negative_ttl DEFAULT_DID_RESOLVER_NEGATIVE_TTL_SECS,
          cfg_log_file = log_file,
          cfg_kubo_rpc_url = unwrap_or kubo_rpc_url DEFAULT_KUBO_RPC_URL,
          cfg_kubo_key_alias = unwrap_or kubo_key_alias slug,
          cfg_secret_bundle = secret_bundle,
          cfg_secret_bundle_passphrase = passphrase,
          cfg_config_path = None,
          cfg_pin_remote = unwrap_or pin_remote False,
          cfg_pin_remote_service = pin_remote_service,
          cfg_pin_remote_name = pin_remote_name,
          cfg_pin_overwrite = unwrap_or pin_overwrite True,
          cfg_extra = m\<rparr>)"

definition from_yaml_str :: "'y yaml_lib_scheme \<Rightarrow> string \<Rightarrow> config result" where
  "from_yaml_str Y text =
     bindR (map_err (\<lambda>e. ConfigError (''failed to parse config YAML: '' @ e)) (yaml_from_str Y text))
       (\<lambda>v. case v of
          YMapping m \<Rightarrow> Inr (from_yaml_mapping m)
        | _ \<Rightarrow> Inl (ConfigError ''config YAML must be a mapping at the top level''))"

section \<open>Printing YAML text\<close>

definition opt_entry :: "string \<Rightarrow> string option \<Rightarrow> yaml_map" where
  "opt_entry key v = (case v of Some s \<Rightarrow> [(YString key, YString s)] | None \<Rightarrow> [])"

text \<open>The calls of \<open>set\<close>, in order.\<close>

definition known_entries :: "config \<Rightarrow> yaml_map" where
  "known_entries c =
     [(YString ''slug'', YString (cfg_slug c)),
      (YString ''log_level'', YString (cfg_log_level c)),
      (YString ''log_level_stdout'', YString (cfg_log_level_stdout c)),
      (YString ''did_resolver_positive_ttl_secs'',
         YNumber (YInt (uint (cfg_did_resolver_positive_ttl_secs c)))),
      (YString ''did_resolver_negative_ttl_secs'',
         YNumber (YInt (uint (cfg_did_resolver_negative_ttl_secs c)))),
      (YString ''kubo_rpc_url'', YString (cfg_kubo_rpc_url c)),
      (YString ''kubo_key_alias'', YString (cfg_kubo_key_alias c))]
     @ opt_entry ''log_file'' (cfg_log_file c)
     @ opt_entry ''secret_bundle'' (cfg_secret_bundle c)
     @ opt_entry ''secret_bundle_passphrase'' (cfg_secret_bundle_passphrase c)
     @ [(YString ''pin_remote'', YBool (cfg_pin_remote c))]
     @ opt_entry ''pin_remote_service'' (cfg_pin_remote_service c)
     @ opt_entry ''pin_remote_name'' (cfg_pin_remote_name c)
     @ [(YString ''pin_overwrite'', YBool (cfg_pin_overwrite c))]"

definition to_yaml_mapping :: "config \<Rightarrow> yaml_map" where
  "to_yaml_mapping c = fold (\<lambda>(k, v). im_insert k v) (known_entries c) (cfg_extra c)"

definition to_yaml_string :: "'y yaml_lib_scheme \<Rightarrow> config \<Rightarrow> string result" where
  "to_yaml_string Y c =
     map_err (\<lambda>e. ConfigError (''failed to serialize config: '' @ e))
       (yaml_to_string Y (YMapping (to_yaml_mapping c)))"

definition to_yaml_string_without_passphrase :: "'y yaml_lib_scheme \<Rightarrow> config \<Rightarrow> string result" where
  "to_yaml_string_without_passphrase Y c =
     to_yaml_string Y (c\<lparr>cfg_secret_bundle_passphrase := None\<rparr>)"

section \<open>Secure file writing\<close>

text \<open>
  What \<open>write_secure\<close> uses of a file system besides \<^verbatim>\<open>Files\<close>: opening with create, truncate
  and a mode, and writing to the file just opened.
\<close>

record 'w secure_fs = "'w fs_lib" +
  fs_open_truncate :: "string \<Rightarrow> nat \<Rightarrow> 'w \<Rightarrow> (string + unit) \<times> 'w"
  fs_write_all :: "string \<Rightarrow> bytes \<Rightarrow> 'w \<Rightarrow> (string + unit) \<times> 'w"

definition MODE_0600 :: nat where "MODE_0600 = 0x180"

definition config_err :: "string \<Rightarrow> string \<Rightarrow> string \<Rightarrow> error" where
  "config_err what path e = ConfigError (what @ '' '' @ path @ '': '' @ e)"

definition write_secure :: "('w, 'x) secure_fs_scheme \<Rightarrow> string \<Rightarrow> bytes \<Rightarrow> (error, unit, 'w) eio" where
  "write_secure F path data =
     io_bind (case fs_parent F path of
                Some parent \<Rightarrow>
                  io_map_err (config_err ''failed to create dir'' parent) (fs_create_dir_all F parent)
              | None \<Rightarrow> io_ret ()) (\<lambda>_.
     io_bind (io_map_err (config_err ''failed to open'' path) (fs_open_truncate F path MODE_0600)) (\<lambda>_.
     io_bind (io_map_err (config_err ''failed to write'' path) (fs_write_all F path data)) (\<lambda>_.
     io_map_err (config_err ''failed to set permissions on'' path) (fs_set_mode F path MODE_0600))))"

text \<open>
  Whether \<open>check_permissions\<close> logs its warning: the comparison is of the two numbers, not of
  the permission bits.
\<close>

definition mode_warned :: "nat \<Rightarrow> bool" where
  "mode_warned st_mode \<longleftrightarrow> st_mode mod 0x200 > MODE_0600"

definition check_permissions :: "('w, 'x) secure_fs_scheme \<Rightarrow> string \<Rightarrow> 'w \<Rightarrow> bool" where
  "check_permissions F path w =
     (case fs_mode F path w of Some st_mode \<Rightarrow> mode_warned st_mode | None \<Rightarrow> False)"

section \<open>Paths\<close>

text \<open>\<open>Path::join\<close> on Unix: an absolute argument replaces the base.\<close>

definition path_join :: "string \<Rightarrow> string \<Rightarrow> string" where
  "path_join base p =
     (if starts_with p ''/'' \<or> base = [] then p
      else if ends_with base ''/'' then base @ p
      else base @ ''/'' @ p)"

record project_dirs =
  config_dir :: string
  data_dir :: string

definition project_dirs_or :: "project_dirs option \<Rightarrow> project_dirs result" where
  "project_dirs_or dirs = ok_or dirs (ConfigError ''cannot determine XDG base directories'')"

definition default_config_path :: "project_dirs option \<Rightarrow> string \<Rightarrow> string result" where
  "default_config_path dirs slug =
     bindR (project_dirs_or dirs) (\<lambda>d. Inr (path_join (config_dir d) (slug @ ''.yaml'')))"

definition default_secret_bundle_path :: "project_dirs option \<Rightarrow> string \<Rightarrow> string result" where
  "default_secret_bundle_path dirs slug =
     bindR (project_dirs_or dirs) (\<lambda>d. Inr (path_join (config_dir d) (slug @ ''.bin'')))"

definition default_log_file_path :: "project_dirs option \<Rightarrow> string \<Rightarrow> string result" where
  "default_log_file_path dirs slug =
     bindR (project_dirs_or dirs) (\<lambda>d. Inr (path_join (data_dir d) (slug @ ''.log'')))"

definition effective_log_file :: "project_dirs option \<Rightarrow> config \<Rightarrow> string result" where
  "effective_log_file dirs c =
     (case cfg_log_file c of Some p \<Rightarrow> Inr p | None \<Rightarrow> default_log_file_path dirs (cfg_slug c))"

definition effective_secret_bundle :: "project_dirs option \<Rightarrow> config \<Rightarrow> string result" where
  "effective_secret_bundle dirs c =
     (case cfg_secret_bundle c of Some p \<Rightarrow> Inr p | None \<Rightarrow> default_secret_bundle_path dirs (cfg_slug c))"

section \<open>Resolving a configuration from arguments\<close>

text \<open>\<open>fs::read_to_string\<close>: the bytes must be UTF-8 (table 3-7 of the Unicode standard).\<close>

definition cont :: "u8 \<Rightarrow> bool" where
  "cont b \<longleftrightarrow> 0x80 \<le> b \<and> b \<le> 0xBF"

fun valid_utf8 :: "bytes \<Rightarrow> bool" where
  "valid_utf8 [] = True"
| "valid_utf8 (a # s) =
     (if a < 0x80 then valid_utf8 s
      else case s of
        [] \<Rightarrow> False
      | b # t \<Rightarrow>
          if 0xC2 \<le> a \<and> a \<le> 0xDF then cont b \<and> valid_utf8 t
          else case t of
            [] \<Rightarrow> False
          | c # u \<Rightarrow>
              if 0xE0 \<le> a \<and> a \<le> 0xEF then
                cont b \<and> (a = 0xE0 \<longrightarrow> 0xA0 \<le> b) \<and> (a = 0xED \<longrightarrow> b \<le> 0x9F) \<and> cont c \<and> valid_utf8 u
              else case u of
                [] \<Rightarrow> False
              | d # v \<Rightarrow>
                  0xF0 \<le> a \<and> a \<le> 0xF4 \<and> cont b \<and> (a = 0xF0 \<longrightarrow> 0x90 \<le> b) \<and> (a = 0xF4 \<longrightarrow> b \<le> 0x8F)
                  \<and> cont c \<and> cont d \<and> valid_utf8 v)"

definition read_to_string :: "('w, 'x) fs_lib_scheme \<Rightarrow> string \<Rightarrow> 'w \<Rightarrow> string + string" where
  "read_to_string F path w =
     bindR (fs_read F path w) (\<lambda>b.
       if valid_utf8 b then Inr (of_bytes b) else Inl ''stream did not contain valid UTF-8'')"

definition load_yaml_mapping :: "('w, 'x) fs_lib_scheme \<Rightarrow> 'y yaml_lib_scheme \<Rightarrow> string \<Rightarrow> 'w \<Rightarrow>
    yaml_map result" where
  "load_yaml_mapping F Y path w =
     bindR (map_err (config_err ''failed to read'' path) (read_to_string F path w)) (\<lambda>content.
     bindR (map_err (config_err ''invalid YAML in'' path) (yaml_from_str Y content)) (\<lambda>v.
     case v of
       YMapping m \<Rightarrow> Inr m
     | _ \<Rightarrow> Inl (ConfigError (''config file '' @ path @ '' must be a YAML mapping''))))"

text \<open>
  The closures of \<open>from_args\<close>: argument, then \<open>MA_<KEY>\<close>, then the YAML entry of the lower-case
  key. \<open>env\<close> is \<open>std::env::var(..).ok()\<close>.
\<close>

definition resolve_with :: "(string \<Rightarrow> 'a option) \<Rightarrow> (yaml_map \<Rightarrow> string \<Rightarrow> 'a option) \<Rightarrow>
    (string \<Rightarrow> string option) \<Rightarrow> yaml_map option \<Rightarrow> 'a option \<Rightarrow> string \<Rightarrow> 'a option" where
  "resolve_with of_text of_yaml env yaml cli env_key =
     or_else (or_else cli (Option.bind (env (''MA_'' @ env_key)) of_text))
       (Option.bind yaml (\<lambda>m. of_yaml m (to_ascii_lowercase env_key)))"

abbreviation resolve_opt_str :: "(string \<Rightarrow> string option) \<Rightarrow> yaml_map option \<Rightarrow> string option \<Rightarrow>
    string \<Rightarrow> string option" where
  "resolve_opt_str \<equiv> resolve_with Some yaml_str"

abbreviation resolve_opt_path :: "(string \<Rightarrow> string option) \<Rightarrow> yaml_map option \<Rightarrow> string option \<Rightarrow>
    string \<Rightarrow> string option" where
  "resolve_opt_path \<equiv> resolve_with Some yaml_path"

abbreviation resolve_u64 :: "(string \<Rightarrow> string option) \<Rightarrow> yaml_map option \<Rightarrow> u64 option \<Rightarrow>
    string \<Rightarrow> u64 option" where
  "resolve_u64 \<equiv> resolve_with parse_u64 yaml_u64"

abbreviation resolve_bool :: "(string \<Rightarrow> string option) \<Rightarrow> yaml_map option \<Rightarrow> bool option \<Rightarrow>
    string \<Rightarrow> bool option" where
  "resolve_bool \<equiv> resolve_with parse_bool yaml_bool"

definition known_keys :: "string list" where
  "known_keys =
     [''slug'', ''log_level'', ''log_level_stdout'', ''log_file'',
      ''did_resolver_positive_ttl_secs'', ''did_resolver_negative_ttl_secs'',
      ''kubo_rpc_url'', ''kubo_key_alias'', ''secret_bundle'', ''secret_bundle_passphrase'',
      ''pin_remote'', ''pin_remote_service'', ''pin_remote_name'', ''pin_overwrite'',
      ''old_pin_batch_size'', ''config_path'']"

definition select_config_path :: "project_dirs option \<Rightarrow> ma_args \<Rightarrow> string \<Rightarrow> string result" where
  "select_config_path dirs args default_slug =
     (let config_slug = unwrap_or (arg_slug args) default_slug
      in case arg_config args of Some p \<Rightarrow> Inr p | None \<Rightarrow> default_config_path dirs config_slug)"

definition resolve_config :: "ma_args \<Rightarrow> string \<Rightarrow> (string \<Rightarrow> string option) \<Rightarrow> string \<Rightarrow>
    yaml_map option \<Rightarrow> config" where
  "resolve_config args default_slug env config_path yaml =
     (let slug = unwrap_or (or_else (arg_slug args) (Option.bind yaml (\<lambda>m. yaml_str m ''slug'')))
            default_slug
      in \<lparr>cfg_slug = slug,
          cfg_log_level = unwrap_or (resolve_opt_str env yaml (arg_log_level args) ''LOG_LEVEL'')
            DEFAULT_LOG_LEVEL,
          cfg_log_level_stdout = unwrap_or
            (resolve_opt_str env yaml (arg_log_level_stdout args) ''LOG_LEVEL_STDOUT'')
            DEFAULT_LOG_LEVEL_STDOUT,
          cfg_did_resolver_positive_ttl_secs = unwrap_or
            (resolve_u64 env yaml (arg_did_resolver_positive_ttl_secs args) ''DID_RESOLVER_POSITIVE_TTL_SECS'')
            DEFAULT_DID_RESOLVER_POSITIVE_TTL_SECS,
          cfg_did_resolver_negative_ttl_secs = unwrap_or
            (resolve_u64 env yaml (arg_did_resolver_negative_ttl_secs args) ''DID_RESOLVER_NEGATIVE_TTL_SECS'')
            DEFAULT_DID_RESOLVER_NEGATIVE_TTL_SECS,
          cfg_log_file = resolve_opt_path env yaml (arg_log_file args) ''LOG_FILE'',
          cfg_kubo_rpc_url = unwrap_or (resolve_opt_str env yaml (arg_kubo_rpc_url args) ''KUBO_RPC_URL'')
            DEFAULT_KUBO_RPC_URL,
          cfg_kubo_key_alias = unwrap_or
            (resolve_opt_str env yaml (arg_kubo_key_alias args) ''KUBO_KEY_ALIAS'') slug,
          cfg_secret_bundle = resolve_opt_path env yaml (arg_secret_bundle args) ''SECRET_BUNDLE'',
          cfg_secret_bundle_passphrase =
            resolve_opt_str env yaml (arg_secret_bundle_passphrase args) ''SECRET_BUNDLE_PASSPHRASE'',
          cfg_config_path = Some config_path,
          cfg_pin_remote = unwrap_or (resolve_bool env yaml (arg_pin_remote args) ''PIN_REMOTE'') False,
          cfg_pin_remote_service =
            resolve_opt_str env yaml (arg_pin_remote_service args) ''PIN_REMOTE_SERVICE'',
          cfg_pin_remote_name = resolve_opt_str env yaml (arg_pin_remote_name args) ''PIN_REMOTE_NAME'',
          cfg_pin_overwrite = unwrap_or (resolve_bool env yaml (arg_pin_overwrite args) ''PIN_OVERWRITE'') True,
          cfg_extra = (case yaml of
              Some m \<Rightarrow> fold (\<lambda>k. im_remove (YString k)) known_keys m
            | None \<Rightarrow> [])\<rparr>)"

text \<open>The configuration, and whether the warning about the permissions of its file was logged.\<close>

definition from_args :: "('w, 'x) secure_fs_scheme \<Rightarrow> 'y yaml_lib_scheme \<Rightarrow> (string \<Rightarrow> string option) \<Rightarrow>
    project_dirs option \<Rightarrow> ma_args \<Rightarrow> string \<Rightarrow> 'w \<Rightarrow> (config \<times> bool) result" where
  "from_args F Y env dirs args default_slug w =
     bindR (select_config_path dirs args default_slug) (\<lambda>config_path.
     if fs_exists F config_path w
     then bindR (load_yaml_mapping F Y config_path w) (\<lambda>m.
            Inr (resolve_config args default_slug env config_path (Some m),
                 check_permissions F config_path w))
     else Inr (resolve_config args default_slug env config_path None, False))"

section \<open>Remote pinning, saving, browser export\<close>

definition remote_pin_config_with_default_name :: "config \<Rightarrow> string \<Rightarrow> remote_pin_config option result" where
  "remote_pin_config_with_default_name c default_name =
     (if \<not> cfg_pin_remote c then Inr None
      else bindR (ok_or (Option.bind (map_option trim (cfg_pin_remote_service c))
                    (\<lambda>val. if val \<noteq> [] then Some val else None))
               (ConfigError ''pin_remote requires pin_remote_service'')) (\<lambda>service.
        let name = unwrap_or (Option.bind (map_option trim (cfg_pin_remote_name c))
                     (\<lambda>val. if val \<noteq> [] then Some val else None)) default_name
        in Inr (Some \<lparr>rpc_service = service, rpc_name = name, rpc_overwrite = cfg_pin_overwrite c\<rparr>)))"

definition config_save :: "('w, 'x) secure_fs_scheme \<Rightarrow> 'y yaml_lib_scheme \<Rightarrow> config \<Rightarrow>
    (error, unit, 'w) eio" where
  "config_save F Y c =
     io_bind (io_lift (ok_or (cfg_config_path c)
                (ConfigError ''cannot save config: no config_path set''))) (\<lambda>path.
     io_bind (io_lift (to_yaml_string Y c)) (\<lambda>yaml_text.
     write_secure F path (as_bytes yaml_text)))"

text \<open>The base64 and JSON packages of the browser export.\<close>

record browser_export =
  be_version :: u8
  be_config_yaml :: string
  be_encrypted_secret_bundle_base64 :: string

record export_lib =
  b64_encode :: "bytes \<Rightarrow> string"
  b64_decode :: "string \<Rightarrow> string + bytes"
  json_of_export :: "browser_export \<Rightarrow> string + string"
  export_of_json :: "string \<Rightarrow> string + browser_export"

definition browser_export_new :: "'z export_lib_scheme \<Rightarrow> string \<Rightarrow> bytes \<Rightarrow> browser_export" where
  "browser_export_new B config_yaml encrypted =
     \<lparr>be_version = 1, be_config_yaml = config_yaml,
      be_encrypted_secret_bundle_base64 = b64_encode B encrypted\<rparr>"

definition encrypted_secret_bundle_bytes :: "'z export_lib_scheme \<Rightarrow> browser_export \<Rightarrow> bytes result" where
  "encrypted_secret_bundle_bytes B e =
     map_err (\<lambda>x. ConfigError (''invalid encrypted bundle base64: '' @ x))
       (b64_decode B (be_encrypted_secret_bundle_base64 e))"

definition export_to_json_string :: "'z export_lib_scheme \<Rightarrow> browser_export \<Rightarrow> string result" where
  "export_to_json_string B e =
     map_err (\<lambda>x. ConfigError (''failed to serialize browser export: '' @ x)) (json_of_export B e)"

definition export_from_json_str :: "'z export_lib_scheme \<Rightarrow> string \<Rightarrow> browser_export result" where
  "export_from_json_str B json =
     map_err (\<lambda>x. ConfigError (''failed to parse browser export JSON: '' @ x)) (export_of_json B json)"

end
