(* ===== verification/Secrets.thy ===== *)
theory Secrets
  imports Config Identity
begin

text \<open>
  Secret bundles (\<^verbatim>\<open>config/secrets.rs\<close>) and the headless bootstrap of \<^verbatim>\<open>config/mod.rs\<close>, which
  generates a bundle and the configuration that opens it. Base64, JSON, Argon2id and
  ChaCha20-Poly1305 are functions of \<open>secret_lib\<close>. What the system's random generator returns
  is an argument. A \<open>HashMap\<close> of keys is an association list in the order of one iteration.
  Zeroizing on drop and after use is not modelled.
\<close>

section \<open>The bundle\<close>

record secret_bundle =
  sb_iroh_secret_key :: bytes
  sb_ipns_secret_key :: bytes
  sb_did_signing_key :: bytes
  sb_did_encryption_key :: bytes
  sb_created_at :: string
  sb_extra_keys :: "(string \<times> bytes) list"

record bundle_json =
  bj_iroh :: string
  bj_ipns :: string
  bj_did_signing :: string
  bj_did_encryption :: string
  bj_created_at :: string
  bj_extra :: "(string \<times> string) list"

record secret_lib = export_lib +
  json_of_bundle :: "bundle_json \<Rightarrow> string + bytes"
  bundle_of_json :: "bytes \<Rightarrow> string + bundle_json"
  argon2id :: "bytes \<Rightarrow> bytes \<Rightarrow> string + bytes"
  chacha_encrypt :: "bytes \<Rightarrow> bytes \<Rightarrow> bytes \<Rightarrow> string + bytes"
  chacha_decrypt :: "bytes \<Rightarrow> bytes \<Rightarrow> bytes \<Rightarrow> bytes option"

text \<open>The four keys that one generation draws.\<close>

record bundle_draw =
  draw_iroh :: bytes
  draw_ipns :: bytes
  draw_signing :: bytes
  draw_encryption :: bytes

definition RESERVED :: "string list" where
  "RESERVED = [''iroh'', ''ipns'', ''did_signing'', ''did_encryption'']"

definition validate_key_name :: "string \<Rightarrow> unit result" where
  "validate_key_name name =
     (if name = [] then Inl (SecretsError ''key name must not be empty'')
      else if name \<in> set RESERVED
      then Inl (SecretsError (''key name '' @ quote @ name @ quote @ '' is reserved for a standard key''))
      else Inr ())"

definition bundle_generate :: "'x doc_lib_scheme \<Rightarrow> clock \<Rightarrow> bundle_draw \<Rightarrow> secret_bundle" where
  "bundle_generate L now r =
     \<lparr>sb_iroh_secret_key = draw_iroh r, sb_ipns_secret_key = draw_ipns r,
      sb_did_signing_key = draw_signing r, sb_did_encryption_key = draw_encryption r,
      sb_created_at = now_iso_utc L now, sb_extra_keys = []\<rparr>"

definition add_key :: "string \<Rightarrow> bytes \<Rightarrow> secret_bundle \<Rightarrow> secret_bundle result" where
  "add_key name key b =
     bindR (validate_key_name name) (\<lambda>_.
       Inr (b\<lparr>sb_extra_keys := im_insert name key (sb_extra_keys b)\<rparr>))"

text \<open>\<open>drawn\<close> is the 32 bytes the generator fills in; the key is also returned.\<close>

definition generate_key :: "bytes \<Rightarrow> string \<Rightarrow> secret_bundle \<Rightarrow> (bytes \<times> secret_bundle) result" where
  "generate_key drawn name b =
     bindR (validate_key_name name) (\<lambda>_.
       Inr (drawn, b\<lparr>sb_extra_keys := im_insert name drawn (sb_extra_keys b)\<rparr>))"

definition get_key :: "string \<Rightarrow> secret_bundle \<Rightarrow> bytes option" where
  "get_key name b = im_get (sb_extra_keys b) name"

definition remove_key :: "string \<Rightarrow> secret_bundle \<Rightarrow> bytes option \<times> secret_bundle" where
  "remove_key name b =
     (im_get (sb_extra_keys b) name, b\<lparr>sb_extra_keys := im_remove name (sb_extra_keys b)\<rparr>)"

definition extra_key_names :: "secret_bundle \<Rightarrow> string list" where
  "extra_key_names b = map fst (sb_extra_keys b)"

section \<open>JSON\<close>

definition to_json_bytes :: "'z secret_lib_scheme \<Rightarrow> secret_bundle \<Rightarrow> bytes result" where
  "to_json_bytes B b =
     map_err SecretsError (json_of_bundle B
       \<lparr>bj_iroh = b64_encode B (sb_iroh_secret_key b), bj_ipns = b64_encode B (sb_ipns_secret_key b),
        bj_did_signing = b64_encode B (sb_did_signing_key b),
        bj_did_encryption = b64_encode B (sb_did_encryption_key b),
        bj_created_at = sb_created_at b,
        bj_extra = map (\<lambda>(k, v). (k, b64_encode B v)) (sb_extra_keys b)\<rparr>)"

definition decode_key :: "'z secret_lib_scheme \<Rightarrow> string \<Rightarrow> string \<Rightarrow> bytes result" where
  "decode_key B s field =
     bindR (map_err (\<lambda>e. SecretsError (''base64 decode error in '' @ quote @ field @ quote @ '': '' @ e))
         (b64_decode B s)) (\<lambda>b.
       if length b = 32 then Inr b
       else Inl (SecretsError (quote @ field @ quote @ '' must be exactly 32 bytes'')))"

fun decode_extra :: "'z secret_lib_scheme \<Rightarrow> (string \<times> string) list \<Rightarrow> (string \<times> bytes) list \<Rightarrow>
    (string \<times> bytes) list result" where
  "decode_extra B [] m = Inr m"
| "decode_extra B ((name, val) # es) m =
     bindR (decode_key B val name) (\<lambda>k. decode_extra B es (im_insert name k m))"

definition from_json_bytes :: "'z secret_lib_scheme \<Rightarrow> bytes \<Rightarrow> secret_bundle result" where
  "from_json_bytes B data =
     bindR (map_err (\<lambda>e. SecretsError (''failed to parse bundle JSON: '' @ e)) (bundle_of_json B data)) (\<lambda>w.
     bindR (decode_extra B (bj_extra w) []) (\<lambda>extra_keys.
     bindR (decode_key B (bj_iroh w) ''iroh'') (\<lambda>iroh.
     bindR (decode_key B (bj_ipns w) ''ipns'') (\<lambda>ipns.
     bindR (decode_key B (bj_did_signing w) ''did_signing'') (\<lambda>signing.
     bindR (decode_key B (bj_did_encryption w) ''did_encryption'') (\<lambda>encryption.
     Inr \<lparr>sb_iroh_secret_key = iroh, sb_ipns_secret_key = ipns, sb_did_signing_key = signing,
       sb_did_encryption_key = encryption, sb_created_at = bj_created_at w,
       sb_extra_keys = extra_keys\<rparr>))))))"

section \<open>Encryption\<close>

text \<open>The salt and the nonce are fresh; a 32-byte key always makes a cipher.\<close>

definition bundle_encrypt :: "'z secret_lib_scheme \<Rightarrow> bytes \<Rightarrow> bytes \<Rightarrow> secret_bundle \<Rightarrow> string \<Rightarrow>
    bytes result" where
  "bundle_encrypt B salt nonce b passphrase =
     bindR (map_err SecretsError (argon2id B (as_bytes passphrase) salt)) (\<lambda>key.
     bindR (to_json_bytes B b) (\<lambda>plaintext.
     bindR (map_err SecretsError (chacha_encrypt B key nonce plaintext)) (\<lambda>ciphertext.
     Inr (salt @ nonce @ ciphertext))))"

definition bundle_decrypt :: "'z secret_lib_scheme \<Rightarrow> bytes \<Rightarrow> string \<Rightarrow> secret_bundle result" where
  "bundle_decrypt B data passphrase =
     (if length data < 28 then Inl (SecretsError ''secret bundle too short'')
      else let salt = take 16 data; nonce = take 12 (drop 16 data); ciphertext = drop 28 data in
        bindR (map_err SecretsError (argon2id B (as_bytes passphrase) salt)) (\<lambda>key.
        bindR (ok_or (chacha_decrypt B key nonce ciphertext)
            (SecretsError ''decryption failed (wrong passphrase?)'')) (\<lambda>plaintext.
        from_json_bytes B plaintext)))"

definition bundle_load :: "('w, 'x) secure_fs_scheme \<Rightarrow> 'z secret_lib_scheme \<Rightarrow> string \<Rightarrow> string \<Rightarrow>
    'w \<Rightarrow> secret_bundle result" where
  "bundle_load F B path passphrase w =
     bindR (map_err (\<lambda>e. SecretsError (''failed to read '' @ path @ '': '' @ e)) (fs_read F path w))
       (\<lambda>data. bundle_decrypt B data passphrase)"

definition bundle_save :: "('w, 'x) secure_fs_scheme \<Rightarrow> 'z secret_lib_scheme \<Rightarrow> bytes \<Rightarrow> bytes \<Rightarrow>
    string \<Rightarrow> string \<Rightarrow> secret_bundle \<Rightarrow> (error, unit, 'w) eio" where
  "bundle_save F B salt nonce path passphrase b =
     io_bind (io_lift (bundle_encrypt B salt nonce b passphrase)) (write_secure F path)"

section \<open>Passphrases\<close>

definition CHARSET :: string where
  "CHARSET = ''ABCDEFGHIJKLMNOPQRSTUVWXYZabcdefghijklmnopqrstuvwxyz0123456789''"

definition ACCEPT_BELOW :: u8 where "ACCEPT_BELOW = 248"

text \<open>
  The inner loop over one block of random bytes: \<open>Inl\<close> is \<open>return\<close>, \<open>Inr\<close> the passphrase so
  far at the end of the block.
\<close>

fun scan_block :: "bytes \<Rightarrow> string \<Rightarrow> string + string" where
  "scan_block [] result = Inr result"
| "scan_block (b # bs) result =
     (if b < ACCEPT_BELOW
      then let result = result @ [CHARSET ! (unat b mod 62)] in
        if length result = 43 then Inl result else scan_block bs result
      else scan_block bs result)"

text \<open>
  The outer loop draws block after block, \<open>blocks i\<close> being the \<open>i\<close>-th; \<open>None\<close> is a loop that
  never returns, because the generator never gives enough bytes below the limit.
\<close>

partial_function (option) passphrase_loop :: "(nat \<Rightarrow> bytes) \<Rightarrow> nat \<Rightarrow> string \<Rightarrow> string option" where
  "passphrase_loop blocks i result =
     (case scan_block (blocks i) result of
        Inl p \<Rightarrow> Some p
      | Inr result \<Rightarrow> passphrase_loop blocks (Suc i) result)"

definition generate_passphrase :: "(nat \<Rightarrow> bytes) \<Rightarrow> string option" where
  "generate_passphrase blocks = passphrase_loop blocks 0 []"

section \<open>The identity of a bundle\<close>

definition secrets_err :: "string \<Rightarrow> error \<Rightarrow> error" where
  "secrets_err what e = SecretsError (what @ '': '' @ error_display e)"

definition secrets_ma_err :: "string \<Rightarrow> ma_error \<Rightarrow> error" where
  "secrets_ma_err what e = SecretsError (what @ '': '' @ ma_error_display e)"

definition bundle_encryption_key :: "'x identity_lib_scheme \<Rightarrow> secret_bundle \<Rightarrow> encryption_key result" where
  "bundle_encryption_key L b =
     bindR (map_err (secrets_err ''ipns derivation failed'') (ipns_from_secret L (sb_ipns_secret_key b))) (\<lambda>ipns.
     bindR (map_err (secrets_ma_err ''enc did'') (new_url L ipns (Some ''enc'') [])) (\<lambda>did.
     map_err (secrets_ma_err ''encryption key'')
       (encryption_from_private_key_bytes L did (sb_did_encryption_key b))))"

definition bundle_signing_key :: "'x identity_lib_scheme \<Rightarrow> secret_bundle \<Rightarrow> signing_key result" where
  "bundle_signing_key L b =
     bindR (map_err (secrets_err ''ipns derivation'') (ipns_from_secret L (sb_ipns_secret_key b))) (\<lambda>ipns.
     bindR (map_err (secrets_ma_err ''sign did'') (new_url L ipns (Some ''sign'') [])) (\<lambda>did.
     map_err (secrets_ma_err ''signing key'')
       (signing_from_private_key_bytes L did (sb_did_signing_key b))))"

definition bundle_identity :: "'x identity_lib_scheme \<Rightarrow> clock \<Rightarrow> secret_bundle \<Rightarrow>
    generated_identity result" where
  "bundle_identity L now b =
     bindR (map_err (secrets_err ''ipns derivation failed'') (ipns_from_secret L (sb_ipns_secret_key b))) (\<lambda>ipns.
     bindR (map_err (secrets_ma_err ''sign did'') (new_url L ipns (Some ''sign'') [])) (\<lambda>sign_did.
     bindR (map_err (secrets_ma_err ''signing key'')
         (signing_from_private_key_bytes L sign_did (sb_did_signing_key b))) (\<lambda>sk.
     bindR (bundle_encryption_key L b) (\<lambda>ek.
     bindR (map_err (secrets_err ''identity generation failed'')
         (build_identity_from_keys L now ipns sk ek)) (\<lambda>g.
     let document = (gi_document g)\<lparr>doc_created_at := sb_created_at b\<rparr> in
     bindR (map_err (secrets_ma_err ''assertion vm'')
         (get_verification_method_by_id document (doc_assertion_method document ! 0))) (\<lambda>vm.
     bindR (map_err (secrets_ma_err ''re-sign after created_at restore'')
         (document_sign L sk vm document)) (\<lambda>document.
     Inr (g\<lparr>gi_document := document\<rparr>))))))))"

text \<open>\<open>now\<close> is the clock when the base document is built, \<open>later\<close> when it is touched.\<close>

definition build_document :: "'x identity_lib_scheme \<Rightarrow> clock \<Rightarrow> clock \<Rightarrow> ma_extension \<Rightarrow>
    secret_bundle \<Rightarrow> document result" where
  "build_document L now later ext b =
     bindR (bundle_identity L now b) (\<lambda>g.
     bindR (map_err (secrets_err ''ipns derivation'') (ipns_from_secret L (sb_ipns_secret_key b))) (\<lambda>ipns.
     bindR (map_err (secrets_ma_err ''sign did'') (new_url L ipns (Some ''sign'') [])) (\<lambda>sign_did.
     bindR (map_err (secrets_ma_err ''signing key'')
         (signing_from_private_key_bytes L sign_did (sb_did_signing_key b))) (\<lambda>sk.
     let document = gi_document g in
     bindR (map_err (secrets_ma_err ''assertion vm'')
         (get_verification_method_by_id document (doc_assertion_method document ! 0))) (\<lambda>vm.
     let document = touch L later (set_ma_extension ext document) in
     map_err (secrets_ma_err ''sign'') (document_sign L sk vm document))))))"

end
