(* ===== verification/BundleIdentity.thy ===== *)
theory BundleIdentity
  imports Secrets
begin

text \<open>
  The identity a bundle stands for (\<open>generate_identity\<close>, \<open>encryption_key\<close>, \<open>signing_key\<close> and
  \<open>build_document\<close> of \<^verbatim>\<open>config/secrets.rs\<close>): its documents are valid, signed by the bundle's
  own key, list the bundle's public keys, and keep the bundle's creation time.
\<close>

section \<open>The identity, computed\<close>

lemma fixed_urls:
  assumes "validate_identifier L i = Inr ()"
  shows "new_url L i (Some ''sign'') n = Inr \<lparr>ipns = i, fragment = Some ''sign''\<rparr>"
    and "new_url L i (Some ''enc'') n = Inr \<lparr>ipns = i, fragment = Some ''enc''\<rparr>"
  using assms by (simp_all add: new_url_def Let_def)

text \<open>The keys of a bundle under the identifier of its IPNS secret.\<close>

definition bundle_sk :: "'x crypto_lib_scheme \<Rightarrow> string \<Rightarrow> secret_bundle \<Rightarrow> signing_key" where
  "bundle_sk L i b = \<lparr>sk_did = \<lparr>ipns = i, fragment = Some ''sign''\<rparr>,
     sk_key_type = ASSERTION_METHOD_KEY_TYPE, sk_secret_key = sb_did_signing_key b,
     sk_public_key_multibase =
       public_key_multibase_encode L CODEC_ED25519_PUB (ed25519_public L (sb_did_signing_key b))\<rparr>"

definition bundle_ek :: "'x crypto_lib_scheme \<Rightarrow> string \<Rightarrow> secret_bundle \<Rightarrow> encryption_key" where
  "bundle_ek L i b = \<lparr>ek_did = \<lparr>ipns = i, fragment = Some ''enc''\<rparr>,
     ek_key_type = KEY_AGREEMENT_KEY_TYPE, ek_private_key = sb_did_encryption_key b,
     ek_public_key = x25519_public L (sb_did_encryption_key b),
     ek_public_key_multibase =
       public_key_multibase_encode L CODEC_X25519_PUB (x25519_public L (sb_did_encryption_key b))\<rparr>"

lemma bundle_keys:
  assumes "identity_laws L" and "ipns_from_secret L (sb_ipns_secret_key b) = Inr i"
  shows "bundle_signing_key L b = Inr (bundle_sk L i b)"
    and "bundle_encryption_key L b = Inr (bundle_ek L i b)"
  using assms(2) fixed_urls [OF ipns_from_secret_valid [OF assms]]
  by (simp_all add: bundle_signing_key_def bundle_encryption_key_def bundle_sk_def bundle_ek_def
      signing_from_private_key_bytes_def encryption_from_private_key_bytes_def)

text \<open>The document of a bundle before it is signed.\<close>

definition bundle_unsigned :: "'x doc_lib_scheme \<Rightarrow> clock \<Rightarrow> string \<Rightarrow> secret_bundle \<Rightarrow> document" where
  "bundle_unsigned L now i b =
     (unsigned_identity L now \<lparr>ipns = i, fragment = None\<rparr>
        (sk_public_key_multibase (bundle_sk L i b)) (ek_public_key_multibase (bundle_ek L i b)))
       \<lparr>doc_created_at := sb_created_at b\<rparr>"

definition bundle_method :: "'x crypto_lib_scheme \<Rightarrow> string \<Rightarrow> secret_bundle \<Rightarrow> verification_method" where
  "bundle_method L i b =
     identity_method \<lparr>ipns = i, fragment = None\<rparr> ''sign'' (sk_public_key_multibase (bundle_sk L i b))"

lemma get_vm_created [simp]:
  "get_verification_method_by_id (d\<lparr>doc_created_at := t\<rparr>) = get_verification_method_by_id d"
  by (rule ext) (simp add: get_verification_method_by_id_def)

lemma bundle_unsigned_lists:
  "get_verification_method_by_id (bundle_unsigned L now i b) (vm_id (bundle_method L i b)) =
     Inr (bundle_method L i b)"
  "doc_assertion_method (bundle_unsigned L now i b) = [vm_id (bundle_method L i b)]"
  "doc_ma (bundle_unsigned L now i b) = None"
  by (simp_all add: bundle_unsigned_def bundle_method_def unsigned_identity_def identity_method_def
      get_verification_method_by_id_def document_new_def Let_def)

lemma document_sign_encoded:
  assumes "document_encode L (payload_document d) = Inr x"
    and "sk_public_key_multibase k = vm_public_key_multibase vm"
  shows "\<exists>p. document_sign L k vm d = Inr (d\<lparr>doc_proof := p\<rparr>)"
  using assms by (simp add: document_sign_def payload_hash_def payload_bytes_def Let_def) blast

lemma document_sign_succeeds:
  assumes "document_codec_laws L" and "doc_ma d = None"
    and "sk_public_key_multibase k = vm_public_key_multibase vm"
  shows "\<exists>p. document_sign L k vm d = Inr (d\<lparr>doc_proof := p\<rparr>)"
proof -
  have "doc_ma (payload_document d) = None" using assms(2) by (simp add: payload_document_def)
  then obtain x where "document_encode L (payload_document d) = Inr x"
    using document_encode_total [OF assms(1)] by blast
  then show ?thesis by (rule document_sign_encoded [OF _ assms(3)])
qed

lemma document_sign_only_proof: "document_sign L k vm d = Inr d' \<Longrightarrow> \<exists>p. d' = d\<lparr>doc_proof := p\<rparr>"
  by (auto simp: document_sign_def Let_def result_simps split: if_splits)

lemma document_sign_proof [simp]:
  "document_sign L k vm (d\<lparr>doc_proof := p\<rparr>) = document_sign L k vm d"
  by (simp add: document_sign_def)

lemma bundle_identity_runs:
  assumes laws: "crypto_laws L" "document_codec_laws L" "identity_laws L"
    and i: "ipns_from_secret L (sb_ipns_secret_key b) = Inr i"
  shows "\<exists>g. bundle_identity L now b = Inr g \<and> gi_subject_url g = \<lparr>ipns = i, fragment = None\<rparr>
    \<and> document_sign L (bundle_sk L i b) (bundle_method L i b) (bundle_unsigned L now i b) =
        Inr (gi_document g)"
proof -
  note valid = ipns_from_secret_valid [OF laws(3) i]
  define U where "U = unsigned_identity L now \<lparr>ipns = i, fragment = None\<rparr>
    (sk_public_key_multibase (bundle_sk L i b)) (ek_public_key_multibase (bundle_ek L i b))"
  have sk: "signing_from_private_key_bytes L \<lparr>ipns = i, fragment = Some ''sign''\<rparr> (sb_did_signing_key b) =
      Inr (bundle_sk L i b)"
    and ek: "encryption_from_private_key_bytes L \<lparr>ipns = i, fragment = Some ''enc''\<rparr>
      (sb_did_encryption_key b) = Inr (bundle_ek L i b)"
    by (simp_all add: signing_from_private_key_bytes_def encryption_from_private_key_bytes_def
        bundle_sk_def bundle_ek_def)
  have same: "sk_public_key_multibase (bundle_sk L i b) = vm_public_key_multibase (bundle_method L i b)"
    by (simp add: bundle_method_def identity_method_def)
  have "doc_ma U = None" by (simp add: U_def unsigned_identity_def document_new_def Let_def)
  then obtain p where p: "document_sign L (bundle_sk L i b) (bundle_method L i b) U =
      Inr (U\<lparr>doc_proof := p\<rparr>)"
    using document_sign_succeeds [OF laws(2) _ same] by blast
  obtain q where q: "document_sign L (bundle_sk L i b) (bundle_method L i b) (bundle_unsigned L now i b) =
      Inr ((bundle_unsigned L now i b)\<lparr>doc_proof := q\<rparr>)"
    using document_sign_succeeds [OF laws(2) bundle_unsigned_lists(3) same] by blast
  have B: "U\<lparr>doc_proof := p, doc_created_at := sb_created_at b\<rparr> =
      (bundle_unsigned L now i b)\<lparr>doc_proof := p\<rparr>"
    by (simp add: bundle_unsigned_def U_def)
  have build: "build_identity_from_keys L now i (bundle_sk L i b) (bundle_ek L i b) =
      Inr \<lparr>gi_subject_url = \<lparr>ipns = i, fragment = None\<rparr>, gi_document = U\<lparr>doc_proof := p\<rparr>,
        gi_signing_private_key_hex = hex_text L (sb_did_signing_key b),
        gi_encryption_private_key_hex = hex_text L (sb_did_encryption_key b)\<rparr>"
    using build_identity_from_keys_eq [OF laws(1) valid sk ek, of now] p
    by (simp add: U_def bundle_method_def)
  have U: "get_verification_method_by_id U (vm_id (bundle_method L i b)) = Inr (bundle_method L i b)"
    "doc_assertion_method U = [vm_id (bundle_method L i b)]"
    using bundle_unsigned_lists(1,2) [of L now i b] by (simp_all add: bundle_unsigned_def U_def)
  show ?thesis
    using i fixed_urls [OF valid] sk bundle_keys(2) [OF laws(3) i] build q
    by (simp add: bundle_identity_def B U)
qed

section \<open>Properties\<close>

lemma validate_relationships_created [simp]:
  "validate_relationships L (d\<lparr>doc_created_at := t\<rparr>) = validate_relationships L d"
  by (intro ext) (simp add: validate_relationships_def)

lemma validate_created:
  assumes "document_validate L d = Inr ()" and "is_valid_rfc3339_utc L t"
  shows "document_validate L (d\<lparr>doc_created_at := t\<rparr>) = Inr ()"
  using assms unfolding document_validate_def by (simp add: result_simps split: if_splits)

lemma proof_after_created:
  "d\<lparr>doc_created_at := t, doc_proof := p\<rparr> = d\<lparr>doc_proof := p, doc_created_at := t\<rparr>"
  by simp

lemma bundle_unsigned_valid:
  assumes "crypto_laws L" and "time_laws L" and "identity_laws L"
    and "ipns_from_secret L (sb_ipns_secret_key b) = Inr i"
    and "is_valid_rfc3339_utc L (sb_created_at b)"
  shows "document_validate L ((bundle_unsigned L now i b)\<lparr>doc_proof := p\<rparr>) = Inr ()"
proof -
  have "document_validate L ((unsigned_identity L now \<lparr>ipns = i, fragment = None\<rparr>
      (sk_public_key_multibase (bundle_sk L i b)) (ek_public_key_multibase (bundle_ek L i b)))
        \<lparr>doc_proof := p\<rparr>) = Inr ()"
    using ipns_from_secret_valid [OF assms(3,4)]
    by (intro unsigned_identity_validates [OF assms(1,2)]) (simp_all add: bundle_sk_def bundle_ek_def)
  from validate_created [OF this assms(5)] show ?thesis
    by (simp only: bundle_unsigned_def proof_after_created)
qed

lemma field_updates_keys [simp]:
  "verifying_key_for_method L (d\<lparr>doc_created_at := t\<rparr>) = verifying_key_for_method L d"
  "assertion_method_public_key L (d\<lparr>doc_created_at := t\<rparr>) = assertion_method_public_key L d"
  "key_agreement_public_key_bytes L (d\<lparr>doc_created_at := t\<rparr>) = key_agreement_public_key_bytes L d"
proof -
  show v: "verifying_key_for_method L (d\<lparr>doc_created_at := t\<rparr>) = verifying_key_for_method L d" for d
    by (rule ext) (simp add: verifying_key_for_method_def)
  show "assertion_method_public_key L (d\<lparr>doc_created_at := t\<rparr>) = assertion_method_public_key L d"
    by (simp add: assertion_method_public_key_def v)
  show "key_agreement_public_key_bytes L (d\<lparr>doc_created_at := t\<rparr>) = key_agreement_public_key_bytes L d"
    by (simp add: key_agreement_public_key_bytes_def)
qed

lemma bundle_document_facts:
  assumes laws: "crypto_laws L" "time_laws L" "document_codec_laws L" "identity_laws L"
    and i: "ipns_from_secret L (sb_ipns_secret_key b) = Inr i"
    and t: "is_valid_rfc3339_utc L (sb_created_at b)"
    and d: "d = (bundle_unsigned L now i b)\<lparr>doc_proof := p\<rparr>"
  shows "document_validate L d = Inr ()" and "doc_id d = DID_PREFIX @ i"
    and "doc_created_at d = sb_created_at b" and "doc_updated_at d = now_iso_utc L now"
    and "assertion_method_public_key L d = Inr (ed25519_public L (sb_did_signing_key b))"
    and "key_agreement_public_key_bytes L d = Inr (x25519_public L (sb_did_encryption_key b))"
proof -
  show "document_validate L d = Inr ()"
    unfolding d by (rule bundle_unsigned_valid [OF laws(1,2,4) i t])
  show "doc_id d = DID_PREFIX @ i" "doc_created_at d = sb_created_at b"
    "doc_updated_at d = now_iso_utc L now"
    by (simp_all add: d bundle_unsigned_def unsigned_identity_def document_new_def Let_def base_id_def)
  have k: "sk_public_key_multibase (bundle_sk L i b) =
      public_key_multibase_encode L CODEC_ED25519_PUB (ed25519_public L (sb_did_signing_key b))"
    "ek_public_key_multibase (bundle_ek L i b) =
      public_key_multibase_encode L CODEC_X25519_PUB (x25519_public L (sb_did_encryption_key b))"
    by (simp_all add: bundle_sk_def bundle_ek_def)
  show "assertion_method_public_key L d = Inr (ed25519_public L (sb_did_signing_key b))"
    "key_agreement_public_key_bytes L d = Inr (x25519_public L (sb_did_encryption_key b))"
    using unsigned_identity_keys [OF laws(1) k, where now = now and p = p
        and d = "\<lparr>ipns = i, fragment = None\<rparr>"]
    by (simp_all only: d bundle_unsigned_def proof_after_created field_updates_keys)
qed

lemma bundle_sk_text:
  "sk_public_key_multibase (bundle_sk L i b) =
     public_key_multibase_encode L CODEC_ED25519_PUB (ed25519_public L (sk_secret_key (bundle_sk L i b)))"
  by (simp add: bundle_sk_def)

lemma bundle_identity_facts:
  assumes laws: "crypto_laws L" "time_laws L" "document_codec_laws L" "identity_laws L"
    and i: "ipns_from_secret L (sb_ipns_secret_key b) = Inr i"
  shows "\<exists>g p. bundle_identity L now b = Inr g \<and> gi_subject_url g = \<lparr>ipns = i, fragment = None\<rparr>
    \<and> gi_document g = (bundle_unsigned L now i b)\<lparr>doc_proof := p\<rparr>
    \<and> document_verify L (gi_document g) = Inr ()"
proof -
  obtain g where g: "bundle_identity L now b = Inr g" "gi_subject_url g = \<lparr>ipns = i, fragment = None\<rparr>"
    and s: "document_sign L (bundle_sk L i b) (bundle_method L i b) (bundle_unsigned L now i b) =
      Inr (gi_document g)"
    using bundle_identity_runs [OF laws(1,3,4) i] by blast
  have "document_verify L (gi_document g) = Inr ()"
    using sign_then_verify [OF laws(1) bundle_sk_text bundle_unsigned_lists(1) _ s]
    by (simp add: bundle_unsigned_lists(2))
  then show ?thesis using g document_sign_only_proof [OF s] by blast
qed

text \<open>C21: A bundle whose creation time is well-formed has an identity: its document validates,
  verifies under its own proof, and carries the bundle's creation time. The signing key and
  the encryption key that are handed out separately hold the bundle's signing secret and its
  encryption secret, under the DID of the bundle's IPNS secret, and the document resolves to
  exactly the public keys of these two secrets.\<close>

theorem bundle_identity_valid:
  assumes "crypto_laws L" and "time_laws L" and "document_codec_laws L" and "identity_laws L"
    and "ipns_from_secret L (sb_ipns_secret_key b) = Inr i"
    and "is_valid_rfc3339_utc L (sb_created_at b)"
  shows "\<exists>g sk ek. bundle_identity L now b = Inr g \<and> doc_id (gi_document g) = DID_PREFIX @ i
    \<and> document_validate L (gi_document g) = Inr () \<and> document_verify L (gi_document g) = Inr ()
    \<and> doc_created_at (gi_document g) = sb_created_at b
    \<and> bundle_signing_key L b = Inr sk \<and> sk_secret_key sk = sb_did_signing_key b
    \<and> sk_did sk = \<lparr>ipns = i, fragment = Some ''sign''\<rparr>
    \<and> signing_verifying_key L sk = ed25519_public L (sb_did_signing_key b)
    \<and> assertion_method_public_key L (gi_document g) = Inr (ed25519_public L (sb_did_signing_key b))
    \<and> bundle_encryption_key L b = Inr ek \<and> ek_private_key ek = sb_did_encryption_key b
    \<and> ek_did ek = \<lparr>ipns = i, fragment = Some ''enc''\<rparr>
    \<and> ek_public_key ek = x25519_public L (sb_did_encryption_key b)
    \<and> key_agreement_public_key_bytes L (gi_document g) = Inr (x25519_public L (sb_did_encryption_key b))"
proof -
  obtain g p where g: "bundle_identity L now b = Inr g"
    "gi_document g = (bundle_unsigned L now i b)\<lparr>doc_proof := p\<rparr>"
    "document_verify L (gi_document g) = Inr ()"
    using bundle_identity_facts [OF assms(1-5)] by blast
  show ?thesis
    using g(1,3) bundle_document_facts [OF assms g(2)] bundle_keys [OF assms(4,5)]
    by (simp add: signing_verifying_key_def bundle_sk_def bundle_ek_def)
qed

text \<open>The identity of a bundle depends on the clock only in the time of its last update (and
  so in the signature): two documents made at different times agree in everything else, and
  they are the same document exactly when the two clock readings print the same second.\<close>

theorem bundle_identity_clock:
  assumes "crypto_laws L" and "time_laws L" and "document_codec_laws L" and "identity_laws L"
    and "ipns_from_secret L (sb_ipns_secret_key b) = Inr i"
  shows "\<exists>g h. bundle_identity L now b = Inr g \<and> bundle_identity L later b = Inr h
    \<and> (\<forall>u p. (gi_document g)\<lparr>doc_updated_at := u, doc_proof := p\<rparr> =
          (gi_document h)\<lparr>doc_updated_at := u, doc_proof := p\<rparr>)
    \<and> (gi_document g = gi_document h \<longleftrightarrow> now_iso_utc L now = now_iso_utc L later)"
proof -
  obtain g where g: "bundle_identity L now b = Inr g"
      "document_sign L (bundle_sk L i b) (bundle_method L i b) (bundle_unsigned L now i b) = Inr (gi_document g)"
    using bundle_identity_runs [OF assms(1,3-5)] by blast
  obtain h where h: "bundle_identity L later b = Inr h"
      "document_sign L (bundle_sk L i b) (bundle_method L i b) (bundle_unsigned L later i b) = Inr (gi_document h)"
    using bundle_identity_runs [OF assms(1,3-5)] by blast
  obtain p where p: "gi_document g = (bundle_unsigned L now i b)\<lparr>doc_proof := p\<rparr>"
    using document_sign_only_proof [OF g(2)] by blast
  obtain q where q: "gi_document h = (bundle_unsigned L later i b)\<lparr>doc_proof := q\<rparr>"
    using document_sign_only_proof [OF h(2)] by blast
  have u: "doc_updated_at (bundle_unsigned L c i b) = now_iso_utc L c" for c
    by (simp add: bundle_unsigned_def unsigned_identity_def document_new_def Let_def)
  have c: "bundle_unsigned L c i b = (bundle_unsigned L later i b)\<lparr>doc_updated_at := now_iso_utc L c\<rparr>" for c
    by (simp add: bundle_unsigned_def unsigned_identity_def document_new_def Let_def)
  have "now_iso_utc L now = now_iso_utc L later" if "gi_document g = gi_document h"
    using arg_cong [OF that, of doc_updated_at] by (simp add: p q u)
  moreover have "gi_document g = gi_document h" if "now_iso_utc L now = now_iso_utc L later"
  proof -
    have "bundle_unsigned L now i b = bundle_unsigned L later i b"
      by (simp add: bundle_unsigned_def unsigned_identity_def document_new_def Let_def that)
    then show ?thesis using g(2) h(2) by simp
  qed
  moreover have "(gi_document g)\<lparr>doc_updated_at := x, doc_proof := y\<rparr> =
      (gi_document h)\<lparr>doc_updated_at := x, doc_proof := y\<rparr>" for x y
    unfolding p q by (subst c) simp
  ultimately show ?thesis using g(1) h(1) by blast
qed

lemma field_updates_ma [simp]:
  "verifying_key_for_method L (d\<lparr>doc_ma := x\<rparr>) = verifying_key_for_method L d"
  "verifying_key_for_method L (d\<lparr>doc_updated_at := t\<rparr>) = verifying_key_for_method L d"
  "get_verification_method_by_id (d\<lparr>doc_ma := x\<rparr>) = get_verification_method_by_id d"
  "get_verification_method_by_id (d\<lparr>doc_updated_at := t\<rparr>) = get_verification_method_by_id d"
  by (rule ext, simp add: verifying_key_for_method_def get_verification_method_by_id_def)+

lemma validate_republished:
  assumes "document_validate L d = Inr ()" and "is_valid_rfc3339_utc L t"
  shows "document_validate L (d\<lparr>doc_ma := x, doc_updated_at := t, doc_proof := p\<rparr>) = Inr ()"
  using assms unfolding document_validate_def validate_relationships_def
  by (simp add: result_simps split: if_splits)

lemma set_ma_extension_only_ma:
  "set_ma_extension e d = d\<lparr>doc_ma := (if ext_map e = [] then None else Some (IMap (ext_map e)))\<rparr>"
  by (simp add: set_ma_extension_def ext_build_def set_ma_def)

lemma built_document_facts:
  assumes "crypto_laws L" and "time_laws L" and "document_codec_laws L" and "identity_laws L"
    and "ipns_from_secret L (sb_ipns_secret_key b) = Inr i"
    and "is_valid_rfc3339_utc L (sb_created_at b)"
    and "build_document L now later ext b = Inr d"
  shows "document_validate L d = Inr () \<and> document_verify L d = Inr () \<and> doc_id d = DID_PREFIX @ i
    \<and> doc_created_at d = sb_created_at b \<and> doc_updated_at d = now_iso_utc L later
    \<and> doc_ma d = (if ext_map ext = [] then None else Some (IMap (ext_map ext)))
    \<and> (\<exists>k vm. bundle_signing_key L b = Inr k \<and> vm \<in> set (doc_verification_method d)
        \<and> vm_id vm \<in> set (doc_assertion_method d)
        \<and> vm_public_key_multibase vm = sk_public_key_multibase k)"
proof -
  note valid = ipns_from_secret_valid [OF assms(4,5)]
  obtain g p where g: "bundle_identity L now b = Inr g"
    and G: "gi_document g = (bundle_unsigned L now i b)\<lparr>doc_proof := p\<rparr>"
    using bundle_identity_facts [OF assms(1-5)] by blast
  note base = bundle_document_facts [OF assms(1-6) G]
  define U where "U = (gi_document g)\<lparr>doc_ma := (if ext_map ext = [] then None else Some (IMap (ext_map ext))),
    doc_updated_at := now_iso_utc L later\<rparr>"
  have vm: "get_verification_method_by_id (gi_document g) (vm_id (bundle_method L i b)) =
      Inr (bundle_method L i b)" "doc_assertion_method (gi_document g) = [vm_id (bundle_method L i b)]"
    by (simp_all add: G bundle_unsigned_lists)
  have s: "document_sign L (bundle_sk L i b) (bundle_method L i b) U = Inr d"
    using assms(7) g bundle_keys(1) [OF assms(4,5)] assms(5) fixed_urls [OF valid] vm
    by (simp add: build_document_def Let_def touch_def set_ma_extension_only_ma U_def result_simps
        bundle_sk_def signing_from_private_key_bytes_def)
  obtain q where d: "d = U\<lparr>doc_proof := q\<rparr>" using document_sign_only_proof [OF s] by blast
  have listed: "get_verification_method_by_id U (vm_id (bundle_method L i b)) = Inr (bundle_method L i b)"
      "vm_id (bundle_method L i b) \<in> set (doc_assertion_method U)"
    using vm by (simp_all add: U_def)
  have "document_verify L d = Inr ()"
    using sign_then_verify [OF assms(1) bundle_sk_text listed s] by simp
  moreover have "document_validate L d = Inr ()"
    unfolding d U_def by (rule validate_republished [OF base(1) now_iso_utc_valid [OF assms(2)]])
  moreover have "bundle_method L i b \<in> set (doc_verification_method d)"
    using get_verification_method_Inr [OF listed(1)] by (simp add: d)
  ultimately show ?thesis
    using base(2,3) bundle_keys(1) [OF assms(4,5)] listed(2)
    by (auto simp: d U_def bundle_method_def identity_method_def)
qed

text \<open>A document built for publication validates and verifies, keeps the bundle's identifier
  and creation time, is dated by the clock of the publication, carries exactly the extension
  the caller supplied, and lists the verification method whose key signs for the bundle.\<close>

theorem build_document_valid:
  assumes "crypto_laws L" and "time_laws L" and "document_codec_laws L" and "identity_laws L"
    and "ipns_from_secret L (sb_ipns_secret_key b) = Inr i"
    and "is_valid_rfc3339_utc L (sb_created_at b)"
    and "build_document L now later ext b = Inr d"
  shows "document_validate L d = Inr () \<and> document_verify L d = Inr () \<and> doc_id d = DID_PREFIX @ i
    \<and> doc_created_at d = sb_created_at b \<and> doc_updated_at d = now_iso_utc L later
    \<and> doc_ma d = (if ext_map ext = [] then None else Some (IMap (ext_map ext)))
    \<and> (\<exists>k vm. bundle_signing_key L b = Inr k \<and> vm \<in> set (doc_verification_method d)
        \<and> vm_id vm \<in> set (doc_assertion_method d)
        \<and> vm_public_key_multibase vm = sk_public_key_multibase k)"
  by (rule built_document_facts [OF assms])

lemma ext_map_new: "ext_map ma_extension_new = []"
  by (simp add: ma_extension_new_def)

lemma build_document_succeeds:
  assumes laws: "crypto_laws L" "document_codec_laws L" "identity_laws L"
    and i: "ipns_from_secret L (sb_ipns_secret_key b) = Inr i"
    and e: "ext_map e = []
      \<or> (\<forall>d. doc_ma d = Some (IMap (ext_map e)) \<longrightarrow> is_ok (document_encode L d))"
  shows "\<exists>d. build_document L now later e b = Inr d"
proof -
  obtain g p where g: "bundle_identity L now b = Inr g"
    and G: "gi_document g = (bundle_unsigned L now i b)\<lparr>doc_proof := p\<rparr>"
    using bundle_identity_runs [OF laws i] document_sign_only_proof by blast
  let ?d = "touch L later (set_ma_extension e (gi_document g))"
  have same: "sk_public_key_multibase (bundle_sk L i b) =
      vm_public_key_multibase (bundle_method L i b)"
    by (simp add: bundle_method_def identity_method_def)
  have "\<exists>q. document_sign L (bundle_sk L i b) (bundle_method L i b) ?d = Inr (?d\<lparr>doc_proof := q\<rparr>)"
  proof (cases "ext_map e = []")
    case True
    then have "doc_ma ?d = None" by (simp add: touch_def set_ma_extension_only_ma)
    then show ?thesis using document_sign_succeeds [OF laws(2) _ same] by blast
  next
    case False
    then have "doc_ma (payload_document ?d) = Some (IMap (ext_map e))"
      by (simp add: payload_document_def touch_def set_ma_extension_only_ma)
    then have "is_ok (document_encode L (payload_document ?d))" using e False by blast
    then obtain x where "document_encode L (payload_document ?d) = Inr x"
      by (cases "document_encode L (payload_document ?d)") (simp_all add: is_ok_def)
    then show ?thesis by (rule document_sign_encoded [OF _ same])
  qed
  then obtain q where q: "document_sign L (bundle_sk L i b) (bundle_method L i b) ?d =
      Inr (?d\<lparr>doc_proof := q\<rparr>)" by blast
  have "get_verification_method_by_id (gi_document g) (doc_assertion_method (gi_document g) ! 0) =
      Inr (bundle_method L i b)"
    by (simp add: G bundle_unsigned_lists)
  moreover have "signing_from_private_key_bytes L \<lparr>ipns = i, fragment = Some ''sign''\<rparr>
      (sb_did_signing_key b) = Inr (bundle_sk L i b)"
    by (simp add: signing_from_private_key_bytes_def bundle_sk_def)
  ultimately have "build_document L now later e b = Inr (?d\<lparr>doc_proof := q\<rparr>)"
    using g i q fixed_urls(1) [OF ipns_from_secret_valid [OF laws(3) i]]
    by (simp add: build_document_def Let_def)
  then show ?thesis by blast
qed

section \<open>Witnesses\<close>

definition demo_identity_lib :: identity_lib where
  "demo_identity_lib = doc_lib.extend demo_doc_lib
     (identity_lib.fields (\<lambda>s. Some (fit 32 s)) (\<lambda>k. k) (\<lambda>p. p)
        (\<lambda>codec h. \<lparr>cid_version = V1, cid_codec = codec, cid_hash = h, cid_bytes = h\<rparr>))"

lemma demo_identity_crypto: "crypto_laws demo_identity_lib"
  using demo_doc_crypto
  by (simp add: crypto_laws_def multiformat_laws_def demo_identity_lib_def doc_lib.defs identity_lib.defs)

lemma demo_identity_time: "time_laws demo_identity_lib"
  using demo_time_laws
  by (simp add: time_laws_def demo_identity_lib_def doc_lib.defs identity_lib.defs is_valid_rfc3339_utc_def)

lemma demo_identity_codec: "document_codec_laws demo_identity_lib"
  using demo_document_codec
  by (simp add: document_codec_laws_def demo_identity_lib_def doc_lib.defs identity_lib.defs)

lemma hex_encode_nonempty: "b \<noteq> [] \<Longrightarrow> hex_encode b \<noteq> []"
  by (cases b) simp_all

lemma demo_identity_laws: "identity_laws demo_identity_lib"
proof -
  have "fit 32 s \<noteq> []" for s by (metis length_fit list.size(3) zero_neq_numeral)
  then show ?thesis
    by (simp add: identity_laws_def Let_def demo_identity_lib_def demo_doc_lib_def demo_crypto_lib_def
        demo_did_lib_def doc_lib.defs identity_lib.defs crypto_lib.defs did_lib.defs
        hex_roundtrip hex_encode_nonempty LIBP2P_KEY_CODEC_def)
qed

definition demo_bundle :: secret_bundle where
  "demo_bundle = \<lparr>sb_iroh_secret_key = replicate 32 1, sb_ipns_secret_key = replicate 32 2,
     sb_did_signing_key = replicate 32 3, sb_did_encryption_key = replicate 32 4,
     sb_created_at = ''1970-01-01T00:00:00Z'', sb_extra_keys = [(''db'', replicate 32 5)]\<rparr>"

lemma demo_bundle_ipns: "\<exists>i. ipns_from_secret demo_identity_lib (sb_ipns_secret_key demo_bundle) = Inr i"
  by (simp add: ipns_from_secret_def Let_def demo_identity_lib_def doc_lib.defs identity_lib.defs)

lemma demo_bundle_created: "is_valid_rfc3339_utc demo_identity_lib (sb_created_at demo_bundle)"
proof -
  have "is_valid_rfc3339_utc demo_identity_lib ''1970-01-01T00:00:00Z''"
    by (simp add: is_valid_rfc3339_utc_def ends_with_def suffix_def demo_identity_lib_def demo_doc_lib_def
        doc_lib.defs identity_lib.defs crypto_lib.defs)
  then show ?thesis by (simp add: demo_bundle_def)
qed

lemmas demo_identity_all = demo_identity_crypto demo_identity_time demo_identity_codec demo_identity_laws

theorem bundle_identity_valid_witness:
  "\<exists>g. bundle_identity demo_identity_lib (Some 0) demo_bundle = Inr g
    \<and> document_verify demo_identity_lib (gi_document g) = Inr ()
    \<and> doc_created_at (gi_document g) = ''1970-01-01T00:00:00Z''"
proof -
  obtain i where i: "ipns_from_secret demo_identity_lib (sb_ipns_secret_key demo_bundle) = Inr i"
    using demo_bundle_ipns by blast
  have "sb_created_at demo_bundle = ''1970-01-01T00:00:00Z''" by (simp add: demo_bundle_def)
  then show ?thesis
    using bundle_identity_valid [OF demo_identity_all i demo_bundle_created, of "Some 0"] by auto
qed

theorem bundle_identity_clock_witness:
  "\<exists>g h. bundle_identity demo_identity_lib (Some 0) demo_bundle = Inr g
    \<and> bundle_identity demo_identity_lib (Some 5) demo_bundle = Inr h
    \<and> (gi_document g)\<lparr>doc_updated_at := [], doc_proof := proof_default\<rparr> =
        (gi_document h)\<lparr>doc_updated_at := [], doc_proof := proof_default\<rparr>"
proof -
  obtain i where i: "ipns_from_secret demo_identity_lib (sb_ipns_secret_key demo_bundle) = Inr i"
    using demo_bundle_ipns by blast
  show ?thesis
    using bundle_identity_clock [OF demo_identity_all i, of "Some 0" "Some 5"] by blast
qed

theorem build_document_valid_witness:
  "\<exists>d. build_document demo_identity_lib (Some 0) (Some 5) ma_extension_new demo_bundle = Inr d
    \<and> document_validate demo_identity_lib d = Inr () \<and> document_verify demo_identity_lib d = Inr ()"
proof -
  obtain i where i: "ipns_from_secret demo_identity_lib (sb_ipns_secret_key demo_bundle) = Inr i"
    using demo_bundle_ipns by blast
  obtain d where "build_document demo_identity_lib (Some 0) (Some 5) ma_extension_new demo_bundle = Inr d"
    using build_document_succeeds [OF demo_identity_all(1,3,4) i disjI1 [OF ext_map_new]] by blast
  then show ?thesis
    using build_document_valid [OF demo_identity_all i demo_bundle_created] by blast
qed

end
