(* ===== verification/Conversation.thy ===== *)
theory Conversation
  imports Outbox BundleIdentity
begin

text \<open>
  Two parties talk: the identities of two secret bundles (\<^verbatim>\<open>config/secrets.rs\<close>), a message
  (\<^verbatim>\<open>msg.rs\<close>), the outbox that seals it (\<^verbatim>\<open>outbox.rs\<close>) and the endpoint that opens, verifies
  and queues it (\<^verbatim>\<open>iroh/endpoint.rs\<close>). Nothing is modelled here that is not modelled in the
  theories of these parts; what they promise each other is put together.
\<close>

section \<open>Published documents list the keys of the bundle\<close>

lemma field_updates_published [simp]:
  "assertion_method_public_key L (d\<lparr>doc_ma := x\<rparr>) = assertion_method_public_key L d"
  "assertion_method_public_key L (d\<lparr>doc_updated_at := t\<rparr>) = assertion_method_public_key L d"
  "assertion_method_public_key L (d\<lparr>doc_proof := p\<rparr>) = assertion_method_public_key L d"
  "key_agreement_public_key_bytes L (d\<lparr>doc_ma := x\<rparr>) = key_agreement_public_key_bytes L d"
  "key_agreement_public_key_bytes L (d\<lparr>doc_updated_at := t\<rparr>) = key_agreement_public_key_bytes L d"
  "key_agreement_public_key_bytes L (d\<lparr>doc_proof := p\<rparr>) = key_agreement_public_key_bytes L d"
  by (simp_all add: assertion_method_public_key_def key_agreement_public_key_bytes_def
      verifying_key_for_method_def get_verification_method_by_id_def)

lemma build_document_Inr:
  assumes "build_document L now later ext b = Inr d"
  shows "\<exists>g p. bundle_identity L now b = Inr g \<and> d = (touch L later
    (set_ma_extension ext (gi_document g)))\<lparr>doc_proof := p\<rparr>"
  using assms by (auto simp: build_document_def Let_def result_simps dest!: document_sign_only_proof)

lemma published_keys:
  assumes laws: "crypto_laws L" "document_codec_laws L" "identity_laws L" "time_laws L"
    and i: "ipns_from_secret L (sb_ipns_secret_key b) = Inr i"
    and t: "is_valid_rfc3339_utc L (sb_created_at b)"
    and d: "build_document L now later ext b = Inr d"
  shows "doc_id d = DID_PREFIX @ i"
    and "assertion_method_public_key L d = Inr (ed25519_public L (sb_did_signing_key b))"
    and "key_agreement_public_key_bytes L d = Inr (x25519_public L (sb_did_encryption_key b))"
proof -
  obtain g p where g: "bundle_identity L now b = Inr g"
    and dg: "d = (touch L later (set_ma_extension ext (gi_document g)))\<lparr>doc_proof := p\<rparr>"
    using build_document_Inr [OF d] by blast
  obtain q where q: "gi_document g = (bundle_unsigned L now i b)\<lparr>doc_proof := q\<rparr>"
    using bundle_identity_facts [OF laws(1,4,2,3) i, of now] g by auto
  note f = bundle_document_facts [OF laws(1,4,2,3) i t q]
  show "doc_id d = DID_PREFIX @ i"
    "assertion_method_public_key L d = Inr (ed25519_public L (sb_did_signing_key b))"
    "key_agreement_public_key_bytes L d = Inr (x25519_public L (sb_did_encryption_key b))"
    using f(2,5,6) by (simp_all add: dg touch_def set_ma_extension_only_ma)
qed

section \<open>The guard lets a new message in\<close>

lemma check_and_insert_new:
  assumes "headers_validate L (c_validate c) h = Inr ()" and "c_prune c = Some p" "c_insert c = Some n"
    and "seen g (hd_id h) = None"
  shows "check_and_insert L c h g =
    (Inr (), g\<lparr>seen := (retain_recent p (window_secs g) (seen g))(hd_id h \<mapsto> n)\<rparr>)"
  using assms by (simp add: check_and_insert_def prune_old_def now_unix_secs_def retain_recent_def)

lemma same_base_did_urls:
  assumes "did_try_from L s = Inr d" and "multiformat_laws L" and "did_ok L e" and "ipns d = ipns e"
  shows "same_base_did L s (did_id e) = Inr True"
  using assms parse_complete [OF assms(2,3)]
  by (auto simp: same_base_did_def did_try_from_def result_simps)

section \<open>From one bundle to the other\<close>

text \<open>
  A conversation fixes the two bundles and their published documents, the message and the
  clocks under which it is sent and received: all readings of the receiver find it fresh.
\<close>

definition all_fresh :: "decode_clocks \<Rightarrow> message \<Rightarrow> bool" where
  "all_fresh c m \<longleftrightarrow> list_all (\<lambda>t. validate_message_freshness t (msg_created_at m) (msg_exp m) = Inr ())
     [dc_decrypt1 c, dc_decrypt2 c, dc_verify c, c_validate (dc_guard c)]"

lemma bundle_message_verifies:
  assumes "msg_laws L" "time_laws L" "document_codec_laws L" "identity_laws L"
    and "ipns_from_secret L (sb_ipns_secret_key a) = Inr i"
    and "is_valid_rfc3339_utc L (sb_created_at a)"
    and "build_document L now later ext a = Inr da"
    and "bundle_signing_key L a = Inr k"
    and "new_with_options L c1 c2 n d e r k = Inr m"
    and "did_try_from L (dr_from d) = Inr sender" and "ipns sender = i"
    and "validate_message_freshness c3 (msg_created_at m) (msg_exp m) = Inr ()"
  shows "verify_with_document L c3 m da = Inr ()"
proof -
  note cl = msg_lawsD(1) [OF assms(1)]
  note da = published_keys [OF cl assms(3,4,2,5-7)]
  have "k = bundle_sk L i a" using bundle_keys(1) [OF assms(4,5)] assms(8) by simp
  then have "sk_secret_key k = sb_did_signing_key a" by (simp add: bundle_sk_def)
  then show ?thesis
    by (intro verify_created_message [OF assms(1,9,10) _ _ assms(12)])
      (simp_all add: da base_id_def assms(11))
qed

lemma bundle_delivery:
  assumes laws: "msg_laws L" "time_laws L" "document_codec_laws L" "identity_laws L"
    and alice: "ipns_from_secret L (sb_ipns_secret_key a) = Inr i"
      "is_valid_rfc3339_utc L (sb_created_at a)" "build_document L now later ext a = Inr da"
      "bundle_signing_key L a = Inr k"
    and bob: "ipns_from_secret L (sb_ipns_secret_key b) = Inr j"
      "is_valid_rfc3339_utc L (sb_created_at b)" "build_document L now' later' ext' b = Inr db"
      "bundle_encryption_key L b = Inr (is_recipient_key s)"
    and made: "new_with_options L c1 c2 n d e r k = Inr m" "dr_type d \<noteq> MESSAGE_TYPE_BROADCAST"
      "did_try_from L (dr_from d) = Inr sender" "ipns sender = i"
      "did_try_from L (dr_to d) = Inr recipient" "ipns recipient = j"
    and sent: "outbox_send L wire o1 o2 q m (outbox_from_transport x db False u protocol) w = (Inr (), w')"
      "length (sd_nonce1 q) = 24" "length (sd_nonce2 q) = 24"
    and fresh: "all_fresh c m" "c_prune (dc_guard c) = Some t1" "c_insert (dc_guard c) = Some t2"
    and unseen: "seen (is_replay_guard s) n = None"
    and resolves: "resolve (dr_from d) = Inr da"
  shows "\<exists>payload s'. wire x payload w = (Inr (), w')
    \<and> inbound_decode L resolve c payload protocol s = (Inr m, s')
    \<and> seen (is_replay_guard s') n = Some t2
    \<and> handle_stream L resolve c (Some t) protocol inbox (ReadOk payload) (s, st) =
        (s', inbox_push inbox t e m st)
    \<and> (dr_content d \<noteq> [] \<longrightarrow> message_payload L m = dr_content d)"
proof -
  note cl = msg_lawsD(1,2) [OF laws(1)] and mi = new_with_options_Inr [OF made(1)]
  have rk: "is_recipient_key s = bundle_ek L j b"
    using bundle_keys(2) [OF laws(4) bob(1)] bob(4) by simp
  obtain payload where p: "wire x payload w = (Inr (), w')"
    and op: "outbox_payload L o1 o2 q m (outbox_from_transport x db False u protocol) = Inr payload"
    using outbox_send_Inr [OF sent(1)] by (auto simp: outbox_from_transport_def)
  have f: "validate_message_freshness (dc_decrypt1 c) (msg_created_at m) (msg_exp m) = Inr ()"
    "validate_message_freshness (dc_decrypt2 c) (msg_created_at m) (msg_exp m) = Inr ()"
    "validate_message_freshness (dc_verify c) (msg_created_at m) (msg_exp m) = Inr ()"
    "validate_message_freshness (c_validate (dc_guard c)) (msg_created_at m) (msg_exp m) = Inr ()"
    using fresh(1) by (simp_all add: all_fresh_def)
  have ty: "msg_type m \<noteq> MESSAGE_TYPE_BROADCAST" using mi made(2) by auto
  have un: "unwrap_payload L c (is_recipient_key s) payload = Inr (m, True)"
    by (rule remote_payload_opened [OF laws(1) op _ ty sent(2,3) _ f(1,2)])
      (simp_all add: outbox_from_transport_def rk bundle_ek_def
        published_keys(3) [OF cl(1) laws(3,4,2) bob(1-3)])
  have ok: "did_ok L (ek_did (bundle_ek L j b))" "ipns recipient = ipns (ek_did (bundle_ek L j b))"
    using ipns_from_secret_valid [OF laws(4) bob(1)] made(6) by (simp_all add: did_ok_def bundle_ek_def)
  have to: "same_base_did L (msg_to m) (did_id (ek_did (is_recipient_key s))) = Inr True"
    using same_base_did_urls [OF made(5) cl(2) ok] mi by (auto simp: rk)
  have ver: "verify_with_document L (dc_verify c) m da = Inr ()"
    by (rule bundle_message_verifies [OF laws alice made(1,3,4) f(3)])
  have adm: "admit_message L resolve c (is_recipient_key s) payload protocol = Inr m"
    using un ty to ver resolves mi by (auto simp: admit_message_def)
  have hv: "headers_validate L (c_validate (dc_guard c)) (message_headers L m) = Inr ()"
    using mi f(4) by (auto simp: unsigned_headers_def intro: headers_validate_later)
  define g where "g = (is_replay_guard s)\<lparr>seen := (retain_recent t1 (window_secs (is_replay_guard s))
    (seen (is_replay_guard s)))(n \<mapsto> t2)\<rparr>"
  have ci: "check_and_insert L (dc_guard c) (message_headers L m) (is_replay_guard s) = (Inr (), g)"
    using check_and_insert_new [OF hv fresh(2,3), of "is_replay_guard s"] unseen mi
    by (auto simp: g_def)
  have dec: "inbound_decode L resolve c payload protocol s = (Inr m, s\<lparr>is_replay_guard := g\<rparr>)"
    using adm ci by (simp add: inbound_decode_def)
  have "message_payload L m = dr_content d" if "dr_content d \<noteq> []"
    using payload_created [OF cl(2) made(1)] that by simp
  moreover have "msg_exp m = e" using mi by auto
  ultimately show ?thesis using p dec by (auto simp: handle_stream_def g_def)
qed

text \<open>C39: Two bundles can talk. A message made with the signing key of one bundle, from its
  identity to an identity URL of the other, and sent through a remote outbox that holds the
  other's published document, is accepted by an endpoint with the other bundle's encryption
  key that resolves the sender to the first bundle's published document, as long as it is
  fresh and its id is new: the message that reaches the inbox is the message that was made,
  the guard then holds its id, and its payload is the content it was made with if that is
  not empty.\<close>

theorem bundles_converse:
  assumes laws: "msg_laws L" "time_laws L" "document_codec_laws L" "identity_laws L"
    and alice: "ipns_from_secret L (sb_ipns_secret_key a) = Inr i"
      "is_valid_rfc3339_utc L (sb_created_at a)" "build_document L now later ext a = Inr da"
      "bundle_signing_key L a = Inr k"
    and bob: "ipns_from_secret L (sb_ipns_secret_key b) = Inr j"
      "is_valid_rfc3339_utc L (sb_created_at b)" "build_document L now' later' ext' b = Inr db"
      "bundle_encryption_key L b = Inr (is_recipient_key s)"
    and made: "new_with_options L c1 c2 n d e r k = Inr m" "dr_type d \<noteq> MESSAGE_TYPE_BROADCAST"
      "did_try_from L (dr_from d) = Inr sender" "ipns sender = i"
      "did_try_from L (dr_to d) = Inr recipient" "ipns recipient = j"
    and sent: "outbox_send L wire o1 o2 q m (outbox_from_transport x db False u protocol) w = (Inr (), w')"
      "length (sd_nonce1 q) = 24" "length (sd_nonce2 q) = 24"
    and fresh: "all_fresh c m" "c_prune (dc_guard c) = Some t1" "c_insert (dc_guard c) = Some t2"
    and unseen: "seen (is_replay_guard s) n = None"
    and resolves: "resolve (dr_from d) = Inr da"
  shows "\<exists>payload s'. wire x payload w = (Inr (), w')
    \<and> inbound_decode L resolve c payload protocol s = (Inr m, s')
    \<and> seen (is_replay_guard s') n = Some t2
    \<and> handle_stream L resolve c (Some t) protocol inbox (ReadOk payload) (s, st) =
        (s', inbox_push inbox t e m st)
    \<and> (dr_content d \<noteq> [] \<longrightarrow> message_payload L m = dr_content d)"
  by (rule bundle_delivery) (fact assms)+

text \<open>An endpoint that runs on a bundle's encryption key accepts no message but broadcasts and
  those addressed to the bundle's own identity, whoever sealed them.\<close>

lemma bundle_endpoint_exclusive:
  assumes "identity_laws L" and "multiformat_laws L"
    and "ipns_from_secret L (sb_ipns_secret_key b) = Inr j"
    and "bundle_encryption_key L b = Inr (is_recipient_key s)"
    and "inbound_decode L resolve c payload protocol s = (Inr m, s')"
    and "msg_type m \<noteq> MESSAGE_TYPE_BROADCAST"
  shows "\<exists>f. parse L (msg_to m) = Inr (j, f)"
proof -
  have rk: "is_recipient_key s = bundle_ek L j b"
    using bundle_keys(2) [OF assms(1,3)] assms(4) by simp
  have ok: "did_ok L (ek_did (bundle_ek L j b))"
    using ipns_from_secret_valid [OF assms(1,3)] by (simp add: did_ok_def bundle_ek_def)
  have "same_base_did L (msg_to m) (did_id (ek_did (is_recipient_key s))) = Inr True"
    using inbound_decode_Inr [OF assms(5)] admit_message_Inr assms(6) by blast
  then show ?thesis
    using parse_complete [OF assms(2) ok]
    by (auto simp: same_base_did_def result_simps rk bundle_ek_def)
qed

section \<open>Witnesses\<close>

text \<open>What the examples ask of the packages beside their laws; both sets of example packages have it.\<close>

definition talking_lib :: "'x msg_lib_scheme \<Rightarrow> bool" where
  "talking_lib L \<longleftrightarrow> msg_laws L \<and> time_laws L \<and> document_codec_laws L \<and> identity_laws L
     \<and> (\<forall>c. varint_encode_u64 L c \<noteq> []) \<and> (\<forall>k n p. xchacha20_encrypt L k n p \<noteq> None)
     \<and> (\<forall>s. length s = 32 \<longrightarrow> ipns_from_secret L s = Inr (hex_encode s))
     \<and> is_valid_rfc3339_utc L ''1970-01-01T00:00:00Z''"

lemma talking_libD:
  assumes "talking_lib L"
  shows "msg_laws L" "time_laws L" "document_codec_laws L" "identity_laws L" "crypto_laws L"
    and "varint_encode_u64 L c \<noteq> []" "\<exists>e. xchacha20_encrypt L k n p = Some e"
    and "length s = 32 \<Longrightarrow> ipns_from_secret L s = Inr (hex_encode s)"
    and "is_valid_rfc3339_utc L ''1970-01-01T00:00:00Z''"
  using assms msg_lawsD(1) by (auto simp: talking_lib_def)

lemma demo_msg_identity: "identity_laws demo_msg_lib"
proof -
  have "s \<noteq> []" if "length s = 32" for s :: bytes using that by auto
  then show ?thesis
    by (auto simp: identity_laws_def Let_def demo_lib_defs demo_doc_lib_def demo_crypto_lib_def
        demo_did_lib_def hex_roundtrip hex_encode_nonempty LIBP2P_KEY_CODEC_def)
qed

lemma demo_msg_talks: "talking_lib demo_msg_lib"
  unfolding talking_lib_def
proof (intro conjI allI impI)
  show "is_valid_rfc3339_utc demo_msg_lib ''1970-01-01T00:00:00Z''"
    by (simp add: is_valid_rfc3339_utc_def ends_with_def suffix_def demo_lib_defs demo_doc_lib_def)
  show "length s = 32 \<Longrightarrow> ipns_from_secret demo_msg_lib s = Inr (hex_encode s)" for s
    by (simp add: ipns_from_secret_def Let_def demo_lib_defs demo_doc_lib_def demo_crypto_lib_def
        demo_did_lib_def)
  show "varint_encode_u64 demo_msg_lib c \<noteq> []" for c
    by (simp add: demo_lib_defs demo_doc_lib_def demo_crypto_lib_def demo_did_lib_def demo_varint_encode_def)
  show "xchacha20_encrypt demo_msg_lib k n p \<noteq> None" for k n p
    by (simp add: demo_lib_defs)
qed (rule demo_msg_laws demo_msg_time demo_msg_documents demo_msg_identity)+

definition demo_other_bundle :: secret_bundle where
  "demo_other_bundle = demo_bundle\<lparr>sb_ipns_secret_key := replicate 32 7,
     sb_did_signing_key := replicate 32 8, sb_did_encryption_key := replicate 32 9\<rparr>"

definition demo_did :: did where
  "demo_did = \<lparr>ipns = hex_encode (replicate 32 2), fragment = None\<rparr>"

definition demo_inbox_url :: did where
  "demo_inbox_url = \<lparr>ipns = hex_encode (replicate 32 7), fragment = Some ''inbox''\<rparr>"

definition demo_letter :: message_draft where
  "demo_letter = \<lparr>dr_from = did_id demo_did, dr_to = did_id demo_inbox_url,
     dr_type = MESSAGE_TYPE_MESSAGE, dr_content_type = ''text/plain'', dr_content = [104, 105]\<rparr>"

lemma demo_bundle_facts:
  assumes "talking_lib L"
  shows "ipns_from_secret L (sb_ipns_secret_key demo_bundle) = Inr (hex_encode (replicate 32 2))"
    and "ipns_from_secret L (sb_ipns_secret_key demo_other_bundle) = Inr (hex_encode (replicate 32 7))"
    and "is_valid_rfc3339_utc L (sb_created_at demo_bundle)"
    and "is_valid_rfc3339_utc L (sb_created_at demo_other_bundle)"
  using talking_libD(8,9) [OF assms] by (simp_all add: demo_bundle_def demo_other_bundle_def)

lemma demo_urls_parse:
  assumes "talking_lib L"
  shows "parse L (did_id demo_did) = Inr (ipns demo_did, fragment demo_did)"
    and "parse L (did_id demo_inbox_url) = Inr (ipns demo_inbox_url, fragment demo_inbox_url)"
proof -
  have "did_ok L demo_did" "did_ok L demo_inbox_url"
    using ipns_from_secret_valid [OF talking_libD(4) [OF assms] demo_bundle_facts(1) [OF assms]]
      ipns_from_secret_valid [OF talking_libD(4) [OF assms] demo_bundle_facts(2) [OF assms]]
    by (simp_all add: did_ok_def demo_did_def demo_inbox_url_def validate_fragment_ok fragment_char_def
        ascii_defs)
  then show "parse L (did_id demo_did) = Inr (ipns demo_did, fragment demo_did)"
    and "parse L (did_id demo_inbox_url) = Inr (ipns demo_inbox_url, fragment demo_inbox_url)"
    using parse_complete [OF msg_lawsD(2) [OF talking_libD(1) [OF assms]]] by simp_all
qed

lemma demo_letter_dids:
  assumes "talking_lib L"
  shows "did_try_from L (dr_from demo_letter) = Inr demo_did"
    and "did_try_from L (dr_to demo_letter) = Inr demo_inbox_url"
  by (simp_all add: did_try_from_def demo_letter_def demo_urls_parse [OF assms])

lemma demo_inbox_url_visible: "trim (did_id demo_inbox_url) \<noteq> []"
  by (subst trim_solid)
    (simp_all add: did_id_def demo_inbox_url_def base_id_def DID_PREFIX_def solid_def code_def)

lemma demo_letter_created:
  assumes "talking_lib L"
  shows "\<exists>m. new_with_options L (Some 1000) (Some 1000) ''m1'' demo_letter 4600 None k = Inr m"
proof -
  have c: "encode_content L c p \<noteq> []" for c p
    using talking_libD(6) [OF assms] by (simp add: encode_content_def multicodec_encode_def)
  have s: "\<exists>b. message_sign L k m = Inr b" for m
    using msg_lawsD(3) [OF talking_libD(1) [OF assms]]
    by (auto simp: message_sign_def unsigned_headers_cbor_def) (metis bindR_Inr map_err_Inr)
  have v: "headers_validate L (Some 1000) h = Inr ()"
    if "hd_id h = ''m1''" "hd_protocol h = default_protocol" "hd_type h = MESSAGE_TYPE_MESSAGE"
      "hd_from h = did_id demo_did" "hd_to h = did_id demo_inbox_url" "hd_created_at h = 1000"
      "hd_exp h = 4600" "hd_content_type h = ''text/plain''" "hd_reply_to h = None" for h
    using that demo_inbox_url_visible demo_urls_parse [OF assms]
    by (simp add: headers_validate_ok validate_message_id_def fragment_char_def ascii_defs
        validate_def message_type_defs validate_message_freshness_def now_unix_secs_def
        DEFAULT_MAX_CLOCK_SKEW_SECS_def)
  show ?thesis
    using s by (simp add: new_with_options_def now_unix_secs_def Let_def v
        unsigned_headers_def demo_letter_def validate_content_def c)
qed

lemma demo_send:
  assumes "talking_lib L"
    and "headers_validate L (Some 1000) (unsigned_headers L m) = Inr ()"
    and "msg_type m \<noteq> MESSAGE_TYPE_BROADCAST"
    and "key_agreement_public_key_bytes L doc = Inr pk"
    and "\<And>b. \<exists>w'. wire x b w = (Inr (), w')"
  shows "\<exists>w'. outbox_send L wire (Some 1000) (Some 1000) demo_seal m
    (outbox_from_transport x doc False u p) w = (Inr (), w')"
proof -
  note laws = talking_libD(1) [OF assms(1)]
  obtain h where h: "headers_cbor L m = Inr h"
    using msg_lawsD(3) [OF laws, of "message_headers L m"] by (auto simp: headers_cbor_def)
  have "\<exists>c. encrypt L n q k = Inr c" for n q k
    using talking_libD(7) [OF assms(1), of k n q] by (auto simp: encrypt_def ok_or_def)
  then obtain e where e: "enclose_for L (Some 1000) (sd_ephemeral demo_seal)
      (sd_nonce1 demo_seal) (sd_nonce2 demo_seal) m doc = Inr e"
    using assms(2,4) h by (simp add: enclose_for_def Let_def) (metis bindR_Inr)
  obtain b where "envelope_encode L e = Inr b"
    using msg_lawsD(5) [OF laws, of e] by (auto simp: envelope_encode_def)
  then show ?thesis
    using assms e by (simp add: outbox_send_def outbox_payload_def outbox_from_transport_def)
qed

theorem bundles_converse_witness:
  "\<exists>da rk m payload s'.
     build_document demo_msg_lib (Some 0) (Some 5) ma_extension_new demo_bundle = Inr da
   \<and> bundle_encryption_key demo_msg_lib demo_other_bundle = Inr rk
   \<and> inbound_decode demo_msg_lib (\<lambda>_. Inr da) (demo_clocks 1000) payload INBOX_PROTOCOL_ID
       (inbound_security_new rk) = (Inr m, s')
   \<and> message_payload demo_msg_lib m = [104, 105]"
proof -
  note L = talking_libD(1-5) [OF demo_msg_talks] and facts = demo_bundle_facts [OF demo_msg_talks]
  obtain da where da: "build_document demo_msg_lib (Some 0) (Some 5) ma_extension_new demo_bundle = Inr da"
    using build_document_succeeds [OF L(5,3,4) facts(1) disjI1 [OF ext_map_new]] by blast
  obtain db where db: "build_document demo_msg_lib (Some 0) (Some 5) ma_extension_new demo_other_bundle = Inr db"
    using build_document_succeeds [OF L(5,3,4) facts(2) disjI1 [OF ext_map_new]] by blast
  note keys = bundle_keys(1) [OF L(4) facts(1)]
    bundle_keys(2) [OF L(4) facts(2)]
  obtain m where m: "new_with_options demo_msg_lib (Some 1000) (Some 1000) ''m1'' demo_letter 4600 None
      (bundle_sk demo_msg_lib (hex_encode (replicate 32 2)) demo_bundle) = Inr m"
    using demo_letter_created [OF demo_msg_talks] by blast
  note mi = new_with_options_Inr [OF m]
  let ?s = "inbound_security_new (bundle_ek demo_msg_lib (hex_encode (replicate 32 7)) demo_other_bundle)"
  have ty: "msg_type m \<noteq> MESSAGE_TYPE_BROADCAST"
    using mi by (auto simp: demo_letter_def message_type_defs)
  obtain w' where sent: "outbox_send demo_msg_lib demo_wire (Some 1000) (Some 1000) demo_seal m
      (outbox_from_transport () db False [] INBOX_PROTOCOL_ID) [] = (Inr (), w')"
    using demo_send [OF demo_msg_talks _ ty published_keys(3) [OF L(5,3,4,2) facts(2,4) db], of demo_wire "()" "[]"] mi
    by (auto simp: demo_wire_def)
  have fresh: "all_fresh (demo_clocks 1000) m"
    using mi by (auto simp: all_fresh_def demo_clocks_def validate_message_freshness_def
        now_unix_secs_def DEFAULT_MAX_CLOCK_SKEW_SECS_def)
  fix t inbox st
  have "\<exists>payload s'. demo_wire () payload [] = (Inr (), w')
    \<and> inbound_decode demo_msg_lib (\<lambda>_. Inr da) (demo_clocks 1000) payload INBOX_PROTOCOL_ID ?s = (Inr m, s')
    \<and> seen (is_replay_guard s') ''m1'' = Some 1000
    \<and> handle_stream demo_msg_lib (\<lambda>_. Inr da) (demo_clocks 1000) (Some t) INBOX_PROTOCOL_ID inbox
        (ReadOk payload) (?s, st) = (s', inbox_push inbox t 4600 m st)
    \<and> (dr_content demo_letter \<noteq> [] \<longrightarrow> message_payload demo_msg_lib m = dr_content demo_letter)"
    by (rule bundles_converse [OF L(1-4) facts(1,3) da keys(1)
        facts(2,4) db _ m _ demo_letter_dids(1) [OF demo_msg_talks] _ demo_letter_dids(2) [OF demo_msg_talks] _ sent _ _ fresh])
      (simp_all add: keys inbound_security_new_def demo_letter_def message_type_defs
        demo_did_def demo_inbox_url_def demo_seal_def demo_clocks_def replay_default_def
        replay_new_def)
  then obtain payload s' where "inbound_decode demo_msg_lib (\<lambda>_. Inr da) (demo_clocks 1000) payload
      INBOX_PROTOCOL_ID ?s = (Inr m, s')" and "message_payload demo_msg_lib m = [104, 105]"
    by (auto simp: demo_letter_def)
  then show ?thesis using da keys(2) by blast
qed

end
