(* ===== verification/Discovery.thy ===== *)
theory Discovery
  imports Endpoint Conversation
begin

text \<open>
  Being found: an endpoint advertises its services in the document that a bundle publishes
  (\<open>endpoint.ma_extension().kind(..)\<close> and \<open>bundle.build_document(..)\<close>, the use that \<^verbatim>\<open>doc.rs\<close>
  documents), and a peer that resolves the document opens its outbox from it
  (\<open>MaEndpoint::outbox\<close> in \<^verbatim>\<open>endpoint.rs\<close>).
\<close>

section \<open>The services in a published document\<close>

text \<open>\<open>serde_json::to_value\<close> takes a list of strings to the array of the same strings.\<close>

definition service_list_laws :: "(ipld \<Rightarrow> json option) \<Rightarrow> bool" where
  "service_list_laws to_json \<longleftrightarrow>
     (\<forall>ss. to_json (IList (map IString ss)) = Some (JArray (map JString ss)))"

definition advertised :: "string \<Rightarrow> iroh_endpoint \<Rightarrow> ma_extension" where
  "advertised kind ep = ext_kind kind (endpoint_ma_extension ep)"

lemma advertised_services:
  "ext_map (advertised kind ep) \<noteq> []"
  "map_of (ext_map (advertised kind ep)) ''services'' = Some (IList (map IString (services ep)))"
  by (simp_all add: advertised_def ext_kind_def endpoint_ma_extension_def ext_services_def
      ma_extension_new_def)

lemma published_services:
  assumes "service_list_laws to_json" and "build_document L now later (advertised kind ep) b = Inr d"
  shows "document_services to_json d = Some (services_json ep)"
proof -
  have "doc_ma d = Some (IMap (ext_map (advertised kind ep)))"
    using build_document_Inr [OF assms(2)] advertised_services(1) [of kind ep]
    by (auto simp: touch_def set_ma_extension_only_ma)
  then show ?thesis
    using assms(1) by (simp add: document_services_def advertised_services services_json_def
        service_list_laws_def)
qed

section \<open>Reaching the endpoint\<close>

lemma discovered_connects:
  assumes "service_list_laws to_json" and "endpoint_inv (ep, st)" and "endpoint_id_ok (ep_id ep)"
    and "build_document L now later (advertised kind ep) b = Inr d" and "resolve did = Inr d"
  shows "endpoint_outbox to_json resolve N did protocol s =
    (if normalize_protocol protocol \<noteq> [] \<and> ep_inboxes ep (normalize_protocol protocol) \<noteq> None
     then connect_outbox N d (ep_id ep) did protocol s
     else (Inl (NoInboxTransport (did @ '' has no service for '' @ protocol)), s))"
  using services_resolve_to_self [OF assms(2,3), of protocol]
  by (simp add: endpoint_outbox_def assms(5) published_services [OF assms(1,4)])

lemma endpoint_id_trimmed:
  assumes "endpoint_id_ok i"
  shows "trim i = i"
proof -
  have "i \<noteq> []" and s: "solid c" if "c \<in> set i" for c
    using assms that by (auto simp: endpoint_id_ok_def list_all_iff ascii_defs solid_def)
  moreover have "i \<noteq> []" using assms by (auto simp: endpoint_id_ok_def)
  ultimately show ?thesis by (intro trim_solid) simp_all
qed

text \<open>
  A connection to an endpoint for a protocol name as it was given: the one cached for exactly
  this endpoint and name, if it is live, or else a new one, dialled at this endpoint with
  this name and cached for them.
\<close>

definition live_for :: "('w, 'x) net_lib_scheme \<Rightarrow> string \<Rightarrow> string \<Rightarrow> 'w system \<Rightarrow> nat option" where
  "live_for N i protocol s =
     (case ep_cache (sys_ep s) (i, protocol) of
        None \<Rightarrow> None
      | Some conn \<Rightarrow> if net_is_closed N conn (sys_net s) then None else Some conn)"

definition connection_to :: "('w, 'x) net_lib_scheme \<Rightarrow> string \<Rightarrow> string \<Rightarrow> 'w system \<Rightarrow> nat \<Rightarrow>
    'w system \<Rightarrow> bool" where
  "connection_to N i protocol s conn s' \<longleftrightarrow>
     live_for N i protocol s = Some conn \<and> s' = s
     \<or> live_for N i protocol s = None \<and> (\<exists>target. net_parse_id N i = Inr target
          \<and> net_connect N \<lparr>addr_id = target, addr_relay = net_relay_url N (sys_net s)\<rparr> (as_bytes protocol)
              (sys_net s) = (Inr conn, sys_net s')
          \<and> ep_cache (sys_ep s') (i, protocol) = Some conn)"

text \<open>Why there is none: the id is not an address, or the dialling failed.\<close>

definition no_connection_to :: "('w, 'x) net_lib_scheme \<Rightarrow> string \<Rightarrow> string \<Rightarrow> 'w system \<Rightarrow> error \<Rightarrow>
    'w system \<Rightarrow> bool" where
  "no_connection_to N i protocol s e s' \<longleftrightarrow>
     (\<exists>x. net_parse_id N i = Inl x \<and> e = error.Transport (''invalid endpoint id: '' @ x) \<and> s' = s)
     \<or> live_for N i protocol s = None \<and> (\<exists>target x. net_parse_id N i = Inr target
          \<and> net_connect N \<lparr>addr_id = target, addr_relay = net_relay_url N (sys_net s)\<rparr> (as_bytes protocol)
              (sys_net s) = (Inl x, sys_net s')
          \<and> e = error.Transport (''connect failed: '' @ x))"

lemma live_cached_net:
  assumes "live_cached N (i, protocol) s = (x, s1)"
  shows "sys_net s1 = sys_net s \<and> x = live_for N i protocol s
    \<and> (x = None \<longrightarrow> ep_cache (sys_ep s1) (i, protocol) = None) \<and> (x \<noteq> None \<longrightarrow> s1 = s)"
  using assms
  by (cases "ep_cache (sys_ep s) (i, protocol)")
    (auto simp: live_cached_def evict_if_closed_def live_for_def split: if_splits)

lemma get_or_connect_reaches:
  assumes "get_or_connect N i \<lparr>addr_id = target, addr_relay = net_relay_url N (sys_net s)\<rparr> protocol s = (r, s')"
    and "net_parse_id N i = Inr target"
  shows "case r of Inr conn \<Rightarrow> connection_to N i protocol s conn s' | Inl e \<Rightarrow> no_connection_to N i protocol s e s'"
proof -
  let ?k = "(i, protocol)"
  obtain x s1 where 1: "live_cached N ?k s = (x, s1)" by force
  obtain y s2 where 2: "live_cached N ?k (connect_lock ?k s1) = (y, s2)" by force
  note l1 = live_cached_net [OF 1] and l2 = live_cached_net [OF 2]
  show ?thesis
  proof (cases x)
    case (Some conn)
    then show ?thesis using assms l1 1
      by (auto simp: get_or_connect_def Let_def connection_to_def)
  next
    case None
    then have "y = None" using l1 l2 by (auto simp: connect_lock_def live_for_def split: option.splits)
    moreover have "sys_net s2 = sys_net s" using l1 l2 by (simp add: connect_lock_def)
    ultimately show ?thesis using assms None 1 2 l1
      by (auto simp: get_or_connect_def Let_def connection_to_def no_connection_to_def cache_insert_def
          spawn_outbound_accept_loop_def split: prod.splits sum.splits option.splits)
  qed
qed

lemma connect_outbox_reaches:
  assumes "endpoint_id_ok i" and "i \<noteq> ep_id (sys_ep s)"
  shows "case connect_outbox N doc i did protocol s of
      (Inr ob, s') \<Rightarrow> (\<exists>conn. connection_to N i protocol s conn s'
        \<and> ob = \<lparr>ob_inner = Some (CachedChannel conn), ob_recipient_document = doc, ob_local = False,
                ob_did = did, ob_protocol = protocol\<rparr>)
    | (Inl e, s') \<Rightarrow> no_connection_to N i protocol s e s'"
proof (cases "net_parse_id N i")
  case (Inl e)
  then show ?thesis using assms
    by (simp add: connect_outbox_def resolve_addr_def endpoint_id_trimmed no_connection_to_def)
next
  case (Inr target)
  obtain r s' where g: "get_or_connect N i \<lparr>addr_id = target, addr_relay = net_relay_url N (sys_net s)\<rparr>
      protocol s = (r, s')" by force
  then show ?thesis using get_or_connect_reaches [OF g Inr] assms Inr
    by (cases r) (simp_all add: connect_outbox_def resolve_addr_def endpoint_id_trimmed outbox_from_transport_def)
qed

text \<open>C11: A peer that resolves a DID to the document an endpoint's bundle published reaches that
  endpoint and no other. For a protocol registered there, the outbox it opens carries the
  resolved document and writes to a connection to the advertising endpoint: the live one
  cached for exactly this endpoint and protocol name, or one dialled at this endpoint's id
  with this name and cached under them; if the id is not an address or the dialling fails,
  that is the error. (The name is dialled as it was given: \<open>raw_protocol_not_reused\<close>.) When
  the endpoint is the peer itself, the outbox writes to its own inbox. For every other
  protocol the error names the missing service, and neither the network nor the peer's own
  state is touched.\<close>

theorem published_services_reachable:
  assumes "service_list_laws to_json" and "endpoint_inv (ep, st)" and "endpoint_id_ok (ep_id ep)"
    and "build_document L now later (advertised kind ep) b = Inr d" and "resolve did = Inr d"
  shows "if normalize_protocol protocol = [] \<or> ep_inboxes ep (normalize_protocol protocol) = None
    then endpoint_outbox to_json resolve N did protocol s =
      (Inl (NoInboxTransport (did @ '' has no service for '' @ protocol)), s)
    else if ep_id ep = ep_id (sys_ep s)
    then endpoint_outbox to_json resolve N did protocol s =
      (case ep_inboxes (sys_ep s) (normalize_protocol protocol) of
         None \<Rightarrow> (Inl (NoInboxTransport (''no local inbox for '' @ protocol)), s)
       | Some i \<Rightarrow> (Inr \<lparr>ob_inner = Some (Loopback i), ob_recipient_document = d, ob_local = True,
                        ob_did = did, ob_protocol = protocol\<rparr>, s))
    else (case endpoint_outbox to_json resolve N did protocol s of
        (Inr ob, s') \<Rightarrow> (\<exists>conn. connection_to N (ep_id ep) protocol s conn s'
          \<and> ob = \<lparr>ob_inner = Some (CachedChannel conn), ob_recipient_document = d, ob_local = False,
                  ob_did = did, ob_protocol = protocol\<rparr>)
      | (Inl e, s') \<Rightarrow> no_connection_to N (ep_id ep) protocol s e s')"
proof -
  note found = discovered_connects [where resolve = resolve and did = did and N = N and protocol = protocol
      and s = s, OF assms]
  show ?thesis
    using connect_outbox_reaches [OF assms(3), where s = s and N = N and doc = d and did = did and protocol = protocol] found
    by (auto simp: connect_outbox_def [of _ _ "ep_id (sys_ep s)"] outbox_from_transport_def
        inbox_clone_id split: option.split)
qed

text \<open>The outbox of a remote peer opened this way is one \<open>Conversation\<close> is about.\<close>

lemma discovered_outbox:
  assumes "service_list_laws to_json" and "endpoint_inv (ep, st)" and "endpoint_id_ok (ep_id ep)"
    and "build_document L now later (advertised kind ep) b = Inr d" and "resolve did = Inr d"
    and "ep_id ep \<noteq> ep_id (sys_ep s)"
    and "endpoint_outbox to_json resolve N did protocol s = (Inr ob, s')"
  shows "\<exists>conn. ob = outbox_from_transport (CachedChannel conn) d False did protocol"
proof -
  have "connect_outbox N d (ep_id ep) did protocol s = (Inr ob, s')"
    using assms(7) unfolding discovered_connects [where resolve = resolve and did = did, OF assms(1-5)] by (simp split: if_splits)
  then show ?thesis using assms(6)
    by (auto simp: connect_outbox_def split: sum.splits prod.splits)
qed

section \<open>Witnesses\<close>

text \<open>\<open>serde_json\<close> on strings and lists of them.\<close>

definition demo_to_json :: "ipld \<Rightarrow> json option" where
  "demo_to_json v =
     (case v of
        IList l \<Rightarrow> Some (JArray (map (\<lambda>x. case x of IString t \<Rightarrow> JString t | _ \<Rightarrow> JNull) l))
      | _ \<Rightarrow> None)"

lemma demo_to_json_laws: "service_list_laws demo_to_json"
  by (simp add: service_list_laws_def demo_to_json_def o_def)

text \<open>An endpoint with one service.\<close>

definition demo_inbox_endpoint :: iroh_endpoint where
  "demo_inbox_endpoint = fst (snd (service ''ma/inbox/0.0.1'' (demo_endpoint, empty_store)))"

lemma demo_inbox_endpoint_inv:
  "endpoint_inv (demo_inbox_endpoint, snd (snd (service ''ma/inbox/0.0.1'' (demo_endpoint, empty_store))))"
  unfolding demo_inbox_endpoint_def prod.collapse
  by (rule endpoint_inv_service) (rule endpoint_inv_new [OF demo_endpoint_new])

lemma demo_inbox_endpoint_id: "endpoint_id_ok (ep_id demo_inbox_endpoint)"
proof -
  have "ep_id demo_inbox_endpoint = ep_id demo_endpoint"
    by (simp add: demo_inbox_endpoint_def service_def Let_def start_router_def
        reload_router_if_running_def split: option.splits prod.splits)
  then show ?thesis
    by (simp add: demo_endpoint_def demo_endpoint_id_def endpoint_id_ok_def list_all_iff ascii_defs
        to_ascii_lowercase_def ascii_lower_def)
qed

text \<open>The example packages, with an encoder that also knows this endpoint's extension.\<close>

definition demo_extension :: ipld where
  "demo_extension = IMap (ext_map (advertised ''world'' demo_inbox_endpoint))"

definition put_extended :: "document \<Rightarrow> string + bytes" where
  "put_extended d =
     (if doc_ma d = None then Inr (put_nat 0 @ put_document d)
      else if doc_ma d = Some demo_extension then Inr (put_nat 1 @ put_document (d\<lparr>doc_ma := None\<rparr>))
      else Inl ''unsupported'')"

definition get_extended :: "bytes \<Rightarrow> string + document" where
  "get_extended b =
     (case get_nat b of
        None \<Rightarrow> Inl ''malformed''
      | Some (n, r) \<Rightarrow> (case get_document r of
            None \<Rightarrow> Inl ''malformed''
          | Some d \<Rightarrow> Inr (if n = 0 then d else d\<lparr>doc_ma := Some demo_extension\<rparr>)))"

definition extended_lib :: msg_lib where
  "extended_lib = demo_msg_lib\<lparr>dagcbor_of_document := put_extended, document_of_dagcbor := get_extended\<rparr>"

lemma extended_documents: "document_codec_laws extended_lib"
proof -
  have "get_extended b = Inr d" if "put_extended d = Inr b" for d b
  proof (cases "doc_ma d = None")
    case True
    then show ?thesis using that by (auto simp: put_extended_def get_extended_def get_put_document [where r = "[]", simplified])
  next
    case False
    then have "d\<lparr>doc_ma := Some demo_extension\<rparr> = d" and "b = put_nat 1 @ put_document (d\<lparr>doc_ma := None\<rparr>)"
      using that by (auto simp: put_extended_def split: if_splits)
    then show ?thesis by (simp add: get_extended_def get_put_document [where r = "[]", simplified])
  qed
  then show ?thesis
    by (auto simp: document_codec_laws_def extended_lib_def put_extended_def is_ok_def)
qed

lemma extended_talks: "talking_lib extended_lib"
  using demo_msg_talks extended_documents
  by (simp add: talking_lib_def msg_laws_def crypto_laws_def multiformat_laws_def time_laws_def
      identity_laws_def is_valid_rfc3339_utc_def ipns_from_secret_def extended_lib_def Let_def)

lemma extended_encodes:
  "doc_ma d = Some (IMap (ext_map (advertised ''world'' demo_inbox_endpoint))) \<Longrightarrow>
     is_ok (document_encode extended_lib d)"
  by (simp add: document_encode_def extended_lib_def put_extended_def demo_extension_def is_ok_def)

lemma demo_inbox_is_registered: "ep_inboxes demo_inbox_endpoint (normalize_protocol INBOX_PROTOCOL_ID) \<noteq> None"
proof -
  have "trim ''ma/inbox/0.0.1'' = ''ma/inbox/0.0.1''"
    by (rule trim_solid) (simp_all add: solid_def code_def)
  then have "normalize_protocol ''ma/inbox/0.0.1'' = normalize_protocol INBOX_PROTOCOL_ID"
    unfolding normalize_inbox by (simp add: normalize_protocol_def INBOX_PROTOCOL_ID_def trim_start_char_def)
  then show ?thesis
    by (auto simp: demo_inbox_endpoint_def service_def Let_def start_router_def reload_router_if_running_def
        split: option.splits prod.splits)
qed

text \<open>From another endpoint, the service is reached; a service that is not there is not.\<close>

definition demo_other_system :: "nat system" where
  "demo_other_system = demo_system\<lparr>sys_ep := demo_endpoint\<lparr>ep_id := ''bb''\<rparr>\<rparr>"

theorem published_services_reachable_witness:
  "\<exists>d. build_document extended_lib (Some 0) (Some 5) (advertised ''world'' demo_inbox_endpoint) demo_bundle = Inr d
    \<and> (case endpoint_outbox demo_to_json (\<lambda>_. Inr d) demo_net ''did:ma:6d61'' INBOX_PROTOCOL_ID demo_other_system of
        (Inr ob, s') \<Rightarrow> (\<exists>conn.
            connection_to demo_net (ep_id demo_inbox_endpoint) INBOX_PROTOCOL_ID demo_other_system conn s'
          \<and> ob = \<lparr>ob_inner = Some (CachedChannel conn), ob_recipient_document = d, ob_local = False,
                  ob_did = ''did:ma:6d61'', ob_protocol = INBOX_PROTOCOL_ID\<rparr>)
      | (Inl e, s') \<Rightarrow>
          no_connection_to demo_net (ep_id demo_inbox_endpoint) INBOX_PROTOCOL_ID demo_other_system e s')"
proof -
  obtain d where d: "build_document extended_lib (Some 0) (Some 5)
      (advertised ''world'' demo_inbox_endpoint) demo_bundle = Inr d"
    using build_document_succeeds [OF talking_libD(5,3,4) [OF extended_talks]
        demo_bundle_facts(1) [OF extended_talks] disjI2] extended_encodes by blast
  have "ep_id demo_inbox_endpoint \<noteq> ep_id (sys_ep demo_other_system)"
    using demo_inbox_endpoint_id by (auto simp: endpoint_id_ok_def demo_other_system_def)
  moreover have "normalize_protocol INBOX_PROTOCOL_ID \<noteq> []"
    unfolding normalize_inbox by (simp add: INBOX_PROTOCOL_ID_def)
  ultimately show ?thesis
    using published_services_reachable [OF demo_to_json_laws demo_inbox_endpoint_inv
        demo_inbox_endpoint_id d refl, where N = demo_net and s = demo_other_system
        and protocol = INBOX_PROTOCOL_ID] d demo_inbox_is_registered
    by (intro exI [of _ d]) simp
qed

end
