(* ===== verification/Http.thy ===== *)
theory Http
  imports Strings Effects
begin

text \<open>
  The part of \<open>reqwest\<close> and \<open>serde_json\<close> the Kubo client uses, as effects on the world. The
  world \<open>'w\<close> is whatever the daemon, the network and the clock do; every request and every
  sleep may change it. An error is the \<open>Display\<close> text of the \<open>anyhow::Error\<close>. A \<open>Duration\<close> is
  a number of milliseconds.
\<close>

section \<open>HTTP\<close>

text \<open>The body of a request: nothing, or the multipart form with one part named \<open>file\<close>.\<close>

datatype http_body = NoBody | FilePart string "string option" bytes

record http_request =
  rq_url :: string
  rq_query :: "(string \<times> string) list"
  rq_body :: http_body
  rq_timeout :: nat

text \<open>A response: its status, and its body or the error of reading it.\<close>

record http_response =
  rs_status :: nat
  rs_content :: "string + bytes"

text \<open>
  \<open>reqwest\<close>: building a client, checking a MIME type, sending, decoding a body as text,
  \<open>error_for_status\<close> (\<open>None\<close> when the status is no error), \<open>is_success\<close>; and \<open>tokio\<close>'s
  \<open>sleep\<close>.
\<close>

record 'w http_lib =
  http_build :: "nat \<Rightarrow> string + unit"
  http_mime :: "string \<Rightarrow> string + unit"
  http_send :: "http_request \<Rightarrow> 'w \<Rightarrow> (string + http_response) \<times> 'w"
  http_text :: "bytes \<Rightarrow> string"
  http_status_error :: "http_request \<Rightarrow> nat \<Rightarrow> string option"
  http_is_success :: "nat \<Rightarrow> bool"
  http_sleep :: "nat \<Rightarrow> 'w \<Rightarrow> 'w"

text \<open>
  The documented behaviour the client relies on: the classes of status codes, and the text
  of the error of a 4xx status, on which one retry decision is taken.
\<close>

definition http_laws :: "('w, 'x) http_lib_scheme \<Rightarrow> bool" where
  "http_laws K \<longleftrightarrow>
     (\<forall>rq s. http_status_error K rq s \<noteq> None \<longleftrightarrow> 400 \<le> s \<and> s < 600)
   \<and> (\<forall>s. http_is_success K s \<longleftrightarrow> 200 \<le> s \<and> s < 300)
   \<and> (\<forall>rq s e. http_status_error K rq s = Some e \<longrightarrow> s < 500 \<longrightarrow>
        prefix ''HTTP status client error'' e)"

section \<open>The shared shape of the calls\<close>

text \<open>\<open>client.build()?.post(url)...send().await?\<close>.\<close>

definition send_request :: "('w, 'x) http_lib_scheme \<Rightarrow> http_request \<Rightarrow> (http_response, 'w) io" where
  "send_request K rq = io_bind (io_lift (http_build K (rq_timeout rq))) (\<lambda>_. http_send K rq)"

text \<open>\<open>.error_for_status()?\<close>.\<close>

definition error_for_status :: "('w, 'x) http_lib_scheme \<Rightarrow> http_request \<Rightarrow> http_response \<Rightarrow>
    string + http_response" where
  "error_for_status K rq rs =
     (case http_status_error K rq (rs_status rs) of Some e \<Rightarrow> Inl e | None \<Rightarrow> Inr rs)"

definition post_checked :: "('w, 'x) http_lib_scheme \<Rightarrow> http_request \<Rightarrow> (http_response, 'w) io" where
  "post_checked K rq = io_bind (send_request K rq) (\<lambda>rs. io_lift (error_for_status K rq rs))"

text \<open>\<open>.bytes().await?\<close> and \<open>.text().await?\<close>.\<close>

definition post_bytes :: "('w, 'x) http_lib_scheme \<Rightarrow> http_request \<Rightarrow> (bytes, 'w) io" where
  "post_bytes K rq = io_bind (post_checked K rq) (\<lambda>rs. io_lift (rs_content rs))"

definition post_text :: "('w, 'x) http_lib_scheme \<Rightarrow> http_request \<Rightarrow> (string, 'w) io" where
  "post_text K rq = io_bind (post_bytes K rq) (\<lambda>b. io_ret (http_text K b))"

text \<open>\<open>resp.text().await.unwrap_or_default()\<close>.\<close>

definition text_or_default :: "('w, 'x) http_lib_scheme \<Rightarrow> http_response \<Rightarrow> string" where
  "text_or_default K rs = (case rs_content rs of Inl _ \<Rightarrow> [] | Inr b \<Rightarrow> http_text K b)"

lemma post_checked_status:
  assumes "http_laws K" and "post_checked K rq w = (Inr rs, w')"
  shows "rs_status rs < 400 \<or> 600 \<le> rs_status rs"
proof -
  have "http_status_error K rq (rs_status rs) = None"
    using assms(2) by (auto simp: post_checked_def error_for_status_def io_simps split: option.splits)
  moreover have "http_status_error K rq (rs_status rs) \<noteq> None \<longleftrightarrow> 400 \<le> rs_status rs \<and> rs_status rs < 600"
    using assms(1) by (simp add: http_laws_def)
  ultimately show ?thesis by auto
qed

section \<open>What requests leave as it was\<close>

text \<open>
  A property of the world that every request of a certain kind keeps is kept by every call
  that sends only such requests. The property may be one of the daemon's state or, for a
  client that records its requests, of the record.
\<close>

locale request_invariant =
  fixes K :: "('w, 'x) http_lib_scheme"
    and P :: "http_request \<Rightarrow> bool"
    and I :: "'w \<Rightarrow> bool"
  assumes request_keeps: "P rq \<Longrightarrow> I w \<Longrightarrow> I (snd (http_send K rq w))"
begin

lemma keeps_http: "P rq \<Longrightarrow> io_keeps I (http_send K rq)"
  by (simp add: io_keeps_def request_keeps)

lemma keeps_send_request: "P rq \<Longrightarrow> io_keeps I (send_request K rq)"
  unfolding send_request_def by (intro keeps_intros keeps_http)

lemma keeps_post_checked: "P rq \<Longrightarrow> io_keeps I (post_checked K rq)"
  unfolding post_checked_def by (intro keeps_intros keeps_send_request)

lemma keeps_post_bytes: "P rq \<Longrightarrow> io_keeps I (post_bytes K rq)"
  unfolding post_bytes_def by (intro keeps_intros keeps_post_checked)

lemma keeps_post_text: "P rq \<Longrightarrow> io_keeps I (post_text K rq)"
  unfolding post_text_def by (intro keeps_intros keeps_post_bytes)

end

end
