(* ===== verification/Retry.thy ===== *)
theory Retry
  imports Http
begin

text \<open>
  Bounded retry with Fibonacci backoff. The crate writes the same loop out at several call
  sites (\<open>wait_for_api\<close>, \<open>name_publish_with_retry\<close>, \<open>remote_pin_with_retry\<close>): at most
  \<open>attempts\<close> attempts, a sleep between two of them, the next sleep the sum of the last two
  capped at a limit, the last error reported. The locale states what such a loop does; each
  of the loops is an interpretation.
\<close>

text \<open>The delays of the first \<open>n\<close> sleeps.\<close>

fun delays :: "nat \<Rightarrow> nat \<Rightarrow> nat \<Rightarrow> nat \<Rightarrow> nat list" where
  "delays cap p c 0 = []"
| "delays cap p c (Suc n) = c # delays cap c (min (p + c) cap) n"

lemma length_delays [simp]: "length (delays cap p c n) = n"
  by (induction n arbitrary: p c) simp_all

text \<open>No sleep is longer than the first one or the cap, whichever is more.\<close>

lemma delays_bounded: "d \<in> set (delays cap p c n) \<Longrightarrow> d \<le> max c cap"
proof (induction n arbitrary: p c)
  case (Suc n)
  then consider "d = c" | "d \<in> set (delays cap c (min (p + c) cap) n)" by auto
  then show ?case
  proof cases
    case 2
    then have "d \<le> max (min (p + c) cap) cap" by (rule Suc.IH)
    then show ?thesis by simp
  qed simp
qed simp

lemma sum_list_bound:
  fixes xs :: "nat list"
  shows "(\<And>x. x \<in> set xs \<Longrightarrow> x \<le> m) \<Longrightarrow> sum_list xs \<le> length xs * m"
  by (induction xs) (fastforce simp: add_mono)+

lemma delays_total: "sum_list (delays cap p c n) \<le> n * max c cap"
  using sum_list_bound [of "delays cap p c n", OF delays_bounded] by simp

lemma first_at_suc:
  "\<not> A 0 \<Longrightarrow> B 0 \<Longrightarrow>
     (\<exists>k<Suc n. A k \<and> (\<forall>j<k. B j)) \<longleftrightarrow> (\<exists>k<n. A (Suc k) \<and> (\<forall>j<k. B (Suc j)))"
  by (simp add: Ex_less_Suc2 All_less_Suc2)

lemma first_at_zero:
  "\<not> B 0 \<Longrightarrow> (\<exists>k<Suc n. A k \<and> (\<forall>j<k. B j)) \<longleftrightarrow> A 0"
  by (simp add: Ex_less_Suc2 All_less_Suc2)

locale bounded_retry =
  fixes attempt :: "('a, 'w) io"
    and sleep :: "nat \<Rightarrow> 'w \<Rightarrow> 'w"
    and cap :: nat
    and loop :: "nat \<Rightarrow> nat \<Rightarrow> nat \<Rightarrow> string option \<Rightarrow> 'w \<Rightarrow> (string option + 'a) \<times> 'w"
  assumes loop_0: "loop 0 p c l w = (Inl l, w)"
    and loop_Suc: "loop (Suc n) p c l w =
      (case attempt w of
         (Inr x, w1) \<Rightarrow> (Inr x, w1)
       | (Inl e, w1) \<Rightarrow>
           if n = 0 then loop n p c (Some e) w1
           else loop n c (min (p + c) cap) (Some e) (sleep c w1))"
begin

text \<open>The state in which attempt number \<open>k\<close> (from 0) is made when all before it failed.\<close>

fun before :: "nat \<Rightarrow> nat \<Rightarrow> nat \<Rightarrow> 'w \<Rightarrow> 'w" where
  "before 0 p c w = w"
| "before (Suc k) p c w = before k c (min (p + c) cap) (sleep c (snd (attempt w)))"

lemma loop_Inr:
  "loop n p c l w = (Inr x, w') \<longleftrightarrow>
     (\<exists>k<n. attempt (before k p c w) = (Inr x, w')
        \<and> (\<forall>j<k. \<not> is_ok (fst (attempt (before j p c w)))))"
proof (induction n arbitrary: p c l w)
  case 0
  then show ?case by (simp add: loop_0)
next
  case (Suc n)
  show ?case
  proof (cases "fst (attempt w)")
    case (Inl e)
    then have a: "attempt w = (Inl e, snd (attempt w))" by (metis prod.collapse)
    have "(\<exists>k<Suc n. attempt (before k p c w) = (Inr x, w')
        \<and> (\<forall>j<k. \<not> is_ok (fst (attempt (before j p c w))))) \<longleftrightarrow>
      (\<exists>k<n. attempt (before (Suc k) p c w) = (Inr x, w')
        \<and> (\<forall>j<k. \<not> is_ok (fst (attempt (before (Suc j) p c w)))))"
      (is "(\<exists>k<Suc n. ?A k \<and> (\<forall>j<k. ?B j)) \<longleftrightarrow> (\<exists>k<n. ?A (Suc k) \<and> (\<forall>j<k. ?B (Suc j)))")
      by (rule first_at_suc) (use Inl a in auto)
    moreover have "loop (Suc n) p c l w = (Inr x, w') \<longleftrightarrow>
        n \<noteq> 0 \<and> loop n c (min (p + c) cap) (Some e) (sleep c (snd (attempt w))) = (Inr x, w')"
      unfolding loop_Suc by (subst a) (simp add: loop_0)
    ultimately show ?thesis by (cases "n = 0") (simp_all add: Suc.IH)
  next
    case (Inr y)
    then have a: "attempt w = (Inr y, snd (attempt w))" by (metis prod.collapse)
    have "loop (Suc n) p c l w = (Inr y, snd (attempt w))" unfolding loop_Suc by (subst a) simp
    moreover have "(\<exists>k<Suc n. attempt (before k p c w) = (Inr x, w')
        \<and> (\<forall>j<k. \<not> is_ok (fst (attempt (before j p c w))))) \<longleftrightarrow>
        attempt (before 0 p c w) = (Inr x, w')"
      by (rule first_at_zero) (simp add: Inr)
    ultimately show ?thesis using a by (auto simp: before.simps(1))
  qed
qed

text \<open>The loop fails exactly if every attempt does, and then reports the last error.\<close>

lemma loop_Inl:
  "loop n p c l w = (Inl l', w') \<Longrightarrow>
     (\<forall>k<n. \<not> is_ok (fst (attempt (before k p c w))))
     \<and> (if n = 0 then l' = l else \<exists>e. l' = Some e \<and> attempt (before (n - 1) p c w) = (Inl e, w'))"
proof (induction n arbitrary: p c l w)
  case 0
  then show ?case by (simp add: loop_0)
next
  case (Suc n)
  obtain r w1 where a: "attempt w = (r, w1)" by (cases "attempt w")
  then obtain e where r: "r = Inl e" using Suc.prems by (cases r) (simp_all add: loop_Suc)
  show ?case
  proof (cases "n = 0")
    case True
    then show ?thesis using Suc.prems a r by (simp add: loop_Suc loop_0)
  next
    case False
    then have l: "loop n c (min (p + c) cap) (Some e) (sleep c w1) = (Inl l', w')"
      using Suc.prems a r by (simp add: loop_Suc)
    show ?thesis
    proof (intro conjI allI impI)
      fix k assume "k < Suc n"
      then show "\<not> is_ok (fst (attempt (before k p c w)))"
        using Suc.IH [OF l] a r by (cases k) simp_all
    next
      show "if Suc n = 0 then l' = l
          else \<exists>e. l' = Some e \<and> attempt (before (Suc n - 1) p c w) = (Inl e, w')"
        using Suc.IH [OF l] False a by (cases n) simp_all
    qed
  qed
qed

corollary loop_ok_iff:
  "is_ok (fst (loop n p c l w)) \<longleftrightarrow> (\<exists>k<n. is_ok (fst (attempt (before k p c w))))"
proof (cases "loop n p c l w")
  case (Pair r w')
  show ?thesis
  proof (cases r)
    case (Inl l')
    then show ?thesis using Pair loop_Inl [of n p c l w l' w'] by auto
  next
    case (Inr x)
    then show ?thesis using Pair loop_Inr [of n p c l w x w'] by (metis fst_conv is_ok_simps(2))
  qed
qed

end

end
