(* ===== verification/Kubo.thy ===== *)
theory Kubo
  imports Retry Doc
begin

text \<open>
  The Kubo RPC client (\<^verbatim>\<open>kubo/kubo.rs\<close>): the request each call sends, how its answer is
  read, the retry loops, and fetching a DID document. The daemon is the world; the typed
  parsers that \<open>serde\<close> derives for the response structs are parameters.
\<close>

section \<open>Responses\<close>

record add_response =
  add_hash :: string

text \<open>\<open>DagPutCid\<close> has the one field \<open>slash\<close>.\<close>

record dag_put_response =
  dpr_cid_upper :: "string option"
  dpr_cid :: "string option"

record name_publish_response =
  npr_value_upper :: string
  npr_value_lower :: string

record name_resolve_response =
  nrr_path_upper :: string
  nrr_path_lower :: string

record version_response =
  ver_upper :: string
  ver_lower :: string

record key_list_entry =
  kle_name :: string
  kle_name_lower :: string
  kle_id :: string
  kle_id_lower :: string

record key_import_response =
  kir_name_upper :: string
  kir_name_lower :: string
  kir_id_upper :: string
  kir_id_lower :: string

record kubo_key =
  kk_name :: string
  kk_id :: string

record pin_list_entry =
  ple_type :: string
  ple_name :: string

record remote_pin_list_entry =
  rple_cid_upper :: string
  rple_cid_lower :: string
  rple_name_upper :: string
  rple_name_lower :: string

record ipns_publish_options =
  po_timeout :: nat
  po_allow_offline :: bool
  po_lifetime :: string
  po_ttl :: "string option"
  po_resolve :: bool
  po_quieter :: bool

definition ipns_publish_default :: ipns_publish_options where
  "ipns_publish_default =
     \<lparr>po_timeout = 120000, po_allow_offline = True, po_lifetime = ''8760h'', po_ttl = None,
      po_resolve = False, po_quieter = True\<rparr>"

text \<open>The pins of \<open>pin/ls\<close> are a \<open>BTreeMap\<close>: CIDs in order, each once.\<close>

record 'w kubo_lib = "'w http_lib" +
  json_add :: "string \<Rightarrow> string + add_response"
  json_dag_put :: "string \<Rightarrow> string + dag_put_response"
  json_name_publish :: "string \<Rightarrow> string + name_publish_response"
  json_name_resolve :: "string \<Rightarrow> string + name_resolve_response"
  json_version :: "string \<Rightarrow> string + version_response"
  json_key_list :: "string \<Rightarrow> string + key_list_entry list"
  json_key_import :: "string \<Rightarrow> string + key_import_response"
  json_pin_list :: "string \<Rightarrow> string + (string \<times> pin_list_entry) list"
  json_remote_pin :: "string \<Rightarrow> string + remote_pin_list_entry"
  utf8_decode :: "bytes \<Rightarrow> string + string"

section \<open>Shared pieces\<close>

definition api_url :: "string \<Rightarrow> string \<Rightarrow> string" where
  "api_url kubo_url endpoint = trim_end_char (CHR ''/'') kubo_url @ ''/api/v0/'' @ endpoint"

definition bool_text :: "bool \<Rightarrow> string" where
  "bool_text b = (if b then ''true'' else ''false'')"

text \<open>The fields of either spelling: the capitalized one unless it is empty.\<close>

definition or_lower :: "string \<Rightarrow> string \<Rightarrow> string" where
  "or_lower upper lower = (if upper \<noteq> [] then upper else lower)"

definition or_lower_trimmed :: "string \<Rightarrow> string \<Rightarrow> string" where
  "or_lower_trimmed upper lower = (if trim upper \<noteq> [] then trim upper else trim lower)"

definition parse_body :: "string \<Rightarrow> (string \<Rightarrow> string + 'a) \<Rightarrow> string \<Rightarrow> ('a, 'w) io" where
  "parse_body what p body = io_lift (map_err
     (\<lambda>e. ''failed parsing '' @ what @ '' response: '' @ e @ '' body='' @ body) (p body))"

text \<open>\<open>while let Some(rest) = value.strip_prefix("/ipfs/")\<close>.\<close>

function strip_ipfs :: "string \<Rightarrow> string" where
  "strip_ipfs v = (case strip_prefix v ''/ipfs/'' of Some rest \<Rightarrow> strip_ipfs rest | None \<Rightarrow> v)"
  by auto
termination by (relation "measure length") auto

declare strip_ipfs.simps [simp del]

definition normalize_cid_arg :: "string \<Rightarrow> string" where
  "normalize_cid_arg cid_or_path = trim_start_char (CHR ''/'') (strip_ipfs (trim cid_or_path))"

definition normalize_ipfs_arg :: "string \<Rightarrow> string" where
  "normalize_ipfs_arg cid_or_path =
     ''/ipfs/'' @ trim_start_char (CHR ''/'') (strip_ipfs (trim cid_or_path))"

section \<open>Readiness\<close>

definition version_request :: "string \<Rightarrow> http_request" where
  "version_request kubo_url =
     \<lparr>rq_url = api_url kubo_url ''version'', rq_query = [], rq_body = NoBody, rq_timeout = 6000\<rparr>"

text \<open>One probe; the client is built once, before the loop.\<close>

definition probe_version :: "('w, 'x) kubo_lib_scheme \<Rightarrow> string \<Rightarrow> (unit, 'w) io" where
  "probe_version K kubo_url =
     (let rq = version_request kubo_url in
      io_bind (http_send K rq) (\<lambda>rs.
      io_bind (io_lift (error_for_status K rq rs)) (\<lambda>rs.
      io_bind (io_lift (rs_content rs)) (\<lambda>b.
      let body = http_text K b in
      io_bind (parse_body ''version'' (json_version K) body) (\<lambda>parsed.
      if trim (or_lower (ver_upper parsed) (ver_lower parsed)) = []
      then io_lift (Inl (''missing version field in response: '' @ body))
      else io_ret ())))))"

fun wait_loop :: "('w, 'x) kubo_lib_scheme \<Rightarrow> string \<Rightarrow> nat \<Rightarrow> nat \<Rightarrow> nat \<Rightarrow> string option \<Rightarrow> 'w \<Rightarrow>
    (string option + unit) \<times> 'w" where
  "wait_loop K url 0 fib_prev fib_curr last_err w = (Inl last_err, w)"
| "wait_loop K url (Suc n) fib_prev fib_curr last_err w =
     (case probe_version K url w of
        (Inr u, w1) \<Rightarrow> (Inr u, w1)
      | (Inl e, w1) \<Rightarrow>
          if n = 0 then wait_loop K url n fib_prev fib_curr (Some e) w1
          else wait_loop K url n fib_curr (min (fib_prev + fib_curr) 5000) (Some e)
                 (http_sleep K fib_curr w1))"

definition or_unknown :: "string option \<Rightarrow> string" where
  "or_unknown l = (case l of Some e \<Rightarrow> e | None \<Rightarrow> ''unknown error'')"

definition wait_for_api :: "('w, 'x) kubo_lib_scheme \<Rightarrow> string \<Rightarrow> u32 \<Rightarrow> (unit, 'w) io" where
  "wait_for_api K kubo_url attempts w =
     (if attempts = 0 then (Inl ''kubo readiness attempts must be >= 1'', w)
      else io_bind (io_lift (http_build K 6000)) (\<lambda>_ w.
        case wait_loop K kubo_url (unat attempts) 0 200 None w of
          (Inr u, w1) \<Rightarrow> (Inr u, w1)
        | (Inl l, w1) \<Rightarrow> (Inl (''kubo API not ready after '' @ show_nat (unat attempts)
            @ '' attempts: '' @ or_unknown l), w1)) w)"

section \<open>Add, cat and DAG\<close>

definition file_part :: "('w, 'x) http_lib_scheme \<Rightarrow> string \<Rightarrow> string \<Rightarrow> bytes \<Rightarrow> (http_body, 'w) io" where
  "file_part K name mime data =
     io_bind (io_lift (http_mime K mime)) (\<lambda>_. io_ret (FilePart name (Some mime) data))"

definition ipfs_add :: "('w, 'x) kubo_lib_scheme \<Rightarrow> string \<Rightarrow> bytes \<Rightarrow> (string, 'w) io" where
  "ipfs_add K kubo_url data =
     io_bind (post_text K \<lparr>rq_url = api_url kubo_url ''add'', rq_query = [(''pin'', ''true'')],
       rq_body = FilePart ''data'' None data, rq_timeout = 10000\<rparr>) (\<lambda>body.
     io_bind (parse_body ''add'' (json_add K) body) (\<lambda>parsed. io_ret (add_hash parsed)))"

definition cat_bytes :: "('w, 'x) kubo_lib_scheme \<Rightarrow> string \<Rightarrow> string \<Rightarrow> (bytes, 'w) io" where
  "cat_bytes K kubo_url cid =
     post_bytes K \<lparr>rq_url = api_url kubo_url ''cat'', rq_query = [(''arg'', cid)], rq_body = NoBody,
       rq_timeout = 30000\<rparr>"

definition cat_text :: "('w, 'x) kubo_lib_scheme \<Rightarrow> string \<Rightarrow> string \<Rightarrow> (string, 'w) io" where
  "cat_text K kubo_url cid =
     io_bind (cat_bytes K kubo_url cid) (\<lambda>b.
     io_lift (map_err (\<lambda>e. ''non-utf8 content from '' @ cid @ '': '' @ e) (utf8_decode K b)))"

definition dag_put_cid :: "string \<Rightarrow> dag_put_response \<Rightarrow> string + string" where
  "dag_put_cid body parsed =
     ok_or (case dpr_cid_upper parsed of Some c \<Rightarrow> Some c | None \<Rightarrow> dpr_cid parsed)
       (''missing CID in dag/put response: '' @ body)"

text \<open>The value of \<open>dag_put\<close> is given by its JSON encoding, which may fail.\<close>

definition dag_put :: "('w, 'x) kubo_lib_scheme \<Rightarrow> string \<Rightarrow> string + bytes \<Rightarrow> (string, 'w) io" where
  "dag_put K kubo_url json =
     io_bind (io_lift json) (\<lambda>payload.
     io_bind (file_part K ''node.json'' ''application/json'' payload) (\<lambda>form.
     io_bind (post_text K \<lparr>rq_url = api_url kubo_url ''dag/put'',
       rq_query = [(''store-codec'', ''dag-cbor''), (''input-codec'', ''dag-json''), (''pin'', ''true'')],
       rq_body = form, rq_timeout = 10000\<rparr>) (\<lambda>body.
     io_bind (parse_body ''dag/put'' (json_dag_put K) body) (\<lambda>parsed.
     io_lift (dag_put_cid body parsed)))))"

definition dag_put_cbor :: "('w, 'x) kubo_lib_scheme \<Rightarrow> string \<Rightarrow> bytes \<Rightarrow> bool \<Rightarrow> (string, 'w) io" where
  "dag_put_cbor K kubo_url data pin =
     io_bind (file_part K ''document.cbor'' ''application/octet-stream'' data) (\<lambda>form.
     io_bind (post_text K \<lparr>rq_url = api_url kubo_url ''dag/put'',
       rq_query = [(''store-codec'', ''dag-cbor''), (''input-codec'', ''dag-cbor''),
         (''pin'', bool_text pin)],
       rq_body = form, rq_timeout = 10000\<rparr>) (\<lambda>body.
     io_bind (parse_body ''dag/put'' (json_dag_put K) body) (\<lambda>parsed.
     io_lift (dag_put_cid body parsed))))"

text \<open>The type a DAG node is read as is given by its DAG-CBOR decoder.\<close>

definition dag_get :: "('w, 'x) kubo_lib_scheme \<Rightarrow> (bytes \<Rightarrow> string + 'a) \<Rightarrow> string \<Rightarrow> string \<Rightarrow> ('a, 'w) io" where
  "dag_get K decode kubo_url cid =
     io_bind (post_bytes K \<lparr>rq_url = api_url kubo_url ''dag/get'',
       rq_query = [(''arg'', cid), (''output-codec'', ''dag-cbor'')], rq_body = NoBody,
       rq_timeout = 10000\<rparr>) (\<lambda>b.
     io_lift (map_err (\<lambda>e. ''failed parsing dag/get response for '' @ cid @ '': '' @ e) (decode b)))"

section \<open>Names\<close>

definition publish_params :: "string \<Rightarrow> string \<Rightarrow> ipns_publish_options \<Rightarrow> (string \<times> string) list" where
  "publish_params arg key_name opts =
     [(''arg'', arg), (''key'', key_name), (''allow-offline'', bool_text (po_allow_offline opts)),
      (''lifetime'', po_lifetime opts), (''resolve'', bool_text (po_resolve opts)),
      (''quieter'', bool_text (po_quieter opts))]
     @ (case po_ttl opts of Some ttl \<Rightarrow> [(''ttl'', ttl)] | None \<Rightarrow> [])"

definition name_publish_with_options :: "('w, 'x) kubo_lib_scheme \<Rightarrow> string \<Rightarrow> string \<Rightarrow> string \<Rightarrow>
    ipns_publish_options \<Rightarrow> (string, 'w) io" where
  "name_publish_with_options K kubo_url key_name cid opts =
     io_bind (post_text K \<lparr>rq_url = api_url kubo_url ''name/publish'',
       rq_query = publish_params (normalize_ipfs_arg cid) key_name opts, rq_body = NoBody,
       rq_timeout = po_timeout opts\<rparr>) (\<lambda>body.
     io_bind (parse_body ''name/publish'' (json_name_publish K) body) (\<lambda>parsed.
     let v = or_lower (npr_value_upper parsed) (npr_value_lower parsed) in
     if v = [] then io_lift (Inl (''missing value in name/publish response: '' @ body)) else io_ret v))"

definition name_publish :: "('w, 'x) kubo_lib_scheme \<Rightarrow> string \<Rightarrow> string \<Rightarrow> string \<Rightarrow> (string, 'w) io" where
  "name_publish K kubo_url key_name cid =
     name_publish_with_options K kubo_url key_name cid ipns_publish_default"

definition name_resolve :: "('w, 'x) kubo_lib_scheme \<Rightarrow> string \<Rightarrow> string \<Rightarrow> bool \<Rightarrow> (string, 'w) io" where
  "name_resolve K kubo_url path recursive =
     io_bind (post_text K \<lparr>rq_url = api_url kubo_url ''name/resolve'',
       rq_query = [(''arg'', path), (''recursive'', bool_text recursive)], rq_body = NoBody,
       rq_timeout = 15000\<rparr>) (\<lambda>body.
     io_bind (parse_body ''name/resolve'' (json_name_resolve K) body) (\<lambda>parsed.
     let resolved = or_lower (nrr_path_upper parsed) (nrr_path_lower parsed) in
     if resolved = [] then io_lift (Inl (''missing path in name/resolve response: '' @ body))
     else io_ret resolved))"

definition verify_name_target_after_error :: "('w, 'x) kubo_lib_scheme \<Rightarrow> string \<Rightarrow> string \<Rightarrow> string \<Rightarrow>
    (string, 'w) io" where
  "verify_name_target_after_error K kubo_url ipns_id cid =
     (let expected = normalize_ipfs_arg cid in
      io_bind (name_resolve K kubo_url (''/ipns/'' @ ipns_id) True) (\<lambda>resolved.
      if trim resolved = expected then io_ret resolved
      else io_lift (Inl (''post-error resolve mismatch for IPNS id '' @ quote @ ipns_id @ quote
        @ '': expected '' @ quote @ expected @ quote @ '' got '' @ quote @ resolved @ quote))))"

text \<open>One attempt: a publish that reports an error but took effect counts as done.\<close>

definition publish_attempt :: "('w, 'x) kubo_lib_scheme \<Rightarrow> string \<Rightarrow> string \<Rightarrow> string \<Rightarrow> string \<Rightarrow>
    ipns_publish_options \<Rightarrow> (string, 'w) io" where
  "publish_attempt K kubo_url key_name ipns_id cid opts w =
     (case name_publish_with_options K kubo_url key_name cid opts w of
        (Inr v, w1) \<Rightarrow> (Inr v, w1)
      | (Inl e, w1) \<Rightarrow>
          (case verify_name_target_after_error K kubo_url ipns_id cid w1 of
             (Inr v, w2) \<Rightarrow> (Inr v, w2)
           | (Inl _, w2) \<Rightarrow> (Inl e, w2)))"

fun publish_loop :: "('w, 'x) kubo_lib_scheme \<Rightarrow> string \<Rightarrow> string \<Rightarrow> string \<Rightarrow> string \<Rightarrow>
    ipns_publish_options \<Rightarrow> nat \<Rightarrow> nat \<Rightarrow> nat \<Rightarrow> string option \<Rightarrow> 'w \<Rightarrow>
    (string option + string) \<times> 'w" where
  "publish_loop K url key_name ipns_id cid opts 0 fib_prev fib_curr last_err w = (Inl last_err, w)"
| "publish_loop K url key_name ipns_id cid opts (Suc n) fib_prev fib_curr last_err w =
     (case publish_attempt K url key_name ipns_id cid opts w of
        (Inr v, w1) \<Rightarrow> (Inr v, w1)
      | (Inl e, w1) \<Rightarrow>
          if n = 0 then publish_loop K url key_name ipns_id cid opts n fib_prev fib_curr (Some e) w1
          else publish_loop K url key_name ipns_id cid opts n fib_curr (min (fib_prev + fib_curr) 30000)
                 (Some e) (http_sleep K fib_curr w1))"

definition name_publish_with_retry :: "('w, 'x) kubo_lib_scheme \<Rightarrow> string \<Rightarrow> string \<Rightarrow> string \<Rightarrow>
    string \<Rightarrow> ipns_publish_options \<Rightarrow> u32 \<Rightarrow> nat \<Rightarrow> (string, 'w) io" where
  "name_publish_with_retry K kubo_url key_name ipns_id cid opts attempts initial_backoff w =
     (if attempts = 0 then (Inl ''name publish attempts must be >= 1'', w)
      else case publish_loop K kubo_url key_name ipns_id cid opts (unat attempts) 0 initial_backoff None w of
          (Inr v, w1) \<Rightarrow> (Inr v, w1)
        | (Inl l, w1) \<Rightarrow> (Inl (''name publish failed after '' @ show_nat (unat attempts)
            @ '' attempt(s): '' @ or_unknown l), w1))"

section \<open>Fetching a DID document\<close>

definition should_retry_name_resolve_error :: "string \<Rightarrow> bool" where
  "should_retry_name_resolve_error err =
     (let text = to_ascii_lowercase err in
      if contains_str text ''http status client error'' then False
      else if contains_str text ''missing path in name/resolve response'' then False
      else True)"

definition dag_get_document :: "('w, 'x) kubo_lib_scheme \<Rightarrow> 'y doc_lib_scheme \<Rightarrow> string \<Rightarrow> string \<Rightarrow>
    (document, 'w) io" where
  "dag_get_document K D kubo_url path = dag_get K (document_of_dagcbor D) kubo_url path"

text \<open>
  One round: the document at the IPNS path, or else at the path the name resolves to. The
  round ends with the document, or with an error and whether to go on.
\<close>

definition fetch_round :: "('w, 'x) kubo_lib_scheme \<Rightarrow> 'y doc_lib_scheme \<Rightarrow> string \<Rightarrow> string \<Rightarrow> 'w \<Rightarrow>
    ((string \<times> bool) + document) \<times> 'w" where
  "fetch_round K D kubo_url ipns_path w =
     (case dag_get_document K D kubo_url ipns_path w of
        (Inr d, w1) \<Rightarrow> (Inr d, w1)
      | (Inl dag_err, w1) \<Rightarrow>
          (case name_resolve K kubo_url ipns_path True w1 of
             (Inl resolve_err, w2) \<Rightarrow>
               (Inl (''dag_get and name/resolve both failed for '' @ ipns_path @ '': dag='' @ dag_err
                  @ '' resolve='' @ resolve_err, should_retry_name_resolve_error resolve_err), w2)
           | (Inr resolved_path, w2) \<Rightarrow>
               (case dag_get_document K D kubo_url resolved_path w2 of
                  (Inr d, w3) \<Rightarrow> (Inr d, w3)
                | (Inl err, w3) \<Rightarrow>
                    (Inl (''dag_get failed for '' @ ipns_path @ '': direct='' @ dag_err
                       @ '' resolved='' @ err, True), w3))))"

fun fetch_loop :: "('w, 'x) kubo_lib_scheme \<Rightarrow> 'y doc_lib_scheme \<Rightarrow> string \<Rightarrow> string \<Rightarrow> nat \<Rightarrow> nat \<Rightarrow>
    nat \<Rightarrow> string option \<Rightarrow> 'w \<Rightarrow> (string option + document) \<times> 'w" where
  "fetch_loop K D url path 0 fib_prev fib_curr last_err w = (Inl last_err, w)"
| "fetch_loop K D url path (Suc n) fib_prev fib_curr last_err w =
     (case fetch_round K D url path w of
        (Inr d, w1) \<Rightarrow> (Inr d, w1)
      | (Inl (e, retry), w1) \<Rightarrow>
          if \<not> retry then (Inl (Some e), w1)
          else if n = 0 then fetch_loop K D url path n fib_prev fib_curr (Some e) w1
          else fetch_loop K D url path n fib_curr (min (fib_prev + fib_curr) 2000) (Some e)
                 (http_sleep K fib_curr w1))"

text \<open>The checks on a fetched document.\<close>

definition check_fetched :: "'y doc_lib_scheme \<Rightarrow> did \<Rightarrow> document \<Rightarrow> string + document" where
  "check_fetched D d document =
     bindR (map_err ma_error_display (document_validate D document)) (\<lambda>_.
     bindR (map_err ma_error_display (document_verify D document)) (\<lambda>_.
     bindR (map_err (\<lambda>e. ''DID document has invalid id '' @ quote @ doc_id document @ quote @ '': ''
              @ ma_error_display e) (did_try_from D (doc_id document))) (\<lambda>doc_did.
     if ipns doc_did \<noteq> ipns d
     then Inl (''DID document IPNS mismatch: expected '' @ base_id d @ '' but document id is ''
            @ doc_id document)
     else Inr document)))"

definition fetch_did_document :: "('w, 'x) kubo_lib_scheme \<Rightarrow> 'y doc_lib_scheme \<Rightarrow> string \<Rightarrow> did \<Rightarrow>
    (document, 'w) io" where
  "fetch_did_document K D kubo_url d w =
     (let ipns_path = ''/ipns/'' @ ipns d in
      case fetch_loop K D kubo_url ipns_path 4 0 150 None w of
        (Inl l, w1) \<Rightarrow>
          (Inl (''failed to fetch DID document for '' @ did_id d @ '' via '' @ ipns_path
             @ '' after retries: '' @ or_unknown l), w1)
      | (Inr document, w1) \<Rightarrow> (check_fetched D d document, w1))"

section \<open>Pins\<close>

definition post_ok :: "('w, 'x) http_lib_scheme \<Rightarrow> http_request \<Rightarrow> (unit, 'w) io" where
  "post_ok K rq = io_bind (post_checked K rq) (\<lambda>_. io_ret ())"

context request_invariant begin

lemma keeps_post_ok: "P rq \<Longrightarrow> io_keeps I (post_ok K rq)"
  unfolding post_ok_def by (intro keeps_intros keeps_post_checked)

end

lemma keeps_parse [keeps_intros]: "io_keeps P (parse_body what p body)"
  unfolding parse_body_def by (rule keeps_intros)

definition pin_add_named :: "('w, 'x) kubo_lib_scheme \<Rightarrow> string \<Rightarrow> string \<Rightarrow> string \<Rightarrow> (unit, 'w) io" where
  "pin_add_named K kubo_url cid name =
     post_ok K \<lparr>rq_url = api_url kubo_url ''pin/add'',
       rq_query = [(''arg'', normalize_ipfs_arg cid), (''recursive'', ''true''), (''name'', name)],
       rq_body = NoBody, rq_timeout = 10000\<rparr>"

definition pin_rm :: "('w, 'x) kubo_lib_scheme \<Rightarrow> string \<Rightarrow> string \<Rightarrow> (unit, 'w) io" where
  "pin_rm K kubo_url cid =
     post_ok K \<lparr>rq_url = api_url kubo_url ''pin/rm'',
       rq_query = [(''arg'', normalize_ipfs_arg cid), (''recursive'', ''true'')],
       rq_body = NoBody, rq_timeout = 10000\<rparr>"

text \<open>Kubo's name filter is a partial match; only exact matches are kept.\<close>

definition exact_recursive :: "string \<Rightarrow> (string \<times> pin_list_entry) list \<Rightarrow> string list" where
  "exact_recursive name keys =
     map fst (filter (\<lambda>(cid, pin). ple_type pin = ''recursive'' \<and> ple_name pin = name) keys)"

definition list_named_recursive_pins :: "('w, 'x) kubo_lib_scheme \<Rightarrow> string \<Rightarrow> string \<Rightarrow>
    (string list, 'w) io" where
  "list_named_recursive_pins K kubo_url name =
     io_bind (post_text K \<lparr>rq_url = api_url kubo_url ''pin/ls'',
       rq_query = [(''type'', ''recursive''), (''name'', name), (''names'', ''true'')],
       rq_body = NoBody, rq_timeout = 30000\<rparr>) (\<lambda>body.
     io_bind (parse_body ''pin/ls'' (json_pin_list K) body) (\<lambda>keys.
     io_ret (exact_recursive name keys)))"

text \<open>
  A response of the remote pinning calls: success, or one of the statuses and texts that
  mean the goal is reached already.
\<close>

definition accept_remote :: "('w, 'x) http_lib_scheme \<Rightarrow> nat \<Rightarrow> string list \<Rightarrow> (string \<Rightarrow> string) \<Rightarrow>
    http_response \<Rightarrow> string + unit" where
  "accept_remote K status texts failure rs =
     (if http_is_success K (rs_status rs) then Inr ()
      else let body = text_or_default K rs in
           if rs_status rs = status \<or> list_ex (contains_str body) texts then Inr ()
           else Inl (failure body))"

definition remote_pin_add_named :: "('w, 'x) kubo_lib_scheme \<Rightarrow> string \<Rightarrow> string \<Rightarrow> string \<Rightarrow> string \<Rightarrow>
    (unit, 'w) io" where
  "remote_pin_add_named K kubo_url service cid name =
     io_bind (send_request K \<lparr>rq_url = api_url kubo_url ''pin/remote/add'',
       rq_query = [(''arg'', normalize_ipfs_arg cid), (''service'', service), (''name'', name),
         (''background'', ''true'')],
       rq_body = NoBody, rq_timeout = 30000\<rparr>) (\<lambda>rs.
     io_lift (accept_remote K 409 [''DUPLICATE_OBJECT'', ''already pinned'', ''already exists'']
       (\<lambda>body. ''pin/remote/add '' @ cid @ '' to '' @ service @ '' as '' @ name @ '' failed: '' @ body) rs))"

definition REMOTE_PIN_STATUSES :: "(string \<times> string) list" where
  "REMOTE_PIN_STATUSES =
     [(''status'', ''queued''), (''status'', ''pinning''), (''status'', ''pinned''),
      (''status'', ''failed'')]"

definition remote_pin_rm_query :: "('w, 'x) kubo_lib_scheme \<Rightarrow> string \<Rightarrow> string \<Rightarrow> string \<Rightarrow>
    (string \<times> string) list \<Rightarrow> (unit, 'w) io" where
  "remote_pin_rm_query K kubo_url service cid extra =
     io_bind (send_request K \<lparr>rq_url = api_url kubo_url ''pin/remote/rm'',
       rq_query = [(''service'', service), (''cid'', normalize_cid_arg cid)] @ REMOTE_PIN_STATUSES @ extra,
       rq_body = NoBody, rq_timeout = 30000\<rparr>) (\<lambda>rs.
     io_lift (accept_remote K 404 [''not found'', ''not pinned'']
       (\<lambda>body. ''pin/remote/rm '' @ cid @ '' from '' @ service @ '' failed: '' @ body) rs))"

definition remote_pin_rm :: "('w, 'x) kubo_lib_scheme \<Rightarrow> string \<Rightarrow> string \<Rightarrow> string \<Rightarrow> (unit, 'w) io" where
  "remote_pin_rm K kubo_url service cid = remote_pin_rm_query K kubo_url service cid [(''force'', ''true'')]"

definition remote_pin_rm_named :: "('w, 'x) kubo_lib_scheme \<Rightarrow> string \<Rightarrow> string \<Rightarrow> string \<Rightarrow> string \<Rightarrow>
    (unit, 'w) io" where
  "remote_pin_rm_named K kubo_url service cid name =
     remote_pin_rm_query K kubo_url service cid [(''name'', name), (''force'', ''true'')]"

text \<open>\<open>str::lines\<close>: pieces between line feeds, a carriage return before one is dropped.\<close>

definition drop_cr :: "string \<Rightarrow> string" where
  "drop_cr l = (if l \<noteq> [] \<and> last l = CHR 0x0D then butlast l else l)"

definition str_lines :: "string \<Rightarrow> string list" where
  "str_lines s =
     (let pieces = split_char (CHR 0x0A) s
      in map drop_cr (butlast pieces) @ (if last pieces = [] then [] else [last pieces]))"

fun collect_remote :: "(string \<Rightarrow> string + remote_pin_list_entry) \<Rightarrow> string \<Rightarrow> string list \<Rightarrow>
    string + string list" where
  "collect_remote p name [] = Inr []"
| "collect_remote p name (line # ls) =
     bindR (map_err (\<lambda>e. ''failed parsing pin/remote/ls response line: '' @ e @ '' line='' @ line) (p line))
       (\<lambda>pin.
     let pin_name = or_lower (rple_name_upper pin) (rple_name_lower pin);
         cid = or_lower (rple_cid_upper pin) (rple_cid_lower pin)
     in bindR (collect_remote p name ls) (\<lambda>cids.
        Inr (if pin_name = name \<and> cid \<noteq> [] then cid # cids else cids)))"

definition list_named_remote_pins :: "('w, 'x) kubo_lib_scheme \<Rightarrow> string \<Rightarrow> string \<Rightarrow> string \<Rightarrow>
    (string list, 'w) io" where
  "list_named_remote_pins K kubo_url service name =
     io_bind (post_text K \<lparr>rq_url = api_url kubo_url ''pin/remote/ls'',
       rq_query = [(''service'', service), (''name'', name)] @ REMOTE_PIN_STATUSES,
       rq_body = NoBody, rq_timeout = 30000\<rparr>) (\<lambda>body.
     io_lift (collect_remote (json_remote_pin K) name
       (filter (\<lambda>l. l \<noteq> []) (map trim (str_lines body)))))"

section \<open>Keys\<close>

definition generate_key :: "('w, 'x) kubo_lib_scheme \<Rightarrow> string \<Rightarrow> string \<Rightarrow> (unit, 'w) io" where
  "generate_key K kubo_url key_name =
     post_ok K \<lparr>rq_url = api_url kubo_url ''key/gen'',
       rq_query = [(''arg'', key_name), (''type'', ''ed25519'')], rq_body = NoBody, rq_timeout = 10000\<rparr>"

definition import_key :: "('w, 'x) kubo_lib_scheme \<Rightarrow> string \<Rightarrow> string \<Rightarrow> bytes \<Rightarrow> (kubo_key, 'w) io" where
  "import_key K kubo_url key_name key_bytes =
     io_bind (file_part K ''ipns.key'' ''application/octet-stream'' key_bytes) (\<lambda>form.
     io_bind (post_text K \<lparr>rq_url = api_url kubo_url ''key/import'',
       rq_query = [(''arg'', key_name), (''ipns-base'', ''base36''), (''allow-any-key-type'', ''true'')],
       rq_body = form, rq_timeout = 10000\<rparr>) (\<lambda>body.
     io_bind (parse_body ''key/import'' (json_key_import K) body) (\<lambda>parsed.
     let name = or_lower_trimmed (kir_name_upper parsed) (kir_name_lower parsed);
         i = or_lower_trimmed (kir_id_upper parsed) (kir_id_lower parsed)
     in if name = [] \<or> i = []
        then io_lift (Inl (''missing name/id in key/import response: '' @ body))
        else io_ret \<lparr>kk_name = name, kk_id = i\<rparr>)))"

definition usable_keys :: "key_list_entry list \<Rightarrow> kubo_key list" where
  "usable_keys ks =
     concat (map (\<lambda>k. let name = or_lower_trimmed (kle_name k) (kle_name_lower k);
                         i = or_lower_trimmed (kle_id k) (kle_id_lower k)
                     in if name = [] then [] else [\<lparr>kk_name = name, kk_id = i\<rparr>]) ks)"

definition list_keys :: "('w, 'x) kubo_lib_scheme \<Rightarrow> string \<Rightarrow> (kubo_key list, 'w) io" where
  "list_keys K kubo_url =
     io_bind (post_text K \<lparr>rq_url = api_url kubo_url ''key/list'', rq_query = [], rq_body = NoBody,
       rq_timeout = 10000\<rparr>) (\<lambda>body.
     io_bind (parse_body ''key/list'' (json_key_list K) body) (\<lambda>keys. io_ret (usable_keys keys)))"

definition list_key_names :: "('w, 'x) kubo_lib_scheme \<Rightarrow> string \<Rightarrow> (string list, 'w) io" where
  "list_key_names K kubo_url = io_bind (list_keys K kubo_url) (\<lambda>keys. io_ret (map kk_name keys))"

definition remove_key :: "('w, 'x) kubo_lib_scheme \<Rightarrow> string \<Rightarrow> string \<Rightarrow> (unit, 'w) io" where
  "remove_key K kubo_url key_name =
     post_ok K \<lparr>rq_url = api_url kubo_url ''key/rm'', rq_query = [(''arg'', key_name)],
       rq_body = NoBody, rq_timeout = 10000\<rparr>"

section \<open>Path arguments\<close>

lemma strip_ipfs_prefix [simp]: "strip_ipfs (''/ipfs/'' @ v) = strip_ipfs v"
  by (subst strip_ipfs.simps) (simp del: append.simps)

lemma strip_ipfs_fix: "\<not> prefix ''/ipfs/'' v \<Longrightarrow> strip_ipfs v = v"
  by (subst strip_ipfs.simps) (simp add: strip_prefix_def)

lemma strip_ipfs_suffix: "suffix (strip_ipfs v) v"
proof (induction v rule: strip_ipfs.induct)
  case (1 v)
  show ?case
  proof (cases "strip_prefix v ''/ipfs/''")
    case None
    then show ?thesis by (subst strip_ipfs.simps) simp
  next
    case (Some rest)
    then have v: "v = ''/ipfs/'' @ rest" by simp
    have "suffix (strip_ipfs rest) rest" by (rule 1 [OF Some])
    then show ?thesis unfolding v strip_ipfs_prefix by (rule suffix_appendI)
  qed
qed

lemma normalize_cid_arg_noslash:
  "normalize_cid_arg s = [] \<or> hd (normalize_cid_arg s) \<noteq> CHR ''/''"
  unfolding normalize_cid_arg_def by (rule trim_start_char_hd)

lemma normalize_cid_arg_suffix: "suffix (normalize_cid_arg s) (trim s)"
  unfolding normalize_cid_arg_def
  using suffix_trim_start_char strip_ipfs_suffix by (rule suffix_order.trans)

lemma trimmed_ipfs_path: "trimmed (''/ipfs/'' @ normalize_cid_arg s)"
proof -
  have "match_len (map rev white_space) (rev (normalize_cid_arg s)) = 0"
    by (rule trimmed_back_suffix [OF _ normalize_cid_arg_suffix])
      (use trimmed_trim [of s] in \<open>simp add: trimmed_def\<close>)
  then have "match_len (map rev white_space) (rev (''/ipfs'' @ CHR ''/'' # normalize_cid_arg s)) = 0"
    by (rule match_len_barrier) (simp add: solid_def code_def)
  moreover have "match_len white_space (''/ipfs/'' @ normalize_cid_arg s) = 0"
    by (rule match_len_solid_front) (simp_all add: solid_def code_def)
  ultimately show ?thesis by (simp add: trimmed_def)
qed

lemma no_ipfs_prefix: "v = [] \<or> hd v \<noteq> CHR ''/'' \<Longrightarrow> \<not> prefix ''/ipfs/'' v"
  by (cases v) auto

text \<open>The argument of a publish or pin call is canonical: however a CID is written, with or
  without an \<open>/ipfs/\<close> prefix, once or several times, the normalized path is a fixed point of
  the normalization, it is \<open>/ipfs/\<close> followed by exactly the bare CID that the remote pin
  calls use, and that CID does not start with a slash.\<close>

theorem normalize_arg_canonical:
  "normalize_ipfs_arg s = ''/ipfs/'' @ normalize_cid_arg s
    \<and> normalize_ipfs_arg (normalize_ipfs_arg s) = normalize_ipfs_arg s
    \<and> normalize_cid_arg (normalize_ipfs_arg s) = normalize_cid_arg s
    \<and> (case normalize_cid_arg s of [] \<Rightarrow> True | c # _ \<Rightarrow> c \<noteq> CHR ''/'')"
proof -
  have e: "normalize_ipfs_arg t = ''/ipfs/'' @ normalize_cid_arg t" for t
    by (simp add: normalize_ipfs_arg_def normalize_cid_arg_def)
  have n: "normalize_cid_arg (''/ipfs/'' @ normalize_cid_arg s) = normalize_cid_arg s"
    unfolding normalize_cid_arg_def [of "''/ipfs/'' @ normalize_cid_arg s"]
      trim_trimmed [OF trimmed_ipfs_path] strip_ipfs_prefix
      strip_ipfs_fix [OF no_ipfs_prefix [OF normalize_cid_arg_noslash]]
    by (rule trim_start_char_fix) (rule normalize_cid_arg_noslash)
  have "case normalize_cid_arg s of [] \<Rightarrow> True | c # _ \<Rightarrow> c \<noteq> CHR ''/''"
    using normalize_cid_arg_noslash [of s] by (cases "normalize_cid_arg s") simp_all
  then show ?thesis by (simp only: e n simp_thms)
qed

section \<open>The retry loops\<close>

interpretation readiness: bounded_retry "probe_version K kubo_url" "http_sleep K" 5000
    "wait_loop K kubo_url" for K kubo_url
  by unfold_locales simp_all

interpretation publishing: bounded_retry "publish_attempt K kubo_url key_name ipns_id cid opts"
    "http_sleep K" 30000 "publish_loop K kubo_url key_name ipns_id cid opts"
    for K kubo_url key_name ipns_id cid opts
  by unfold_locales simp_all

text \<open>The daemon is reported ready exactly if one of the given number of probes, each made
  after a sleep when the one before failed, gets a version; with no attempts allowed, or no
  client, it is not.\<close>

theorem wait_for_api_ready:
  "is_ok (fst (wait_for_api K kubo_url attempts w)) =
     (attempts \<noteq> 0 \<and> is_ok (http_build K 6000)
      \<and> \<not> list_all (\<lambda>k. \<not> is_ok (fst (probe_version K kubo_url
           (bounded_retry.before (probe_version K kubo_url) (http_sleep K) 5000 k 0 200 w))))
         [0..<unat attempts])"
proof (cases "http_build K 6000")
  case (Inl e)
  then show ?thesis by (simp add: wait_for_api_def io_bind_def io_lift_def)
next
  case (Inr u)
  have "is_ok (fst (wait_for_api K kubo_url attempts w)) \<longleftrightarrow>
      attempts \<noteq> 0 \<and> is_ok (fst (wait_loop K kubo_url (unat attempts) 0 200 None w))"
    using Inr by (cases "wait_loop K kubo_url (unat attempts) 0 200 None w")
      (auto simp: wait_for_api_def io_bind_def io_lift_def split: sum.splits)
  then show ?thesis
    using Inr readiness.loop_ok_iff [of K kubo_url "unat attempts" 0 200 None w]
    by (auto simp: list_all_iff)
qed

lemma publish_attempt_Inr:
  assumes "publish_attempt K kubo_url key_name ipns_id cid opts w = (Inr v, w')"
  shows "name_publish_with_options K kubo_url key_name cid opts w = (Inr v, w')
    \<or> (\<exists>w2. name_resolve K kubo_url (''/ipns/'' @ ipns_id) True w2 = (Inr v, w')
        \<and> trim v = normalize_ipfs_arg cid)"
  using assms
  by (auto simp: publish_attempt_def verify_name_target_after_error_def Let_def io_simps
      split: prod.splits sum.splits if_splits)

text \<open>C35: Publishing a name with retries reports success only for a value that the daemon
  returned for this very publish, or after the name was seen to resolve to the requested
  CID; and it reports failure only after as many attempts as it was given have all failed.\<close>

theorem name_publish_with_retry_sound:
  "case name_publish_with_retry K kubo_url key_name ipns_id cid opts attempts backoff w of
     (Inr v, w') \<Rightarrow> \<exists>w1. name_publish_with_options K kubo_url key_name cid opts w1 = (Inr v, w')
       \<or> (name_resolve K kubo_url (''/ipns/'' @ ipns_id) True w1 = (Inr v, w')
          \<and> trim v = normalize_ipfs_arg cid)
   | (Inl e, w') \<Rightarrow> list_all (\<lambda>k. \<not> is_ok (fst (publish_attempt K kubo_url key_name ipns_id cid opts
         (bounded_retry.before (publish_attempt K kubo_url key_name ipns_id cid opts)
            (http_sleep K) 30000 k 0 backoff w)))) [0..<unat attempts]"
proof (cases "attempts = 0")
  case True
  then show ?thesis by (simp add: name_publish_with_retry_def)
next
  case False
  obtain r w' where l: "publish_loop K kubo_url key_name ipns_id cid opts (unat attempts) 0 backoff None w = (r, w')"
    by (cases "publish_loop K kubo_url key_name ipns_id cid opts (unat attempts) 0 backoff None w")
  show ?thesis
  proof (cases r)
    case (Inl e)
    have "\<forall>k<unat attempts. \<not> is_ok (fst (publish_attempt K kubo_url key_name ipns_id cid opts
         (bounded_retry.before (publish_attempt K kubo_url key_name ipns_id cid opts)
            (http_sleep K) 30000 k 0 backoff w)))"
      using publishing.loop_Inl [OF l [unfolded Inl]] by (rule conjunct1)
    moreover have "name_publish_with_retry K kubo_url key_name ipns_id cid opts attempts backoff w =
        (Inl (''name publish failed after '' @ show_nat (unat attempts)
            @ '' attempt(s): '' @ or_unknown e), w')"
      using False by (simp add: name_publish_with_retry_def l Inl)
    ultimately show ?thesis by (simp only: prod.case sum.case list_all_iff set_upt) simp
  next
    case (Inr v)
    then obtain k where k: "publish_attempt K kubo_url key_name ipns_id cid opts
        (bounded_retry.before (publish_attempt K kubo_url key_name ipns_id cid opts)
           (http_sleep K) 30000 k 0 backoff w) = (Inr v, w')"
      using publishing.loop_Inr [THEN iffD1, OF l [unfolded Inr]] by blast
    have "name_publish_with_retry K kubo_url key_name ipns_id cid opts attempts backoff w = (Inr v, w')"
      using False by (simp add: name_publish_with_retry_def l Inr)
    then show ?thesis using publish_attempt_Inr [OF k] by (simp only: prod.case sum.case) blast
  qed
qed

section \<open>Fetched documents\<close>

lemma check_fetched_Inr:
  assumes "check_fetched D d document = Inr x"
  shows "x = document \<and> document_validate D document = Inr () \<and> document_verify D document = Inr ()
    \<and> doc_id document = base_id d"
proof -
  have c: "document_validate D document = Inr ()" "document_verify D document = Inr ()"
    "x = document"
    using assms by (auto simp: check_fetched_def result_simps split: if_splits)
  obtain d1 where d1: "did_try_from D (doc_id document) = Inr d1" "ipns d1 = ipns d"
    using assms by (auto simp: check_fetched_def result_simps split: if_splits)
  obtain d2 where "did_try_from D (doc_id document) = Inr d2" "fragment d2 = None"
    using c(1) by (auto simp: document_validate_def validate_bare_did_def result_simps)
  then have "fragment d1 = None" using d1(1) by simp
  moreover have "did_id d1 = doc_id document"
    using d1(1) parse_sound by (auto simp: did_try_from_def result_simps split: prod.splits)
  ultimately have "doc_id document = base_id d"
    using d1(2) by (auto simp: did_id_def base_id_def)
  then show ?thesis using c by simp
qed

lemma fetch_did_document_checked:
  assumes "fetch_did_document K D kubo_url d w = (Inr document, w')"
  shows "document_validate D document = Inr () \<and> document_verify D document = Inr ()
    \<and> doc_id document = base_id d"
  using assms check_fetched_Inr [of D d]
  by (auto simp: fetch_did_document_def Let_def split: prod.splits sum.splits)

section \<open>A scripted daemon\<close>

text \<open>
  A daemon that answers the requests in turn from a list and refuses connections when it is
  exhausted. Statuses and bodies are as scripted; a JSON body is its one interesting field.
\<close>

type_synonym demo_daemon = "http_response list"

definition demo_status_error :: "nat \<Rightarrow> string option" where
  "demo_status_error s =
     (if 400 \<le> s \<and> s < 500 then Some ''HTTP status client error''
      else if 500 \<le> s \<and> s < 600 then Some ''HTTP status server error'' else None)"

definition demo_kubo :: "demo_daemon kubo_lib" where
  "demo_kubo =
     \<lparr>http_build = (\<lambda>_. Inr ()), http_mime = (\<lambda>_. Inr ()),
      http_send = (\<lambda>_ w. case w of [] \<Rightarrow> (Inl ''connection refused'', []) | r # rs \<Rightarrow> (Inr r, rs)),
      http_text = of_bytes,
      http_status_error = (\<lambda>_. demo_status_error),
      http_is_success = (\<lambda>s. 200 \<le> s \<and> s < 300),
      http_sleep = (\<lambda>_ w. w),
      json_add = (\<lambda>b. Inr \<lparr>add_hash = b\<rparr>),
      json_dag_put = (\<lambda>b. Inr \<lparr>dpr_cid_upper = Some b, dpr_cid = None\<rparr>),
      json_name_publish = (\<lambda>b. Inr \<lparr>npr_value_upper = b, npr_value_lower = []\<rparr>),
      json_name_resolve = (\<lambda>b. Inr \<lparr>nrr_path_upper = b, nrr_path_lower = []\<rparr>),
      json_version = (\<lambda>b. Inr \<lparr>ver_upper = b, ver_lower = []\<rparr>),
      json_key_list = (\<lambda>b. Inr []),
      json_key_import = (\<lambda>b. Inr \<lparr>kir_name_upper = b, kir_name_lower = [], kir_id_upper = b, kir_id_lower = []\<rparr>),
      json_pin_list = (\<lambda>b. Inr (if b = [] then []
        else [(b, \<lparr>ple_type = ''recursive'', ple_name = ''site''\<rparr>)])),
      json_remote_pin = (\<lambda>b. Inl ''eof''),
      utf8_decode = (\<lambda>b. Inr (of_bytes b))\<rparr>"

lemma demo_http_laws: "http_laws demo_kubo"
  by (auto simp: http_laws_def demo_kubo_def demo_status_error_def split: if_splits)

text \<open>The daemon serves one document, at the first request.\<close>

definition serving :: "bytes \<Rightarrow> demo_daemon" where
  "serving b = [\<lparr>rs_status = 200, rs_content = Inr b\<rparr>]"

lemma demo_dag_get:
  "dag_get demo_kubo decode url path (serving b) =
     (map_err (\<lambda>e. ''failed parsing dag/get response for '' @ path @ '': '' @ e) (decode b), [])"
  by (simp add: dag_get_def post_bytes_def post_checked_def send_request_def io_bind_def io_lift_def
      error_for_status_def demo_kubo_def serving_def demo_status_error_def)

end
