(* ===== verification/Pinning.thy ===== *)
theory Pinning
  imports Kubo
begin

text \<open>
  Background cleanup of named pins (\<^verbatim>\<open>kubo/pinning.rs\<close>): the passes that remove stale
  pins, as effects against the Kubo daemon, and the bounded scheduler with its one worker, as
  a step relation over the atomic sections of the code. The safety of the passes is stated on
  the requests they send, which a wrapper of the HTTP client records.
\<close>

section \<open>Requests and keys\<close>

definition IN_FLIGHT_SUFFIX :: string where "IN_FLIGHT_SUFFIX = ''~new''"
definition DEFAULT_QUEUE_CAPACITY :: nat where "DEFAULT_QUEUE_CAPACITY = 64"
definition CLEANUP_YIELD :: nat where "CLEANUP_YIELD = 100"

definition in_flight_pin_name :: "string \<Rightarrow> string" where
  "in_flight_pin_name name = name @ IN_FLIGHT_SUFFIX"

definition stale_pins :: "string list \<Rightarrow> string \<Rightarrow> string list" where
  "stale_pins pins protected_cid = filter (\<lambda>cid. cid \<noteq> protected_cid) pins"

record pin_cleanup_request =
  pcr_kubo_url :: string
  pcr_name :: string
  pcr_protected_cid :: string
  pcr_cleanup_local :: bool
  pcr_remote_service :: "string option"

text \<open>The hand-written equality and hash of the key are on all its fields.\<close>

record pin_cleanup_key =
  pck_kubo_url :: string
  pck_name :: string
  pck_cleanup_local :: bool
  pck_remote_service :: "string option"

definition key_of :: "pin_cleanup_request \<Rightarrow> pin_cleanup_key" where
  "key_of r = \<lparr>pck_kubo_url = pcr_kubo_url r, pck_name = pcr_name r,
     pck_cleanup_local = pcr_cleanup_local r, pck_remote_service = pcr_remote_service r\<rparr>"

section \<open>The passes\<close>

text \<open>\<open>for x in xs { match f(x).await { Ok(()) => removed_any = true, Err(..) => warn } }\<close>.\<close>

fun remove_each :: "('a \<Rightarrow> (unit, 'w) io) \<Rightarrow> 'a list \<Rightarrow> bool \<Rightarrow> 'w \<Rightarrow> bool \<times> 'w" where
  "remove_each f [] removed_any w = (removed_any, w)"
| "remove_each f (x # xs) removed_any w =
     (case f x w of
        (Inr _, w1) \<Rightarrow> remove_each f xs True w1
      | (Inl _, w1) \<Rightarrow> remove_each f xs removed_any w1)"

definition cleanup_local_pass :: "('w, 'x) kubo_lib_scheme \<Rightarrow> pin_cleanup_request \<Rightarrow> 'w \<Rightarrow> bool \<times> 'w" where
  "cleanup_local_pass K r w =
     (case list_named_recursive_pins K (pcr_kubo_url r) (pcr_name r) w of
        (Inl _, w1) \<Rightarrow> (False, w1)
      | (Inr final_pins, w1) \<Rightarrow>
     (case list_named_recursive_pins K (pcr_kubo_url r) (in_flight_pin_name (pcr_name r)) w1 of
        (Inl _, w2) \<Rightarrow> (False, w2)
      | (Inr temp_pins, w2) \<Rightarrow>
          (let stale = stale_pins (final_pins @ temp_pins) (pcr_protected_cid r) in
           if stale \<noteq> [] then remove_each (pin_rm K (pcr_kubo_url r)) stale False w2
           else if \<not> list_ex (\<lambda>cid. cid = pcr_protected_cid r) final_pins
           then (False, snd (pin_add_named K (pcr_kubo_url r) (pcr_protected_cid r) (pcr_name r) w2))
           else (False, w2))))"

definition cleanup_remote_pass :: "('w, 'x) kubo_lib_scheme \<Rightarrow> pin_cleanup_request \<Rightarrow> 'w \<Rightarrow> bool \<times> 'w" where
  "cleanup_remote_pass K r w =
     (case pcr_remote_service r of None \<Rightarrow> (False, w) | Some service \<Rightarrow>
     (let url = pcr_kubo_url r; cid = pcr_protected_cid r; temp_name = in_flight_pin_name (pcr_name r) in
      case list_named_remote_pins K url service (pcr_name r) w of
        (Inl _, w1) \<Rightarrow> (False, w1)
      | (Inr final_pins, w1) \<Rightarrow>
     (case list_named_remote_pins K url service temp_name w1 of
        (Inl _, w2) \<Rightarrow> (False, w2)
      | (Inr temp_pins, w2) \<Rightarrow>
          (let stale_final = stale_pins final_pins cid; stale_temp = stale_pins temp_pins cid in
           if stale_final \<noteq> [] \<or> stale_temp \<noteq> []
           then remove_each (\<lambda>(c, n). remote_pin_rm_named K url service c n)
                  (map (\<lambda>c. (c, pcr_name r)) stale_final @ map (\<lambda>c. (c, temp_name)) stale_temp) False w2
           else if list_ex (\<lambda>c. c = cid) temp_pins
           then if \<not> list_ex (\<lambda>c. c = cid) final_pins
                then case remote_pin_rm_named K url service cid temp_name w2 of
                       (Inl _, w3) \<Rightarrow> (False, w3)
                     | (Inr _, w3) \<Rightarrow> (False, snd (remote_pin_add_named K url service cid (pcr_name r) w3))
                else (False, snd (remote_pin_rm_named K url service cid temp_name w2))
           else (False, w2)))))"

definition cleanup_one_batch :: "('w, 'x) kubo_lib_scheme \<Rightarrow> pin_cleanup_request \<Rightarrow> 'w \<Rightarrow> bool \<times> 'w" where
  "cleanup_one_batch K r w =
     (let (local_more, w1) = (if pcr_cleanup_local r then cleanup_local_pass K r w else (False, w));
          (remote_more, w2) = (if pcr_remote_service r \<noteq> None then cleanup_remote_pass K r w1 else (False, w1))
      in (local_more \<or> remote_more, w2))"

section \<open>The scheduler\<close>

text \<open>
  The worker between two of its atomic sections: waiting for a wake-up, holding a received key,
  running a batch, or about to wake itself after the yield.
\<close>

datatype worker =
    Idle
  | Received pin_cleanup_key
  | Running pin_cleanup_key pin_cleanup_request
  | Yielding pin_cleanup_key

record scheduler =
  sc_pending :: "pin_cleanup_key \<Rightarrow> pin_cleanup_request option"
  sc_queue :: "pin_cleanup_key list"
  sc_capacity :: nat
  sc_worker :: worker

definition with_capacity :: "nat \<Rightarrow> scheduler" where
  "with_capacity capacity =
     \<lparr>sc_pending = Map.empty, sc_queue = [], sc_capacity = max capacity 1, sc_worker = Idle\<rparr>"

definition scheduler_new :: scheduler where
  "scheduler_new = with_capacity DEFAULT_QUEUE_CAPACITY"

text \<open>The process-wide scheduler: a \<open>OnceLock\<close>, filled at its first use.\<close>

definition scheduler_global :: "scheduler option \<Rightarrow> scheduler" where
  "scheduler_global cell = (case cell of Some s \<Rightarrow> s | None \<Rightarrow> scheduler_new)"

text \<open>\<open>mpsc::Sender::try_send\<close>: fails when the channel is full; the receiver lives as long as
  the worker, which never ends because it holds a sender.\<close>

definition try_send :: "pin_cleanup_key \<Rightarrow> scheduler \<Rightarrow> scheduler option" where
  "try_send k s =
     (if length (sc_queue s) < sc_capacity s then Some (s\<lparr>sc_queue := sc_queue s @ [k]\<rparr>) else None)"

definition schedule :: "pin_cleanup_request \<Rightarrow> scheduler \<Rightarrow> bool \<times> scheduler" where
  "schedule r s =
     (let k = key_of r in
      if sc_pending s k \<noteq> None then (True, s\<lparr>sc_pending := (sc_pending s)(k \<mapsto> r)\<rparr>)
      else case try_send k s of
          Some s1 \<Rightarrow> (True, s1\<lparr>sc_pending := (sc_pending s1)(k \<mapsto> r)\<rparr>)
        | None \<Rightarrow> (False, s))"

definition delete_local_pins_named_in_background :: "string \<Rightarrow> string \<Rightarrow> string \<Rightarrow> scheduler \<Rightarrow>
    bool \<times> scheduler" where
  "delete_local_pins_named_in_background kubo_url name protected_cid =
     schedule \<lparr>pcr_kubo_url = kubo_url, pcr_name = name, pcr_protected_cid = protected_cid,
       pcr_cleanup_local = True, pcr_remote_service = None\<rparr>"

definition delete_remote_pins_named_in_background :: "string \<Rightarrow> string \<Rightarrow> string \<Rightarrow> string \<Rightarrow>
    scheduler \<Rightarrow> bool \<times> scheduler" where
  "delete_remote_pins_named_in_background kubo_url service name protected_cid =
     schedule \<lparr>pcr_kubo_url = kubo_url, pcr_name = name, pcr_protected_cid = protected_cid,
       pcr_cleanup_local = False, pcr_remote_service = Some service\<rparr>"

definition remote_pin_replace_named :: "('w, 'x) kubo_lib_scheme \<Rightarrow> string \<Rightarrow> string \<Rightarrow> string \<Rightarrow>
    string \<Rightarrow> bool \<Rightarrow> scheduler \<times> 'w \<Rightarrow> (string + bool) \<times> scheduler \<times> 'w" where
  "remote_pin_replace_named K kubo_url service name cid overwrite sw =
     (case remote_pin_add_named K kubo_url service cid name (snd sw) of
        (Inl e, w1) \<Rightarrow> (Inl e, fst sw, w1)
      | (Inr _, w1) \<Rightarrow>
          if overwrite
          then let (b, s1) = delete_remote_pins_named_in_background kubo_url service name cid (fst sw)
               in (Inr b, s1, w1)
          else (Inr False, fst sw, w1))"

text \<open>The steps of callers and of the worker. Whether a batch wants another is up to Kubo.\<close>

inductive sched_step :: "scheduler \<Rightarrow> scheduler \<Rightarrow> bool" where
  call_schedule: "sched_step s (snd (schedule r s))"
| recv: "sc_worker s = Idle \<Longrightarrow> sc_queue s = k # q \<Longrightarrow>
    sched_step s (s\<lparr>sc_queue := q, sc_worker := Received k\<rparr>)"
| take_none: "sc_worker s = Received k \<Longrightarrow> sc_pending s k = None \<Longrightarrow>
    sched_step s (s\<lparr>sc_worker := Idle\<rparr>)"
| take_some: "sc_worker s = Received k \<Longrightarrow> sc_pending s k = Some r \<Longrightarrow>
    sched_step s (s\<lparr>sc_pending := (sc_pending s)(k := None), sc_worker := Running k r\<rparr>)"
| batch_done: "sc_worker s = Running k r \<Longrightarrow> sched_step s (s\<lparr>sc_worker := Idle\<rparr>)"
| superseded: "sc_worker s = Running k r \<Longrightarrow> sc_pending s k \<noteq> None \<Longrightarrow>
    sched_step s (s\<lparr>sc_worker := Idle\<rparr>)"
| requeue: "sc_worker s = Running k r \<Longrightarrow> sc_pending s k = None \<Longrightarrow>
    sched_step s (s\<lparr>sc_pending := (sc_pending s)(k \<mapsto> r), sc_worker := Yielding k\<rparr>)"
| wake: "sc_worker s = Yielding k \<Longrightarrow> try_send k s = Some s1 \<Longrightarrow>
    sched_step s (s1\<lparr>sc_worker := Idle\<rparr>)"
| wake_dropped: "sc_worker s = Yielding k \<Longrightarrow> try_send k s = None \<Longrightarrow>
    sched_step s (s\<lparr>sc_worker := Idle\<rparr>)"

inductive sched_reachable :: "nat \<Rightarrow> scheduler \<Rightarrow> bool" for capacity where
  start: "sched_reachable capacity (with_capacity capacity)"
| step: "sched_reachable capacity s \<Longrightarrow> sched_step s s' \<Longrightarrow> sched_reachable capacity s'"

inductive_cases sched_stepE: "sched_step s s'"

section \<open>The queue\<close>

fun held_key :: "worker \<Rightarrow> pin_cleanup_key list" where
  "held_key (Received k) = [k]"
| "held_key (Yielding k) = [k]"
| "held_key _ = []"

definition sched_inv :: "scheduler \<Rightarrow> bool" where
  "sched_inv s \<longleftrightarrow> distinct (held_key (sc_worker s) @ sc_queue s)
     \<and> (\<forall>k\<in>set (held_key (sc_worker s) @ sc_queue s). sc_pending s k \<noteq> None)
     \<and> length (sc_queue s) \<le> sc_capacity s \<and> 1 \<le> sc_capacity s"

lemma schedule_waiting:
  "sc_pending s (key_of r) \<noteq> None \<Longrightarrow>
     schedule r s = (True, s\<lparr>sc_pending := (sc_pending s)(key_of r \<mapsto> r)\<rparr>)"
  by (simp add: schedule_def Let_def)

lemma schedule_push:
  "sc_pending s (key_of r) = None \<Longrightarrow> length (sc_queue s) < sc_capacity s \<Longrightarrow>
     schedule r s = (True, s\<lparr>sc_pending := (sc_pending s)(key_of r \<mapsto> r),
       sc_queue := sc_queue s @ [key_of r]\<rparr>)"
  by (simp add: schedule_def try_send_def Let_def)

lemma schedule_full:
  "sc_pending s (key_of r) = None \<Longrightarrow> \<not> length (sc_queue s) < sc_capacity s \<Longrightarrow>
     schedule r s = (False, s)"
  by (simp add: schedule_def try_send_def Let_def)

lemma sched_inv_schedule:
  assumes "sched_inv s"
  shows "sched_inv (snd (schedule r s))"
proof (cases "sc_pending s (key_of r)")
  case (Some r0)
  then show ?thesis using assms by (auto simp: schedule_waiting sched_inv_def)
next
  case None
  then have "key_of r \<notin> set (held_key (sc_worker s) @ sc_queue s)"
    using assms unfolding sched_inv_def by metis
  then show ?thesis using assms None
    by (cases "length (sc_queue s) < sc_capacity s")
      (auto simp: schedule_push schedule_full sched_inv_def)
qed

lemma schedule_cases:
  obtains "sc_pending s (key_of r) \<noteq> None"
      "schedule r s = (True, s\<lparr>sc_pending := (sc_pending s)(key_of r \<mapsto> r)\<rparr>)"
  | "sc_pending s (key_of r) = None"
      "schedule r s = (True, s\<lparr>sc_pending := (sc_pending s)(key_of r \<mapsto> r),
        sc_queue := sc_queue s @ [key_of r]\<rparr>)"
  | "sc_pending s (key_of r) = None" "schedule r s = (False, s)"
  using schedule_waiting schedule_push schedule_full by blast

lemma sched_inv_step:
  assumes "sched_inv s" and "sched_step s s'"
  shows "sched_inv s'"
  using assms(2)
proof cases
  case (call_schedule r)
  then show ?thesis using assms(1) by (simp add: sched_inv_schedule)
next
  case (requeue k r)
  then have "k \<notin> set (sc_queue s)" using assms(1) by (auto simp: sched_inv_def)
  then show ?thesis using assms(1) requeue by (auto simp: sched_inv_def)
next
  case (wake k s1)
  then show ?thesis using assms(1) by (auto simp: sched_inv_def try_send_def split: if_splits)
qed (use assms(1) in \<open>auto simp: sched_inv_def\<close>)

lemma sched_reachable_inv: "sched_reachable capacity s \<Longrightarrow> sched_inv s"
proof (induction rule: sched_reachable.induct)
  case start
  show ?case by (simp add: sched_inv_def with_capacity_def)
next
  case (step s s')
  show ?case by (rule sched_inv_step [OF step.IH step.hyps(2)])
qed

lemma sched_capacity: "sched_reachable capacity s \<Longrightarrow> sc_capacity s = max capacity 1"
proof (induction rule: sched_reachable.induct)
  case (step s s')
  have "sc_capacity (snd (schedule r s)) = sc_capacity s" for r
    by (rule schedule_cases [of s r]) simp_all
  then show ?case using step.hyps(2) step.IH
    by (elim sched_stepE) (auto simp: try_send_def split: if_splits)
qed (simp add: with_capacity_def)

text \<open>C34: However calls and the worker interleave, the scheduler stays bounded and never queues
  the same cleanup twice: the queue is no longer than its capacity, a key is in it or with
  the worker at most once, every queued key has its request waiting, and a request for a
  key that waits already replaces the waiting one without a second wake-up.\<close>

theorem scheduler_coalesces:
  assumes "sched_reachable capacity s"
  shows "length (sc_queue s) \<le> max capacity 1
    \<and> distinct (held_key (sc_worker s) @ sc_queue s)
    \<and> list_all (\<lambda>k. sc_pending s k \<noteq> None) (held_key (sc_worker s) @ sc_queue s)
    \<and> (sc_pending s (key_of r) \<noteq> None \<longrightarrow>
         schedule r s = (True, s\<lparr>sc_pending := (sc_pending s)(key_of r \<mapsto> r)\<rparr>))"
proof -
  show ?thesis using sched_reachable_inv [OF assms] sched_capacity [OF assms]
    by (auto simp: sched_inv_def list_all_iff schedule_waiting)
qed

section \<open>Lost wake-ups\<close>

text \<open>
  A key whose request waits although nothing will ever take it: it is not in the queue and
  not with the worker.
\<close>

definition stuck :: "pin_cleanup_key \<Rightarrow> scheduler \<Rightarrow> bool" where
  "stuck k s \<longleftrightarrow> sc_pending s k \<noteq> None \<and> k \<notin> set (sc_queue s)
     \<and> (case sc_worker s of Idle \<Rightarrow> True | Received j \<Rightarrow> j \<noteq> k | Running j _ \<Rightarrow> j \<noteq> k
        | Yielding j \<Rightarrow> j \<noteq> k)"

lemma stuck_schedule: "stuck k s \<Longrightarrow> stuck k (snd (schedule r s))"
  by (rule schedule_cases [of s r]) (auto simp: stuck_def)

lemma stuck_step:
  assumes "sched_step s s'" and "stuck k s"
  shows "stuck k s'"
  using assms(1)
proof cases
  case (call_schedule r)
  then show ?thesis using assms(2) by (simp add: stuck_schedule)
next
  case (wake j s1)
  then show ?thesis using assms(2) by (auto simp: stuck_def try_send_def split: if_splits)
qed (use assms(2) in \<open>auto simp: stuck_def split: worker.splits\<close>)

text \<open>A stuck key stays stuck: whatever callers and the worker do, its cleanup never runs
  again, while every request to schedule it is answered with success.\<close>

theorem stuck_forever:
  assumes "stuck k s" and "sched_step\<^sup>*\<^sup>* s s'" and "key_of r = k"
  shows "stuck k s' \<and> fst (schedule r s')"
proof -
  have "stuck k s'" using assms(2,1) by (induction rule: rtranclp_induct) (auto intro: stuck_step)
  then show ?thesis using assms(3) by (auto simp: stuck_def schedule_waiting)
qed


lemma stuck_reachable:
  assumes "key_of r \<noteq> key_of q"
  shows "\<exists>s. sched_reachable 1 s \<and> stuck (key_of r) s"
proof -
  let ?k = "key_of r" and ?j = "key_of q"
  define s0 where "s0 = with_capacity 1"
  define s1 where "s1 = snd (schedule r s0)"
  define s2 where "s2 = s1\<lparr>sc_queue := [], sc_worker := Received ?k\<rparr>"
  define s3 where "s3 = s2\<lparr>sc_pending := (sc_pending s2)(?k := None), sc_worker := Running ?k r\<rparr>"
  define s4 where "s4 = snd (schedule q s3)"
  define s5 where "s5 = s4\<lparr>sc_pending := (sc_pending s4)(?k \<mapsto> r), sc_worker := Yielding ?k\<rparr>"
  define s6 where "s6 = s5\<lparr>sc_worker := Idle\<rparr>"
  have e1: "s1 = \<lparr>sc_pending = [?k \<mapsto> r], sc_queue = [?k], sc_capacity = 1, sc_worker = Idle\<rparr>"
    by (simp add: s1_def s0_def with_capacity_def schedule_def try_send_def Let_def)
  have e3: "s3 = \<lparr>sc_pending = Map.empty, sc_queue = [], sc_capacity = 1, sc_worker = Running ?k r\<rparr>"
    by (simp add: s3_def s2_def e1)
  have e4: "s4 = \<lparr>sc_pending = [?j \<mapsto> q], sc_queue = [?j], sc_capacity = 1, sc_worker = Running ?k r\<rparr>"
    by (simp add: s4_def e3 schedule_def try_send_def Let_def)
  have "sched_reachable 1 s0" unfolding s0_def by (rule sched_reachable.start)
  then have "sched_reachable 1 s1" unfolding s1_def
    by (rule sched_reachable.step) (rule sched_step.call_schedule)
  then have "sched_reachable 1 s2" unfolding s2_def
    by (rule sched_reachable.step) (rule sched_step.recv, simp_all add: e1)
  then have "sched_reachable 1 s3" unfolding s3_def
    by (rule sched_reachable.step) (rule sched_step.take_some, simp_all add: s2_def e1)
  then have "sched_reachable 1 s4" unfolding s4_def
    by (rule sched_reachable.step) (rule sched_step.call_schedule)
  then have "sched_reachable 1 s5" unfolding s5_def
    by (rule sched_reachable.step) (rule sched_step.requeue, use assms in \<open>simp_all add: e4\<close>)
  then have "sched_reachable 1 s6" unfolding s6_def
    by (rule sched_reachable.step) (rule sched_step.wake_dropped, simp_all add: s5_def e4 try_send_def)
  moreover have "stuck ?k s6" using assms by (simp add: stuck_def s6_def s5_def e4)
  ultimately show ?thesis by blast
qed

section \<open>What the passes remove\<close>

text \<open>A client that behaves as \<open>K\<close> does and records the requests it sends.\<close>

definition logged :: "('w, 'x) kubo_lib_scheme \<Rightarrow> ('w \<times> http_request list) kubo_lib" where
  "logged K =
     \<lparr>http_build = http_build K, http_mime = http_mime K,
      http_send = (\<lambda>rq (w, l). let (r, w1) = http_send K rq w in (r, w1, l @ [rq])),
      http_text = http_text K, http_status_error = http_status_error K,
      http_is_success = http_is_success K, http_sleep = (\<lambda>n (w, l). (http_sleep K n w, l)),
      json_add = json_add K, json_dag_put = json_dag_put K, json_name_publish = json_name_publish K,
      json_name_resolve = json_name_resolve K, json_version = json_version K,
      json_key_list = json_key_list K, json_key_import = json_key_import K,
      json_pin_list = json_pin_list K, json_remote_pin = json_remote_pin K,
      utf8_decode = utf8_decode K\<rparr>"

interpretation logged: request_invariant "logged K" P "\<lambda>w. list_all P (snd w)" for K P
  by unfold_locales (auto simp: logged_def Let_def split: prod.split)

lemma keeps_remove_each:
  assumes "\<And>x. x \<in> set xs \<Longrightarrow> io_keeps I (f x)"
  shows "io_keeps I (remove_each f xs b)"
proof -
  have "I w \<Longrightarrow> I (snd (remove_each f xs b w))" for w
    using assms
  proof (induction xs arbitrary: b w)
    case (Cons x xs)
    obtain r w1 where f: "f x w = (r, w1)" by (cases "f x w")
    have "I w1" using keeps_runD [OF Cons.prems(2) [of x] Cons.prems(1)] f by simp
    then show ?case using f Cons.IH Cons.prems(2) by (cases r) simp_all
  qed simp
  then show ?thesis by (simp add: io_keeps_def)
qed

text \<open>
  A CID in the form the daemon prints it, and the listings of a daemon that prints CIDs so.
\<close>

definition canonical_cid :: "string \<Rightarrow> bool" where
  "canonical_cid c \<longleftrightarrow> normalize_cid_arg c = c"

definition canonical_listings :: "('w, 'x) kubo_lib_scheme \<Rightarrow> bool" where
  "canonical_listings K \<longleftrightarrow>
     (\<forall>b ks. json_pin_list K b = Inr ks \<longrightarrow> list_all (\<lambda>(c, _). canonical_cid c) ks)
   \<and> (\<forall>l p. json_remote_pin K l = Inr p \<longrightarrow>
        canonical_cid (or_lower (rple_cid_upper p) (rple_cid_lower p)))"

text \<open>
  A request of a cleanup that spares the protected CID: it goes to the pin endpoints of the
  daemon, no local removal names the CID, and a remote removal of it is one of its record
  under the in-flight name.
\<close>

definition pin_endpoints :: "string set" where
  "pin_endpoints = {''pin/ls'', ''pin/rm'', ''pin/add'', ''pin/remote/ls'', ''pin/remote/rm'', ''pin/remote/add''}"

definition spares_protected :: "pin_cleanup_request \<Rightarrow> http_request \<Rightarrow> bool" where
  "spares_protected r rq \<longleftrightarrow>
     (\<exists>ep\<in>pin_endpoints. rq_url rq = api_url (pcr_kubo_url r) ep)
   \<and> (rq_url rq = api_url (pcr_kubo_url r) ''pin/rm'' \<longrightarrow>
        (''arg'', normalize_ipfs_arg (pcr_protected_cid r)) \<notin> set (rq_query rq))
   \<and> (rq_url rq = api_url (pcr_kubo_url r) ''pin/remote/rm'' \<longrightarrow>
        (''cid'', pcr_protected_cid r) \<in> set (rq_query rq) \<longrightarrow>
        (''name'', in_flight_pin_name (pcr_name r)) \<in> set (rq_query rq))"

lemma api_url_eq [simp]: "api_url u a = api_url u b \<longleftrightarrow> a = b"
  by (simp add: api_url_def)

text \<open>The requests of the passes, one call at a time.\<close>

lemma listed_recursive:
  assumes "request_invariant K (spares_protected r) I"
  shows "io_keeps I (list_named_recursive_pins K (pcr_kubo_url r) n)"
  unfolding list_named_recursive_pins_def
  by (intro keeps_intros request_invariant.keeps_post_text [OF assms]) (simp add: spares_protected_def pin_endpoints_def)

lemma listed_remote:
  assumes "request_invariant K (spares_protected r) I"
  shows "io_keeps I (list_named_remote_pins K (pcr_kubo_url r) service n)"
  unfolding list_named_remote_pins_def
  by (intro keeps_intros request_invariant.keeps_post_text [OF assms]) (simp add: spares_protected_def pin_endpoints_def)

lemma sent_pin_add:
  assumes "request_invariant K (spares_protected r) I"
  shows "io_keeps I (pin_add_named K (pcr_kubo_url r) c n)"
  unfolding pin_add_named_def
  by (intro request_invariant.keeps_post_ok [OF assms]) (simp add: spares_protected_def pin_endpoints_def)

lemma sent_remote_add:
  assumes "request_invariant K (spares_protected r) I"
  shows "io_keeps I (remote_pin_add_named K (pcr_kubo_url r) service c n)"
  unfolding remote_pin_add_named_def
  by (intro keeps_intros request_invariant.keeps_send_request [OF assms]) (simp add: spares_protected_def pin_endpoints_def)

lemma canonical_path: "canonical_cid c \<Longrightarrow> normalize_ipfs_arg c = ''/ipfs/'' @ c"
  by (simp add: canonical_cid_def normalize_cid_arg_def normalize_ipfs_arg_def)

lemma sent_pin_rm:
  assumes "request_invariant K (spares_protected r) I"
    and "canonical_cid c" and "canonical_cid (pcr_protected_cid r)" and "c \<noteq> pcr_protected_cid r"
  shows "io_keeps I (pin_rm K (pcr_kubo_url r) c)"
  unfolding pin_rm_def
  by (intro request_invariant.keeps_post_ok [OF assms(1)])
    (simp add: spares_protected_def pin_endpoints_def canonical_path assms(2-4) assms(4) [symmetric])

lemma sent_remote_rm:
  assumes "request_invariant K (spares_protected r) I"
    and "canonical_cid c" and "c \<noteq> pcr_protected_cid r \<or> n = in_flight_pin_name (pcr_name r)"
  shows "io_keeps I (remote_pin_rm_named K (pcr_kubo_url r) service c n)"
  unfolding remote_pin_rm_named_def remote_pin_rm_query_def
  by (intro keeps_intros request_invariant.keeps_send_request [OF assms(1)])
    (use assms(2,3) in \<open>auto simp: spares_protected_def pin_endpoints_def canonical_cid_def REMOTE_PIN_STATUSES_def\<close>)

lemma listed_recursive_canonical:
  assumes "canonical_listings K"
    and "list_named_recursive_pins K url n w = (Inr pins, w')"
  shows "list_all canonical_cid pins"
proof -
  obtain b ks where "json_pin_list K b = Inr ks" "pins = exact_recursive n ks"
    using assms(2) by (auto simp: list_named_recursive_pins_def parse_body_def io_simps result_simps)
  then show ?thesis
    using assms(1) by (fastforce simp: canonical_listings_def exact_recursive_def list_all_iff)
qed

lemma collect_remote_canonical:
  assumes "canonical_listings K" and "collect_remote (json_remote_pin K) n ls = Inr cids"
  shows "list_all canonical_cid cids"
  using assms(2)
  by (induction ls arbitrary: cids)
    (use assms(1) in \<open>auto simp: result_simps Let_def canonical_listings_def split: if_splits\<close>)

lemma listed_remote_canonical:
  assumes "canonical_listings K"
    and "list_named_remote_pins K url service n w = (Inr pins, w')"
  shows "list_all canonical_cid pins"
proof -
  obtain ls where "collect_remote (json_remote_pin K) n ls = Inr pins"
    using assms(2) by (auto simp: list_named_remote_pins_def io_simps)
  then show ?thesis by (rule collect_remote_canonical [OF assms(1)])
qed

lemma stale_pins_set: "c \<in> set (stale_pins pins p) \<longleftrightarrow> c \<in> set pins \<and> c \<noteq> p"
  by (auto simp: stale_pins_def)

text \<open>
  So a pass keeps whatever those requests keep that spare the protected CID.
\<close>

lemma local_pass_keeps:
  assumes ri: "request_invariant K (spares_protected r) I"
    and "canonical_listings K" and "canonical_cid (pcr_protected_cid r)"
  shows "io_keeps I (cleanup_local_pass K r)"
  unfolding io_keeps_def
proof (intro allI impI)
  fix w assume l: "I w"
  let ?list = "list_named_recursive_pins K (pcr_kubo_url r)"
  let ?temp = "in_flight_pin_name (pcr_name r)"
  obtain f w1 where f: "?list (pcr_name r) w = (f, w1)" by (cases "?list (pcr_name r) w")
  obtain t w2 where t: "?list ?temp w1 = (t, w2)" by (cases "?list ?temp w1")
  have l1: "I w1" by (rule keepsD [OF listed_recursive [OF ri] l f])
  have l2: "I w2" by (rule keepsD [OF listed_recursive [OF ri] l1 t])
  show "I (snd (cleanup_local_pass K r w))"
  proof (cases "is_ok f \<and> is_ok t")
    case False
    then show ?thesis using f t l1 l2 by (cases f; cases t) (simp_all add: cleanup_local_pass_def)
  next
    case True
    then obtain fs ts where ft: "f = Inr fs" "t = Inr ts" by (auto simp: is_ok_iff)
    let ?stale = "stale_pins (fs @ ts) (pcr_protected_cid r)"
    have c: "canonical_cid c" if "c \<in> set (fs @ ts)" for c
      using that listed_recursive_canonical [OF assms(2) f [unfolded ft]]
        listed_recursive_canonical [OF assms(2) t [unfolded ft]] by (auto simp: list_all_iff)
    have rm: "io_keeps I (remove_each (pin_rm K (pcr_kubo_url r)) ?stale False)"
      by (rule keeps_remove_each, rule sent_pin_rm [OF ri]) (use c assms(3) in \<open>auto simp: stale_pins_set\<close>)
    show ?thesis
      using f t ft l2 keeps_runD [OF rm l2] keeps_runD [OF sent_pin_add [OF ri] l2]
      by (simp add: cleanup_local_pass_def Let_def)
  qed
qed

lemma remote_pass_keeps:
  assumes ri: "request_invariant K (spares_protected r) I"
    and "canonical_listings K" and "canonical_cid (pcr_protected_cid r)"
  shows "io_keeps I (cleanup_remote_pass K r)"
proof (cases "pcr_remote_service r")
  case None
  then show ?thesis by (simp add: cleanup_remote_pass_def io_keeps_def)
next
  case (Some service)
  show ?thesis
    unfolding io_keeps_def
  proof (intro allI impI)
    fix w assume l: "I w"
    let ?list = "list_named_remote_pins K (pcr_kubo_url r) service"
    let ?temp = "in_flight_pin_name (pcr_name r)" and ?p = "pcr_protected_cid r"
    obtain f w1 where f: "?list (pcr_name r) w = (f, w1)" by (cases "?list (pcr_name r) w")
    obtain t w2 where t: "?list ?temp w1 = (t, w2)" by (cases "?list ?temp w1")
    have l1: "I w1" by (rule keepsD [OF listed_remote [OF ri] l f])
    have l2: "I w2" by (rule keepsD [OF listed_remote [OF ri] l1 t])
    show "I (snd (cleanup_remote_pass K r w))"
    proof (cases "is_ok f \<and> is_ok t")
      case False
      then show ?thesis using f t l1 l2 Some
        by (cases f; cases t) (simp_all add: cleanup_remote_pass_def Let_def)
    next
      case True
      then obtain fs ts where ft: "f = Inr fs" "t = Inr ts" by (auto simp: is_ok_iff)
      have c: "canonical_cid c" if "c \<in> set fs \<union> set ts" for c
        using that listed_remote_canonical [OF assms(2) f [unfolded ft]]
        listed_remote_canonical [OF assms(2) t [unfolded ft]] by (auto simp: list_all_iff)
      let ?rm = "\<lambda>(c, n). remote_pin_rm_named K (pcr_kubo_url r) service c n"
      let ?stale = "map (\<lambda>c. (c, pcr_name r)) (stale_pins fs ?p) @ map (\<lambda>c. (c, ?temp)) (stale_pins ts ?p)"
      have rm: "io_keeps I (remove_each ?rm ?stale False)"
        by (rule keeps_remove_each)
          (use c in \<open>auto simp: stale_pins_set intro!: sent_remote_rm [OF ri]\<close>)
      obtain q w3 where q: "?rm (?p, ?temp) w2 = (q, w3)" by (cases "?rm (?p, ?temp) w2")
      have l3: "I w3"
        by (rule keepsD [OF sent_remote_rm [OF ri] l2 q [simplified]]) (simp_all add: assms(3))
      have add: "I (snd (remote_pin_add_named K (pcr_kubo_url r) service ?p (pcr_name r) w3))"
        by (rule keeps_runD [OF sent_remote_add [OF ri] l3])
      show ?thesis
        using f t ft l2 l3 add keeps_runD [OF rm l2] q Some
        by (cases q) (simp_all add: cleanup_remote_pass_def Let_def)
    qed
  qed
qed

lemma batch_keeps:
  assumes "request_invariant K (spares_protected r) I"
    and "canonical_listings K" and "canonical_cid (pcr_protected_cid r)"
  shows "io_keeps I (cleanup_one_batch K r)"
  using local_pass_keeps [OF assms] remote_pass_keeps [OF assms]
  by (auto simp: io_keeps_def cleanup_one_batch_def Let_def case_prod_beta)

lemma canonical_logged: "canonical_listings (logged K) = canonical_listings K"
  by (simp add: canonical_listings_def logged_def)

text \<open>C32: Cleanup never removes what it protects: whatever the daemon answers, a batch only sends
  requests to the pin endpoints of its daemon, no local removal of the protected CID, and no
  remote removal of it except of its record under the in-flight name. The one thing it relies on is that the protected
  CID and the listings are in canonical form.\<close>

theorem cleanup_spares_protected:
  assumes "canonical_listings K" and "canonical_cid (pcr_protected_cid r)"
  shows "list_all (spares_protected r) (snd (snd (cleanup_one_batch (logged K) r (w, []))))"
  by (rule keeps_runD [OF batch_keeps [OF logged.request_invariant_axioms]])
    (simp_all add: canonical_logged assms)

text \<open>Outside canonical form the protection fails: stale pins are compared as written but
  removed by their normalized path, so for a protected CID given as a path the pass sends
  exactly the request that unpins the protected CID.\<close>

theorem path_form_unpins_protected:
  assumes "pcr_protected_cid r = ''/ipfs/'' @ c" and "canonical_cid c"
    and "list_named_recursive_pins K (pcr_kubo_url r) (pcr_name r) w = (Inr [c], w1)"
    and "list_named_recursive_pins K (pcr_kubo_url r) (in_flight_pin_name (pcr_name r)) w1 = (Inr [], w2)"
  shows "cleanup_local_pass K r w =
    (case pin_rm K (pcr_kubo_url r) (pcr_protected_cid r) w2 of (x, w3) \<Rightarrow> (is_ok x, w3))"
proof -
  have n: "normalize_ipfs_arg (''/ipfs/'' @ normalize_cid_arg c) = ''/ipfs/'' @ normalize_cid_arg c"
  proof -
    have "normalize_cid_arg (''/ipfs/'' @ normalize_cid_arg c) = normalize_cid_arg c"
      unfolding normalize_cid_arg_def [of "''/ipfs/'' @ normalize_cid_arg c"]
        trim_trimmed [OF trimmed_ipfs_path] strip_ipfs_prefix
        strip_ipfs_fix [OF no_ipfs_prefix [OF normalize_cid_arg_noslash]]
      by (rule trim_start_char_fix) (rule normalize_cid_arg_noslash)
    then show ?thesis unfolding normalize_ipfs_arg_def normalize_cid_arg_def by (simp only:)
  qed
  have "pin_rm K (pcr_kubo_url r) c = pin_rm K (pcr_kubo_url r) (pcr_protected_cid r)"
    using n assms(1,2) canonical_path [OF assms(2)]
    by (simp add: pin_rm_def canonical_cid_def)
  moreover have "stale_pins [c] (''/ipfs/'' @ c) = [c]" by (simp add: stale_pins_def)
  ultimately show ?thesis
    using assms(1,3,4) by (simp add: cleanup_local_pass_def split: prod.split sum.split)
qed

section \<open>Witnesses\<close>

definition demo_cleanup :: "string \<Rightarrow> pin_cleanup_request" where
  "demo_cleanup name = \<lparr>pcr_kubo_url = ''http://localhost:5001'', pcr_name = name,
     pcr_protected_cid = ''bafy'', pcr_cleanup_local = True, pcr_remote_service = Some ''pinata''\<rparr>"

theorem scheduler_coalesces_witness:
  "length (sc_queue (snd (schedule (demo_cleanup ''a'') (with_capacity 2)))) \<le> max 2 1
    \<and> schedule (demo_cleanup ''a'') (snd (schedule (demo_cleanup ''a'') (with_capacity 2))) =
      (True, (snd (schedule (demo_cleanup ''a'') (with_capacity 2)))
        \<lparr>sc_pending := (sc_pending (snd (schedule (demo_cleanup ''a'') (with_capacity 2))))
          (key_of (demo_cleanup ''a'') \<mapsto> demo_cleanup ''a'')\<rparr>)"
proof -
  let ?s = "snd (schedule (demo_cleanup ''a'') (with_capacity 2))"
  have r: "sched_reachable 2 ?s"
    by (rule sched_reachable.step [OF sched_reachable.start]) (rule sched_step.call_schedule)
  have "sc_pending ?s (key_of (demo_cleanup ''a'')) \<noteq> None"
    by (simp add: schedule_def try_send_def with_capacity_def Let_def)
  then show ?thesis using scheduler_coalesces [OF r, of "demo_cleanup ''a''"] by blast
qed

text \<open>Lost wake-ups happen: with two names and a channel of capacity one.\<close>

theorem stuck_forever_witness:
  "\<exists>s. sched_reachable 1 s \<and> stuck (key_of (demo_cleanup ''a'')) s
    \<and> fst (schedule (demo_cleanup ''a'') s)"
proof -
  have "key_of (demo_cleanup ''a'') \<noteq> key_of (demo_cleanup ''b'')"
    by (simp add: key_of_def demo_cleanup_def)
  then obtain s where "sched_reachable 1 s" "stuck (key_of (demo_cleanup ''a'')) s"
    using stuck_reachable by blast
  then show ?thesis using stuck_forever [OF _ rtranclp.rtrancl_refl refl] by blast
qed

lemma demo_canonical: "canonical_cid ''bafy''"
proof -
  have "trim ''bafy'' = ''bafy''" by (rule trim_solid) (simp_all add: solid_def code_def)
  moreover have "strip_ipfs ''bafy'' = ''bafy''" by (rule strip_ipfs_fix) simp
  ultimately show ?thesis
    by (simp add: canonical_cid_def normalize_cid_arg_def trim_start_char_def)
qed

text \<open>A daemon that lists the given CID under every name, as the only stale or current pin.\<close>

definition listing_daemon :: "string \<Rightarrow> unit kubo_lib" where
  "listing_daemon c =
     \<lparr>http_build = (\<lambda>_. Inr ()), http_mime = (\<lambda>_. Inr ()),
      http_send = (\<lambda>_ w. (Inr \<lparr>rs_status = 200, rs_content = Inr (as_bytes ''x'')\<rparr>, w)),
      http_text = of_bytes, http_status_error = (\<lambda>_. demo_status_error),
      http_is_success = (\<lambda>s. 200 \<le> s \<and> s < 300), http_sleep = (\<lambda>_ w. w),
      json_add = (\<lambda>b. Inl []), json_dag_put = (\<lambda>b. Inl []), json_name_publish = (\<lambda>b. Inl []),
      json_name_resolve = (\<lambda>b. Inl []), json_version = (\<lambda>b. Inl []), json_key_list = (\<lambda>b. Inl []),
      json_key_import = (\<lambda>b. Inl []),
      json_pin_list = (\<lambda>b. Inr [(c, \<lparr>ple_type = ''recursive'', ple_name = ''site''\<rparr>)]),
      json_remote_pin = (\<lambda>b. Inr \<lparr>rple_cid_upper = c, rple_cid_lower = [], rple_name_upper = ''site'',
        rple_name_lower = []\<rparr>), utf8_decode = (\<lambda>b. Inl [])\<rparr>"

theorem cleanup_spares_protected_witness:
  "list_all (spares_protected (demo_cleanup ''site''))
     (snd (snd (cleanup_one_batch (logged (listing_daemon ''bafy'')) (demo_cleanup ''site'') ((), []))))"
  by (rule cleanup_spares_protected)
    (simp_all add: canonical_listings_def listing_daemon_def or_lower_def demo_canonical demo_cleanup_def)

theorem path_form_unpins_protected_witness:
  "cleanup_local_pass (listing_daemon ''bafy'')
     (demo_cleanup ''site''\<lparr>pcr_protected_cid := ''/ipfs/'' @ ''bafy''\<rparr>) () =
   (case pin_rm (listing_daemon ''bafy'') ''http://localhost:5001'' (''/ipfs/'' @ ''bafy'') () of
      (x, w3) \<Rightarrow> (is_ok x, w3))"
proof -
  let ?r = "demo_cleanup ''site''\<lparr>pcr_protected_cid := ''/ipfs/'' @ ''bafy''\<rparr>"
  have l: "list_named_recursive_pins (listing_daemon ''bafy'') url n () =
      (Inr (if n = ''site'' then [''bafy''] else []), ())" for url n
    by (simp add: list_named_recursive_pins_def post_text_def post_bytes_def post_checked_def
        send_request_def io_bind_def io_lift_def io_ret_def error_for_status_def parse_body_def
        listing_daemon_def demo_status_error_def exact_recursive_def)
  have "cleanup_local_pass (listing_daemon ''bafy'') ?r () =
    (case pin_rm (listing_daemon ''bafy'') (pcr_kubo_url ?r) (pcr_protected_cid ?r) () of
       (x, w3) \<Rightarrow> (is_ok x, w3))"
    by (rule path_form_unpins_protected [OF _ demo_canonical, where ?w1.0 = "()" and ?w2.0 = "()"])
      (simp_all add: demo_cleanup_def in_flight_pin_name_def IN_FLIGHT_SUFFIX_def l)
  then show ?thesis by (simp add: demo_cleanup_def)
qed

end
