(* ===== verification/Resolver.thy ===== *)
theory Resolver
  imports Kubo Inbound
begin

text \<open>
  Resolving DIDs and IPNS paths: the contract of \<open>DidDocumentResolver\<close>, the decoding entry
  point \<open>parse_document_bytes\<close> (\<^verbatim>\<open>ipfs/resolver.rs\<close>) and the resolver on a local Kubo
  daemon (\<^verbatim>\<open>kubo/resolver.rs\<close>). The contract is a locale: what the receiving side
  gets from any resolver that keeps it is proved once.
\<close>

section \<open>Operations\<close>

definition parse_document_bytes :: "'x doc_lib_scheme \<Rightarrow> bytes \<Rightarrow> string + document" where
  "parse_document_bytes D b =
     bindR (map_err (\<lambda>e. ''DAG-CBOR decode failed: '' @ ma_error_display e) (document_decode D b)) (\<lambda>document.
     bindR (map_err (\<lambda>e. ''document validation failed: '' @ ma_error_display e)
       (document_validate D document)) (\<lambda>_.
     bindR (map_err (\<lambda>e. ''document proof verification failed: '' @ ma_error_display e)
       (document_verify D document)) (\<lambda>_. Inr document)))"

record kubo_did_resolver =
  kr_kubo_url :: string

definition kubo_resolver_new :: "string \<Rightarrow> kubo_did_resolver" where
  "kubo_resolver_new url = \<lparr>kr_kubo_url = url\<rparr>"

definition kubo_resolve :: "('w, 'x) kubo_lib_scheme \<Rightarrow> 'y doc_lib_scheme \<Rightarrow> kubo_did_resolver \<Rightarrow>
    string \<Rightarrow> 'w \<Rightarrow> document result \<times> 'w" where
  "kubo_resolve K D r did w =
     (case did_try_from D did of
        Inl e \<Rightarrow> (Inl (Validation e), w)
      | Inr parsed \<Rightarrow>
          (case fetch_did_document K D (kr_kubo_url r) parsed w of
             (Inr document, w1) \<Rightarrow> (Inr document, w1)
           | (Inl detail, w1) \<Rightarrow> (Inl (ResolutionFailed (base_id parsed) detail), w1)))"

definition kubo_resolve_ipns_path :: "('w, 'x) kubo_lib_scheme \<Rightarrow> kubo_did_resolver \<Rightarrow> string \<Rightarrow> 'w \<Rightarrow>
    string result \<times> 'w" where
  "kubo_resolve_ipns_path K r path w =
     (if \<not> starts_with path ''/ipns/'' \<or> length path \<le> length ''/ipns/''
      then (Inl (IpnsResolutionFailed path ''expected a non-empty /ipns/<name> path''), w)
      else case name_resolve K (kr_kubo_url r) path True w of
          (Inr resolved, w1) \<Rightarrow> (Inr resolved, w1)
        | (Inl detail, w1) \<Rightarrow> (Inl (IpnsResolutionFailed path detail), w1))"

section \<open>The contract\<close>

locale did_document_resolver =
  fixes L :: "'x msg_lib_scheme"
    and resolve :: "string \<Rightarrow> 'w \<Rightarrow> document result \<times> 'w"
  assumes resolved: "resolve did w = (Inr document, w') \<Longrightarrow>
      \<exists>d. did_try_from L did = Inr d \<and> doc_id document = base_id d
        \<and> document_validate L document = Inr () \<and> document_verify L document = Inr ()"
begin

lemma accepted_authentic:
  assumes "inbound_decode L (\<lambda>did. fst (resolve did w)) c payload protocol s = (Inr m, s')"
    and "\<not> skip_resolver_verification protocol (msg_type m)"
  shows "\<exists>encrypted d document pk b signature.
      unwrap_payload L c (is_recipient_key s) payload = Inr (m, encrypted)
    \<and> did_try_from L (msg_from m) = Inr d
    \<and> fst (resolve (msg_from m) w) = Inr document \<and> doc_id document = base_id d
    \<and> document_validate L document = Inr () \<and> document_verify L document = Inr ()
    \<and> assertion_method_public_key L document = Inr pk
    \<and> unsigned_headers_cbor L m = Inr b
    \<and> ed25519_signature_from_slice L (msg_signature m) = Some signature
    \<and> ed25519_verify L pk b signature"
proof -
  obtain document encrypted where r: "fst (resolve (msg_from m) w) = Inr document"
    and v: "verify_with_document L (dc_verify c) m document = Inr ()"
    and u: "unwrap_payload L c (is_recipient_key s) payload = Inr (m, encrypted)"
    using admit_message_Inr [OF conjunct1 [OF inbound_decode_Inr [OF assms(1)]]] assms(2) by blast
  obtain d where d: "did_try_from L (msg_from m) = Inr d" "doc_id document = base_id d"
    "document_validate L document = Inr ()" "document_verify L document = Inr ()"
    using resolved r by (metis prod.collapse)
  obtain pk b signature where "assertion_method_public_key L document = Inr pk"
    "unsigned_headers_cbor L m = Inr b" "ed25519_signature_from_slice L (msg_signature m) = Some signature"
    "ed25519_verify L pk b signature"
    using v by (auto simp: verify_with_document_def result_simps)
  then show ?thesis using d r u by blast
qed

end

lemma kubo_resolve_checked:
  assumes "kubo_resolve K D r did w = (Inr document, w')"
  shows "\<exists>d. did_try_from D did = Inr d \<and> doc_id document = base_id d
        \<and> document_validate D document = Inr () \<and> document_verify D document = Inr ()"
  using assms fetch_did_document_checked [of K D "kr_kubo_url r"]
  by (auto simp: kubo_resolve_def split: sum.splits prod.splits)

interpretation kubo_resolver: did_document_resolver L "kubo_resolve K L r" for L K r
  by unfold_locales (rule kubo_resolve_checked)

section \<open>Properties\<close>

text \<open>Whatever the Kubo daemon and the network answer, a document the resolver returns is the
  one of the DID that was asked for, is valid, and carries a valid proof by one of its own
  keys; a forged or misrouted answer is an error.\<close>

theorem kubo_resolve_sound:
  assumes "kubo_resolve K D r did w = (Inr document, w')"
  shows "\<exists>d. did_try_from D did = Inr d \<and> doc_id document = base_id d
        \<and> document_validate D document = Inr () \<and> document_verify D document = Inr ()"
  using assms by (rule kubo_resolve_checked)

text \<open>C9: End to end: a message the endpoint accepts with the Kubo resolver, other than an
  identity publication, is the one in the payload and is signed by its sender, whatever the
  daemon, the network and the peers do: the bytes in the message's own signature field are a
  signature over its headers, under the signing key of the very document that the resolver
  returned for the sender, which is that sender's document, valid and self-certified.\<close>

theorem kubo_inbound_authentic:
  assumes "inbound_decode L (\<lambda>did. fst (kubo_resolve K L r did w)) c payload protocol s = (Inr m, s')"
    and "\<not> skip_resolver_verification protocol (msg_type m)"
  shows "\<exists>encrypted d document pk b signature.
      unwrap_payload L c (is_recipient_key s) payload = Inr (m, encrypted)
    \<and> did_try_from L (msg_from m) = Inr d
    \<and> fst (kubo_resolve K L r (msg_from m) w) = Inr document \<and> doc_id document = base_id d
    \<and> document_validate L document = Inr () \<and> document_verify L document = Inr ()
    \<and> assertion_method_public_key L document = Inr pk
    \<and> unsigned_headers_cbor L m = Inr b
    \<and> ed25519_signature_from_slice L (msg_signature m) = Some signature
    \<and> ed25519_verify L pk b signature"
  using assms by (rule kubo_resolver.accepted_authentic)

text \<open>Bytes that parse as a document are the encoding of a valid document with a valid proof,
  and every such encoding parses.\<close>

theorem parse_document_bytes_exact:
  "parse_document_bytes D b = Inr document \<longleftrightarrow>
     document_decode D b = Inr document \<and> document_validate D document = Inr ()
     \<and> document_verify D document = Inr ()"
  by (auto simp: parse_document_bytes_def result_simps)

lemma client_error_not_retried:
  assumes "prefix ''HTTP status client error'' e"
  shows "\<not> should_retry_name_resolve_error e"
proof -
  have "prefix (to_ascii_lowercase ''HTTP status client error'') (to_ascii_lowercase e)"
    using assms unfolding to_ascii_lowercase_def by (rule map_mono_prefix)
  moreover have "to_ascii_lowercase ''HTTP status client error'' = ''http status client error''"
    by (simp add: to_ascii_lowercase_def ascii_lower_def is_ascii_upper_def code_def char_of_def bit_0)
  ultimately have "contains_str (to_ascii_lowercase e) ''http status client error''"
    by (simp add: contains_str_def prefix_imp_sublist)
  then show ?thesis by (simp add: should_retry_name_resolve_error_def Let_def)
qed

text \<open>A name the daemon rejects with a client error is not asked for again: the fetch ends
  with an error after the two requests of its first round, without a sleep.\<close>

theorem fetch_stops_on_client_error:
  assumes "http_laws K" and "http_build K 15000 = Inr ()"
    and "dag_get_document K D kubo_url (''/ipns/'' @ ipns d) w = (Inl e1, w1)"
    and "http_send K \<lparr>rq_url = api_url kubo_url ''name/resolve'',
       rq_query = [(''arg'', ''/ipns/'' @ ipns d), (''recursive'', ''true'')], rq_body = NoBody,
       rq_timeout = 15000\<rparr> w1 = (Inr rs, w2)"
    and "400 \<le> rs_status rs" and "rs_status rs < 500"
  shows "\<exists>e. fetch_did_document K D kubo_url d w = (Inl e, w2)"
proof -
  let ?rq = "\<lparr>rq_url = api_url kubo_url ''name/resolve'',
       rq_query = [(''arg'', ''/ipns/'' @ ipns d), (''recursive'', ''true'')], rq_body = NoBody,
       rq_timeout = 15000\<rparr>"
  have "http_status_error K ?rq (rs_status rs) \<noteq> None"
    using assms(1,5,6) unfolding http_laws_def by auto
  then obtain e where e: "http_status_error K ?rq (rs_status rs) = Some e" by blast
  then have p: "prefix ''HTTP status client error'' e"
    using assms(1,6) unfolding http_laws_def by blast
  have "name_resolve K kubo_url (''/ipns/'' @ ipns d) True w1 = (Inl e, w2)"
    using assms(2,4) e
    by (simp add: name_resolve_def bool_text_def post_text_def post_bytes_def post_checked_def
        send_request_def io_bind_def io_lift_def error_for_status_def)
  then have "\<exists>e'. fetch_round K D kubo_url (''/ipns/'' @ ipns d) w = (Inl (e', False), w2)"
    using assms(3) client_error_not_retried [OF p] by (simp add: fetch_round_def)
  then obtain e' where r: "fetch_round K D kubo_url (''/ipns/'' @ ipns d) w = (Inl (e', False), w2)"
    by blast
  have "fetch_loop K D kubo_url (''/ipns/'' @ ipns d) (Suc 3) 0 150 None w = (Inl (Some e'), w2)"
    by (simp only: fetch_loop.simps r prod.case sum.case simp_thms if_True)
  then show ?thesis by (simp add: fetch_did_document_def Let_def eval_nat_numeral)
qed

section \<open>Witnesses\<close>

lemma demo_served_document:
  "\<exists>d. doc_id d = ''did:ma:6d61'' \<and> document_validate demo_msg_lib d = Inr ()
     \<and> document_verify demo_msg_lib d = Inr ()
     \<and> assertion_method_public_key demo_msg_lib d = Inr (ed25519_public demo_msg_lib demo_secret)
     \<and> document_of_dagcbor demo_msg_lib (put_document d) = Inr d
     \<and> dagcbor_of_document demo_msg_lib d = Inr (put_document d)"
proof -
  obtain sk ek where k: "signing_from_private_key_bytes demo_msg_lib \<lparr>ipns = ''6d61'', fragment = None\<rparr>
      demo_secret = Inr sk" "encryption_from_private_key_bytes demo_msg_lib
      \<lparr>ipns = ''6d61'', fragment = None\<rparr> demo_secret = Inr ek"
    using demo_msg_keys by blast
  obtain d :: document where d: "doc_id d = DID_PREFIX @ ''6d61''" "document_validate demo_msg_lib d = Inr ()"
    "document_verify demo_msg_lib d = Inr ()"
    "assertion_method_public_key demo_msg_lib d = Inr (ed25519_public demo_msg_lib demo_secret)"
    using build_identity_succeeds [OF demo_msg_crypto demo_msg_time demo_msg_documents
        demo_msg_identifier k] by blast
  obtain h where "payload_hash demo_msg_lib d = Inr h"
    using d(3) by (auto simp: document_verify_def Let_def result_simps)
  then have "doc_ma d = None"
    by (simp add: payload_hash_def payload_bytes_def document_encode_def payload_document_def
        demo_lib_defs demo_doc_lib_def result_simps split: if_splits)
  then have "document_of_dagcbor demo_msg_lib (put_document d) = Inr d"
    "dagcbor_of_document demo_msg_lib d = Inr (put_document d)"
    using get_put_document [of d "[]"] by (simp_all add: demo_lib_defs demo_doc_lib_def)
  then show ?thesis using d by (auto simp: DID_PREFIX_def)
qed

lemma demo_kubo_resolves:
  assumes "doc_id d = ''did:ma:6d61''" and "document_validate demo_msg_lib d = Inr ()"
    and "document_verify demo_msg_lib d = Inr ()"
    and "document_of_dagcbor demo_msg_lib (put_document d) = Inr d"
  shows "kubo_resolve demo_kubo demo_msg_lib r ''did:ma:6d61'' (serving (put_document d)) = (Inr d, [])"
proof -
  have p: "did_try_from demo_msg_lib ''did:ma:6d61'' = Inr \<lparr>ipns = ''6d61'', fragment = None\<rparr>"
    by (simp add: did_try_from_def)
  have "fetch_loop demo_kubo demo_msg_lib url path (Suc 3) p c l (serving (put_document d)) = (Inr d, [])"
    for url path p c l
    by (simp only: fetch_loop.simps) (simp add: fetch_round_def dag_get_document_def demo_dag_get assms(4))
  then show ?thesis
    by (simp add: kubo_resolve_def p fetch_did_document_def Let_def eval_nat_numeral check_fetched_def
        assms(1-3))
qed

theorem kubo_resolve_sound_witness:
  "\<exists>document w' d. kubo_resolve demo_kubo demo_msg_lib (kubo_resolver_new ''http://localhost:5001'')
       ''did:ma:6d61'' (serving (put_document document)) = (Inr document, w')
    \<and> did_try_from demo_msg_lib ''did:ma:6d61'' = Inr d \<and> doc_id document = base_id d
    \<and> document_validate demo_msg_lib document = Inr () \<and> document_verify demo_msg_lib document = Inr ()"
proof -
  obtain document where "kubo_resolve demo_kubo demo_msg_lib (kubo_resolver_new ''http://localhost:5001'')
       ''did:ma:6d61'' (serving (put_document document)) = (Inr document, [])"
    using demo_served_document demo_kubo_resolves by metis
  then show ?thesis using kubo_resolve_sound by metis
qed

theorem kubo_inbound_authentic_witness:
  "\<exists>m d document pk b signature. msg_from m = ''did:ma:6d61''
    \<and> did_try_from demo_msg_lib (msg_from m) = Inr d \<and> doc_id document = base_id d
    \<and> document_validate demo_msg_lib document = Inr () \<and> document_verify demo_msg_lib document = Inr ()
    \<and> assertion_method_public_key demo_msg_lib document = Inr pk
    \<and> unsigned_headers_cbor demo_msg_lib m = Inr b
    \<and> ed25519_signature_from_slice demo_msg_lib (msg_signature m) = Some signature
    \<and> ed25519_verify demo_msg_lib pk b signature"
proof -
  let ?r = "kubo_resolver_new ''http://localhost:5001''"
  obtain d :: document where d: "doc_id d = ''did:ma:6d61''"
    "assertion_method_public_key demo_msg_lib d = Inr (ed25519_public demo_msg_lib demo_secret)"
    "kubo_resolve demo_kubo demo_msg_lib ?r ''did:ma:6d61'' (serving (put_document d)) = (Inr d, [])"
    using demo_served_document demo_kubo_resolves by metis
  have "(\<lambda>did. fst (kubo_resolve demo_kubo demo_msg_lib ?r did (serving (put_document d)))) ''did:ma:6d61'' = Inr d"
    using d(3) by simp
  then obtain b m s' where a: "inbound_decode demo_msg_lib
      (\<lambda>did. fst (kubo_resolve demo_kubo demo_msg_lib ?r did (serving (put_document d)))) (demo_clocks 1000) b
      INBOX_PROTOCOL_ID (inbound_security_new demo_encryption_key) = (Inr m, s')" "msg_from m = ''did:ma:6d61''"
    using demo_broadcast_accepted_from d(1,2) by metis
  have "\<not> skip_resolver_verification INBOX_PROTOCOL_ID (msg_type m)"
    by (simp add: skip_resolver_verification_def protocol_defs)
  from kubo_inbound_authentic [OF a(1) this] show ?thesis using a(2) by metis
qed

theorem fetch_stops_on_client_error_witness:
  "\<exists>e. fetch_did_document demo_kubo demo_doc_lib ''http://localhost:5001'' \<lparr>ipns = ''6d61'', fragment = None\<rparr>
     [\<lparr>rs_status = 404, rs_content = Inr []\<rparr>, \<lparr>rs_status = 404, rs_content = Inr []\<rparr>,
      \<lparr>rs_status = 200, rs_content = Inr []\<rparr>]
     = (Inl e, [\<lparr>rs_status = 200, rs_content = Inr []\<rparr>])"
  by (rule fetch_stops_on_client_error [OF demo_http_laws,
        where ?w1.0 = "[\<lparr>rs_status = 404, rs_content = Inr []\<rparr>, \<lparr>rs_status = 200, rs_content = Inr []\<rparr>]"
          and rs = "\<lparr>rs_status = 404, rs_content = Inr []\<rparr>" and ?e1.0 = "''HTTP status client error''"])
    (simp_all add: demo_kubo_def dag_get_document_def dag_get_def post_bytes_def post_checked_def
      send_request_def io_bind_def io_lift_def error_for_status_def demo_status_error_def)

end
