(* ===== verification/Publish.thy ===== *)
theory Publish
  imports Pinning Resolver
begin

text \<open>
  Publishing DID documents (\<^verbatim>\<open>ipfs/publish.rs\<close>): the wire formats and their validation,
  the names of IPNS keys, the normalized daemon URL, and the publication itself: import or
  check the IPNS key, store and pin the document, publish the name, replicate the pin, and
  schedule the cleanup of older pins.
\<close>

section \<open>Wire formats\<close>

record identity_publish_request =
  ipr_document :: bytes
  ipr_ipns_secret_key :: bytes

record ipfs_store_request =
  isr_content :: bytes
  isr_content_type :: string

record parsed_url =
  url_scheme :: string
  url_host_str :: "string option"
  url_port :: "nat option"
  url_path :: string
  url_query :: "string option"
  url_fragment :: "string option"

text \<open>\<open>ciborium\<close> on the two requests, the \<open>url\<close> crate, and \<open>libp2p\<close> key pairs.\<close>

record 'w publish_lib = "'w kubo_lib" +
  cbor_of_publish_request :: "identity_publish_request \<Rightarrow> string + bytes"
  publish_request_of_cbor :: "bytes \<Rightarrow> string + identity_publish_request"
  cbor_of_store_request :: "ipfs_store_request \<Rightarrow> string + bytes"
  store_request_of_cbor :: "bytes \<Rightarrow> string + ipfs_store_request"
  url_parse :: "string \<Rightarrow> string + parsed_url"
  keypair_from_bytes :: "bytes \<Rightarrow> string + bytes"
  keypair_protobuf :: "bytes \<Rightarrow> string + bytes"

definition MA_IPNS_ALIAS_HASH_PREFIX :: string where "MA_IPNS_ALIAS_HASH_PREFIX = ''ma-''"

definition encode_cbor :: "string + bytes \<Rightarrow> string + bytes" where
  "encode_cbor r = map_err (\<lambda>e. ''failed to encode CBOR payload: '' @ e) r"

definition generate_identity_publish_request :: "('w, 'x) publish_lib_scheme \<Rightarrow> 'y doc_lib_scheme \<Rightarrow>
    document \<Rightarrow> bytes \<Rightarrow> string + bytes" where
  "generate_identity_publish_request K L did_document ipns_secret_key =
     bindR (map_err (\<lambda>e. ''failed to encode DID document as dag-cbor: '' @ ma_error_display e)
       (document_encode L did_document)) (\<lambda>document_bytes.
     encode_cbor (cbor_of_publish_request K
       \<lparr>ipr_document = document_bytes, ipr_ipns_secret_key = ipns_secret_key\<rparr>))"

definition generate_ipfs_store_request :: "('w, 'x) publish_lib_scheme \<Rightarrow> 'y msg_lib_scheme \<Rightarrow> clock \<Rightarrow>
    clock \<Rightarrow> clock \<Rightarrow> string \<Rightarrow> string \<Rightarrow> string \<Rightarrow> bytes \<Rightarrow> string \<Rightarrow> signing_key \<Rightarrow> string + message" where
  "generate_ipfs_store_request K L c0 c1 c2 nanoid sender_did publisher_did content content_type k =
     bindR (encode_cbor (cbor_of_store_request K \<lparr>isr_content = content, isr_content_type = content_type\<rparr>))
       (\<lambda>payload.
     map_err (\<lambda>e. ''failed to build ipfs-store message: '' @ ma_error_display e)
       (message_new L c0 c1 c2 nanoid \<lparr>dr_from = sender_did, dr_to = publisher_did,
          dr_type = MESSAGE_TYPE_IPFS_REQUEST, dr_content_type = ''application/cbor'',
          dr_content = payload\<rparr> k))"

section \<open>Key names\<close>

fun sanitize_loop :: "string \<Rightarrow> bool \<Rightarrow> string \<Rightarrow> string" where
  "sanitize_loop sanitized last_was_separator [] = sanitized"
| "sanitize_loop sanitized last_was_separator (ch # bytes) =
     (if is_ascii_alphanumeric ch then sanitize_loop (sanitized @ [ascii_lower ch]) False bytes
      else if ch = CHR ''-'' \<or> ch = CHR ''_''
      then if \<not> last_was_separator \<and> sanitized \<noteq> [] then sanitize_loop (sanitized @ [ch]) True bytes
           else sanitize_loop sanitized last_was_separator bytes
      else if \<not> last_was_separator \<and> sanitized \<noteq> []
      then sanitize_loop (sanitized @ [CHR ''-'']) True bytes
      else sanitize_loop sanitized last_was_separator bytes)"

definition separator :: "char \<Rightarrow> bool" where
  "separator c \<longleftrightarrow> c = CHR ''-'' \<or> c = CHR ''_''"

text \<open>\<open>while sanitized.ends_with(['-', '_']) { sanitized.pop() }\<close>.\<close>

definition pop_separators :: "string \<Rightarrow> string" where
  "pop_separators s = rev (dropWhile separator (rev s))"

definition sanitize_key_part :: "string \<Rightarrow> string" where
  "sanitize_key_part part =
     (let sanitized = pop_separators (sanitize_loop [] False part)
      in if sanitized = [] then ''unknown'' else sanitized)"

definition document_ma_type :: "document \<Rightarrow> string" where
  "document_ma_type d =
     (case doc_ma d of
        Some (IMap m) \<Rightarrow> (case map_of m ''type'' of Some (IString kind) \<Rightarrow> kind | _ \<Rightarrow> ''unknown'')
      | _ \<Rightarrow> ''unknown'')"

definition ipns_key_name_for_parts :: "'y crypto_lib_scheme \<Rightarrow> string list \<Rightarrow> string \<Rightarrow> string" where
  "ipns_key_name_for_parts L parts ipns_id =
     (let name_parts = (if parts = [] then [''unknown''] else map sanitize_key_part parts)
      in MA_IPNS_ALIAS_HASH_PREFIX @ join_char (CHR ''-'') name_parts @ ''-''
         @ take 16 (hex_text L (blake3_hash L (as_bytes ipns_id))))"

definition ipns_key_name_for_document :: "'y crypto_lib_scheme \<Rightarrow> document \<Rightarrow> string" where
  "ipns_key_name_for_document L d =
     (let ipns_id = (case did_try_from L (doc_id d) of Inr parsed \<Rightarrow> ipns parsed | Inl _ \<Rightarrow> doc_id d)
      in ipns_key_name_for_parts L [document_ma_type d] ipns_id)"

section \<open>Options and outcomes\<close>

record remote_pin_options =
  rpo_service :: string
  rpo_name :: string

record publish_options =
  dpo_key_parts :: "string list"
  dpo_ipns :: ipns_publish_options
  dpo_attempts :: u32
  dpo_initial_backoff :: nat
  dpo_remote_pin :: "remote_pin_options option"
  dpo_overwrite :: bool

definition publish_options_default :: publish_options where
  "publish_options_default =
     \<lparr>dpo_key_parts = [], dpo_ipns = ipns_publish_default, dpo_attempts = 3,
      dpo_initial_backoff = 1000, dpo_remote_pin = None, dpo_overwrite = True\<rparr>"

datatype remote_pin_status = Replicated bool | Degraded string

record published_document =
  pd_cid :: string
  pd_key_name :: string
  pd_ipns_id :: string
  pd_local_pinned :: bool
  pd_cleanup_scheduled :: bool
  pd_remote_pin :: "remote_pin_status option"

record validated_identity_publish =
  vip_document_bytes :: bytes
  vip_ipns_secret_key :: bytes
  vip_document :: document
  vip_document_did :: did

record validated_ipfs_store =
  vis_content :: bytes
  vis_content_type :: string
  vis_sender_did :: string
  vis_msg_id :: string

record publish_did_response =
  pdr_ok :: bool
  pdr_message :: string
  pdr_did :: "string option"
  pdr_cid :: "string option"

section \<open>The daemon URL\<close>

definition normalize_kubo_url :: "('w, 'x) publish_lib_scheme \<Rightarrow> string \<Rightarrow> string + string" where
  "normalize_kubo_url K input =
     (let trimmed = trim input in
      if trimmed = [] then Inl ''kubo_url must not be empty''
      else bindR (map_err (\<lambda>e. ''invalid kubo_url '' @ quote @ trimmed @ quote @ '': '' @ e)
             (url_parse K trimmed)) (\<lambda>parsed.
      let scheme = url_scheme parsed in
      if scheme \<noteq> ''http'' \<and> scheme \<noteq> ''https''
      then Inl (''kubo_url must use http or https scheme, got '' @ quote @ scheme @ quote)
      else case url_host_str parsed of None \<Rightarrow> Inl ''kubo_url must include a host'' | Some host \<Rightarrow>
      if url_query parsed \<noteq> None \<or> url_fragment parsed \<noteq> None
      then Inl ''kubo_url must not include query params or fragments''
      else
        let base = scheme @ ''://'' @ host
              @ (case url_port parsed of Some port \<Rightarrow> '':'' @ show_nat port | None \<Rightarrow> []);
            path0 = trim_end_char (CHR ''/'') (url_path parsed);
            path = (if ends_with path0 ''/api/v0'' then take (length path0 - length ''/api/v0'') path0
                    else path0)
        in Inr (if path \<noteq> [] \<and> path \<noteq> ''/''
                then base @ (if starts_with path ''/'' then [] else ''/'') @ path else base)))"

record ipfs_did_publisher =
  idp_kubo_url :: string

definition publisher_new :: "('w, 'x) publish_lib_scheme \<Rightarrow> string \<Rightarrow> string + ipfs_did_publisher" where
  "publisher_new K kubo_url = bindR (normalize_kubo_url K kubo_url) (\<lambda>u. Inr \<lparr>idp_kubo_url = u\<rparr>)"

section \<open>Validation\<close>

definition validate_identity_publish_message :: "('w, 'x) publish_lib_scheme \<Rightarrow> 'y msg_lib_scheme \<Rightarrow>
    clock \<Rightarrow> message \<Rightarrow> string + validated_identity_publish" where
  "validate_identity_publish_message K L clk m =
     bindR (ensure (msg_type m = MESSAGE_TYPE_IDENTITY_PUBLISH_REQUEST)
       (''expected '' @ MESSAGE_TYPE_IDENTITY_PUBLISH_REQUEST @ '' on /ma/ipfs/0.0.1, got '' @ msg_type m)) (\<lambda>_.
     bindR (map_err (\<lambda>e. ''invalid identity-publish request payload: '' @ e)
       (publish_request_of_cbor K (message_payload L m))) (\<lambda>payload.
     bindR (map_err (\<lambda>e. ''invalid sender did '' @ quote @ msg_from m @ quote @ '': '' @ ma_error_display e)
       (did_try_from L (msg_from m))) (\<lambda>sender_did.
     bindR (map_err (\<lambda>e. ''invalid DID document dag-cbor: '' @ ma_error_display e)
       (document_decode L (ipr_document payload))) (\<lambda>document.
     bindR (map_err (\<lambda>e. ''invalid DID document: '' @ ma_error_display e)
       (document_validate L document)) (\<lambda>_.
     bindR (map_err (\<lambda>e. ''DID document signature verification failed: '' @ ma_error_display e)
       (document_verify L document)) (\<lambda>_.
     bindR (map_err (\<lambda>e. ''invalid document DID '' @ quote @ doc_id document @ quote @ '': '' @ ma_error_display e)
       (did_try_from L (doc_id document))) (\<lambda>document_did.
     bindR (ensure (ipns document_did = ipns sender_did)
       (''sender IPNS '' @ quote @ ipns sender_did @ quote @ '' does not match document IPNS '' @ quote
          @ ipns document_did @ quote)) (\<lambda>_.
     bindR (map_err (\<lambda>e. ''request signature verification failed: '' @ ma_error_display e)
       (verify_with_document L clk m document)) (\<lambda>_.
     Inr \<lparr>vip_document_bytes = ipr_document payload, vip_ipns_secret_key = ipr_ipns_secret_key payload,
          vip_document = document, vip_document_did = document_did\<rparr>)))))))))"

definition validate_identity_publish_request :: "('w, 'x) publish_lib_scheme \<Rightarrow> 'y msg_lib_scheme \<Rightarrow>
    clock \<Rightarrow> bytes \<Rightarrow> string + validated_identity_publish" where
  "validate_identity_publish_request K L clk message_cbor =
     bindR (map_err (\<lambda>e. ''invalid signed message: '' @ ma_error_display e) (message_decode L message_cbor))
       (validate_identity_publish_message K L clk)"

definition validate_ipfs_request :: "('w, 'x) publish_lib_scheme \<Rightarrow> 'y msg_lib_scheme \<Rightarrow> message \<Rightarrow>
    string + validated_ipfs_store" where
  "validate_ipfs_request K L m =
     bindR (ensure (msg_type m = MESSAGE_TYPE_IPFS_REQUEST)
       (''expected '' @ MESSAGE_TYPE_IPFS_REQUEST @ '' on /ma/ipfs/0.0.1, got '' @ msg_type m)) (\<lambda>_.
     bindR (map_err (\<lambda>e. ''invalid IPFS store request payload: '' @ e)
       (store_request_of_cbor K (message_payload L m))) (\<lambda>payload.
     Inr \<lparr>vis_content = isr_content payload, vis_content_type = isr_content_type payload,
          vis_sender_did = msg_from m, vis_msg_id = msg_id m\<rparr>))"


section \<open>Publication\<close>

text \<open>The Kubo key of the document: the existing one, or the given secret imported.\<close>

definition ensure_ipns_key :: "('w, 'x) publish_lib_scheme \<Rightarrow> string \<Rightarrow> string \<Rightarrow> string \<Rightarrow> bytes \<Rightarrow>
    (unit, 'w) io" where
  "ensure_ipns_key K kubo_url key_name document_ipns_id ipns_private_key =
     io_bind (list_keys K kubo_url) (\<lambda>keys.
     case find (\<lambda>k. kk_name k = key_name) keys of
       Some existing \<Rightarrow>
         if trim (kk_id existing) \<noteq> document_ipns_id
         then io_lift (Inl (''existing key '' @ quote @ key_name @ quote @ '' has IPNS id '' @ quote
                @ kk_id existing @ quote @ '' but document DID IPNS is '' @ quote @ document_ipns_id @ quote))
         else io_ret ()
     | None \<Rightarrow>
         if ipns_private_key = []
         then io_lift (Inl ''ipns_private_key is required when key is not present in Kubo'')
         else if length ipns_private_key \<noteq> 32
         then io_lift (Inl ''ipns_private_key must be 32 bytes'')
         else io_bind (io_lift (map_err (\<lambda>e. ''invalid ipns key: '' @ e)
                (keypair_from_bytes K ipns_private_key))) (\<lambda>keypair.
              io_bind (io_lift (map_err (\<lambda>e. ''failed to encode ipns key: '' @ e)
                (keypair_protobuf K keypair))) (\<lambda>protobuf_key.
              io_bind (import_key K kubo_url key_name protobuf_key) (\<lambda>imported.
              if trim (kk_id imported) \<noteq> document_ipns_id
              then io_lift (Inl (''imported key IPNS id '' @ quote @ kk_id imported @ quote
                     @ '' does not match document DID IPNS '' @ quote @ document_ipns_id @ quote))
              else io_ret ()))))"

definition chosen_key_name :: "'y crypto_lib_scheme \<Rightarrow> publish_options \<Rightarrow> document \<Rightarrow> string \<Rightarrow> string" where
  "chosen_key_name L opts document ipns_id =
     ipns_key_name_for_parts L
       (if dpo_key_parts opts = [] then [document_ma_type document] else dpo_key_parts opts) ipns_id"

definition chosen_pin_name :: "publish_options \<Rightarrow> string \<Rightarrow> string" where
  "chosen_pin_name opts key_name =
     (case dpo_remote_pin opts of Some remote \<Rightarrow> rpo_name remote | None \<Rightarrow> key_name)"

definition local_pin_name :: "publish_options \<Rightarrow> string \<Rightarrow> string" where
  "local_pin_name opts pin_name = (if dpo_overwrite opts then in_flight_pin_name pin_name else pin_name)"

text \<open>Everything up to the published name: the CID, the key name and the IPNS id.\<close>

definition store_pin_publish :: "('w, 'x) publish_lib_scheme \<Rightarrow> 'y doc_lib_scheme \<Rightarrow> string \<Rightarrow> bytes \<Rightarrow>
    bytes \<Rightarrow> publish_options \<Rightarrow> (string \<times> string \<times> string, 'w) io" where
  "store_pin_publish K L kubo_url did_document ipns_private_key opts =
     io_bind (io_lift (map_err (\<lambda>e. ''invalid DID document dag-cbor: '' @ ma_error_display e)
       (document_decode L did_document))) (\<lambda>document.
     io_bind (io_lift (map_err (\<lambda>e. ''invalid document DID '' @ quote @ doc_id document @ quote @ '': ''
         @ ma_error_display e) (did_try_from L (doc_id document)))) (\<lambda>document_did.
     let ipns_id = ipns document_did; key_name = chosen_key_name L opts document ipns_id in
     io_bind (ensure_ipns_key K kubo_url key_name ipns_id ipns_private_key) (\<lambda>_.
     io_bind (dag_put_cbor K kubo_url did_document False) (\<lambda>cid.
     io_bind (pin_add_named K kubo_url cid (local_pin_name opts (chosen_pin_name opts key_name))) (\<lambda>_.
     io_bind (name_publish_with_retry K kubo_url key_name ipns_id cid (dpo_ipns opts) (dpo_attempts opts)
       (dpo_initial_backoff opts)) (\<lambda>_.
     io_ret (cid, key_name, ipns_id)))))))"

fun remote_pin_loop :: "('w, 'x) kubo_lib_scheme \<Rightarrow> string \<Rightarrow> remote_pin_options \<Rightarrow> string \<Rightarrow> nat \<Rightarrow>
    nat \<Rightarrow> nat \<Rightarrow> string option \<Rightarrow> 'w \<Rightarrow> (string option + unit) \<times> 'w" where
  "remote_pin_loop K url remote cid 0 previous_delay delay last_error w = (Inl last_error, w)"
| "remote_pin_loop K url remote cid (Suc n) previous_delay delay last_error w =
     (case remote_pin_add_named K url (rpo_service remote) cid (rpo_name remote) w of
        (Inr u, w1) \<Rightarrow> (Inr u, w1)
      | (Inl e, w1) \<Rightarrow>
          if n = 0 then remote_pin_loop K url remote cid n previous_delay delay (Some e) w1
          else remote_pin_loop K url remote cid n delay (min (previous_delay + delay) 30000) (Some e)
                 (http_sleep K delay w1))"

text \<open>With at least one attempt the last error is there; its absence would be a panic.\<close>

definition remote_pin_with_retry :: "('w, 'x) kubo_lib_scheme \<Rightarrow> string \<Rightarrow> remote_pin_options \<Rightarrow>
    string \<Rightarrow> u32 \<Rightarrow> nat \<Rightarrow> (unit, 'w) io" where
  "remote_pin_with_retry K kubo_url remote cid attempts initial_backoff w =
     (if attempts = 0 then (Inl ''remote pin attempts must be >= 1'', w)
      else case remote_pin_loop K kubo_url remote cid (unat attempts) 0 initial_backoff None w of
          (Inr u, w1) \<Rightarrow> (Inr u, w1)
        | (Inl (Some e), w1) \<Rightarrow> (Inl e, w1)
        | (Inl None, w1) \<Rightarrow> (Inl ''at least one remote pin attempt'', w1))"

interpretation pinning: bounded_retry
    "remote_pin_add_named K kubo_url (rpo_service remote) cid (rpo_name remote)" "http_sleep K" 30000
    "remote_pin_loop K kubo_url remote cid" for K kubo_url remote cid
  by unfold_locales simp_all

definition confirm_pins_and_schedule_cleanup :: "('w, 'x) kubo_lib_scheme \<Rightarrow> string \<Rightarrow> string \<Rightarrow>
    string \<Rightarrow> publish_options \<Rightarrow> scheduler \<times> 'w \<Rightarrow>
    (bool \<times> remote_pin_status option) \<times> scheduler \<times> 'w" where
  "confirm_pins_and_schedule_cleanup K kubo_url pin_name published_cid opts sw =
     (let (cleanup, w) = sw;
          (remote_pin, remote_service, w1) =
            (case dpo_remote_pin opts of
               None \<Rightarrow> (None, None, w)
             | Some remote \<Rightarrow>
                 (case remote_pin_with_retry K kubo_url remote published_cid (dpo_attempts opts)
                     (dpo_initial_backoff opts) w of
                    (Inr _, w1) \<Rightarrow> (Some (Replicated False), Some (rpo_service remote), w1)
                  | (Inl e, w1) \<Rightarrow> (Some (Degraded e), None, w1)));
          (cleanup_scheduled, cleanup1) =
            (if dpo_overwrite opts
             then schedule \<lparr>pcr_kubo_url = kubo_url, pcr_name = pin_name,
                    pcr_protected_cid = published_cid, pcr_cleanup_local = True,
                    pcr_remote_service = remote_service\<rparr> cleanup
             else (False, cleanup));
          remote_pin1 = map_option (\<lambda>status. case status of
            Replicated _ \<Rightarrow> Replicated cleanup_scheduled | Degraded e \<Rightarrow> Degraded e) remote_pin
      in ((cleanup_scheduled, remote_pin1), cleanup1, w1))"

definition publish_did_document_to_kubo :: "('w, 'x) publish_lib_scheme \<Rightarrow> 'y doc_lib_scheme \<Rightarrow>
    string \<Rightarrow> bytes \<Rightarrow> bytes \<Rightarrow> publish_options \<Rightarrow> scheduler \<times> 'w \<Rightarrow>
    (string + published_document) \<times> scheduler \<times> 'w" where
  "publish_did_document_to_kubo K L kubo_url did_document ipns_private_key opts sw =
     (case store_pin_publish K L kubo_url did_document ipns_private_key opts (snd sw) of
        (Inl e, w1) \<Rightarrow> (Inl e, fst sw, w1)
      | (Inr (cid, key_name, ipns_id), w1) \<Rightarrow>
          (let ((cleanup_scheduled, remote_pin), sw2) =
                 confirm_pins_and_schedule_cleanup K kubo_url (chosen_pin_name opts key_name) cid opts
                   (fst sw, w1)
           in (Inr \<lparr>pd_cid = cid, pd_key_name = key_name, pd_ipns_id = ipns_id, pd_local_pinned = True,
                 pd_cleanup_scheduled = cleanup_scheduled, pd_remote_pin = remote_pin\<rparr>, sw2)))"

definition handle_ipfs_publish :: "('w, 'x) publish_lib_scheme \<Rightarrow> 'y msg_lib_scheme \<Rightarrow> clock \<Rightarrow>
    string \<Rightarrow> bytes \<Rightarrow> scheduler \<times> 'w \<Rightarrow> (string + publish_did_response) \<times> scheduler \<times> 'w" where
  "handle_ipfs_publish K L clk kubo_url message_cbor sw =
     (case validate_identity_publish_request K L clk message_cbor of
        Inl e \<Rightarrow> (Inl e, sw)
      | Inr validated \<Rightarrow>
          (case publish_did_document_to_kubo K L kubo_url (vip_document_bytes validated)
              (vip_ipns_secret_key validated) publish_options_default sw of
             (Inl e, sw1) \<Rightarrow> (Inl e, sw1)
           | (Inr published, sw1) \<Rightarrow>
               (Inr \<lparr>pdr_ok = True, pdr_message = ''did document published via ma/ipfs/0.0.1'',
                  pdr_did = Some (did_id (vip_document_did validated)), pdr_cid = Some (pd_cid published)\<rparr>,
                sw1)))"

text \<open>
  \<open>IpfsDidPublisher\<close>: the same operations for one normalized URL, over the cell of the
  process-wide scheduler. A request refused before the scheduler is needed leaves the
  cell empty, which every later call reads as a fresh scheduler.
\<close>

definition publisher_kubo_url :: "ipfs_did_publisher \<Rightarrow> string" where
  "publisher_kubo_url p = idp_kubo_url p"

definition publish_signed_message :: "('w, 'x) publish_lib_scheme \<Rightarrow> 'y msg_lib_scheme \<Rightarrow> clock \<Rightarrow>
    ipfs_did_publisher \<Rightarrow> bytes \<Rightarrow> scheduler option \<times> 'w \<Rightarrow>
    (string + publish_did_response) \<times> scheduler option \<times> 'w" where
  "publish_signed_message K L clk p message_cbor cw =
     (let (r, s, w) = handle_ipfs_publish K L clk (idp_kubo_url p) message_cbor
            (scheduler_global (fst cw), snd cw)
      in (r, Some s, w))"

definition publish_document :: "('w, 'x) publish_lib_scheme \<Rightarrow> 'y doc_lib_scheme \<Rightarrow>
    ipfs_did_publisher \<Rightarrow> bytes \<Rightarrow> bytes \<Rightarrow> publish_options \<Rightarrow> scheduler option \<times> 'w \<Rightarrow>
    (string + published_document) \<times> scheduler option \<times> 'w" where
  "publish_document K L p did_document ipns_private_key opts cw =
     (let (r, s, w) = publish_did_document_to_kubo K L (idp_kubo_url p) did_document ipns_private_key
            opts (scheduler_global (fst cw), snd cw)
      in (r, Some s, w))"

definition wait_until_ready :: "('w, 'x) publish_lib_scheme \<Rightarrow> ipfs_did_publisher \<Rightarrow> u32 \<Rightarrow>
    (unit, 'w) io" where
  "wait_until_ready K p attempts = wait_for_api K (idp_kubo_url p) attempts"

section \<open>Key names are safe\<close>

definition key_char :: "char \<Rightarrow> bool" where
  "key_char c \<longleftrightarrow> is_ascii_digit c \<or> is_ascii_lower c"

text \<open>What the loop has built: key characters and single separators, none in front.\<close>

definition key_text :: "string \<Rightarrow> bool" where
  "key_text s \<longleftrightarrow> list_all (\<lambda>c. key_char c \<or> separator c) s
     \<and> (s \<noteq> [] \<longrightarrow> \<not> separator (hd s)) \<and> successively (\<lambda>a b. \<not> (separator a \<and> separator b)) s"

lemma key_char_not_separator [simp]: "key_char c \<Longrightarrow> \<not> separator c"
  by (auto simp: key_char_def separator_def ascii_defs)

lemma key_char_lower: "is_ascii_alphanumeric c \<Longrightarrow> key_char (ascii_lower c)"
  by (auto simp: key_char_def is_ascii_alphanumeric_def is_ascii_digit_def is_ascii_lower_def
      is_ascii_upper_def code_ascii_lower)

lemma key_char_fixed: "key_char c \<Longrightarrow> is_ascii_alphanumeric c \<and> ascii_lower c = c"
  by (auto simp: key_char_def is_ascii_alphanumeric_def is_ascii_digit_def is_ascii_lower_def
      is_ascii_upper_def ascii_lower_def)

lemma separator_char: "\<not> is_ascii_alphanumeric (CHR ''-'')" "\<not> is_ascii_alphanumeric (CHR ''_'')"
  by (simp_all add: ascii_defs)

lemma key_text_snoc:
  "key_text (s @ [c]) \<longleftrightarrow> key_text s \<and> (key_char c \<or> separator c)
     \<and> (separator c \<longrightarrow> s \<noteq> [] \<and> \<not> separator (last s))"
  by (cases "s = []") (auto simp: key_text_def successively_append_iff)

lemma sanitize_loop_key_text:
  "key_text acc \<Longrightarrow> f = (acc \<noteq> [] \<and> separator (last acc)) \<Longrightarrow> key_text (sanitize_loop acc f s)"
proof (induction s arbitrary: acc f)
  case (Cons c s)
  have push: "key_text (sanitize_loop (acc @ [x]) (separator x) s)"
    if "key_char x \<or> separator x" "separator x \<longrightarrow> acc \<noteq> [] \<and> \<not> f" for x
    by (rule Cons.IH) (use that Cons.prems in \<open>auto simp: key_text_snoc\<close>)
  have keep: "key_text (sanitize_loop acc f s)" by (rule Cons.IH [OF Cons.prems])
  show ?case
  proof (cases "is_ascii_alphanumeric c")
    case True
    then have "key_char (ascii_lower c)" by (rule key_char_lower)
    then show ?thesis using True push [of "ascii_lower c"] by simp
  next
    case False
    have "separator (CHR ''-'')" by (simp add: separator_def)
    then show ?thesis using False keep push [of "CHR ''-''"] push [of c]
      by (auto simp: separator_def)
  qed
qed simp

lemma sanitize_loop_fixed:
  "key_text (acc @ s) \<Longrightarrow> f = (acc \<noteq> [] \<and> separator (last acc)) \<Longrightarrow> sanitize_loop acc f s = acc @ s"
proof (induction s arbitrary: acc f)
  case (Cons c s)
  have k: "key_text (acc @ [c])"
    using Cons.prems(1) by (auto simp: key_text_def successively_append_iff successively_Cons hd_append)
  have ih: "sanitize_loop (acc @ [c]) (separator c) s = acc @ c # s"
    using Cons.IH [of "acc @ [c]" "separator c"] Cons.prems(1) by simp
  show ?case
  proof (cases "separator c")
    case True
    then have "acc \<noteq> []" "\<not> f" using k Cons.prems(2) by (auto simp: key_text_snoc)
    then show ?thesis using True ih separator_char by (auto simp: separator_def)
  next
    case False
    then have "is_ascii_alphanumeric c" "ascii_lower c = c"
      using k key_char_fixed by (auto simp: key_text_snoc)
    then show ?thesis using ih False by simp
  qed
qed simp

lemma pop_separators_last: "pop_separators s = [] \<or> \<not> separator (last (pop_separators s))"
  by (induction s rule: rev_induct) (simp_all add: pop_separators_def)

lemma prefix_pop_separators: "prefix (pop_separators s) s"
  using suffix_dropWhile [of separator "rev s"] by (simp add: pop_separators_def suffix_to_prefix)

lemma key_text_prefix: "key_text s \<Longrightarrow> prefix t s \<Longrightarrow> key_text t"
  by (auto simp: key_text_def prefix_def successively_append_iff)

lemma pop_separators_fix: "s = [] \<or> \<not> separator (last s) \<Longrightarrow> pop_separators s = s"
  by (cases s rule: rev_cases) (auto simp: pop_separators_def)

lemma unknown_key_text: "key_text ''unknown''"
  by (simp add: key_text_def key_char_def separator_def ascii_defs)

text \<open>The operator-visible parts of a key name are safe for the keystore: whatever text they
  are made from, the result is not empty, consists of lower-case ASCII letters, digits and
  the two separators (dash and underscore), neither starts nor ends with a separator nor has two in a row,
  and sanitizing it again changes nothing.\<close>

theorem sanitize_key_part_safe:
  "sanitize_key_part part \<noteq> []
    \<and> list_all (\<lambda>c. is_ascii_digit c \<or> is_ascii_lower c \<or> c = CHR ''-'' \<or> c = CHR ''_'')
        (sanitize_key_part part)
    \<and> \<not> separator (hd (sanitize_key_part part)) \<and> \<not> separator (last (sanitize_key_part part))
    \<and> successively (\<lambda>a b. \<not> (separator a \<and> separator b)) (sanitize_key_part part)
    \<and> sanitize_key_part (sanitize_key_part part) = sanitize_key_part part"
proof -
  let ?s = "sanitize_key_part part"
  have "key_text (pop_separators (sanitize_loop [] False part))"
    by (rule key_text_prefix [OF sanitize_loop_key_text prefix_pop_separators])
      (simp_all add: key_text_def)
  then have k: "key_text ?s" by (simp add: sanitize_key_part_def Let_def unknown_key_text)
  have l: "?s \<noteq> []" "\<not> separator (last ?s)"
    using pop_separators_last [of "sanitize_loop [] False part"]
    by (auto simp: sanitize_key_part_def Let_def separator_def)
  have "sanitize_loop [] False ?s = ?s" using sanitize_loop_fixed [of "[]" ?s False] k by simp
  then have "sanitize_key_part ?s = ?s"
    using l pop_separators_fix [of ?s] by (simp add: sanitize_key_part_def [of ?s])
  moreover have "list_all (\<lambda>c. is_ascii_digit c \<or> is_ascii_lower c \<or> c = CHR ''-'' \<or> c = CHR ''_'') ?s"
    using k by (auto simp: key_text_def key_char_def separator_def list_all_iff)
  moreover have "\<not> separator (hd ?s)"
    "successively (\<lambda>a b. \<not> (separator a \<and> separator b)) ?s"
    using k l unfolding key_text_def by blast+
  ultimately show ?thesis using l by blast
qed


section \<open>Who may publish\<close>

lemma validated_publish:
  assumes "validate_identity_publish_message K L clk m = Inr v"
  shows "msg_type m = MESSAGE_TYPE_IDENTITY_PUBLISH_REQUEST
    \<and> document_decode L (vip_document_bytes v) = Inr (vip_document v)
    \<and> document_validate L (vip_document v) = Inr () \<and> document_verify L (vip_document v) = Inr ()
    \<and> did_try_from L (doc_id (vip_document v)) = Inr (vip_document_did v)
    \<and> (\<exists>sender. did_try_from L (msg_from m) = Inr sender \<and> ipns (vip_document_did v) = ipns sender)
    \<and> verify_with_document L clk m (vip_document v) = Inr ()"
  using assms by (auto simp: validate_identity_publish_message_def result_simps)

lemma validated_payload:
  assumes "validate_identity_publish_message K L clk m = Inr v"
  shows "publish_request_of_cbor K (message_payload L m) =
      Inr \<lparr>ipr_document = vip_document_bytes v, ipr_ipns_secret_key = vip_ipns_secret_key v\<rparr>"
  using assms by (auto simp: validate_identity_publish_message_def result_simps)

text \<open>A publication that succeeds has the key in place and has stored the given bytes.\<close>

lemma store_pin_publish_puts:
  assumes "store_pin_publish K L url bytes secret opts w = (Inr (cid, n, i), w')"
    and "document_decode L bytes = Inr document" and "did_try_from L (doc_id document) = Inr d"
  shows "\<exists>w1 w2. ensure_ipns_key K url (chosen_key_name L opts document (ipns d)) (ipns d) secret w =
      (Inr (), w1) \<and> dag_put_cbor K url bytes False w1 = (Inr cid, w2)"
  using assms by (auto simp: store_pin_publish_def io_simps result_simps Let_def)

lemma publication_puts:
  assumes "publish_did_document_to_kubo K L url bytes secret opts sw = (Inr p, sw')"
    and "document_decode L bytes = Inr document" and "did_try_from L (doc_id document) = Inr d"
  shows "\<exists>w1 w2. ensure_ipns_key K url (chosen_key_name L opts document (ipns d)) (ipns d) secret (snd sw) =
      (Inr (), w1) \<and> dag_put_cbor K url bytes False w1 = (Inr (pd_cid p), w2)"
proof -
  obtain n i w' where "store_pin_publish K L url bytes secret opts (snd sw) = (Inr (pd_cid p, n, i), w')"
    using assms(1) by (auto simp: publish_did_document_to_kubo_def Let_def split: prod.splits sum.splits)
  from store_pin_publish_puts [OF this assms(2,3)] show ?thesis .
qed

text \<open>C15: The publisher acts for nobody but the owner: a request has an effect on the daemon or the
  scheduler only if it decodes to a fresh identity-publish message whose payload carries a
  document, valid and with a valid proof, of the very identity that sent the message, and the
  message is signed by that document's signing key. What then happens is the publication of
  exactly the bytes and the key in the payload: when it succeeds, \<open>ensure_ipns_key\<close> found or
  imported the key under the sender's IPNS id, and the CID in the answer is what the daemon
  then gave for storing those bytes.\<close>

theorem publisher_acts_for_owner:
  assumes "handle_ipfs_publish K L clk kubo_url message_cbor sw = (r, sw')" and "sw' \<noteq> sw"
  shows "\<exists>m document bytes secret sender. message_decode L message_cbor = Inr m
    \<and> msg_type m = MESSAGE_TYPE_IDENTITY_PUBLISH_REQUEST
    \<and> publish_request_of_cbor K (message_payload L m) =
        Inr \<lparr>ipr_document = bytes, ipr_ipns_secret_key = secret\<rparr>
    \<and> document_decode L bytes = Inr document
    \<and> document_validate L document = Inr () \<and> document_verify L document = Inr ()
    \<and> did_try_from L (msg_from m) = Inr sender \<and> doc_id document = base_id sender
    \<and> verify_with_document L clk m document = Inr ()
    \<and> sw' = snd (publish_did_document_to_kubo K L kubo_url bytes secret publish_options_default sw)
    \<and> (case r of Inl _ \<Rightarrow> True
       | Inr resp \<Rightarrow> \<exists>cid w1 w2. pdr_cid resp = Some cid
           \<and> ensure_ipns_key K kubo_url (chosen_key_name L publish_options_default document (ipns sender))
               (ipns sender) secret (snd sw) = (Inr (), w1)
           \<and> dag_put_cbor K kubo_url bytes False w1 = (Inr cid, w2))"
proof -
  obtain v where "validate_identity_publish_request K L clk message_cbor = Inr v"
    using assms by (auto simp: handle_ipfs_publish_def split: sum.splits)
  then obtain m where m: "message_decode L message_cbor = Inr m"
    and v: "validate_identity_publish_message K L clk m = Inr v"
    by (auto simp: validate_identity_publish_request_def result_simps)
  note a = validated_publish [OF v]
  then obtain sender where s: "did_try_from L (msg_from m) = Inr sender"
    "ipns (vip_document_did v) = ipns sender" by blast
  have "doc_id (vip_document v) = base_id sender"
    using a s by (auto simp: verify_with_document_def result_simps)
  moreover obtain res where p: "publish_did_document_to_kubo K L kubo_url (vip_document_bytes v)
      (vip_ipns_secret_key v) publish_options_default sw = (res, sw')"
    and r: "case res of Inl e \<Rightarrow> r = Inl e | Inr q \<Rightarrow> \<exists>resp. r = Inr resp \<and> pdr_cid resp = Some (pd_cid q)"
    using assms(1) m v
    by (auto simp: handle_ipfs_publish_def validate_identity_publish_request_def
        split: sum.splits prod.splits)
  moreover have "case r of Inl _ \<Rightarrow> True
       | Inr resp \<Rightarrow> \<exists>cid w1 w2. pdr_cid resp = Some cid
           \<and> ensure_ipns_key K kubo_url (chosen_key_name L publish_options_default (vip_document v) (ipns sender))
               (ipns sender) (vip_ipns_secret_key v) (snd sw) = (Inr (), w1)
           \<and> dag_put_cbor K kubo_url (vip_document_bytes v) False w1 = (Inr cid, w2)"
  proof (cases res)
    case (Inr q)
    have d: "document_decode L (vip_document_bytes v) = Inr (vip_document v)"
      "did_try_from L (doc_id (vip_document v)) = Inr (vip_document_did v)" using a by blast+
    show ?thesis using r Inr s(2) publication_puts [OF p [unfolded Inr] d] by auto
  qed (use r in simp)
  moreover have "sw' = snd (publish_did_document_to_kubo K L kubo_url (vip_document_bytes v)
      (vip_ipns_secret_key v) publish_options_default sw)" by (simp add: p)
  ultimately show ?thesis using m s(1) a validated_payload [OF v] by blast
qed

definition publish_codec_laws :: "('w, 'x) publish_lib_scheme \<Rightarrow> bool" where
  "publish_codec_laws K \<longleftrightarrow>
     (\<forall>r b. cbor_of_publish_request K r = Inr b \<longrightarrow> b \<noteq> [] \<and> publish_request_of_cbor K b = Inr r)"

lemma publish_request_validates:
  assumes "publish_codec_laws K" and "msg_laws L" and "document_codec_laws L"
    and "document_validate L document = Inr ()" and "document_verify L document = Inr ()"
    and "generate_identity_publish_request K L document secret = Inr payload"
    and "new_with_options L c1 c2 n d e r k = Inr m"
    and "dr_type d = MESSAGE_TYPE_IDENTITY_PUBLISH_REQUEST" and "dr_content d = payload"
    and "did_try_from L (dr_from d) = Inr sender" and "doc_id document = base_id sender"
    and "assertion_method_public_key L document = Inr (ed25519_public L (sk_secret_key k))"
    and "validate_message_freshness clk (msg_created_at m) (msg_exp m) = Inr ()"
  shows "\<exists>v. validate_identity_publish_message K L clk m = Inr v \<and> vip_document v = document
    \<and> vip_ipns_secret_key v = secret \<and> ipns (vip_document_did v) = ipns sender"
proof -
  obtain b where b: "document_encode L document = Inr b"
    and g: "cbor_of_publish_request K \<lparr>ipr_document = b, ipr_ipns_secret_key = secret\<rparr> = Inr payload"
    using assms(6) by (auto simp: generate_identity_publish_request_def encode_cbor_def result_simps)
  have p: "payload \<noteq> []" and g1: "publish_request_of_cbor K payload =
      Inr \<lparr>ipr_document = b, ipr_ipns_secret_key = secret\<rparr>"
    using assms(1) g unfolding publish_codec_laws_def by blast+
  have ml: "multiformat_laws L" by (rule crypto_lawsD(1) [OF msg_lawsD(1) [OF assms(2)]])
  have pl: "message_payload L m = payload"
    using payload_created [OF ml assms(7)] p assms(9) by simp
  have t: "msg_type m = MESSAGE_TYPE_IDENTITY_PUBLISH_REQUEST" "msg_from m = dr_from d"
    using new_with_options_Inr [OF assms(7)] assms(8) by auto
  have dd: "document_decode L b = Inr document"
    by (rule document_codec_roundtrip [OF assms(3) b])
  have v: "verify_with_document L clk m document = Inr ()"
    by (rule verify_created_message [OF assms(2,7,10,11,12,13)])
  have "parse L (dr_from d) = Inr (ipns sender, fragment sender)"
    using assms(10) by (auto simp: did_try_from_def result_simps split: prod.splits)
  then have "validate_identifier L (ipns sender) = Inr ()"
    using parse_sound by (fastforce simp: did_ok_def)
  then have i: "did_try_from L (doc_id document) = Inr \<lparr>ipns = ipns sender, fragment = None\<rparr>"
    using base_id_parse [OF ml] assms(11) by (simp add: did_try_from_def)
  show ?thesis
    by (simp add: validate_identity_publish_message_def t pl g1 assms(10) dd assms(4,5) i v)
qed

text \<open>A request an owner makes is accepted as it was made: what
  \<open>generate_identity_publish_request\<close> builds, sent in a fresh signed message, validates to
  exactly the document and the IPNS key it was built from.\<close>

theorem publish_request_roundtrip:
  assumes "publish_codec_laws K" and "msg_laws L" and "document_codec_laws L"
    and "document_validate L document = Inr ()" and "document_verify L document = Inr ()"
    and "generate_identity_publish_request K L document secret = Inr payload"
    and "new_with_options L c1 c2 n d e r k = Inr m"
    and "dr_type d = MESSAGE_TYPE_IDENTITY_PUBLISH_REQUEST" and "dr_content d = payload"
    and "did_try_from L (dr_from d) = Inr sender" and "doc_id document = base_id sender"
    and "assertion_method_public_key L document = Inr (ed25519_public L (sk_secret_key k))"
    and "validate_message_freshness clk (msg_created_at m) (msg_exp m) = Inr ()"
  shows "\<exists>v. validate_identity_publish_message K L clk m = Inr v \<and> vip_document v = document
    \<and> vip_ipns_secret_key v = secret \<and> ipns (vip_document_did v) = ipns sender"
  using assms by (rule publish_request_validates)

section \<open>What a publication has done\<close>

lemma ensure_ipns_key_Inr:
  assumes "ensure_ipns_key K kubo_url key_name ipns_id secret w = (Inr u, w')"
  shows "\<exists>keys w1. list_keys K kubo_url w = (Inr keys, w1)
    \<and> ((\<exists>k\<in>set keys. kk_name k = key_name \<and> trim (kk_id k) = ipns_id)
      \<or> (length secret = 32 \<and> (\<exists>b k w2. import_key K kubo_url key_name b w2 = (Inr k, w')
           \<and> trim (kk_id k) = ipns_id)))"
proof -
  obtain keys w1 where l: "list_keys K kubo_url w = (Inr keys, w1)"
    using assms by (auto simp: ensure_ipns_key_def io_simps)
  show ?thesis
  proof (cases "find (\<lambda>k. kk_name k = key_name) keys")
    case (Some k)
    then have "k \<in> set keys \<and> kk_name k = key_name" by (auto simp: find_Some_iff)
    moreover have "trim (kk_id k) = ipns_id"
      using assms l Some by (auto simp: ensure_ipns_key_def io_simps split: if_splits)
    ultimately show ?thesis using l by blast
  next
    case None
    then have "length secret = 32 \<and> (\<exists>b k w2. import_key K kubo_url key_name b w2 = (Inr k, w')
        \<and> trim (kk_id k) = ipns_id)"
      using assms l by (auto simp: ensure_ipns_key_def io_simps split: if_splits)
    then show ?thesis using l by blast
  qed
qed

text \<open>A publication that reports success has stored, pinned and published in that order: the
  CID it reports is the one the daemon gave for exactly these document bytes, it was pinned
  before the name was moved to it, the name was moved under a key that the daemon holds for
  the document's own identity, and an overwriting publication protects this very CID in the
  cleanup it schedules.\<close>

theorem publication_complete:
  assumes "publish_did_document_to_kubo K L kubo_url bytes secret opts (sc, w) = (Inr p, sc', w')"
  shows "\<exists>document d w1 w2 w3 w4 v. document_decode L bytes = Inr document
    \<and> did_try_from L (doc_id document) = Inr d \<and> pd_ipns_id p = ipns d
    \<and> ensure_ipns_key K kubo_url (pd_key_name p) (ipns d) secret w = (Inr (), w1)
    \<and> dag_put_cbor K kubo_url bytes False w1 = (Inr (pd_cid p), w2)
    \<and> pin_add_named K kubo_url (pd_cid p)
        (local_pin_name opts (chosen_pin_name opts (pd_key_name p))) w2 = (Inr (), w3)
    \<and> name_publish_with_retry K kubo_url (pd_key_name p) (ipns d) (pd_cid p) (dpo_ipns opts)
        (dpo_attempts opts) (dpo_initial_backoff opts) w3 = (Inr v, w4)
    \<and> (pd_cleanup_scheduled p \<longrightarrow> (\<exists>k r. sc_pending sc' k = Some r \<and> pcr_protected_cid r = pd_cid p))"
proof -
  obtain document d w1 w2 w3 w4 v where
    a: "document_decode L bytes = Inr document" "did_try_from L (doc_id document) = Inr d"
      "pd_ipns_id p = ipns d"
      "ensure_ipns_key K kubo_url (pd_key_name p) (ipns d) secret w = (Inr (), w1)"
      "dag_put_cbor K kubo_url bytes False w1 = (Inr (pd_cid p), w2)"
      "pin_add_named K kubo_url (pd_cid p)
         (local_pin_name opts (chosen_pin_name opts (pd_key_name p))) w2 = (Inr (), w3)"
      "name_publish_with_retry K kubo_url (pd_key_name p) (ipns d) (pd_cid p) (dpo_ipns opts)
         (dpo_attempts opts) (dpo_initial_backoff opts) w3 = (Inr v, w4)"
    and c: "snd (confirm_pins_and_schedule_cleanup K kubo_url (chosen_pin_name opts (pd_key_name p))
        (pd_cid p) opts (sc, w4)) = (sc', w')"
      "fst (fst (confirm_pins_and_schedule_cleanup K kubo_url (chosen_pin_name opts (pd_key_name p))
        (pd_cid p) opts (sc, w4))) = pd_cleanup_scheduled p"
    using assms
    by (auto simp: publish_did_document_to_kubo_def store_pin_publish_def io_simps result_simps Let_def
        split: prod.splits sum.splits)
  have "\<exists>k r. sc_pending sc' k = Some r \<and> pcr_protected_cid r = pd_cid p" if s: "pd_cleanup_scheduled p"
  proof -
    have "\<exists>q. schedule q sc = (True, sc') \<and> pcr_protected_cid q = pd_cid p"
      using c s
      by (auto simp: confirm_pins_and_schedule_cleanup_def Let_def split: prod.splits if_splits)
    then obtain q where q: "schedule q sc = (True, sc')" "pcr_protected_cid q = pd_cid p" by blast
    have "sc_pending sc' (key_of q) = Some q"
      by (rule schedule_cases [of sc q]) (use q(1) in auto)
    then show ?thesis using q(2) by blast
  qed
  then show ?thesis using a by blast
qed


section \<open>Witnesses\<close>

definition demo_publish :: "demo_daemon publish_lib" where
  "demo_publish = kubo_lib.extend demo_kubo (publish_lib.fields
     (\<lambda>r. Inr (put_bytes (ipr_document r) @ put_bytes (ipr_ipns_secret_key r)))
     (\<lambda>b. case Option.bind (get_bytes b) (\<lambda>(d, b). map_option (\<lambda>(k, _).
        \<lparr>ipr_document = d, ipr_ipns_secret_key = k\<rparr>) (get_bytes b)) of
          Some r \<Rightarrow> Inr r | None \<Rightarrow> Inl ''malformed'')
     (\<lambda>r. Inr (isr_content r)) (\<lambda>b. Inr \<lparr>isr_content = b, isr_content_type = []\<rparr>)
     (\<lambda>s. Inl ''unsupported'') (\<lambda>b. Inr b) (\<lambda>b. Inr b))"

lemmas demo_publish_defs = demo_publish_def kubo_lib.defs publish_lib.defs demo_kubo_def

lemma put_bytes_nonempty: "put_bytes b \<noteq> []"
  by (simp add: put_bytes_def put_nat_def)

lemma demo_publish_codec: "publish_codec_laws demo_publish"
  using get_put_bytes [where r = "[]"]
  by (simp add: publish_codec_laws_def demo_publish_defs put_bytes_nonempty)

text \<open>An owner, its document, and its request in a signed message.\<close>

definition demo_publish_draft :: "bytes \<Rightarrow> message_draft" where
  "demo_publish_draft payload = \<lparr>dr_from = ''did:ma:6d61'', dr_to = ''did:ma:6d61#inbox'',
     dr_type = MESSAGE_TYPE_IDENTITY_PUBLISH_REQUEST, dr_content_type = ''application/cbor'',
     dr_content = payload\<rparr>"

lemma demo_publish_headers:
  assumes "hd_id h = ''m1''" "hd_protocol h = default_protocol"
    "hd_type h = MESSAGE_TYPE_IDENTITY_PUBLISH_REQUEST"
    "hd_from h = ''did:ma:6d61''" "hd_to h = ''did:ma:6d61#inbox''" "hd_created_at h = 1000"
    "hd_exp h = 4600" "hd_content_type h = ''application/cbor''" "hd_reply_to h = None"
  shows "headers_validate demo_msg_lib (Some 1000) h = Inr ()"
  using assms demo_trim
  by (simp add: headers_validate_ok validate_message_id_def fragment_char_def ascii_defs
      validate_def message_type_defs validate_message_freshness_def now_unix_secs_def
      DEFAULT_MAX_CLOCK_SKEW_SECS_def)

lemma demo_publish_created:
  "\<exists>m. new_with_options demo_msg_lib (Some 1000) (Some 1000) ''m1'' (demo_publish_draft p) 4600 None k = Inr m"
proof -
  have c: "encode_content demo_msg_lib c p \<noteq> []" for c p
    by (simp add: encode_content_def multicodec_encode_def demo_lib_defs demo_doc_lib_def
        demo_crypto_lib_def demo_did_lib_def demo_varint_encode_def)
  have s: "\<exists>b. message_sign demo_msg_lib k m = Inr b" for m
    using msg_lawsD(3) [OF demo_msg_laws]
    by (auto simp: message_sign_def unsigned_headers_cbor_def) (metis bindR_Inr map_err_Inr)
  show ?thesis
    using s by (simp add: new_with_options_def now_unix_secs_def Let_def demo_publish_headers
        unsigned_headers_def demo_publish_draft_def validate_content_def c)
qed

lemma demo_publish_request:
  "\<exists>document k payload m. document_validate demo_msg_lib document = Inr ()
    \<and> document_verify demo_msg_lib document = Inr ()
    \<and> generate_identity_publish_request demo_publish demo_msg_lib document secret = Inr payload
    \<and> new_with_options demo_msg_lib (Some 1000) (Some 1000) ''m1'' (demo_publish_draft payload) 4600 None k = Inr m
    \<and> doc_id document = base_id \<lparr>ipns = ''6d61'', fragment = None\<rparr>
    \<and> assertion_method_public_key demo_msg_lib document = Inr (ed25519_public demo_msg_lib (sk_secret_key k))
    \<and> validate_message_freshness (Some 1010) (msg_created_at m) (msg_exp m) = Inr ()"
proof -
  obtain document :: document where d: "doc_id document = ''did:ma:6d61''"
    "document_validate demo_msg_lib document = Inr ()" "document_verify demo_msg_lib document = Inr ()"
    "assertion_method_public_key demo_msg_lib document = Inr (ed25519_public demo_msg_lib demo_secret)"
    "dagcbor_of_document demo_msg_lib document = Inr (put_document document)"
    using demo_served_document by blast
  obtain k :: signing_key where k: "sk_secret_key k = demo_secret" using demo_msg_keys by blast
  obtain payload where g: "generate_identity_publish_request demo_publish demo_msg_lib document secret = Inr payload"
    by (simp add: generate_identity_publish_request_def document_encode_def d(5) encode_cbor_def
        demo_publish_defs)
  obtain m where m: "new_with_options demo_msg_lib (Some 1000) (Some 1000) ''m1''
      (demo_publish_draft payload) 4600 None k = Inr m"
    using demo_publish_created by blast
  have "msg_created_at m = 1000" "msg_exp m = 4600" using new_with_options_Inr [OF m] by auto
  then have "validate_message_freshness (Some 1010) (msg_created_at m) (msg_exp m) = Inr ()"
    by (simp add: validate_message_freshness_def now_unix_secs_def DEFAULT_MAX_CLOCK_SKEW_SECS_def)
  then show ?thesis using d g m k
    by (intro exI [of _ document] exI [of _ k] exI [of _ payload] exI [of _ m])
      (simp add: base_id_def DID_PREFIX_def)
qed

lemma demo_sender: "did_try_from demo_msg_lib (dr_from (demo_publish_draft p)) =
    Inr \<lparr>ipns = ''6d61'', fragment = None\<rparr>"
  by (simp add: did_try_from_def demo_publish_draft_def)

theorem publish_request_roundtrip_witness:
  "\<exists>m v. validate_identity_publish_message demo_publish demo_msg_lib (Some 1010) m = Inr v
    \<and> vip_ipns_secret_key v = demo_secret \<and> ipns (vip_document_did v) = ''6d61''"
proof -
  obtain document :: document and k :: signing_key and payload m where
    q: "document_validate demo_msg_lib document = Inr ()" "document_verify demo_msg_lib document = Inr ()"
      "generate_identity_publish_request demo_publish demo_msg_lib document demo_secret = Inr payload"
      "new_with_options demo_msg_lib (Some 1000) (Some 1000) ''m1'' (demo_publish_draft payload) 4600 None k = Inr m"
      "doc_id document = base_id \<lparr>ipns = ''6d61'', fragment = None\<rparr>"
      "assertion_method_public_key demo_msg_lib document = Inr (ed25519_public demo_msg_lib (sk_secret_key k))"
      "validate_message_freshness (Some 1010) (msg_created_at m) (msg_exp m) = Inr ()"
    using demo_publish_request by blast
  have "\<exists>v. validate_identity_publish_message demo_publish demo_msg_lib (Some 1010) m = Inr v
    \<and> vip_document v = document \<and> vip_ipns_secret_key v = demo_secret
    \<and> ipns (vip_document_did v) = ipns \<lparr>ipns = ''6d61'', fragment = None\<rparr>"
    by (rule publish_request_roundtrip [OF demo_publish_codec demo_msg_laws demo_msg_documents q(1-4)
          _ _ demo_sender q(5-7)]) (simp_all add: demo_publish_draft_def)
  then show ?thesis by auto
qed

text \<open>A daemon that answers with the given bodies, and refuses connections afterwards.\<close>

definition answers :: "string list \<Rightarrow> demo_daemon" where
  "answers bodies = map (\<lambda>b. \<lparr>rs_status = 200, rs_content = Inr (as_bytes b)\<rparr>) bodies"

lemma demo_post_bytes:
  "post_bytes demo_publish rq (answers (b # bs)) = (Inr (as_bytes b), answers bs)"
  by (simp add: post_bytes_def post_checked_def send_request_def io_bind_def io_lift_def
      error_for_status_def demo_publish_defs answers_def demo_status_error_def)

lemma demo_post_text: "post_text demo_publish rq (answers (b # bs)) = (Inr b, answers bs)"
  by (simp add: post_text_def io_bind_def io_ret_def demo_post_bytes) (simp add: demo_publish_defs)

lemma demo_post_ok: "post_ok demo_publish rq (answers (b # bs)) = (Inr (), answers bs)"
  by (simp add: post_ok_def post_checked_def send_request_def io_bind_def io_lift_def io_ret_def
      error_for_status_def demo_publish_defs answers_def demo_status_error_def)

theorem publisher_acts_for_owner_witness:
  "\<exists>b r sw' m document sender. handle_ipfs_publish demo_publish demo_msg_lib (Some 1010)
      ''http://localhost:5001'' b (scheduler_new, answers [''keys'']) = (r, sw')
    \<and> message_decode demo_msg_lib b = Inr m
    \<and> msg_type m = MESSAGE_TYPE_IDENTITY_PUBLISH_REQUEST
    \<and> document_validate demo_msg_lib document = Inr () \<and> document_verify demo_msg_lib document = Inr ()
    \<and> did_try_from demo_msg_lib (msg_from m) = Inr sender \<and> doc_id document = base_id sender
    \<and> verify_with_document demo_msg_lib (Some 1010) m document = Inr ()"
proof -
  obtain document :: document and k :: signing_key and payload m where
    q: "document_validate demo_msg_lib document = Inr ()" "document_verify demo_msg_lib document = Inr ()"
      "generate_identity_publish_request demo_publish demo_msg_lib document [] = Inr payload"
      "new_with_options demo_msg_lib (Some 1000) (Some 1000) ''m1'' (demo_publish_draft payload) 4600 None k = Inr m"
      "doc_id document = base_id \<lparr>ipns = ''6d61'', fragment = None\<rparr>"
      "assertion_method_public_key demo_msg_lib document = Inr (ed25519_public demo_msg_lib (sk_secret_key k))"
      "validate_message_freshness (Some 1010) (msg_created_at m) (msg_exp m) = Inr ()"
    using demo_publish_request by blast
  have "\<exists>v. validate_identity_publish_message demo_publish demo_msg_lib (Some 1010) m = Inr v
    \<and> vip_document v = document \<and> vip_ipns_secret_key v = []
    \<and> ipns (vip_document_did v) = ipns \<lparr>ipns = ''6d61'', fragment = None\<rparr>"
    by (rule publish_request_validates [OF demo_publish_codec demo_msg_laws demo_msg_documents q(1-4)
          _ _ demo_sender q(5-7)]) (simp_all add: demo_publish_draft_def)
  then obtain v where v: "validate_identity_publish_message demo_publish demo_msg_lib (Some 1010) m = Inr v"
    "vip_ipns_secret_key v = []" by blast
  note vp = validated_publish [OF v(1)]
  have dm: "message_decode demo_msg_lib (put_message m) = Inr m"
    using get_put_message [of m "[]"]
    by (simp add: message_decode_def) (simp add: demo_lib_defs or_malformed_def)
  let ?sw = "(scheduler_new, answers [''keys''])"
  have e1: "\<exists>x. ensure_ipns_key demo_publish u n i [] (answers [''keys'']) = (Inl x, [])" for u n i
    by (simp add: ensure_ipns_key_def list_keys_def io_bind_def demo_post_text parse_body_def)
      (simp add: io_lift_def io_ret_def demo_publish_defs usable_keys_def answers_def)
  have "\<exists>x. store_pin_publish demo_publish demo_msg_lib u (vip_document_bytes v) [] opts (answers [''keys''])
      = (Inl x, [])" for u opts
  proof -
    obtain x where "ensure_ipns_key demo_publish u
        (chosen_key_name demo_msg_lib opts (vip_document v) (ipns (vip_document_did v)))
        (ipns (vip_document_did v)) [] (answers [''keys'']) = (Inl x, [])"
      using e1 by blast
    then show ?thesis using vp
      by (simp add: store_pin_publish_def Let_def io_bind_def io_lift_def)
  qed
  then obtain x where x: "store_pin_publish demo_publish demo_msg_lib ''http://localhost:5001''
      (vip_document_bytes v) [] publish_options_default (answers [''keys'']) = (Inl x, [])" by blast
  have h: "handle_ipfs_publish demo_publish demo_msg_lib (Some 1010) ''http://localhost:5001''
      (put_message m) ?sw = (Inl x, scheduler_new, [])"
    by (simp add: handle_ipfs_publish_def validate_identity_publish_request_def dm v
        publish_did_document_to_kubo_def x)
  have n: "(scheduler_new, []) \<noteq> ?sw" by (simp add: answers_def)
  show ?thesis using h publisher_acts_for_owner [OF h n] by blast
qed


lemma demo_publish_fields [simp]:
  "http_mime demo_publish = (\<lambda>_. Inr ())"
  "json_key_list demo_publish = (\<lambda>b. Inr [])"
  "json_key_import demo_publish =
     (\<lambda>b. Inr \<lparr>kir_name_upper = b, kir_name_lower = [], kir_id_upper = b, kir_id_lower = []\<rparr>)"
  "json_dag_put demo_publish = (\<lambda>b. Inr \<lparr>dpr_cid_upper = Some b, dpr_cid = None\<rparr>)"
  "json_name_publish demo_publish = (\<lambda>b. Inr \<lparr>npr_value_upper = b, npr_value_lower = []\<rparr>)"
  "keypair_from_bytes demo_publish = Inr" "keypair_protobuf demo_publish = Inr"
  by (simp_all add: demo_publish_defs)

lemma demo_steps:
  "list_keys demo_publish u (answers (b # bs)) = (Inr [], answers bs)"
  "trim b = b \<Longrightarrow> b \<noteq> [] \<Longrightarrow>
     import_key demo_publish u n key (answers (b # bs)) = (Inr \<lparr>kk_name = b, kk_id = b\<rparr>, answers bs)"
  "dag_put_cbor demo_publish u data pin (answers (b # bs)) = (Inr b, answers bs)"
  "pin_add_named demo_publish u c n (answers (b # bs)) = (Inr (), answers bs)"
  "b \<noteq> [] \<Longrightarrow> name_publish_with_options demo_publish u n c opts (answers (b # bs)) = (Inr b, answers bs)"
  by (simp_all add: list_keys_def import_key_def dag_put_cbor_def file_part_def pin_add_named_def
      name_publish_with_options_def io_bind_def demo_post_text demo_post_ok parse_body_def io_lift_def
      io_ret_def Let_def or_lower_trimmed_def or_lower_def usable_keys_def dag_put_cid_def)

theorem publication_complete_witness:
  "\<exists>b p sc' w' k r. publish_did_document_to_kubo demo_publish demo_msg_lib ''http://localhost:5001'' b
      demo_secret publish_options_default
      (scheduler_new, answers [''[]'', ''6d61'', ''bafy'', ''[]'', ''/ipfs/bafy'']) = (Inr p, sc', w')
    \<and> pd_cid p = ''bafy'' \<and> sc_pending sc' k = Some r \<and> pcr_protected_cid r = pd_cid p"
proof -
  obtain d :: document where d: "doc_id d = ''did:ma:6d61''"
    "document_of_dagcbor demo_msg_lib (put_document d) = Inr d"
    using demo_served_document by blast
  have t: "trim ''6d61'' = ''6d61''" by (rule trim_solid) (simp_all add: solid_def code_def)
  have e: "ensure_ipns_key demo_publish u n ''6d61'' demo_secret (answers (''[]'' # ''6d61'' # bs)) =
      (Inr (), answers bs)" for u n bs
    using t by (simp add: ensure_ipns_key_def io_bind_def demo_steps io_lift_def io_ret_def demo_secret_def)
  have n: "name_publish_with_retry demo_publish u n i c opts 3 b (answers [''/ipfs/bafy'']) =
      (Inr ''/ipfs/bafy'', answers [])" for u n i c opts b
  proof -
    have u: "unat (3 :: u32) = Suc 2" by simp
    show ?thesis
      unfolding name_publish_with_retry_def u publish_loop.simps
      by (simp add: publish_attempt_def demo_steps)
  qed
  have i: "did_try_from demo_msg_lib ''did:ma:6d61'' = Inr \<lparr>ipns = ''6d61'', fragment = None\<rparr>"
    by (simp add: did_try_from_def)
  have s: "\<exists>kn. store_pin_publish demo_publish demo_msg_lib ''http://localhost:5001'' (put_document d)
      demo_secret publish_options_default (answers [''[]'', ''6d61'', ''bafy'', ''[]'', ''/ipfs/bafy'']) =
      (Inr (''bafy'', kn, ''6d61''), answers [])"
    by (simp add: store_pin_publish_def document_decode_def d i io_bind_def io_lift_def Let_def e
        demo_steps n io_ret_def publish_options_default_def)
  then obtain kn where s: "store_pin_publish demo_publish demo_msg_lib ''http://localhost:5001''
      (put_document d) demo_secret publish_options_default
      (answers [''[]'', ''6d61'', ''bafy'', ''[]'', ''/ipfs/bafy'']) =
      (Inr (''bafy'', kn, ''6d61''), answers [])" by blast
  have o: "dpo_remote_pin publish_options_default = None" "dpo_overwrite publish_options_default"
    by (simp_all add: publish_options_default_def)
  have q: "\<exists>sc'. schedule q scheduler_new = (True, sc')" for q
    by (simp add: schedule_def scheduler_new_def with_capacity_def try_send_def
        DEFAULT_QUEUE_CAPACITY_def Let_def)
  have "\<exists>sc' w'. confirm_pins_and_schedule_cleanup demo_publish u n c publish_options_default
      (scheduler_new, w) = ((True, None), sc', w')" for u n c w
    using q [of "\<lparr>pcr_kubo_url = u, pcr_name = n, pcr_protected_cid = c, pcr_cleanup_local = True,
      pcr_remote_service = None\<rparr>"]
    by (auto simp: confirm_pins_and_schedule_cleanup_def o Let_def)
  then obtain sc' w' where c: "confirm_pins_and_schedule_cleanup demo_publish ''http://localhost:5001''
      (chosen_pin_name publish_options_default kn) ''bafy'' publish_options_default
      (scheduler_new, answers []) = ((True, None), sc', w')" by blast
  obtain p where p: "publish_did_document_to_kubo demo_publish demo_msg_lib ''http://localhost:5001''
      (put_document d) demo_secret publish_options_default
      (scheduler_new, answers [''[]'', ''6d61'', ''bafy'', ''[]'', ''/ipfs/bafy'']) = (Inr p, sc', w')"
    "pd_cid p = ''bafy'' \<and> pd_cleanup_scheduled p"
    by (simp add: publish_did_document_to_kubo_def s c)
  then show ?thesis using publication_complete [OF p(1)] by blast
qed

end
