(* ===== verification/SharedDaemon.thy ===== *)
theory SharedDaemon
  imports Publish
begin

text \<open>
  Publisher and resolver on one Kubo daemon: what \<open>publish_did_document_to_kubo\<close>
  (\<^verbatim>\<open>ipfs/publish.rs\<close>) reports as published is what \<open>KuboDidResolver::resolve\<close>
  (\<^verbatim>\<open>kubo/resolver.rs\<close>) finds afterwards. The daemon is a parameter; what is relied on is its
  documented behaviour, request by request, over a view of its state.
\<close>

section \<open>What the daemon promises\<close>

text \<open>Blocks by CID, IPNS names by key name, and the path an IPNS name resolves to.\<close>

record 'w daemon_view =
  dv_block :: "'w \<Rightarrow> string \<Rightarrow> bytes option"
  dv_key :: "'w \<Rightarrow> string \<Rightarrow> string option"
  dv_name :: "'w \<Rightarrow> string \<Rightarrow> string option"

definition answered :: "('w, 'x) http_lib_scheme \<Rightarrow> http_request \<Rightarrow> 'w \<Rightarrow> bytes \<Rightarrow> 'w \<Rightarrow> bool" where
  "answered K rq w b w' \<longleftrightarrow>
     (\<exists>rs. http_send K rq w = (Inr rs, w') \<and> http_status_error K rq (rs_status rs) = None
        \<and> rs_content rs = Inr b)"

text \<open>A fact about the world that requests to some endpoints, and sleeping, do not end.\<close>

definition lasting :: "('w, 'x) http_lib_scheme \<Rightarrow> string \<Rightarrow> string set \<Rightarrow> ('w \<Rightarrow> bool) \<Rightarrow> bool" where
  "lasting K url E P \<longleftrightarrow>
     (\<forall>rq ep w. rq_url rq = api_url url ep \<longrightarrow> ep \<in> E \<longrightarrow> P w \<longrightarrow> P (snd (http_send K rq w)))
   \<and> (\<forall>n w. P w \<longrightarrow> P (http_sleep K n w))"

definition reading_endpoints :: "string set" where
  "reading_endpoints = {''key/list'', ''key/import'', ''dag/put'', ''pin/add'', ''name/resolve'',
     ''pin/remote/add'', ''dag/get''}"

text \<open>
  None of these requests loses a block, a key or a name, and publishing a name loses no block
  and no key.
\<close>

definition daemon_keeps :: "('w, 'x) kubo_lib_scheme \<Rightarrow> 'w daemon_view \<Rightarrow> string \<Rightarrow> bool" where
  "daemon_keeps K V url \<longleftrightarrow>
     (\<forall>c b. lasting K url (insert ''name/publish'' reading_endpoints) (\<lambda>w. dv_block V w c = Some b))
   \<and> (\<forall>n i. lasting K url (insert ''name/publish'' reading_endpoints) (\<lambda>w. dv_key V w n = Some i))
   \<and> (\<forall>i p. lasting K url reading_endpoints (\<lambda>w. dv_name V w i = Some p))"

text \<open>
  The block stored for DAG-CBOR given as DAG-CBOR is the bytes given, under a CID in canonical
  form.
\<close>

definition daemon_stores :: "('w, 'x) kubo_lib_scheme \<Rightarrow> 'w daemon_view \<Rightarrow> string \<Rightarrow> bool" where
  "daemon_stores K V url \<longleftrightarrow>
     (\<forall>rq w b w' f m data r cid. answered K rq w b w' \<and> rq_url rq = api_url url ''dag/put''
        \<and> rq_body rq = FilePart f m data
        \<and> map_of (rq_query rq) ''store-codec'' = Some ''dag-cbor''
        \<and> map_of (rq_query rq) ''input-codec'' = Some ''dag-cbor''
        \<and> json_dag_put K (http_text K b) = Inr r \<and> dag_put_cid (http_text K b) r = Inr cid
        \<longrightarrow> dv_block V w' cid = Some data \<and> canonical_cid cid)"

text \<open>Listed and imported keys are held.\<close>

definition daemon_lists :: "('w, 'x) kubo_lib_scheme \<Rightarrow> 'w daemon_view \<Rightarrow> string \<Rightarrow> bool" where
  "daemon_lists K V url \<longleftrightarrow>
     (\<forall>rq w b w' ks k. answered K rq w b w' \<and> rq_url rq = api_url url ''key/list''
        \<and> json_key_list K (http_text K b) = Inr ks \<and> k \<in> set (usable_keys ks)
        \<longrightarrow> dv_key V w' (kk_name k) = Some (trim (kk_id k)))"

definition daemon_imports :: "('w, 'x) kubo_lib_scheme \<Rightarrow> 'w daemon_view \<Rightarrow> string \<Rightarrow> bool" where
  "daemon_imports K V url \<longleftrightarrow>
     (\<forall>rq w b w' r n. answered K rq w b w' \<and> rq_url rq = api_url url ''key/import''
        \<and> map_of (rq_query rq) ''arg'' = Some n \<and> json_key_import K (http_text K b) = Inr r
        \<longrightarrow> dv_key V w' n = Some (trim (or_lower_trimmed (kir_id_upper r) (kir_id_lower r))))"

text \<open>
  Publishing an IPFS path under a held key makes its name resolve to the path, and the answer
  of a resolution is the path the name resolves to.
\<close>

definition daemon_publishes :: "('w, 'x) kubo_lib_scheme \<Rightarrow> 'w daemon_view \<Rightarrow> string \<Rightarrow> bool" where
  "daemon_publishes K V url \<longleftrightarrow>
     (\<forall>rq w b w' n i path. answered K rq w b w' \<and> rq_url rq = api_url url ''name/publish''
        \<and> map_of (rq_query rq) ''arg'' = Some (''/ipfs/'' @ path) \<and> map_of (rq_query rq) ''key'' = Some n
        \<and> dv_key V w n = Some i
        \<longrightarrow> dv_name V w' i = Some (''/ipfs/'' @ path))"

definition daemon_resolves :: "('w, 'x) kubo_lib_scheme \<Rightarrow> 'w daemon_view \<Rightarrow> string \<Rightarrow> bool" where
  "daemon_resolves K V url \<longleftrightarrow>
     (\<forall>rq w b w' i r. answered K rq w b w' \<and> rq_url rq = api_url url ''name/resolve''
        \<and> map_of (rq_query rq) ''arg'' = Some (''/ipns/'' @ i) \<and> json_name_resolve K (http_text K b) = Inr r
        \<longrightarrow> dv_name V w' i = Some (trim (or_lower (nrr_path_upper r) (nrr_path_lower r))))"

text \<open>A DAG path through a name whose block is there yields the block.\<close>

definition daemon_serves :: "('w, 'x) kubo_lib_scheme \<Rightarrow> 'w daemon_view \<Rightarrow> string \<Rightarrow> bool" where
  "daemon_serves K V url \<longleftrightarrow>
     (\<forall>rq w i c data. rq_url rq = api_url url ''dag/get''
        \<and> map_of (rq_query rq) ''arg'' = Some (''/ipns/'' @ i)
        \<and> map_of (rq_query rq) ''output-codec'' = Some ''dag-cbor''
        \<and> dv_name V w i = Some (''/ipfs/'' @ c) \<and> dv_block V w c = Some data
        \<longrightarrow> (\<exists>w'. answered K rq w data w'))"

definition daemon_laws :: "('w, 'x) kubo_lib_scheme \<Rightarrow> 'w daemon_view \<Rightarrow> string \<Rightarrow> bool" where
  "daemon_laws K V url \<longleftrightarrow> (\<forall>n. http_build K n = Inr ()) \<and> daemon_keeps K V url
     \<and> daemon_stores K V url \<and> daemon_lists K V url \<and> daemon_imports K V url
     \<and> daemon_publishes K V url \<and> daemon_resolves K V url \<and> daemon_serves K V url"

lemma daemon_lawsD:
  assumes "daemon_laws K V url"
  shows "http_build K n = Inr ()" and "daemon_keeps K V url" and "daemon_stores K V url"
    and "daemon_lists K V url" and "daemon_imports K V url" and "daemon_publishes K V url"
    and "daemon_resolves K V url" and "daemon_serves K V url"
  using assms by (simp_all add: daemon_laws_def)

section \<open>Facts that last\<close>

lemma lasting_kept:
  assumes "daemon_keeps K V url"
  shows "lasting K url (insert ''name/publish'' reading_endpoints) (\<lambda>w. dv_block V w c = Some b)"
    and "lasting K url (insert ''name/publish'' reading_endpoints) (\<lambda>w. dv_key V w n = Some i)"
    and "lasting K url reading_endpoints (\<lambda>w. dv_name V w i = Some p)"
  using assms by (simp_all add: daemon_keeps_def)

lemma lasting_conj:
  "lasting K url E P \<Longrightarrow> lasting K url E Q \<Longrightarrow> lasting K url E (\<lambda>w. P w \<and> Q w)"
  by (simp add: lasting_def)

lemma lasting_mono: "lasting K url E P \<Longrightarrow> F \<subseteq> E \<Longrightarrow> lasting K url F P"
  by (auto simp: lasting_def)

lemma lasting_sleep: "lasting K url E P \<Longrightarrow> P w \<Longrightarrow> P (http_sleep K n w)"
  by (simp add: lasting_def)

lemma lasting_requests:
  "lasting K url E P \<Longrightarrow> request_invariant K (\<lambda>rq. \<exists>ep\<in>E. rq_url rq = api_url url ep) P"
  by unfold_locales (auto simp: lasting_def)

lemma keeps_post:
  assumes "lasting K url E P" and "rq_url rq = api_url url ep" and "ep \<in> E"
  shows "io_keeps P (post_text K rq)" and "io_keeps P (post_bytes K rq)" and "io_keeps P (post_ok K rq)"
    and "io_keeps P (send_request K rq)"
  using request_invariant.keeps_post_text [OF lasting_requests [OF assms(1)]]
    request_invariant.keeps_post_bytes [OF lasting_requests [OF assms(1)]]
    request_invariant.keeps_post_ok [OF lasting_requests [OF assms(1)]]
    request_invariant.keeps_send_request [OF lasting_requests [OF assms(1)]] assms(2,3)
  by blast+

lemma keeps_calls:
  assumes "lasting K url E P"
  shows "''pin/add'' \<in> E \<Longrightarrow> io_keeps P (pin_add_named K url cid name)"
    and "''pin/remote/add'' \<in> E \<Longrightarrow> io_keeps P (remote_pin_add_named K url service cid name)"
    and "''name/resolve'' \<in> E \<Longrightarrow> io_keeps P (name_resolve K url path rec)"
    and "''name/publish'' \<in> E \<Longrightarrow> io_keeps P (name_publish_with_options K url key cid opts)"
    and "''dag/put'' \<in> E \<Longrightarrow> io_keeps P (dag_put_cbor K url data pin)"
  unfolding pin_add_named_def remote_pin_add_named_def name_resolve_def name_publish_with_options_def
    dag_put_cbor_def file_part_def Let_def
  by (intro keeps_intros keeps_post [OF assms]; simp)+

lemma keeps_or_else:
  assumes "io_keeps P m" and "io_keeps P m'"
    and "\<And>w. snd (f w) = (case m w of (Inr x, w1) \<Rightarrow> w1 | (Inl e, w1) \<Rightarrow> snd (m' w1))"
  shows "io_keeps P f"
  unfolding io_keeps_def
proof (intro allI impI)
  fix w assume w: "P w"
  obtain r w1 where r: "m w = (r, w1)" by (cases "m w")
  have w1: "P w1" by (rule keepsD [OF assms(1) w r])
  then show "P (snd (f w))" using assms(2) r by (cases r) (simp_all add: assms(3) io_keeps_def)
qed

lemma keeps_publish_attempt:
  assumes "lasting K url (insert ''name/publish'' reading_endpoints) P"
  shows "io_keeps P (publish_attempt K url key i cid opts)"
proof (rule keeps_or_else)
  note c = keeps_calls [OF assms]
  show "io_keeps P (name_publish_with_options K url key cid opts)" by (rule c(4)) simp
  show "io_keeps P (verify_name_target_after_error K url i cid)"
    unfolding verify_name_target_after_error_def Let_def
    by (intro keeps_bind c(3)) (simp_all add: reading_endpoints_def)
qed (auto simp: publish_attempt_def split: prod.split sum.split)

section \<open>What the publication establishes\<close>

lemma post_bytes_answered: "post_bytes K rq w = (Inr b, w') \<Longrightarrow> answered K rq w b w'"
  by (auto simp: post_bytes_def post_checked_def send_request_def error_for_status_def answered_def
      io_simps split: option.splits)

lemma post_text_answered:
  "post_text K rq w = (Inr t, w') \<Longrightarrow> \<exists>b. answered K rq w b w' \<and> t = http_text K b"
  by (auto simp: post_text_def io_simps dest: post_bytes_answered)

lemma key_ensured:
  assumes laws: "daemon_laws K V url" and run: "ensure_ipns_key K url n i secret w = (Inr (), w')"
  shows "dv_key V w' n = Some i"
proof -
  obtain keys w1 where l: "list_keys K url w = (Inr keys, w1)"
    using run by (auto simp: ensure_ipns_key_def io_simps)
  show ?thesis
  proof (cases "find (\<lambda>k. kk_name k = n) keys")
    case (Some k)
    then have k: "k \<in> set keys" "kk_name k = n" by (auto simp: find_Some_iff)
    have "trim (kk_id k) = i" "w' = w1"
      using run l Some by (auto simp: ensure_ipns_key_def io_simps split: if_splits)
    moreover obtain b ks rq where "answered K rq w b w1" "rq_url rq = api_url url ''key/list''"
      "json_key_list K (http_text K b) = Inr ks" "keys = usable_keys ks"
      using l by (auto simp: list_keys_def parse_body_def io_simps result_simps dest!: post_text_answered)
    ultimately show ?thesis
      using daemon_lawsD(4) [OF laws] k unfolding daemon_lists_def by blast
  next
    case None
    then obtain b k where imp: "import_key K url n b w1 = (Inr k, w')" and i: "trim (kk_id k) = i"
      using run l by (auto simp: ensure_ipns_key_def io_simps split: if_splits)
    obtain a r rq where "answered K rq w1 a w'" "rq_url rq = api_url url ''key/import''"
      "map_of (rq_query rq) ''arg'' = Some n" "json_key_import K (http_text K a) = Inr r"
      "kk_id k = or_lower_trimmed (kir_id_upper r) (kir_id_lower r)"
      using imp by (auto simp: import_key_def file_part_def parse_body_def io_simps result_simps Let_def
          dest!: post_text_answered split: if_splits)
    then show ?thesis
      using daemon_lawsD(5) [OF laws] i unfolding daemon_imports_def by metis
  qed
qed

lemma block_stored:
  assumes laws: "daemon_laws K V url" and run: "dag_put_cbor K url data pin w = (Inr cid, w')"
  shows "dv_block V w' cid = Some data \<and> canonical_cid cid"
proof -
  obtain a r rq f m where "answered K rq w a w'" "rq_url rq = api_url url ''dag/put''"
    "rq_body rq = FilePart f m data" "map_of (rq_query rq) ''store-codec'' = Some ''dag-cbor''"
    "map_of (rq_query rq) ''input-codec'' = Some ''dag-cbor''"
    "json_dag_put K (http_text K a) = Inr r" "dag_put_cid (http_text K a) r = Inr cid"
    using run by (auto simp: dag_put_cbor_def file_part_def parse_body_def io_simps result_simps
        dest!: post_text_answered)
  then show ?thesis using daemon_lawsD(3) [OF laws] unfolding daemon_stores_def by blast
qed

lemma name_published:
  assumes laws: "daemon_laws K V url" and key: "dv_key V w n = Some i" and c: "canonical_cid cid"
    and run: "publish_attempt K url n i cid opts w = (Inr v, w')"
  shows "dv_name V w' i = Some (''/ipfs/'' @ cid)"
proof -
  note path = canonical_path [OF c]
  consider (published) "name_publish_with_options K url n cid opts w = (Inr v, w')"
    | (verified) e w1 where "name_publish_with_options K url n cid opts w = (Inl e, w1)"
        "verify_name_target_after_error K url i cid w1 = (Inr v, w')"
    using run by (auto simp: publish_attempt_def split: prod.splits sum.splits)
  then show ?thesis
  proof cases
    case published
    then obtain a rq where "answered K rq w a w'" "rq_url rq = api_url url ''name/publish''"
      "map_of (rq_query rq) ''arg'' = Some (''/ipfs/'' @ cid)" "map_of (rq_query rq) ''key'' = Some n"
      by (auto simp: name_publish_with_options_def publish_params_def path io_simps parse_body_def Let_def
          dest!: post_text_answered split: if_splits)
    then show ?thesis using daemon_lawsD(6) [OF laws] key unfolding daemon_publishes_def by blast
  next
    case verified
    then have r: "name_resolve K url (''/ipns/'' @ i) True w1 = (Inr v, w')" "trim v = ''/ipfs/'' @ cid"
      by (auto simp: verify_name_target_after_error_def path io_simps Let_def split: if_splits)
    obtain a rq p where "answered K rq w1 a w'" "rq_url rq = api_url url ''name/resolve''"
      "map_of (rq_query rq) ''arg'' = Some (''/ipns/'' @ i)" "json_name_resolve K (http_text K a) = Inr p"
      "v = or_lower (nrr_path_upper p) (nrr_path_lower p)"
      using r(1) by (auto simp: name_resolve_def parse_body_def io_simps result_simps Let_def
          dest!: post_text_answered split: if_splits)
    then show ?thesis using daemon_lawsD(7) [OF laws] r(2) unfolding daemon_resolves_def by metis
  qed
qed

lemma publish_loop_establishes:
  assumes laws: "daemon_laws K V url" and c: "canonical_cid cid"
  shows "publish_loop K url n i cid opts k p q l w = (Inr v, w') \<Longrightarrow> dv_key V w n = Some i \<Longrightarrow>
    dv_block V w cid = Some data \<Longrightarrow>
    dv_name V w' i = Some (''/ipfs/'' @ cid) \<and> dv_block V w' cid = Some data"
proof (induction k arbitrary: p q l w)
  case (Suc k)
  let ?P = "\<lambda>w. dv_key V w n = Some i \<and> dv_block V w cid = Some data"
  have last: "lasting K url (insert ''name/publish'' reading_endpoints) ?P"
    by (intro lasting_conj lasting_kept [OF daemon_lawsD(2) [OF laws]])
  obtain r w1 where a: "publish_attempt K url n i cid opts w = (r, w1)"
    by (cases "publish_attempt K url n i cid opts w")
  have P1: "?P w1"
    using keepsD [OF keeps_publish_attempt [OF last] _ a] Suc.prems(2,3) by blast
  show ?case
  proof (cases r)
    case (Inl e)
    show ?thesis
    proof (cases "k = 0")
      case True
      then show ?thesis using Suc.prems(1) a Inl by simp
    next
      case False
      then have "publish_loop K url n i cid opts k q (min (p + q) 30000) (Some e) (http_sleep K q w1) =
          (Inr v, w')"
        using Suc.prems(1) a Inl by simp
      then show ?thesis using Suc.IH lasting_sleep [OF last P1] by blast
    qed
  next
    case (Inr x)
    then show ?thesis
      using Suc.prems a P1 name_published [OF laws Suc.prems(2) c a [unfolded Inr]] by simp
  qed
qed simp

section \<open>What the confirmation leaves\<close>

lemma keeps_remote_pin_loop:
  assumes "lasting K url reading_endpoints P" and "P w"
    and "remote_pin_loop K url remote cid k p q l w = (r, w')"
  shows "P w'"
  using assms(2,3)
proof (induction k arbitrary: p q l w)
  case (Suc k)
  obtain x w1 where a: "remote_pin_add_named K url (rpo_service remote) cid (rpo_name remote) w = (x, w1)"
    by (cases "remote_pin_add_named K url (rpo_service remote) cid (rpo_name remote) w")
  have "io_keeps P (remote_pin_add_named K url (rpo_service remote) cid (rpo_name remote))"
    by (rule keeps_calls(2) [OF assms(1)]) (simp add: reading_endpoints_def)
  then have w1: "P w1" using Suc.prems(1) a unfolding io_keeps_def by (metis snd_conv)
  show ?case
  proof (cases x)
    case (Inl e)
    then show ?thesis
      using Suc.prems(2) a w1 Suc.IH [OF w1] Suc.IH [OF lasting_sleep [OF assms(1) w1]]
      by (cases "k = 0") auto
  next
    case (Inr u)
    then show ?thesis using Suc.prems(2) a w1 by simp
  qed
qed simp

lemma confirmation_keeps:
  assumes "lasting K url reading_endpoints P" and "P w"
    and "confirm_pins_and_schedule_cleanup K url pin_name cid opts (sc, w) = (r, sc', w')"
  shows "P w'"
proof -
  have "w' = w \<or> (\<exists>remote x. remote_pin_with_retry K url remote cid (dpo_attempts opts)
      (dpo_initial_backoff opts) w = (x, w'))"
    using assms(3) by (auto simp: confirm_pins_and_schedule_cleanup_def Let_def
        split: option.splits prod.splits sum.splits)
  moreover have "P w'" if "remote_pin_with_retry K url remote cid n b w = (x, w')" for remote n b x
  proof (cases "n = 0")
    case True
    then show ?thesis using that assms(2) by (simp add: remote_pin_with_retry_def)
  next
    case False
    then have "snd (remote_pin_loop K url remote cid (unat n) 0 b None w) = w'"
      using that by (auto simp: remote_pin_with_retry_def split: prod.splits sum.splits option.splits)
    then show ?thesis
      using keeps_remote_pin_loop [OF assms(1,2)] by (metis prod.collapse)
  qed
  ultimately show ?thesis using assms(2) by blast
qed

section \<open>What is resolved\<close>

lemma document_served:
  assumes laws: "daemon_laws K V url" and name: "dv_name V w (ipns d) = Some (''/ipfs/'' @ cid)"
    and block: "dv_block V w cid = Some data" and doc: "document_decode L data = Inr document"
    and ok: "document_validate L document = Inr ()" "document_verify L document = Inr ()"
    and did: "did_try_from L did = Inr d" "did_try_from L (doc_id document) = Inr e" "ipns e = ipns d"
  shows "fst (kubo_resolve K L (kubo_resolver_new url) did w) = Inr document"
proof -
  define path where "path = ''/ipns/'' @ ipns d"
  define rq where "rq = \<lparr>rq_url = api_url url ''dag/get'',
    rq_query = [(''arg'', path), (''output-codec'', ''dag-cbor'')], rq_body = NoBody, rq_timeout = 10000\<rparr>"
  have rq: "rq_url rq = api_url url ''dag/get''" "map_of (rq_query rq) ''arg'' = Some (''/ipns/'' @ ipns d)"
    "map_of (rq_query rq) ''output-codec'' = Some ''dag-cbor''"
    by (simp_all add: rq_def path_def)
  obtain w1 where a: "answered K rq w data w1"
    using daemon_lawsD(8) [OF laws] rq name block unfolding daemon_serves_def by blast
  have "post_bytes K rq w = (Inr data, w1)"
    using a daemon_lawsD(1) [OF laws]
    by (auto simp: answered_def post_bytes_def post_checked_def send_request_def error_for_status_def
        io_bind_def io_lift_def)
  then have "dag_get_document K L url path w = (Inr document, w1)"
    using doc unfolding dag_get_document_def dag_get_def rq_def [symmetric]
    by (simp add: io_bind_def io_lift_def document_decode_def result_simps)
  then have "fetch_round K L url path w = (Inr document, w1)" by (simp add: fetch_round_def)
  then have "fetch_loop K L url path 4 0 150 None w = (Inr document, w1)"
    by (simp add: eval_nat_numeral)
  then have "fetch_did_document K L url d w = (check_fetched L d document, w1)"
    unfolding fetch_did_document_def path_def [symmetric] Let_def by simp
  moreover have "check_fetched L d document = Inr document"
    using ok did by (simp add: check_fetched_def)
  ultimately show ?thesis by (simp add: kubo_resolve_def kubo_resolver_new_def did(1))
qed

section \<open>Published is found\<close>

text \<open>The steps of a publication that succeeded, and the worlds between them.\<close>

lemma store_run:
  assumes "store_pin_publish K L url bytes secret opts w = (Inr (cid, n, i), w4)"
  obtains document d w1 w2 w3 v where "document_decode L bytes = Inr document"
    "did_try_from L (doc_id document) = Inr d" "i = ipns d"
    "ensure_ipns_key K url n (ipns d) secret w = (Inr (), w1)"
    "dag_put_cbor K url bytes False w1 = (Inr cid, w2)"
    "pin_add_named K url cid (local_pin_name opts (chosen_pin_name opts n)) w2 = (Inr (), w3)"
    "publish_loop K url n (ipns d) cid (dpo_ipns opts) (unat (dpo_attempts opts)) 0
      (dpo_initial_backoff opts) None w3 = (Inr v, w4)"
proof -
  obtain document d w1 w2 w3 v where r: "document_decode L bytes = Inr document"
      "did_try_from L (doc_id document) = Inr d" "i = ipns d"
      "ensure_ipns_key K url n (ipns d) secret w = (Inr (), w1)"
      "dag_put_cbor K url bytes False w1 = (Inr cid, w2)"
      "pin_add_named K url cid (local_pin_name opts (chosen_pin_name opts n)) w2 = (Inr (), w3)"
    and u: "name_publish_with_retry K url n (ipns d) cid (dpo_ipns opts) (dpo_attempts opts)
      (dpo_initial_backoff opts) w3 = (Inr v, w4)"
    using assms
    by (auto simp: store_pin_publish_def io_simps result_simps Let_def)
  have "publish_loop K url n (ipns d) cid (dpo_ipns opts) (unat (dpo_attempts opts)) 0
      (dpo_initial_backoff opts) None w3 = (Inr v, w4)"
    using u by (auto simp: name_publish_with_retry_def split: prod.splits sum.splits if_splits)
  then show ?thesis by (rule that [OF r])
qed

lemma publication_parts:
  assumes "publish_did_document_to_kubo K L url bytes secret opts (sc, w) = (Inr p, sc', w')"
  obtains n w4 where "store_pin_publish K L url bytes secret opts w = (Inr (pd_cid p, n, pd_ipns_id p), w4)"
    "snd (confirm_pins_and_schedule_cleanup K url (chosen_pin_name opts n) (pd_cid p) opts (sc, w4)) =
      (sc', w')"
    "pd_cleanup_scheduled p =
      fst (fst (confirm_pins_and_schedule_cleanup K url (chosen_pin_name opts n) (pd_cid p) opts (sc, w4)))"
  using assms
  by (auto simp: publish_did_document_to_kubo_def Let_def split: prod.splits sum.splits)

lemma store_establishes:
  assumes laws: "daemon_laws K V url"
    and run: "store_pin_publish K L url bytes secret opts w = (Inr (cid, n, i), w4)"
  shows "dv_name V w4 i = Some (''/ipfs/'' @ cid)" and "dv_block V w4 cid = Some bytes" and "canonical_cid cid"
    and "\<exists>document d. document_decode L bytes = Inr document \<and> did_try_from L (doc_id document) = Inr d
      \<and> i = ipns d"
proof -
  obtain document d w1 w2 w3 v where doc: "document_decode L bytes = Inr document"
      "did_try_from L (doc_id document) = Inr d" "i = ipns d"
    and k: "ensure_ipns_key K url n (ipns d) secret w = (Inr (), w1)"
    and s: "dag_put_cbor K url bytes False w1 = (Inr cid, w2)"
    and a: "pin_add_named K url cid (local_pin_name opts (chosen_pin_name opts n)) w2 = (Inr (), w3)"
    and u: "publish_loop K url n (ipns d) cid (dpo_ipns opts) (unat (dpo_attempts opts)) 0
      (dpo_initial_backoff opts) None w3 = (Inr v, w4)"
    by (rule store_run [OF run]) blast
  note keep = lasting_kept [OF daemon_lawsD(2) [OF laws]]
  note key = keep(2) [where n = n and i = "ipns d"]
  have k1: "dv_key V w1 n = Some (ipns d)" by (rule key_ensured [OF laws k])
  have k2: "dv_key V w2 n = Some (ipns d)"
    using keepsD [OF keeps_calls(5) [OF key] k1 s] by (simp add: reading_endpoints_def)
  have b2: "dv_block V w2 cid = Some bytes" and canon: "canonical_cid cid"
    using block_stored [OF laws s] by simp_all
  have k3: "dv_key V w3 n = Some (ipns d)"
    using keepsD [OF keeps_calls(1) [OF key] k2 a] by (simp add: reading_endpoints_def)
  have b3: "dv_block V w3 cid = Some bytes"
    using keepsD [OF keeps_calls(1) [OF keep(1)] b2 a] by (simp add: reading_endpoints_def)
  have "dv_name V w4 (ipns d) = Some (''/ipfs/'' @ cid) \<and> dv_block V w4 cid = Some bytes"
    by (rule publish_loop_establishes [OF laws canon u k3 b3])
  then show "dv_name V w4 i = Some (''/ipfs/'' @ cid)" "dv_block V w4 cid = Some bytes" "canonical_cid cid"
    "\<exists>document d. document_decode L bytes = Inr document \<and> did_try_from L (doc_id document) = Inr d \<and> i = ipns d"
    using doc canon by simp_all
qed

lemma publication_establishes:
  assumes laws: "daemon_laws K V url"
    and run: "publish_did_document_to_kubo K L url bytes secret opts (sc, w) = (Inr p, sc', w')"
  shows "\<exists>document d. document_decode L bytes = Inr document \<and> did_try_from L (doc_id document) = Inr d
    \<and> pd_ipns_id p = ipns d \<and> dv_name V w' (ipns d) = Some (''/ipfs/'' @ pd_cid p)
    \<and> dv_block V w' (pd_cid p) = Some bytes \<and> canonical_cid (pd_cid p)"
proof -
  obtain n w4 where s: "store_pin_publish K L url bytes secret opts w = (Inr (pd_cid p, n, pd_ipns_id p), w4)"
    and c: "snd (confirm_pins_and_schedule_cleanup K url (chosen_pin_name opts n) (pd_cid p) opts (sc, w4)) =
      (sc', w')"
    by (rule publication_parts [OF run]) blast
  note est = store_establishes [OF laws s]
  note keep = lasting_kept [OF daemon_lawsD(2) [OF laws]]
  let ?P = "\<lambda>w. dv_name V w (pd_ipns_id p) = Some (''/ipfs/'' @ pd_cid p) \<and> dv_block V w (pd_cid p) = Some bytes"
  have "lasting K url reading_endpoints ?P"
    by (intro lasting_conj keep(3) lasting_mono [OF keep(1)]) blast
  then have "?P w'" using confirmation_keeps [of K url ?P w4] est(1,2) c by (metis prod.collapse)
  then show ?thesis using est(3,4) by auto
qed

lemma publication_found:
  assumes "daemon_laws K V url"
    and "publish_did_document_to_kubo K L url bytes secret opts (sc, w) = (Inr p, sc', w')"
    and "document_decode L bytes = Inr document"
    and "document_validate L document = Inr ()" and "document_verify L document = Inr ()"
    and "did_try_from L did = Inr d" and "ipns d = pd_ipns_id p"
  shows "fst (kubo_resolve K L (kubo_resolver_new url) did w') = Inr document"
proof -
  obtain e where e: "did_try_from L (doc_id document) = Inr e" "pd_ipns_id p = ipns e"
    "dv_name V w' (ipns e) = Some (''/ipfs/'' @ pd_cid p)" "dv_block V w' (pd_cid p) = Some bytes"
    using publication_establishes [OF assms(1,2)] assms(3) by auto
  show ?thesis
    by (rule document_served [OF assms(1) _ e(4) assms(3-6) e(1)]) (use e assms(7) in simp_all)
qed

text \<open>C12: What a publication reports as done is what a resolver finds: after a publication to a
  Kubo daemon that succeeded, resolving the document's DID (under any URL of the same
  identity) on that daemon returns exactly the document that was published, if it is valid
  and carries a valid proof. This holds through every branch of the publication: a key that
  was there or was imported, a name publish that was retried, one that reported an error
  but took effect, and a remote pin that failed.\<close>

theorem published_is_found:
  assumes "daemon_laws K V url"
    and "publish_did_document_to_kubo K L url bytes secret opts (sc, w) = (Inr p, sc', w')"
    and "document_decode L bytes = Inr document"
    and "document_validate L document = Inr ()" and "document_verify L document = Inr ()"
    and "did_try_from L did = Inr d" and "ipns d = pd_ipns_id p"
  shows "fst (kubo_resolve K L (kubo_resolver_new url) did w') = Inr document"
  by (rule publication_found [OF assms])

text \<open>The same through the publisher's handler, which has checked the document itself.\<close>

lemma handled_is_found:
  assumes laws: "daemon_laws K V url"
    and run: "handle_ipfs_publish K L clk url message_cbor (sc, w) = (Inr r, sc', w')"
  shows "\<exists>m v did. message_decode L message_cbor = Inr m
    \<and> validate_identity_publish_message K L clk m = Inr v \<and> pdr_did r = Some did
    \<and> did = did_id (vip_document_did v)
    \<and> fst (kubo_resolve K L (kubo_resolver_new url) did w') = Inr (vip_document v)"
proof -
  obtain m v p where v: "message_decode L message_cbor = Inr m"
      "validate_identity_publish_message K L clk m = Inr v"
    and p: "publish_did_document_to_kubo K L url (vip_document_bytes v) (vip_ipns_secret_key v)
      publish_options_default (sc, w) = (Inr p, sc', w')"
    and did: "pdr_did r = Some (did_id (vip_document_did v))"
    using run by (auto simp: handle_ipfs_publish_def validate_identity_publish_request_def result_simps
        split: sum.splits prod.splits)
  note f = validated_publish [OF v(2)]
  obtain e where e: "did_try_from L (doc_id (vip_document v)) = Inr e" "pd_ipns_id p = ipns e"
    "dv_name V w' (ipns e) = Some (''/ipfs/'' @ pd_cid p)"
    "dv_block V w' (pd_cid p) = Some (vip_document_bytes v)"
    using publication_establishes [OF laws p] f by auto
  have "did_id (vip_document_did v) = doc_id (vip_document v)"
    using f by (auto simp: did_try_from_def result_simps dest: parse_sound split: prod.splits)
  moreover have d: "did_try_from L (doc_id (vip_document v)) = Inr (vip_document_did v)"
    "document_decode L (vip_document_bytes v) = Inr (vip_document v)"
    "document_validate L (vip_document v) = Inr ()" "document_verify L (vip_document v) = Inr ()"
    using f by simp_all
  moreover have n: "dv_name V w' (ipns (vip_document_did v)) = Some (''/ipfs/'' @ pd_cid p)"
    using e(1,3) d(1) by simp
  moreover note document_served [OF laws n e(4) d(2-4,1,1) refl]
  ultimately show ?thesis using v did by simp
qed

end
