(* ===== verification/DaemonDemo.thy ===== *)
theory DaemonDemo
  imports SharedDaemon
begin

text \<open>
  A small Kubo daemon that keeps the promises of \<open>SharedDaemon\<close>: content-addressed blocks (a
  CID is the hexadecimal text of its block), keys and published names. On it a document is
  published and found.
\<close>

section \<open>The daemon\<close>

record sim =
  sim_blocks :: "bytes set"
  sim_keys :: "string \<Rightarrow> string option"
  sim_names :: "string \<Rightarrow> string option"

definition sim_url :: string where "sim_url = ''http://localhost:5001''"

definition sim_block :: "sim \<Rightarrow> string \<Rightarrow> bytes option" where
  "sim_block w c =
     (case hex_decode_pairs c of Some b \<Rightarrow> if b \<in> sim_blocks w then Some b else None | None \<Rightarrow> None)"

definition sim_ok :: "bytes \<Rightarrow> sim \<Rightarrow> (string + http_response) \<times> sim" where
  "sim_ok b w = (Inr \<lparr>rs_status = 200, rs_content = Inr b\<rparr>, w)"

definition sim_refused :: "sim \<Rightarrow> (string + http_response) \<times> sim" where
  "sim_refused w = (Inr \<lparr>rs_status = 500, rs_content = Inr []\<rparr>, w)"

text \<open>The block behind \<open>/ipns/<name>\<close>.\<close>

definition sim_lookup :: "sim \<Rightarrow> string \<Rightarrow> bytes option" where
  "sim_lookup w path =
     Option.bind (strip_prefix path ''/ipns/'') (\<lambda>i.
     Option.bind (sim_names w i) (\<lambda>p.
     Option.bind (strip_prefix p ''/ipfs/'') (sim_block w)))"

definition sim_send :: "http_request \<Rightarrow> sim \<Rightarrow> (string + http_response) \<times> sim" where
  "sim_send rq w =
     (let arg = map_of (rq_query rq) ''arg'' in
      if rq_url rq = api_url sim_url ''dag/put'' then
        (case rq_body rq of
           FilePart f m data \<Rightarrow>
             sim_ok (as_bytes (hex_encode data)) (w\<lparr>sim_blocks := insert data (sim_blocks w)\<rparr>)
         | NoBody \<Rightarrow> sim_refused w)
      else if rq_url rq = api_url sim_url ''key/import'' then
        (case (arg, rq_body rq) of
           (Some n, FilePart f m data) \<Rightarrow>
             if sim_keys w n \<noteq> None then sim_refused w
             else sim_ok data (w\<lparr>sim_keys := (sim_keys w)(n \<mapsto> trim (of_bytes data))\<rparr>)
         | _ \<Rightarrow> sim_refused w)
      else if rq_url rq = api_url sim_url ''name/publish'' then
        (case (arg, Option.bind (map_of (rq_query rq) ''key'') (sim_keys w)) of
           (Some p, Some i) \<Rightarrow> sim_ok (as_bytes p) (w\<lparr>sim_names := (sim_names w)(i \<mapsto> p)\<rparr>)
         | _ \<Rightarrow> sim_refused w)
      else if rq_url rq = api_url sim_url ''name/resolve'' then
        (case Option.bind (Option.bind arg (\<lambda>p. strip_prefix p ''/ipns/'')) (sim_names w) of
           Some p \<Rightarrow> if trim p = p then sim_ok (as_bytes p) w else sim_refused w
         | None \<Rightarrow> sim_refused w)
      else if rq_url rq = api_url sim_url ''dag/get'' then
        (case Option.bind arg (sim_lookup w) of Some b \<Rightarrow> sim_ok b w | None \<Rightarrow> sim_refused w)
      else sim_ok [] w)"

definition sim_kubo :: "(bytes \<Rightarrow> string) \<Rightarrow> sim publish_lib" where
  "sim_kubo ids =
     \<lparr>http_build = (\<lambda>_. Inr ()), http_mime = (\<lambda>_. Inr ()), http_send = sim_send, http_text = of_bytes,
      http_status_error = (\<lambda>_. demo_status_error), http_is_success = (\<lambda>s. 200 \<le> s \<and> s < 300),
      http_sleep = (\<lambda>_ w. w),
      json_add = (\<lambda>b. Inr \<lparr>add_hash = b\<rparr>),
      json_dag_put = (\<lambda>b. Inr \<lparr>dpr_cid_upper = Some b, dpr_cid = None\<rparr>),
      json_name_publish = (\<lambda>b. Inr \<lparr>npr_value_upper = b, npr_value_lower = []\<rparr>),
      json_name_resolve = (\<lambda>b. Inr \<lparr>nrr_path_upper = b, nrr_path_lower = []\<rparr>),
      json_version = (\<lambda>b. Inr \<lparr>ver_upper = b, ver_lower = []\<rparr>),
      json_key_list = (\<lambda>b. Inr []),
      json_key_import = (\<lambda>b. Inr \<lparr>kir_name_upper = b, kir_name_lower = [], kir_id_upper = b, kir_id_lower = []\<rparr>),
      json_pin_list = (\<lambda>b. Inr []), json_remote_pin = (\<lambda>b. Inl ''eof''),
      utf8_decode = (\<lambda>b. Inr (of_bytes b)),
      cbor_of_publish_request = cbor_of_publish_request demo_publish,
      publish_request_of_cbor = publish_request_of_cbor demo_publish,
      cbor_of_store_request = (\<lambda>r. Inr (isr_content r)),
      store_request_of_cbor = (\<lambda>b. Inr \<lparr>isr_content = b, isr_content_type = []\<rparr>),
      url_parse = (\<lambda>s. Inl ''unsupported''),
      keypair_from_bytes = Inr, keypair_protobuf = (\<lambda>b. Inr (as_bytes (ids b)))\<rparr>"

lemma sim_kubo_simps [simp]:
  "http_build (sim_kubo ids) n = Inr ()" "http_mime (sim_kubo ids) t = Inr ()" "http_send (sim_kubo ids) = sim_send"
  "http_text (sim_kubo ids) = of_bytes" "http_status_error (sim_kubo ids) rq = demo_status_error"
  "http_sleep (sim_kubo ids) n w = w"
  "json_dag_put (sim_kubo ids) b = Inr \<lparr>dpr_cid_upper = Some b, dpr_cid = None\<rparr>"
  "json_name_publish (sim_kubo ids) b = Inr \<lparr>npr_value_upper = b, npr_value_lower = []\<rparr>"
  "json_name_resolve (sim_kubo ids) b = Inr \<lparr>nrr_path_upper = b, nrr_path_lower = []\<rparr>"
  "json_key_list (sim_kubo ids) b = Inr []"
  "json_key_import (sim_kubo ids) b =
     Inr \<lparr>kir_name_upper = b, kir_name_lower = [], kir_id_upper = b, kir_id_lower = []\<rparr>"
  "keypair_from_bytes (sim_kubo ids) k = Inr k" "keypair_protobuf (sim_kubo ids) k = Inr (as_bytes (ids k))"
  by (simp_all add: sim_kubo_def)

definition sim_view :: "sim daemon_view" where
  "sim_view = \<lparr>dv_block = sim_block, dv_key = sim_keys, dv_name = sim_names\<rparr>"

lemma sim_view_simps [simp]:
  "dv_block sim_view = sim_block" "dv_key sim_view = sim_keys" "dv_name sim_view = sim_names"
  by (simp_all add: sim_view_def)

lemma sim_block_simps [simp]:
  "sim_block (w\<lparr>sim_keys := k\<rparr>) = sim_block w" "sim_block (w\<lparr>sim_names := n\<rparr>) = sim_block w"
  by (rule ext, simp add: sim_block_def split: option.split)+

lemma sim_block_insert:
  "sim_block (w\<lparr>sim_blocks := insert d (sim_blocks w)\<rparr>) (hex_encode d) = Some d"
  "sim_block w c = Some b \<Longrightarrow> sim_block (w\<lparr>sim_blocks := insert d (sim_blocks w)\<rparr>) c = Some b"
  by (auto simp: sim_block_def hex_roundtrip split: option.splits if_splits)

definition replied :: "(string + http_response) \<times> sim \<Rightarrow> bytes \<Rightarrow> sim \<Rightarrow> bool" where
  "replied r b w' \<longleftrightarrow> (\<exists>rs. r = (Inr rs, w') \<and> demo_status_error (rs_status rs) = None
     \<and> rs_content rs = Inr b)"

lemma sim_answered: "answered (sim_kubo ids) rq w b w' \<longleftrightarrow> replied (sim_send rq w) b w'"
  by (simp add: answered_def replied_def)

lemma replied_simps [simp]:
  "replied (sim_ok x w) b w' \<longleftrightarrow> x = b \<and> w = w'" "\<not> replied (sim_refused w) b w'"
  by (auto simp: replied_def sim_ok_def sim_refused_def demo_status_error_def)

lemma snd_sim [simp]: "snd (sim_ok b w) = w" "snd (sim_refused w) = w"
  by (simp_all add: sim_ok_def sim_refused_def)

section \<open>It keeps the promises\<close>

lemma hex_trimmed: "trim (hex_encode b) = hex_encode b"
proof (cases "b = []")
  case False
  then have "hex_encode b \<noteq> []" by (cases b) simp_all
  moreover from this have "solid (hd (hex_encode b))" "solid (last (hex_encode b))"
    using hex_encode_hexdigits [of b] solid_hexdigit by (auto simp: list_all_iff)
  ultimately show ?thesis by (rule trim_solid)
qed simp

lemma hex_canonical: "canonical_cid (hex_encode b)"
proof -
  have slash: "hex_encode b = [] \<or> hd (hex_encode b) \<noteq> CHR ''/''"
    using hex_encode_hexdigits [of b]
    by (cases "hex_encode b") (auto simp: is_ascii_hexdigit_def is_ascii_digit_def code_def)
  show ?thesis
    unfolding canonical_cid_def normalize_cid_arg_def hex_trimmed
    by (simp add: strip_ipfs_fix [OF no_ipfs_prefix [OF slash]] trim_start_char_fix [OF slash])
qed

lemma sim_keeps: "daemon_keeps (sim_kubo ids) sim_view sim_url"
  unfolding daemon_keeps_def lasting_def sim_kubo_simps sim_view_simps
proof (intro conjI allI impI)
  fix c b ep and rq :: http_request and w :: sim
  assume "sim_block w c = Some b"
  then show "sim_block (snd (sim_send rq w)) c = Some b"
    by (auto simp: sim_send_def sim_block_insert Let_def split: http_body.split option.split)
next
  fix n i ep and rq :: http_request and w :: sim
  assume "sim_keys w n = Some i"
  then show "sim_keys (snd (sim_send rq w)) n = Some i"
    by (auto simp: sim_send_def Let_def split: http_body.split option.split)
next
  fix i p ep and rq :: http_request and w :: sim
  assume "sim_names w i = Some p" "rq_url rq = api_url sim_url ep" "ep \<in> reading_endpoints"
  then show "sim_names (snd (sim_send rq w)) i = Some p"
    by (auto simp: sim_send_def reading_endpoints_def Let_def split: http_body.split option.split)
qed simp_all

lemma sim_laws: "daemon_laws (sim_kubo ids) sim_view sim_url"
  unfolding daemon_laws_def
proof (intro conjI)
  show "daemon_keeps (sim_kubo ids) sim_view sim_url" by (rule sim_keeps)
  show "daemon_stores (sim_kubo ids) sim_view sim_url"
    by (auto simp: daemon_stores_def sim_answered sim_send_def Let_def dag_put_cid_def
        sim_block_insert hex_canonical split: http_body.splits)
  show "daemon_lists (sim_kubo ids) sim_view sim_url"
    by (simp add: daemon_lists_def usable_keys_def)
  show "daemon_imports (sim_kubo ids) sim_view sim_url"
    by (auto simp: daemon_imports_def sim_answered sim_send_def Let_def or_lower_trimmed_def
        split: http_body.splits if_splits)
  show "daemon_publishes (sim_kubo ids) sim_view sim_url"
    by (auto simp: daemon_publishes_def sim_answered sim_send_def Let_def)
  show "daemon_resolves (sim_kubo ids) sim_view sim_url"
    by (auto simp: daemon_resolves_def sim_answered sim_send_def Let_def or_lower_def strip_prefix_def
        split: option.splits if_splits)
  show "daemon_serves (sim_kubo ids) sim_view sim_url"
    by (auto simp: daemon_serves_def sim_answered sim_send_def Let_def sim_lookup_def strip_prefix_def)
qed simp

section \<open>Publishing on it\<close>

lemma sim_post:
  assumes "sim_send rq w = sim_ok b w'"
  shows "post_text (sim_kubo ids) rq w = (Inr (of_bytes b), w')" and "post_ok (sim_kubo ids) rq w = (Inr (), w')"
  using assms by (simp_all add: post_text_def post_bytes_def post_ok_def post_checked_def send_request_def
      error_for_status_def io_bind_def io_lift_def io_ret_def sim_ok_def demo_status_error_def)

lemma sim_list_keys: "list_keys (sim_kubo ids) sim_url w = (Inr [], w)"
proof -
  have "sim_send \<lparr>rq_url = api_url sim_url ''key/list'', rq_query = [], rq_body = NoBody,
      rq_timeout = 10000\<rparr> w = sim_ok [] w"
    by (simp add: sim_send_def)
  then show ?thesis
    by (simp add: list_keys_def io_bind_def sim_post parse_body_def io_lift_def io_ret_def usable_keys_def)
qed

lemma sim_import:
  assumes "sim_keys w n = None" and "trim i = i" and "i \<noteq> []"
  shows "import_key (sim_kubo ids) sim_url n (as_bytes i) w =
    (Inr \<lparr>kk_name = i, kk_id = i\<rparr>, w\<lparr>sim_keys := (sim_keys w)(n \<mapsto> i)\<rparr>)"
proof -
  have "sim_send \<lparr>rq_url = api_url sim_url ''key/import'',
      rq_query = [(''arg'', n), (''ipns-base'', ''base36''), (''allow-any-key-type'', ''true'')],
      rq_body = FilePart ''ipns.key'' (Some ''application/octet-stream'') (as_bytes i),
      rq_timeout = 10000\<rparr> w = sim_ok (as_bytes i) (w\<lparr>sim_keys := (sim_keys w)(n \<mapsto> i)\<rparr>)"
    using assms by (simp add: sim_send_def)
  then show ?thesis
    using assms(2,3) by (simp add: import_key_def file_part_def io_bind_def sim_post parse_body_def
        io_lift_def io_ret_def or_lower_trimmed_def Let_def)
qed

lemma sim_dag_put:
  "dag_put_cbor (sim_kubo ids) sim_url data pin w =
     (Inr (hex_encode data), w\<lparr>sim_blocks := insert data (sim_blocks w)\<rparr>)"
proof -
  have "sim_send \<lparr>rq_url = api_url sim_url ''dag/put'',
      rq_query = [(''store-codec'', ''dag-cbor''), (''input-codec'', ''dag-cbor''), (''pin'', bool_text pin)],
      rq_body = FilePart ''document.cbor'' (Some ''application/octet-stream'') data,
      rq_timeout = 10000\<rparr> w =
      sim_ok (as_bytes (hex_encode data)) (w\<lparr>sim_blocks := insert data (sim_blocks w)\<rparr>)"
    by (simp add: sim_send_def)
  then show ?thesis
    by (simp add: dag_put_cbor_def file_part_def io_bind_def sim_post parse_body_def io_lift_def
        io_ret_def dag_put_cid_def)
qed

lemma sim_pin_add: "pin_add_named (sim_kubo ids) sim_url cid name w = (Inr (), w)"
  unfolding pin_add_named_def by (rule sim_post(2) [where b = "[]"]) (simp add: sim_send_def)

lemma sim_publish:
  assumes "sim_keys w n = Some i" and "attempts = Suc k"
  shows "publish_loop (sim_kubo ids) sim_url n ipns_id cid opts attempts p q l w =
    (Inr (normalize_ipfs_arg cid), w\<lparr>sim_names := (sim_names w)(i \<mapsto> normalize_ipfs_arg cid)\<rparr>)"
proof -
  have "normalize_ipfs_arg cid \<noteq> []" by (simp add: normalize_ipfs_arg_def)
  then have "name_publish_with_options (sim_kubo ids) sim_url n cid opts w =
      (Inr (normalize_ipfs_arg cid), w\<lparr>sim_names := (sim_names w)(i \<mapsto> normalize_ipfs_arg cid)\<rparr>)"
    unfolding name_publish_with_options_def io_bind_def
    by (subst sim_post(1) [where b = "as_bytes (normalize_ipfs_arg cid)"
          and w' = "w\<lparr>sim_names := (sim_names w)(i \<mapsto> normalize_ipfs_arg cid)\<rparr>"])
      (simp_all add: sim_send_def publish_params_def assms(1) io_lift_def io_ret_def parse_body_def
        or_lower_def Let_def)
  then show ?thesis by (simp add: assms(2) publish_attempt_def)
qed

definition sim_empty :: sim where
  "sim_empty = \<lparr>sim_blocks = {}, sim_keys = Map.empty, sim_names = Map.empty\<rparr>"

lemma sim_stored:
  assumes "document_decode L b = Inr d" and "did_try_from L (doc_id d) = Inr e" and "ipns e = ids secret"
    and "length secret = 32" and "trim (ids secret) = ids secret" and "ids secret \<noteq> []"
  shows "\<exists>n w4. store_pin_publish (sim_kubo ids) L sim_url b secret publish_options_default sim_empty =
    (Inr (hex_encode b, n, ids secret), w4)"
proof -
  have nonempty: "secret \<noteq> []" using assms(4) by auto
  define n where "n = chosen_key_name L publish_options_default d (ids secret)"
  have k: "ensure_ipns_key (sim_kubo ids) sim_url n (ids secret) secret sim_empty =
      (Inr (), sim_empty\<lparr>sim_keys := [n \<mapsto> ids secret]\<rparr>)"
    using sim_import [of sim_empty n "ids secret"] assms(4-6) nonempty
    by (simp add: ensure_ipns_key_def io_bind_def sim_list_keys io_lift_def io_ret_def
        sim_empty_def)
  have u: "unat (dpo_attempts publish_options_default) = Suc 2"
    by (simp add: publish_options_default_def)
  have r: "name_publish_with_retry (sim_kubo ids) sim_url n i cid opts (dpo_attempts publish_options_default) q w =
      (Inr (normalize_ipfs_arg cid), w\<lparr>sim_names := (sim_names w)(ids secret \<mapsto> normalize_ipfs_arg cid)\<rparr>)"
    if "sim_keys w n = Some (ids secret)" for i cid opts q w
    using sim_publish [OF that u] by (simp add: name_publish_with_retry_def publish_options_default_def u)
  have "\<exists>w4. store_pin_publish (sim_kubo ids) L sim_url b secret publish_options_default sim_empty =
      (Inr (hex_encode b, n, ids secret), w4)"
    using k by (simp add: store_pin_publish_def io_bind_def io_lift_def assms Let_def sim_dag_put
        sim_pin_add r io_ret_def flip: n_def)
  then show ?thesis by blast
qed

lemma sim_published:
  assumes "document_decode L b = Inr d" and "did_try_from L (doc_id d) = Inr e" and "ipns e = ids secret"
    and "length secret = 32" and "trim (ids secret) = ids secret" and "ids secret \<noteq> []"
  shows "\<exists>p sc' w'. publish_did_document_to_kubo (sim_kubo ids) L sim_url b secret publish_options_default
    (scheduler_new, sim_empty) = (Inr p, sc', w') \<and> pd_ipns_id p = ids secret"
proof -
  obtain n w4 where s: "store_pin_publish (sim_kubo ids) L sim_url b secret publish_options_default
      sim_empty = (Inr (hex_encode b, n, ids secret), w4)"
    using sim_stored [where ids = ids and secret = secret, OF assms] by blast
  obtain x sc' w' where "confirm_pins_and_schedule_cleanup (sim_kubo ids) sim_url
      (chosen_pin_name publish_options_default n) (hex_encode b) publish_options_default
      (scheduler_new, w4) = (x, sc', w')"
    by (metis prod.collapse)
  then show ?thesis
    by (auto simp: publish_did_document_to_kubo_def s split: prod.split)
qed

theorem published_is_found_witness:
  "\<exists>b p sc' w' d. publish_did_document_to_kubo (sim_kubo (\<lambda>k. ''6d61'')) demo_msg_lib sim_url b demo_secret
      publish_options_default (scheduler_new, sim_empty) = (Inr p, sc', w')
    \<and> doc_id d = ''did:ma:6d61''
    \<and> fst (kubo_resolve (sim_kubo (\<lambda>k. ''6d61'')) demo_msg_lib (kubo_resolver_new sim_url) ''did:ma:6d61'' w') = Inr d"
proof -
  obtain d :: document where d: "doc_id d = ''did:ma:6d61''"
    "document_validate demo_msg_lib d = Inr ()" "document_verify demo_msg_lib d = Inr ()"
    "document_of_dagcbor demo_msg_lib (put_document d) = Inr d"
    using demo_served_document by blast
  have t: "trim ''6d61'' = ''6d61''" by (rule trim_solid) (simp_all add: solid_def code_def)
  have i: "did_try_from demo_msg_lib ''did:ma:6d61'' = Inr \<lparr>ipns = ''6d61'', fragment = None\<rparr>"
    by (simp add: did_try_from_def)
  have dec: "document_decode demo_msg_lib (put_document d) = Inr d"
    by (simp add: document_decode_def d(4))
  obtain p sc' w' where p: "publish_did_document_to_kubo (sim_kubo (\<lambda>k. ''6d61'')) demo_msg_lib sim_url (put_document d)
      demo_secret publish_options_default (scheduler_new, sim_empty) = (Inr p, sc', w')"
    "pd_ipns_id p = ''6d61''"
    using sim_published [OF dec, of _ "\<lambda>k. ''6d61''" demo_secret] i d(1) t by (auto simp: demo_secret_def)
  have "fst (kubo_resolve (sim_kubo (\<lambda>k. ''6d61'')) demo_msg_lib (kubo_resolver_new sim_url) ''did:ma:6d61'' w') = Inr d"
    using published_is_found [OF sim_laws p(1) dec d(2,3) i] p(2) by simp
  then show ?thesis using p(1) d(1) by blast
qed

end
