(* ===== verification/Progress.thy ===== *)
theory Progress
  imports Prelude
begin

text \<open>
  Progress along infinite runs, for the components that never end: a run is a function from
  positions to states, and a goal is reached because a distance to it never grows and keeps
  shrinking. Used for the cleanup worker and for connection attempts.
\<close>

type_synonym 's run = "nat \<Rightarrow> 's"

text \<open>A step, or nothing happening (to the part of the system that is looked at).\<close>

definition run_of :: "('s \<Rightarrow> 's \<Rightarrow> bool) \<Rightarrow> 's run \<Rightarrow> bool" where
  "run_of R \<sigma> \<longleftrightarrow> (\<forall>i. \<sigma> (Suc i) = \<sigma> i \<or> R (\<sigma> i) (\<sigma> (Suc i)))"

lemma run_ofD: "run_of R \<sigma> \<Longrightarrow> \<sigma> (Suc i) = \<sigma> i \<or> R (\<sigma> i) (\<sigma> (Suc i))"
  by (simp add: run_of_def)

lemma run_of_invariant:
  assumes "run_of R \<sigma>" and "I (\<sigma> i)" and "\<And>s s'. I s \<Longrightarrow> R s s' \<Longrightarrow> I s'" and "i \<le> j"
  shows "I (\<sigma> j)"
  using assms(4)
proof (induction rule: dec_induct)
  case (step n)
  then show ?case using run_ofD [OF assms(1), of n] assms(3) by metis
qed (rule assms(2))

text \<open>Until the goal is reached, what holds now goes on holding.\<close>

lemma holds_until:
  assumes "P i" and "\<And>j. i \<le> j \<Longrightarrow> P j \<Longrightarrow> \<not> G j \<Longrightarrow> P (Suc j)" and "i \<le> k"
    and "\<And>j. i \<le> j \<Longrightarrow> j < k \<Longrightarrow> \<not> G j"
  shows "P k"
  using assms(3,4)
proof (induction rule: dec_induct)
  case (step n)
  then show ?case using assms(2) [of n] by simp
qed (rule assms(1))

text \<open>
  Progress by a measure: as long as the goal is ahead the distance does not grow, and it
  always shrinks some time later.
\<close>

lemma reaches_by_measure:
  fixes m :: "nat \<Rightarrow> nat"
  assumes start: "P i"
    and keep: "\<And>j. i \<le> j \<Longrightarrow> P j \<Longrightarrow> \<not> G j \<Longrightarrow> P (Suc j)"
    and progress: "\<And>j. i \<le> j \<Longrightarrow> P j \<Longrightarrow> \<exists>k\<ge>j. G k \<or> m k < m j"
  shows "\<exists>j\<ge>i. G j"
  using assms
proof (induction "m i" arbitrary: i rule: less_induct)
  case (less i)
  show ?case
  proof (cases "\<exists>j\<ge>i. G j")
    case False
    then have no: "\<not> G j" if "i \<le> j" for j using that by blast
    obtain k where k: "i \<le> k" "m k < m i" using less.prems(3) [OF order_refl less.prems(1)] no by blast
    have "P k" by (rule holds_until [where G = G, OF less.prems(1,2) k(1)]) (use no in blast)+
    moreover have "P (Suc j)" if "k \<le> j" "P j" "\<not> G j" for j
      using less.prems(2) [of j] k(1) that by simp
    moreover have "\<exists>l\<ge>j. G l \<or> m l < m j" if "k \<le> j" "P j" for j
      using less.prems(3) [of j] k(1) that by simp
    ultimately have "\<exists>j\<ge>k. G j" by (rule less.hyps [OF k(2)])
    then show ?thesis using k(1) by (meson order_trans)
  qed blast
qed

text \<open>The first position, from some position on, at which something happens.\<close>

lemma first_time:
  fixes i :: nat
  assumes "i \<le> j" and "G j"
  shows "\<exists>k\<ge>i. k \<le> j \<and> G k \<and> (\<forall>l. i \<le> l \<longrightarrow> l < k \<longrightarrow> \<not> G l)"
proof -
  let ?k = "LEAST k. i \<le> k \<and> G k"
  have "i \<le> ?k \<and> G ?k" by (rule LeastI [of _ j]) (use assms in simp)
  moreover have "?k \<le> j" by (rule Least_le) (use assms in simp)
  moreover have "\<not> G l" if "i \<le> l" "l < ?k" for l using not_less_Least [OF that(2)] that(1) by blast
  ultimately show ?thesis by blast
qed

text \<open>
  The form used for tasks: no step goes away from the goal, the steps of the task go nearer to
  it, and the task goes on taking steps.
\<close>

lemma reaches_by_acting:
  fixes m :: "nat \<Rightarrow> nat"
  assumes start: "P i"
    and step: "\<And>j. i \<le> j \<Longrightarrow> P j \<Longrightarrow> \<not> G j \<Longrightarrow>
      P (Suc j) \<and> m (Suc j) \<le> m j \<and> (A j \<longrightarrow> m (Suc j) < m j)"
    and acts: "\<And>j. i \<le> j \<Longrightarrow> P j \<Longrightarrow> \<exists>l\<ge>j. G l \<or> A l"
  shows "\<exists>j\<ge>i. P j \<and> G j"
proof -
  have far: "P l \<and> m l \<le> m j" if "i \<le> j" "P j" "j \<le> l" "\<And>x. j \<le> x \<Longrightarrow> x < l \<Longrightarrow> \<not> G x" for j l
  proof (rule holds_until [where G = G and i = j and P = "\<lambda>l. P l \<and> m l \<le> m j"])
    show "P (Suc x) \<and> m (Suc x) \<le> m j" if "j \<le> x" "P x \<and> m x \<le> m j" "\<not> G x" for x
      using step [of x] that \<open>i \<le> j\<close> by fastforce
  qed (use that in auto)
  have "\<exists>j\<ge>i. G j"
  proof (rule reaches_by_measure [where P = P and m = m, OF start])
    show "\<exists>k\<ge>j. G k \<or> m k < m j" if j: "i \<le> j" "P j" for j
    proof (cases "\<exists>k\<ge>j. G k")
      case False
      then obtain l where l: "j \<le> l" "A l" using acts [OF j] by blast
      then have "P l \<and> m l \<le> m j" using far [OF j l(1)] False by blast
      then have "m (Suc l) < m j" using step [of l] l j(1) False by fastforce
      then show ?thesis using l(1) le_SucI by blast
    qed blast
  qed (use step in blast)
  then obtain j where "i \<le> j" "G j" "\<And>l. i \<le> l \<Longrightarrow> l < j \<Longrightarrow> \<not> G l"
    using first_time [where G = G] by blast
  then show ?thesis using far [OF order_refl start, of j] by blast
qed

end
