(* ===== verification/PinLiveness.thy ===== *)
theory PinLiveness
  imports Pinning Progress
begin

text \<open>
  Liveness of the pin cleanup (\<open>run_cleanup_worker\<close> in \<^verbatim>\<open>kubo/pinning.rs\<close>): what is queued is
  run, in every run in which the worker keeps being scheduled, and the one way to lose a
  wake-up is a full channel at the end of a yield.
\<close>

section \<open>Requests are kept under their key\<close>

definition keyed :: "scheduler \<Rightarrow> bool" where
  "keyed s \<longleftrightarrow> (\<forall>k r. sc_pending s k = Some r \<longrightarrow> key_of r = k)
     \<and> (\<forall>k r. sc_worker s = Running k r \<longrightarrow> key_of r = k)"

lemma schedule_worker [simp]: "sc_worker (snd (schedule r s)) = sc_worker s"
  by (rule schedule_cases [of s r]) simp_all

lemma schedule_queue:
  "sc_queue (snd (schedule r s)) = sc_queue s \<or> sc_queue (snd (schedule r s)) = sc_queue s @ [key_of r]"
  by (rule schedule_cases [of s r]) simp_all

lemma schedule_pending:
  "sc_pending (snd (schedule r s)) = sc_pending s
     \<or> sc_pending (snd (schedule r s)) = (sc_pending s)(key_of r \<mapsto> r)"
  by (rule schedule_cases [of s r]) simp_all

lemma keyed_schedule: "keyed s \<Longrightarrow> keyed (snd (schedule r s))"
  using schedule_pending [of r s] by (auto simp: keyed_def split: if_splits)

lemma keyed_step:
  assumes "keyed s" and "sched_step s s'"
  shows "keyed s'"
  using assms(2)
proof cases
  case (call_schedule r)
  then show ?thesis using assms(1) by (simp add: keyed_schedule)
next
  case (wake k s1)
  then show ?thesis using assms(1) by (auto simp: keyed_def try_send_def split: if_splits)
qed (use assms(1) in \<open>auto simp: keyed_def split: if_splits\<close>)

lemma sched_reachable_keyed: "sched_reachable capacity s \<Longrightarrow> keyed s"
  by (induction rule: sched_reachable.induct)
    (simp add: keyed_def with_capacity_def, rule keyed_step)

section \<open>Where a waiting request can be\<close>

text \<open>A key whose turn comes: its wake-up is in the channel or in the worker's hands.\<close>

definition served :: "pin_cleanup_key \<Rightarrow> scheduler \<Rightarrow> bool" where
  "served k s \<longleftrightarrow> k \<in> set (sc_queue s) \<or> sc_worker s = Received k"

lemma served_waits:
  assumes "sched_inv s" and "served k s"
  shows "sc_pending s k \<noteq> None"
  using assms by (auto simp: sched_inv_def served_def)

text \<open>While a batch runs, a request for its own key that arrived meanwhile has a wake-up.\<close>

definition running_inv :: "scheduler \<Rightarrow> bool" where
  "running_inv s \<longleftrightarrow>
     (\<forall>k r. sc_worker s = Running k r \<longrightarrow> sc_pending s k \<noteq> None \<longrightarrow> k \<in> set (sc_queue s))"

lemma running_inv_step:
  assumes "running_inv s" and "sched_inv s" and "sched_step s s'"
  shows "running_inv s'"
  using assms(3)
proof cases
  case (call_schedule r)
  then show ?thesis using assms(1)
    by (cases rule: schedule_cases [of s r]) (auto simp: running_inv_def split: if_splits)
next
  case (wake k s1)
  then show ?thesis by (simp add: running_inv_def)
qed (use assms(1) in \<open>auto simp: running_inv_def\<close>)

lemma sched_reachable_running: "sched_reachable capacity s \<Longrightarrow> running_inv s"
proof (induction rule: sched_reachable.induct)
  case start
  show ?case by (simp add: running_inv_def with_capacity_def)
next
  case (step s s')
  show ?case by (rule running_inv_step [OF step.IH sched_reachable_inv [OF step.hyps(1)] step.hyps(2)])
qed

text \<open>A request that waits is served, is about to be woken after a yield, or is stuck.\<close>

lemma waiting_cases:
  assumes "sched_reachable capacity s" and "sc_pending s k \<noteq> None"
  shows "served k s \<or> sc_worker s = Yielding k \<or> stuck k s"
  using assms(2) sched_reachable_running [OF assms(1)]
  by (cases "sc_worker s") (auto simp: served_def stuck_def running_inv_def)

text \<open>The only step that strands a request is the one that finds the channel full.\<close>

lemma becomes_stuck:
  assumes "sched_reachable capacity s" and "sched_step s s'" and "stuck k s'" and "\<not> stuck k s"
  shows "sc_worker s = Yielding k \<and> sc_capacity s \<le> length (sc_queue s)
    \<and> s' = s\<lparr>sc_worker := Idle\<rparr>"
  using assms(2)
proof cases
  case (call_schedule r)
  then show ?thesis
    using assms(3,4) by (cases rule: schedule_cases [of s r]) (auto simp: stuck_def split: if_splits)
next
  case (superseded j r)
  then show ?thesis
    using assms(3,4) sched_reachable_running [OF assms(1)] by (auto simp: stuck_def running_inv_def)
next
  case (batch_done j r)
  then show ?thesis
    using assms(3,4) sched_reachable_running [OF assms(1)] by (auto simp: stuck_def running_inv_def)
next
  case (wake j s1)
  then show ?thesis using assms(3,4) by (auto simp: stuck_def try_send_def split: if_splits)
next
  case (wake_dropped j)
  then show ?thesis using assms(3,4) by (auto simp: stuck_def try_send_def split: if_splits)
qed (use assms(3,4) in \<open>auto simp: stuck_def split: if_splits\<close>)

section \<open>The distance of a queued key\<close>

text \<open>
  How many steps of the worker lie before the turn of a key: four for every key queued before
  it, and those of the key in hand.
\<close>

fun phase_rank :: "worker \<Rightarrow> nat" where
  "phase_rank Idle = 0"
| "phase_rank (Yielding k) = 1"
| "phase_rank (Running k r) = 2"
| "phase_rank (Received k) = 3"

definition queued_before :: "'a \<Rightarrow> 'a list \<Rightarrow> nat" where
  "queued_before k q = length (takeWhile (\<lambda>j. j \<noteq> k) q)"

lemma queued_before_append: "k \<in> set q \<Longrightarrow> queued_before k (q @ p) = queued_before k q"
  by (simp add: queued_before_def takeWhile_append1)

lemma queued_before_Cons: "j \<noteq> k \<Longrightarrow> queued_before k (j # q) = Suc (queued_before k q)"
  by (simp add: queued_before_def)

definition turn_distance :: "pin_cleanup_key \<Rightarrow> scheduler \<Rightarrow> nat" where
  "turn_distance k s =
     (if sc_worker s = Received k then 0
      else Suc (4 * queued_before k (sc_queue s) + phase_rank (sc_worker s)))"

text \<open>The step in which the worker takes the request of a key.\<close>

definition takes :: "pin_cleanup_key \<Rightarrow> pin_cleanup_request \<Rightarrow> scheduler \<Rightarrow> scheduler \<Rightarrow> bool" where
  "takes k r s s' \<longleftrightarrow> sc_pending s k = Some r \<and> sc_worker s' = Running k r \<and> sc_worker s = Received k"

text \<open>Every step of the worker brings a served key nearer to its turn, and no step farther from it.\<close>

lemma served_step:
  assumes "sched_inv s" and "served k s" and "sched_step s s'" and "\<nexists>r. takes k r s s'"
  shows "served k s' \<and> (if sc_worker s' = sc_worker s then turn_distance k s' \<le> turn_distance k s
    else turn_distance k s' < turn_distance k s)"
  using assms(3)
proof cases
  case (call_schedule r)
  then show ?thesis using assms(2) schedule_queue [of r s]
    by (auto simp: served_def turn_distance_def queued_before_append)
next
  case (recv j q)
  show ?thesis
  proof (cases "j = k")
    case True
    then show ?thesis using recv by (auto simp: served_def turn_distance_def)
  next
    case False
    then show ?thesis using recv assms(2)
      by (auto simp: served_def turn_distance_def queued_before_Cons)
  qed
next
  case (take_none j)
  then have "j \<noteq> k" using served_waits [OF assms(1,2)] by auto
  then show ?thesis using take_none assms(2) by (auto simp: served_def turn_distance_def)
next
  case (take_some j r)
  then have "j \<noteq> k" using assms(4) by (auto simp: takes_def)
  then show ?thesis using take_some assms(2) by (auto simp: served_def turn_distance_def)
next
  case (wake j s1)
  then show ?thesis using assms(2)
    by (auto simp: served_def turn_distance_def queued_before_append try_send_def split: if_splits)
qed (use assms(2) in \<open>auto simp: served_def turn_distance_def\<close>)

text \<open>A waiting request stays until its key is taken, unless a newer one for the key replaces it.\<close>

lemma pending_step:
  assumes "sc_pending s k = Some r" and "sched_step s s'" and "\<nexists>r. takes k r s s'"
  shows "sc_pending s' k = Some r
    \<or> (\<exists>r'. sc_pending s' k = Some r' \<and> key_of r' = k \<and> s' = snd (schedule r' s))"
  using assms(2)
proof cases
  case (call_schedule r')
  then show ?thesis using assms(1) schedule_pending [of r' s] by (auto split: if_splits)
next
  case (take_some j r')
  then have "j \<noteq> k" using assms(1,3) by (auto simp: takes_def)
  then show ?thesis using take_some assms(1) by simp
next
  case (requeue j r')
  then show ?thesis using assms(1) by auto
next
  case (wake j s1)
  then show ?thesis using assms(1) by (auto simp: try_send_def split: if_splits)
qed (use assms(1) in auto)

section \<open>Fair runs\<close>

text \<open>
  The worker is a task of the runtime: when it can go on it is polled some time later, and
  the requests and sleeps of a batch return. Its steps are those that change its phase.
\<close>

definition worker_ready :: "scheduler \<Rightarrow> bool" where
  "worker_ready s \<longleftrightarrow> sc_worker s \<noteq> Idle \<or> sc_queue s \<noteq> []"

definition fair_worker :: "scheduler run \<Rightarrow> bool" where
  "fair_worker \<sigma> \<longleftrightarrow>
     (\<forall>i. worker_ready (\<sigma> i) \<longrightarrow> (\<exists>j\<ge>i. sc_worker (\<sigma> (Suc j)) \<noteq> sc_worker (\<sigma> j)))"

lemma worker_ready_steps:
  assumes "worker_ready s"
  shows "\<exists>s'. sched_step s s' \<and> sc_worker s' \<noteq> sc_worker s"
proof (cases "sc_worker s")
  case Idle
  then obtain k q where "sc_queue s = k # q" using assms by (cases "sc_queue s") (auto simp: worker_ready_def)
  then show ?thesis using Idle sched_step.recv [of s k q] by fastforce
next
  case (Received k)
  then show ?thesis using sched_step.take_none [of s k] sched_step.take_some [of s k]
    by (cases "sc_pending s k") fastforce+
next
  case (Running k r)
  then show ?thesis using sched_step.batch_done [of s k r] by fastforce
next
  case (Yielding k)
  then show ?thesis using sched_step.wake [of s k] sched_step.wake_dropped [of s k]
    by (cases "try_send k s") fastforce+
qed

lemma served_ready: "served k s \<Longrightarrow> worker_ready s"
  by (auto simp: served_def worker_ready_def)

text \<open>The request that waits at a position is the one that waited before or a newer one.\<close>

definition same_or_newer :: "scheduler run \<Rightarrow> nat \<Rightarrow> nat \<Rightarrow> pin_cleanup_request \<Rightarrow>
    pin_cleanup_request \<Rightarrow> bool" where
  "same_or_newer \<sigma> i j r r' \<longleftrightarrow>
     r' = r \<or> (\<exists>l\<ge>i. l < j \<and> \<sigma> (Suc l) = snd (schedule r' (\<sigma> l)) \<and> key_of r' = key_of r)"

lemma same_or_newer_Suc: "same_or_newer \<sigma> i j r r' \<Longrightarrow> same_or_newer \<sigma> i (Suc j) r r'"
  by (auto simp: same_or_newer_def)

section \<open>Properties\<close>

lemma worker_acts_is_step:
  assumes "run_of sched_step \<sigma>" and "sc_worker (\<sigma> (Suc j)) \<noteq> sc_worker (\<sigma> j)"
  shows "sched_step (\<sigma> j) (\<sigma> (Suc j))"
  using run_ofD [OF assms(1), of j] assms(2) by auto

lemma run_reachable:
  assumes "run_of sched_step \<sigma>" and "\<sigma> 0 = with_capacity capacity"
  shows "sched_reachable capacity (\<sigma> i)"
proof (rule run_of_invariant [where i = 0, OF assms(1)])
  show "sched_reachable capacity (\<sigma> 0)" unfolding assms(2) by (rule sched_reachable.start)
qed (auto intro: sched_reachable.step)

lemma same_or_newer_trans:
  "same_or_newer \<sigma> i j r q \<Longrightarrow> same_or_newer \<sigma> j l q r' \<Longrightarrow> i \<le> j \<Longrightarrow> j \<le> l \<Longrightarrow>
     same_or_newer \<sigma> i l r r'"
  by (auto simp: same_or_newer_def)

lemma served_runs:
  assumes "sched_reachable capacity (\<sigma> i)" and "run_of sched_step \<sigma>" and "fair_worker \<sigma>"
    and "served k (\<sigma> i)" and "sc_pending (\<sigma> i) k = Some r"
  shows "\<exists>j\<ge>i. \<exists>r'. takes k r' (\<sigma> j) (\<sigma> (Suc j)) \<and> same_or_newer \<sigma> i j r r'"
proof -
  have inv: "sched_inv (\<sigma> j) \<and> keyed (\<sigma> j)" if "i \<le> j" for j
    by (rule run_of_invariant [where I = "\<lambda>s. sched_inv s \<and> keyed s", OF assms(2) _ _ that])
      (use sched_reachable_inv [OF assms(1)] sched_reachable_keyed [OF assms(1)]
        in \<open>auto intro: sched_inv_step keyed_step\<close>)
  have rk: "key_of r = k" using inv [of i] assms(5) by (simp add: keyed_def)
  define G where "G j \<longleftrightarrow> (\<exists>r'. takes k r' (\<sigma> j) (\<sigma> (Suc j)))" for j
  define P where "P j \<longleftrightarrow> served k (\<sigma> j)
    \<and> (\<exists>r'. sc_pending (\<sigma> j) k = Some r' \<and> same_or_newer \<sigma> i j r r')" for j
  define m where "m j = turn_distance k (\<sigma> j)" for j
  have step: "P (Suc j) \<and> m (Suc j) \<le> m j
      \<and> (sc_worker (\<sigma> (Suc j)) \<noteq> sc_worker (\<sigma> j) \<longrightarrow> m (Suc j) < m j)" if j: "i \<le> j" "P j" "\<not> G j" for j
  proof (cases "\<sigma> (Suc j) = \<sigma> j")
    case True
    then show ?thesis using j(2) by (auto simp: P_def m_def dest: same_or_newer_Suc)
  next
    case False
    then have s: "sched_step (\<sigma> j) (\<sigma> (Suc j))" using run_ofD [OF assms(2), of j] by blast
    obtain q where q: "sc_pending (\<sigma> j) k = Some q" "same_or_newer \<sigma> i j r q" and sv: "served k (\<sigma> j)"
      using j(2) by (auto simp: P_def)
    have n: "\<nexists>r. takes k r (\<sigma> j) (\<sigma> (Suc j))" using j(3) by (simp add: G_def)
    note d = served_step [OF conjunct1 [OF inv [OF j(1)]] sv s n]
    have "\<exists>r'. sc_pending (\<sigma> (Suc j)) k = Some r' \<and> same_or_newer \<sigma> i (Suc j) r r'"
      using pending_step [OF q(1) s n] q(2) j(1) rk
      by (auto simp: same_or_newer_def intro: less_SucI)
    then show ?thesis using d by (simp add: P_def m_def split: if_splits)
  qed
  have acts: "\<exists>l\<ge>j. G l \<or> sc_worker (\<sigma> (Suc l)) \<noteq> sc_worker (\<sigma> l)" if j: "i \<le> j" "P j" for j
  proof -
    have "worker_ready (\<sigma> j)" using j(2) served_ready unfolding P_def by blast
    then show ?thesis using assms(3) unfolding fair_worker_def by blast
  qed
  have "P i" using assms(4,5) by (auto simp: P_def same_or_newer_def)
  then have "\<exists>j\<ge>i. P j \<and> G j"
    by (rule reaches_by_acting [OF _ step acts])
  then show ?thesis by (auto simp: P_def G_def takes_def)
qed

text \<open>A key that is being repeated is woken unless the channel is full then.\<close>

lemma yielding_wakes:
  assumes "run_of sched_step \<sigma>" and "fair_worker \<sigma>" and "\<And>j. keyed (\<sigma> j)"
    and "sc_worker (\<sigma> i) = Yielding k" and "sc_pending (\<sigma> i) k = Some r" and "\<And>j. \<not> stuck k (\<sigma> j)"
  shows "\<exists>j\<ge>i. \<exists>q. served k (\<sigma> j) \<and> sc_pending (\<sigma> j) k = Some q \<and> same_or_newer \<sigma> i j r q"
proof -
  define G where "G j \<longleftrightarrow> sc_worker (\<sigma> (Suc j)) \<noteq> sc_worker (\<sigma> j)" for j
  define P where "P j \<longleftrightarrow> (\<exists>q. sc_pending (\<sigma> j) k = Some q \<and> same_or_newer \<sigma> i j r q)" for j
  have rk: "key_of r = k" using assms(3) [of i] assms(5) by (simp add: keyed_def)
  obtain l where "i \<le> l" "G l"
    using assms(2,4) unfolding fair_worker_def G_def worker_ready_def by (metis worker.distinct(5))
  then obtain j where j: "i \<le> j" "G j" "\<And>l. i \<le> l \<Longrightarrow> l < j \<Longrightarrow> \<not> G l"
    using first_time [where G = G] by blast
  have keep: "P (Suc l)" if l: "i \<le> l" "sc_worker (\<sigma> l) = Yielding k" "P l" for l
  proof (cases "\<sigma> (Suc l) = \<sigma> l")
    case True
    then show ?thesis using l(3) by (auto simp: P_def dest: same_or_newer_Suc)
  next
    case False
    then have s: "sched_step (\<sigma> l) (\<sigma> (Suc l))" using run_ofD [OF assms(1), of l] by blast
    obtain q where q: "sc_pending (\<sigma> l) k = Some q" "same_or_newer \<sigma> i l r q" using l(3) by (auto simp: P_def)
    have n: "\<nexists>r. takes k r (\<sigma> l) (\<sigma> (Suc l))" using l(2) by (simp add: takes_def)
    show ?thesis using pending_step [OF q(1) s n] q(2) l(1) rk
      by (auto simp: P_def same_or_newer_def intro: less_SucI)
  qed
  have "sc_worker (\<sigma> j) = Yielding k \<and> P j"
  proof (rule holds_until [where G = G and i = i and P = "\<lambda>l. sc_worker (\<sigma> l) = Yielding k \<and> P l"])
    show "sc_worker (\<sigma> i) = Yielding k \<and> P i" using assms(4,5) by (simp add: P_def same_or_newer_def)
    show "sc_worker (\<sigma> (Suc l)) = Yielding k \<and> P (Suc l)"
      if "i \<le> l" "sc_worker (\<sigma> l) = Yielding k \<and> P l" "\<not> G l" for l
      using keep [of l] that by (simp add: G_def)
  qed (use j in auto)
  then have y: "sc_worker (\<sigma> j) = Yielding k" and P: "P (Suc j)" using keep [OF j(1)] by blast+
  have "served k (\<sigma> (Suc j))"
    using run_ofD [OF assms(1), of j] j(2) y assms(6) [of "Suc j"] P
    by (elim disjE sched_stepE) (auto simp: G_def served_def P_def stuck_def try_send_def split: if_splits)
  then show ?thesis using P j(1) by (auto simp: P_def intro: le_SucI)
qed

section \<open>Few names\<close>

text \<open>With no more keys in use than the channel has places, no wake-up is lost.\<close>

lemma few_never_stuck:
  assumes "sched_reachable capacity s" and "sched_step s s'" and "finite K" and "card K \<le> max capacity 1"
    and "dom (sc_pending s) \<subseteq> K" and "\<not> stuck k s"
  shows "\<not> stuck k s'"
proof
  assume "stuck k s'"
  then have b: "sc_worker s = Yielding k" "sc_capacity s \<le> length (sc_queue s)"
    using becomes_stuck [OF assms(1,2)] assms(6) by blast+
  note inv = sched_reachable_inv [OF assms(1)]
  have c: "sc_capacity s = max capacity 1" by (rule sched_capacity [OF assms(1)])
  have d: "distinct (k # sc_queue s)" "set (k # sc_queue s) \<subseteq> K"
    using inv b(1) assms(5) by (auto simp: sched_inv_def)
  have "length (k # sc_queue s) \<le> card K"
    using card_mono [OF assms(3) d(2)] distinct_card [OF d(1)] by simp
  then show False using b(2) c assms(4) by simp
qed

lemma run_never_stuck:
  assumes "run_of sched_step \<sigma>" and "\<sigma> 0 = with_capacity capacity"
    and "finite K" and "card K \<le> max capacity 1" and "\<And>j. dom (sc_pending (\<sigma> j)) \<subseteq> K"
  shows "\<not> stuck k (\<sigma> i)"
proof (induction i)
  case 0
  show ?case by (simp add: assms(2) with_capacity_def stuck_def)
next
  case (Suc i)
  show ?case
    using run_ofD [OF assms(1), of i] few_never_stuck [OF run_reachable [OF assms(1,2)] _ assms(3,4,5) Suc]
    by (metis Suc)
qed

text \<open>C33: No cleanup starves: in every run in which the worker keeps being polled, the request
  that waits for a key is eventually taken and its batch started, or a newer request for
  the same key in its place, however many others are scheduled meanwhile and however long
  other batches ask to be repeated. This holds for every key whose wake-up is in the channel
  or in the worker's hands, and for every key at all when no more keys are in use than the
  channel has places (64 in the scheduler of the process).\<close>

theorem queued_cleanup_runs:
  assumes "run_of sched_step \<sigma>" and "\<sigma> 0 = with_capacity capacity" and "fair_worker \<sigma>"
    and "sc_pending (\<sigma> i) k = Some r"
    and "served k (\<sigma> i)
      \<or> (finite K \<and> card K \<le> max capacity 1 \<and> (\<forall>j. dom (sc_pending (\<sigma> j)) \<subseteq> K))"
  shows "\<exists>j\<ge>i. \<exists>r'. takes k r' (\<sigma> j) (\<sigma> (Suc j)) \<and> same_or_newer \<sigma> i j r r'"
proof -
  note reach = run_reachable [OF assms(1,2)]
  have "\<exists>j\<ge>i. \<exists>q. served k (\<sigma> j) \<and> sc_pending (\<sigma> j) k = Some q \<and> same_or_newer \<sigma> i j r q"
  proof (cases "served k (\<sigma> i)")
    case True
    then show ?thesis using assms(4) by (auto simp: same_or_newer_def)
  next
    case False
    then have free: "\<not> stuck k (\<sigma> j)" for j using run_never_stuck [OF assms(1,2)] assms(5) by blast
    have "sc_worker (\<sigma> i) = Yielding k" using waiting_cases [OF reach] assms(4) False free by blast
    then show ?thesis
      by (rule yielding_wakes [OF assms(1,3) sched_reachable_keyed [OF reach] _ assms(4) free])
  qed
  then obtain j q where j: "i \<le> j" "served k (\<sigma> j)" "sc_pending (\<sigma> j) k = Some q" "same_or_newer \<sigma> i j r q"
    by blast
  then show ?thesis
    using served_runs [OF reach assms(1,3) j(2,3)] same_or_newer_trans [OF j(4)]
    by (meson order_trans)
qed

text \<open>A request that is accepted for a key that did not wait is served.\<close>

lemma accepted_is_served:
  assumes "schedule r s = (True, s')" and "sc_pending s (key_of r) = None"
  shows "served (key_of r) s' \<and> sc_pending s' (key_of r) = Some r"
  using assms by (cases rule: schedule_cases [of s r]) (auto simp: served_def)

section \<open>Witnesses\<close>

text \<open>One request, taken, run once more after a yield, and done.\<close>

definition demo_waiting :: scheduler where
  "demo_waiting = snd (schedule (demo_cleanup ''a'') (with_capacity 2))"

definition demo_received :: scheduler where
  "demo_received = demo_waiting\<lparr>sc_queue := [], sc_worker := Received (key_of (demo_cleanup ''a''))\<rparr>"

definition demo_running :: scheduler where
  "demo_running = demo_received\<lparr>sc_pending := Map.empty,
     sc_worker := Running (key_of (demo_cleanup ''a'')) (demo_cleanup ''a'')\<rparr>"

definition demo_run :: "scheduler run" where
  "demo_run i = (if i = 0 then with_capacity 2 else if i = 1 then demo_waiting
     else if i = 2 then demo_received else if i = 3 then demo_running
     else demo_running\<lparr>sc_worker := Idle\<rparr>)"

lemma demo_waiting_eq:
  "demo_waiting = \<lparr>sc_pending = [key_of (demo_cleanup ''a'') \<mapsto> demo_cleanup ''a''],
     sc_queue = [key_of (demo_cleanup ''a'')], sc_capacity = 2, sc_worker = Idle\<rparr>"
  by (simp add: demo_waiting_def schedule_def try_send_def with_capacity_def Let_def)

lemma demo_run_steps: "run_of sched_step demo_run"
  unfolding run_of_def
proof
  fix i
  let ?k = "key_of (demo_cleanup ''a'')"
  have "sched_step (with_capacity 2) demo_waiting"
    unfolding demo_waiting_def by (rule sched_step.call_schedule)
  moreover have "sched_step demo_waiting demo_received"
    unfolding demo_received_def by (rule sched_step.recv) (simp_all add: demo_waiting_eq)
  moreover have "sched_step demo_received
      (demo_received\<lparr>sc_pending := (sc_pending demo_received)(?k := None),
         sc_worker := Running ?k (demo_cleanup ''a'')\<rparr>)"
    by (rule sched_step.take_some) (simp_all add: demo_received_def demo_waiting_eq)
  moreover have "demo_received\<lparr>sc_pending := (sc_pending demo_received)(?k := None),
         sc_worker := Running ?k (demo_cleanup ''a'')\<rparr> = demo_running"
    by (simp add: demo_running_def demo_received_def demo_waiting_eq)
  moreover have "sched_step demo_running (demo_running\<lparr>sc_worker := Idle\<rparr>)"
    by (rule sched_step.batch_done [where k = ?k and r = "demo_cleanup ''a''"]) (simp add: demo_running_def)
  ultimately show "demo_run (Suc i) = demo_run i \<or> sched_step (demo_run i) (demo_run (Suc i))"
    by (simp add: demo_run_def numeral_2_eq_2 numeral_3_eq_3)
qed

lemma demo_run_fair: "fair_worker demo_run"
  unfolding fair_worker_def
proof (intro allI impI)
  fix i assume r: "worker_ready (demo_run i)"
  have "i \<le> 3"
  proof (rule ccontr)
    assume "\<not> i \<le> 3"
    then have "demo_run i = demo_running\<lparr>sc_worker := Idle\<rparr>" by (simp add: demo_run_def)
    then show False using r by (simp add: worker_ready_def demo_running_def demo_received_def)
  qed
  moreover have "sc_worker (demo_run (Suc 3)) \<noteq> sc_worker (demo_run 3)"
    by (simp add: demo_run_def demo_running_def)
  ultimately show "\<exists>j\<ge>i. sc_worker (demo_run (Suc j)) \<noteq> sc_worker (demo_run j)" by blast
qed

theorem queued_cleanup_runs_witness:
  "\<exists>j\<ge>1. \<exists>r'. takes (key_of (demo_cleanup ''a'')) r' (demo_run j) (demo_run (Suc j))
    \<and> same_or_newer demo_run 1 j (demo_cleanup ''a'') r'"
  by (rule queued_cleanup_runs [where capacity = 2 and K = "{}", OF demo_run_steps _ demo_run_fair])
    (simp_all add: demo_run_def demo_waiting_eq served_def)

end
