(* ===== verification/CleanupDaemon.thy ===== *)
theory CleanupDaemon
  imports DaemonDemo PinLiveness
begin

text \<open>
  Publication, cleanup and resolution on one daemon: the cleanup that a publication schedules
  (\<^verbatim>\<open>kubo/pinning.rs\<close>) leaves the published document where the resolver finds it. The daemon
  also has pins now; what is relied on is that a pinned block stays until its own pin is
  removed.
\<close>

section \<open>What the daemon promises about pins\<close>

text \<open>A request that the daemon carried out.\<close>

definition carried_out :: "('w, 'x) http_lib_scheme \<Rightarrow> http_request \<Rightarrow> 'w \<Rightarrow> 'w \<Rightarrow> bool" where
  "carried_out K rq w w' \<longleftrightarrow>
     (\<exists>rs. http_send K rq w = (Inr rs, w') \<and> http_status_error K rq (rs_status rs) = None)"

text \<open>Adding a pin pins, and nothing a publication does removes a pin.\<close>

definition daemon_pins :: "('w, 'x) kubo_lib_scheme \<Rightarrow> ('w \<Rightarrow> string \<Rightarrow> bool) \<Rightarrow> string \<Rightarrow> bool" where
  "daemon_pins K pinned url \<longleftrightarrow>
     (\<forall>rq w w' c. carried_out K rq w w' \<and> rq_url rq = api_url url ''pin/add''
        \<and> map_of (rq_query rq) ''arg'' = Some (''/ipfs/'' @ c) \<longrightarrow> pinned w' c)
   \<and> (\<forall>c. lasting K url (insert ''name/publish'' reading_endpoints) (\<lambda>w. pinned w c))"

text \<open>
  The block of a pinned CID stays, and stays pinned, under every request about pins but the
  removal of its own local pin; no request about pins changes a name.
\<close>

definition daemon_protects :: "('w, 'x) kubo_lib_scheme \<Rightarrow> 'w daemon_view \<Rightarrow> ('w \<Rightarrow> string \<Rightarrow> bool) \<Rightarrow>
    string \<Rightarrow> bool" where
  "daemon_protects K V pinned url \<longleftrightarrow>
     (\<forall>rq w ep c b. rq_url rq = api_url url ep \<and> ep \<in> pin_endpoints
        \<and> (ep = ''pin/rm'' \<longrightarrow> (''arg'', ''/ipfs/'' @ c) \<notin> set (rq_query rq))
        \<and> pinned w c \<and> dv_block V w c = Some b
        \<longrightarrow> pinned (snd (http_send K rq w)) c \<and> dv_block V (snd (http_send K rq w)) c = Some b)
   \<and> (\<forall>rq w ep i p. rq_url rq = api_url url ep \<and> ep \<in> pin_endpoints \<and> dv_name V w i = Some p
        \<longrightarrow> dv_name V (snd (http_send K rq w)) i = Some p)"

definition pin_laws :: "('w, 'x) kubo_lib_scheme \<Rightarrow> 'w daemon_view \<Rightarrow> ('w \<Rightarrow> string \<Rightarrow> bool) \<Rightarrow>
    string \<Rightarrow> bool" where
  "pin_laws K V pinned url \<longleftrightarrow>
     daemon_pins K pinned url \<and> daemon_protects K V pinned url \<and> canonical_listings K"

lemma pin_lawsD:
  assumes "pin_laws K V pinned url"
  shows "daemon_pins K pinned url" and "daemon_protects K V pinned url" and "canonical_listings K"
  using assms by (simp_all add: pin_laws_def)

section \<open>A publication pins what it publishes\<close>

lemma post_ok_carried_out: "post_ok K rq w = (Inr (), w') \<Longrightarrow> carried_out K rq w w'"
  by (auto simp: post_ok_def post_checked_def send_request_def error_for_status_def carried_out_def
      io_simps split: option.splits)

lemma pin_added:
  assumes "daemon_pins K pinned url" and "canonical_cid c" and "pin_add_named K url c n w = (Inr (), w')"
  shows "pinned w' c"
proof -
  have "\<exists>rq. carried_out K rq w w' \<and> rq_url rq = api_url url ''pin/add''
      \<and> map_of (rq_query rq) ''arg'' = Some (''/ipfs/'' @ c)"
    using post_ok_carried_out [OF assms(3) [unfolded pin_add_named_def]] canonical_path [OF assms(2)]
    by fastforce
  then show ?thesis using assms(1) unfolding daemon_pins_def by blast
qed

lemma keeps_publish_loop:
  assumes "lasting K url (insert ''name/publish'' reading_endpoints) P" and "P w"
    and "publish_loop K url n i cid opts k p q l w = (r, w')"
  shows "P w'"
  using assms(2,3)
proof (induction k arbitrary: p q l w)
  case (Suc k)
  obtain x w1 where a: "publish_attempt K url n i cid opts w = (x, w1)"
    by (cases "publish_attempt K url n i cid opts w")
  have w1: "P w1" by (rule keepsD [OF keeps_publish_attempt [OF assms(1)] Suc.prems(1) a])
  show ?case
  proof (cases x)
    case (Inl e)
    then show ?thesis
      using Suc.prems(2) a w1 Suc.IH [OF w1] Suc.IH [OF lasting_sleep [OF assms(1) w1]]
      by (cases "k = 0") auto
  qed (use Suc.prems(2) a w1 in simp)
qed simp

lemma publication_pins:
  assumes laws: "daemon_laws K V url" and pins: "pin_laws K V pinned url"
    and run: "publish_did_document_to_kubo K L url bytes secret opts (sc, w) = (Inr p, sc', w')"
  shows "pinned w' (pd_cid p)"
proof -
  obtain n w4 where st: "store_pin_publish K L url bytes secret opts w = (Inr (pd_cid p, n, pd_ipns_id p), w4)"
    and c: "snd (confirm_pins_and_schedule_cleanup K url (chosen_pin_name opts n) (pd_cid p) opts (sc, w4)) =
      (sc', w')"
    by (rule publication_parts [OF run]) blast
  obtain d :: did and w2 w3 v
    where a: "pin_add_named K url (pd_cid p) (local_pin_name opts (chosen_pin_name opts n)) w2 = (Inr (), w3)"
    and u: "publish_loop K url n (ipns d) (pd_cid p) (dpo_ipns opts) (unat (dpo_attempts opts)) 0
      (dpo_initial_backoff opts) None w3 = (Inr v, w4)"
    by (rule store_run [OF st]) blast
  have canon: "canonical_cid (pd_cid p)" using publication_establishes [OF laws run] by blast
  let ?P = "\<lambda>w. pinned w (pd_cid p)"
  have last: "lasting K url (insert ''name/publish'' reading_endpoints) ?P"
    using pin_lawsD(1) [OF pins] by (simp add: daemon_pins_def)
  have "?P w3" by (rule pin_added [OF pin_lawsD(1) [OF pins] canon a])
  then have w4: "?P w4" by (rule keeps_publish_loop [OF last _ u])
  have "lasting K url reading_endpoints ?P" by (rule lasting_mono [OF last]) blast
  then show ?thesis using confirmation_keeps [of K url ?P w4] w4 c by (metis prod.collapse)
qed

section \<open>The cleanup that a publication schedules\<close>

lemma publication_schedules:
  assumes run: "publish_did_document_to_kubo K L url bytes secret opts (sc, w) = (Inr p, sc', w')"
    and "pd_cleanup_scheduled p"
  shows "\<exists>r. sc' = snd (schedule r sc) \<and> fst (schedule r sc) \<and> sc_pending sc' (key_of r) = Some r
    \<and> pcr_kubo_url r = url \<and> pcr_protected_cid r = pd_cid p"
proof -
  obtain n w4
    where c: "snd (confirm_pins_and_schedule_cleanup K url (chosen_pin_name opts n) (pd_cid p) opts (sc, w4)) =
      (sc', w')"
      "pd_cleanup_scheduled p =
        fst (fst (confirm_pins_and_schedule_cleanup K url (chosen_pin_name opts n) (pd_cid p) opts (sc, w4)))"
    by (rule publication_parts [OF run]) blast
  then obtain r where r: "schedule r sc = (True, sc')" "pcr_kubo_url r = url" "pcr_protected_cid r = pd_cid p"
    using assms(2)
    by (fastforce simp: confirm_pins_and_schedule_cleanup_def Let_def
        split: option.splits prod.splits sum.splits if_splits)
  then have "sc_pending sc' (key_of r) = Some r"
    by (cases rule: schedule_cases [of sc r]) auto
  then show ?thesis using r by (intro exI [of _ r]) simp
qed

section \<open>Cleanup leaves the document in place\<close>

text \<open>Batches of cleanup work, one after the other.\<close>

fun run_batches :: "('w, 'x) kubo_lib_scheme \<Rightarrow> pin_cleanup_request list \<Rightarrow> 'w \<Rightarrow> 'w" where
  "run_batches K [] w = w"
| "run_batches K (r # rs) w = run_batches K rs (snd (cleanup_one_batch K r w))"

text \<open>A published document: the name leads to the CID, and its block is there and pinned.\<close>

definition in_place :: "'w daemon_view \<Rightarrow> ('w \<Rightarrow> string \<Rightarrow> bool) \<Rightarrow> string \<Rightarrow> string \<Rightarrow> bytes \<Rightarrow> 'w \<Rightarrow> bool" where
  "in_place V pinned i c b w \<longleftrightarrow>
     dv_name V w i = Some (''/ipfs/'' @ c) \<and> dv_block V w c = Some b \<and> pinned w c"

lemma protected_in_place:
  assumes "daemon_protects K V pinned (pcr_kubo_url r)" and "canonical_cid (pcr_protected_cid r)"
  shows "request_invariant K (spares_protected r) (in_place V pinned i (pcr_protected_cid r) b)"
proof
  fix rq w assume rq: "spares_protected r rq" and w: "in_place V pinned i (pcr_protected_cid r) b w"
  obtain ep where ep: "ep \<in> pin_endpoints" "rq_url rq = api_url (pcr_kubo_url r) ep"
    using rq unfolding spares_protected_def by blast
  have "ep = ''pin/rm'' \<longrightarrow> (''arg'', ''/ipfs/'' @ pcr_protected_cid r) \<notin> set (rq_query rq)"
    using rq ep(2) canonical_path [OF assms(2)] by (simp add: spares_protected_def)
  then show "in_place V pinned i (pcr_protected_cid r) b (snd (http_send K rq w))"
    using assms(1) ep w unfolding daemon_protects_def in_place_def by blast
qed

lemma batches_in_place:
  assumes "pin_laws K V pinned url" and "canonical_cid c"
    and "\<forall>r\<in>set rs. pcr_kubo_url r = url \<and> pcr_protected_cid r = c" and "in_place V pinned i c b w"
  shows "in_place V pinned i c b (run_batches K rs w)"
  using assms(3,4)
proof (induction rs arbitrary: w)
  case (Cons r rs)
  have "request_invariant K (spares_protected r) (in_place V pinned i c b)"
    using protected_in_place [of K V pinned r i b] pin_lawsD(2) [OF assms(1)] assms(2) Cons.prems(1) by simp
  then have "io_keeps (in_place V pinned i c b) (cleanup_one_batch K r)"
    by (rule batch_keeps [OF _ pin_lawsD(3) [OF assms(1)]]) (use Cons.prems(1) assms(2) in simp)
  then have "in_place V pinned i c b (snd (cleanup_one_batch K r w))" using Cons.prems(2) by (rule keeps_runD)
  then show ?case using Cons by simp
qed simp

text \<open>C13: Cleanup and publication fit together: after a publication that succeeded, any number of
  batches that protect the published CID, whatever else they remove, leave the document where
  it was, and the resolver still returns exactly the document that was published. The cleanup
  that the publication itself schedules is of this kind: the request that now waits for its
  key protects the published CID on this daemon, and however often its batch is run, the
  resolver still returns the document.\<close>

theorem published_survives_cleanup:
  assumes "daemon_laws K V url" and "pin_laws K V pinned url"
    and "publish_did_document_to_kubo K L url bytes secret opts (sc, w) = (Inr p, sc', w')"
    and "document_decode L bytes = Inr document"
    and "document_validate L document = Inr ()" and "document_verify L document = Inr ()"
    and "did_try_from L did = Inr d" and "ipns d = pd_ipns_id p"
  shows "(\<forall>rs. (\<forall>r\<in>set rs. pcr_kubo_url r = url \<and> pcr_protected_cid r = pd_cid p) \<longrightarrow>
        fst (kubo_resolve K L (kubo_resolver_new url) did (run_batches K rs w')) = Inr document)
    \<and> (pd_cleanup_scheduled p \<longrightarrow>
        (\<exists>r. sc' = snd (schedule r sc) \<and> sc_pending sc' (key_of r) = Some r
           \<and> pcr_kubo_url r = url \<and> pcr_protected_cid r = pd_cid p
           \<and> (\<forall>n. fst (kubo_resolve K L (kubo_resolver_new url) did
                  (run_batches K (replicate n r) w')) = Inr document)))"
proof -
  obtain e where e: "did_try_from L (doc_id document) = Inr e" "pd_ipns_id p = ipns e"
    "dv_name V w' (ipns e) = Some (''/ipfs/'' @ pd_cid p)" "dv_block V w' (pd_cid p) = Some bytes"
    and canon: "canonical_cid (pd_cid p)"
    using publication_establishes [OF assms(1,3)] assms(4) by auto
  have start: "in_place V pinned (ipns e) (pd_cid p) bytes w'"
    using e publication_pins [OF assms(1,2,3)] by (simp add: in_place_def)
  have found: "fst (kubo_resolve K L (kubo_resolver_new url) did (run_batches K rs w')) = Inr document"
    if "\<forall>r\<in>set rs. pcr_kubo_url r = url \<and> pcr_protected_cid r = pd_cid p" for rs
  proof -
    have "in_place V pinned (ipns e) (pd_cid p) bytes (run_batches K rs w')"
      by (rule batches_in_place [OF assms(2) canon that start])
    then have "dv_name V (run_batches K rs w') (ipns d) = Some (''/ipfs/'' @ pd_cid p)"
        "dv_block V (run_batches K rs w') (pd_cid p) = Some bytes"
      using e(2) assms(8) by (simp_all add: in_place_def)
    then show ?thesis
      by (rule document_served [OF assms(1) _ _ assms(4-7) e(1)]) (use e assms(8) in simp)
  qed
  have "\<exists>r. sc' = snd (schedule r sc) \<and> sc_pending sc' (key_of r) = Some r
     \<and> pcr_kubo_url r = url \<and> pcr_protected_cid r = pd_cid p" if "pd_cleanup_scheduled p"
    using publication_schedules [OF assms(3) that] by blast
  then show ?thesis using found by fastforce
qed

section \<open>Witness\<close>

text \<open>A daemon that never collects garbage keeps every block.\<close>

lemma sim_pin_laws: "pin_laws (sim_kubo ids) sim_view (\<lambda>w c. True) sim_url"
proof -
  have "sim_block (snd (sim_send rq w)) c = Some b" if "sim_block w c = Some b" for rq w c b
    using that by (auto simp: sim_send_def sim_block_insert Let_def split: http_body.split option.split)
  moreover have "sim_names (snd (sim_send rq w)) i = Some p"
    if "rq_url rq = api_url sim_url ep" "ep \<in> pin_endpoints" "sim_names w i = Some p" for rq ep i p and w :: sim
    using that by (auto simp: sim_send_def pin_endpoints_def Let_def split: http_body.split option.split)
  ultimately show ?thesis
    by (auto simp: pin_laws_def daemon_pins_def daemon_protects_def lasting_def canonical_listings_def sim_kubo_def)
qed

text \<open>A fresh scheduler takes the request of a publication with the default options.\<close>

lemma default_publication_schedules:
  assumes "publish_did_document_to_kubo K L url b secret publish_options_default (scheduler_new, w) = (Inr p, sc', w')"
  shows "pd_cleanup_scheduled p"
proof -
  obtain n w4 where "pd_cleanup_scheduled p =
      fst (fst (confirm_pins_and_schedule_cleanup K url (chosen_pin_name publish_options_default n) (pd_cid p)
        publish_options_default (scheduler_new, w4)))"
    by (rule publication_parts [OF assms]) blast
  then show ?thesis
    by (simp add: confirm_pins_and_schedule_cleanup_def publish_options_default_def schedule_def
        scheduler_new_def with_capacity_def try_send_def DEFAULT_QUEUE_CAPACITY_def Let_def)
qed

theorem published_survives_cleanup_witness:
  "\<exists>b p sc' w' d r. publish_did_document_to_kubo (sim_kubo (\<lambda>k. ''6d61'')) demo_msg_lib sim_url b demo_secret
      publish_options_default (scheduler_new, sim_empty) = (Inr p, sc', w')
    \<and> sc_pending sc' (key_of r) = Some r \<and> pcr_protected_cid r = pd_cid p \<and> doc_id d = ''did:ma:6d61''
    \<and> fst (kubo_resolve (sim_kubo (\<lambda>k. ''6d61'')) demo_msg_lib (kubo_resolver_new sim_url) ''did:ma:6d61''
        (run_batches (sim_kubo (\<lambda>k. ''6d61'')) (replicate 2 r) w')) = Inr d"
proof -
  obtain d :: document where d: "doc_id d = ''did:ma:6d61''"
    "document_validate demo_msg_lib d = Inr ()" "document_verify demo_msg_lib d = Inr ()"
    "document_of_dagcbor demo_msg_lib (put_document d) = Inr d"
    using demo_served_document by blast
  have t: "trim ''6d61'' = ''6d61''" by (rule trim_solid) (simp_all add: solid_def code_def)
  have i: "did_try_from demo_msg_lib ''did:ma:6d61'' = Inr \<lparr>ipns = ''6d61'', fragment = None\<rparr>"
    by (simp add: did_try_from_def)
  have dec: "document_decode demo_msg_lib (put_document d) = Inr d"
    by (simp add: document_decode_def d(4))
  obtain p sc' w' where p: "publish_did_document_to_kubo (sim_kubo (\<lambda>k. ''6d61'')) demo_msg_lib sim_url (put_document d)
      demo_secret publish_options_default (scheduler_new, sim_empty) = (Inr p, sc', w')"
    "pd_ipns_id p = ''6d61''"
    using sim_published [OF dec, of _ "\<lambda>k. ''6d61''" demo_secret] i d(1) t by (auto simp: demo_secret_def)
  have "pd_cleanup_scheduled p" by (rule default_publication_schedules [OF p(1)])
  then obtain r where "sc_pending sc' (key_of r) = Some r" "pcr_protected_cid r = pd_cid p"
    "fst (kubo_resolve (sim_kubo (\<lambda>k. ''6d61'')) demo_msg_lib (kubo_resolver_new sim_url) ''did:ma:6d61''
      (run_batches (sim_kubo (\<lambda>k. ''6d61'')) (replicate 2 r) w')) = Inr d"
    using published_survives_cleanup [OF sim_laws sim_pin_laws p(1) dec d(2,3) i] p(2) by auto
  then show ?thesis using p(1) d(1) by blast
qed

end
