(* ===== verification/Accept.thy ===== *)
theory Accept
  imports Endpoint StreamTasks
begin

text \<open>
  Both accept loops of \<^verbatim>\<open>iroh/endpoint.rs\<close>: \<open>InboxProtocolHandler::accept\<close> on connections that
  peers dial, and the loop spawned on the connections this endpoint dials; and the reuse of
  an inbound connection for replies.
\<close>

section \<open>The loops\<close>

text \<open>
  A handler; the cache and the inbound security it also holds are shared and belong to the
  endpoint.
\<close>

record inbox_protocol_handler =
  hp_protocol :: string
  hp_inbox :: inbox
  hp_max_message_size :: nat

definition inbox_protocol_handler_new :: "string \<Rightarrow> inbox \<Rightarrow> inbox_protocol_handler" where
  "inbox_protocol_handler_new protocol i =
     \<lparr>hp_protocol = protocol, hp_inbox = i, hp_max_message_size = DEFAULT_MAX_INBOUND_MESSAGE_SIZE\<rparr>"

text \<open>
  A stream the peer opens, with the clock readings its task takes: the bytes sent up to its
  end, a read error, or no end within the timeout.
\<close>

datatype arrival = Sent bytes | Broken string | Stalled

record stream_arrival =
  sa_clocks :: decode_clocks
  sa_now :: clock
  sa_data :: arrival

definition read_arrival :: "nat \<Rightarrow> arrival \<Rightarrow> stream_read" where
  "read_arrival limit a =
     (case a of Sent b \<Rightarrow> read_to_end limit b | Broken e \<Rightarrow> ReadErr e | Stalled \<Rightarrow> ReadTimeout)"

text \<open>The streams of a connection, each by a task of its own, here one after the other.\<close>

fun serve_streams :: "'x msg_lib_scheme \<Rightarrow> (string \<Rightarrow> document result) \<Rightarrow> string \<Rightarrow> inbox \<Rightarrow> nat \<Rightarrow>
    stream_arrival list \<Rightarrow> inbound_security \<times> message inbox_store \<Rightarrow> inbound_security \<times> message inbox_store" where
  "serve_streams L resolve protocol i limit [] st = st"
| "serve_streams L resolve protocol i limit (a # as) st =
     serve_streams L resolve protocol i limit as
       (handle_stream L resolve (sa_clocks a) (sa_now a) protocol i (read_arrival limit (sa_data a)) st)"

definition with_received :: "inbound_security \<times> message inbox_store \<Rightarrow> 'w system \<Rightarrow> 'w system" where
  "with_received r s = s\<lparr>sys_ep := (sys_ep s)\<lparr>ep_security := fst r\<rparr>, sys_store := snd r\<rparr>"

definition received :: "'w system \<Rightarrow> inbound_security \<times> message inbox_store" where
  "received s = (ep_security (sys_ep s), sys_store s)"

definition cache_remove :: "cache_key \<Rightarrow> 'w system \<Rightarrow> 'w system" where
  "cache_remove k s = s\<lparr>sys_ep := (sys_ep s)\<lparr>ep_cache := (ep_cache (sys_ep s))(k := None)\<rparr>\<rparr>"

text \<open>The connection is cached for replies first, and its key removed at the end.\<close>

definition accept_begin :: "inbox_protocol_handler \<Rightarrow> string \<Rightarrow> nat \<Rightarrow> 'w system \<Rightarrow> 'w system" where
  "accept_begin ph remote conn s =
     s\<lparr>sys_ep := cache_insert (remote, hp_protocol ph) conn (sys_ep s)\<rparr>"

definition handler_accept :: "'x msg_lib_scheme \<Rightarrow> (string \<Rightarrow> document result) \<Rightarrow> inbox_protocol_handler \<Rightarrow>
    string \<Rightarrow> nat \<Rightarrow> stream_arrival list \<Rightarrow> 'w system \<Rightarrow> 'w system" where
  "handler_accept L resolve ph remote conn arrivals s =
     (let s1 = accept_begin ph remote conn s;
          s2 = with_received (serve_streams L resolve (hp_protocol ph) (hp_inbox ph)
                 (hp_max_message_size ph) arrivals (received s1)) s1
      in cache_remove (remote, hp_protocol ph) s2)"

text \<open>The body of a loop that \<open>spawn_outbound_accept_loop\<close> has started.\<close>

definition outbound_accept_loop :: "'x msg_lib_scheme \<Rightarrow> (string \<Rightarrow> document result) \<Rightarrow>
    nat \<times> string \<times> inbox \<Rightarrow> stream_arrival list \<Rightarrow> 'w system \<Rightarrow> 'w system" where
  "outbound_accept_loop L resolve spawned_loop arrivals s =
     (case spawned_loop of (conn, normalized, i) \<Rightarrow>
        with_received (serve_streams L resolve normalized i DEFAULT_MAX_INBOUND_MESSAGE_SIZE arrivals
          (received s)) s)"

section \<open>Lemmas\<close>

lemma with_received_simps [simp]:
  "ep_cache (sys_ep (with_received r s)) = ep_cache (sys_ep s)" "received (with_received r s) = r"
  "sys_net (with_received r s) = sys_net s" "received (cache_remove k s) = received s"
  "received (accept_begin ph remote conn s) = received s"
  by (simp_all add: with_received_def received_def cache_remove_def accept_begin_def cache_insert_def)

lemma router_entry:
  "(p, i) \<in> set (router_handlers ep) \<Longrightarrow> ep_inboxes ep p = Some i"
  by (auto simp: router_handlers_def split: option.splits)

text \<open>What the streams of a connection leave behind is what the tasks of any interleaving with
  these guard decisions leave: here, that no stream is served twice and none is lost.\<close>

lemma serve_streams_append:
  "serve_streams L resolve p i limit (as @ bs) st =
     serve_streams L resolve p i limit bs (serve_streams L resolve p i limit as st)"
  by (induction as arbitrary: st) simp_all

text \<open>A stream that stalls, breaks or is too long leaves no trace.\<close>

lemma serve_unreadable:
  "read_arrival limit (sa_data a) = ReadTimeout \<or> (\<exists>e. read_arrival limit (sa_data a) = ReadErr e) \<Longrightarrow>
     serve_streams L resolve p i limit (a # as) st = serve_streams L resolve p i limit as st"
  by (auto simp: handle_stream_def)

section \<open>Properties\<close>

text \<open>It does not matter which side dialled: on a well-formed endpoint with a running router,
  the loop that was spawned on an outbound connection and the router's handler for the same
  protocol treat every sequence of streams alike, with the same inbox, the same limit and
  the same replay guard.\<close>

theorem either_side_dials:
  assumes "endpoint_inv (sys_ep s, sys_store s)" and "ep_router (sys_ep s) = Some hs"
    and "(p, i) \<in> set hs"
    and "ep_loops (spawn_outbound_accept_loop conn q (sys_ep s)) = l # ep_loops (sys_ep s)"
    and "normalize_protocol q = p"
  shows "received (outbound_accept_loop L resolve l arrivals s) =
    received (handler_accept L resolve (inbox_protocol_handler_new p i) remote conn' arrivals s)"
proof -
  have "hs = router_handlers (sys_ep s)" using assms(1,2) by (simp add: endpoint_inv_def)
  then have "ep_inboxes (sys_ep s) p = Some i" using router_entry assms(3) by blast
  then have "l = (conn, p, i)"
    using assms(4,5) by (auto simp: spawn_outbound_accept_loop_def Let_def)
  then show ?thesis
    by (simp add: outbound_accept_loop_def handler_accept_def inbox_protocol_handler_new_def Let_def)
qed

text \<open>While the handler of a connection runs, a reply to the peer under the handler's protocol goes
  out on that very connection: nothing is dialled, so a peer behind a NAT is reached.\<close>

theorem reply_reuses_inbound:
  assumes "s1 = accept_begin (inbox_protocol_handler_new p i) remote conn s"
    and "\<not> net_is_closed N conn (sys_net s)"
  shows "get_or_connect N remote addr p s1 = (Inr conn, s1)"
  using assms
  by (simp add: get_or_connect_def live_cached_def accept_begin_def cache_insert_def
      inbox_protocol_handler_new_def Let_def)

text \<open>The reuse needs the protocol in its normal form: the cache of the handlers is keyed by normalized
  names and \<open>get_or_connect\<close> looks up the name as given, which it then also dials as given. A
  peer that only accepts its registered, normalized protocols is not reached, although
  service lookup and local delivery accept the same spelling.\<close>

theorem raw_protocol_not_reused:
  assumes "p \<noteq> normalize_protocol p" and "ep_cache (sys_ep s) (remote, p) = None"
    and "s1 = accept_begin (inbox_protocol_handler_new (normalize_protocol p) i) remote conn s"
    and "\<And>a w. net_connect N a (as_bytes p) w = (Inl e, w)"
  shows "fst (get_or_connect N remote addr p s1) = Inl (error.Transport (''connect failed: '' @ e))"
  using assms
  by (simp add: get_or_connect_def live_cached_def accept_begin_def cache_insert_def connect_lock_def
      inbox_protocol_handler_new_def Let_def)

section \<open>Witnesses\<close>

definition demo_running_endpoint :: "iroh_endpoint \<times> message inbox_store" where
  "demo_running_endpoint = snd (service INBOX_PROTOCOL_ID (demo_endpoint, empty_store))"

definition demo_running_system :: "nat system" where
  "demo_running_system = \<lparr>sys_ep = fst demo_running_endpoint, sys_store = snd demo_running_endpoint, sys_net = 0\<rparr>"

lemma demo_running_inv: "endpoint_inv demo_running_endpoint"
  unfolding demo_running_endpoint_def
  by (rule endpoint_inv_service) (rule endpoint_inv_new [OF demo_endpoint_new])

lemma demo_running_fields:
  "ep_router (fst demo_running_endpoint) = Some [(INBOX_PROTOCOL_ID, \<lparr>queue = 0\<rparr>)]
   \<and> ep_inboxes (fst demo_running_endpoint) INBOX_PROTOCOL_ID = Some \<lparr>queue = 0\<rparr>
   \<and> ep_cache (fst demo_running_endpoint) = Map.empty"
proof -
  have n: "normalize_protocol INBOX_PROTOCOL_ID = INBOX_PROTOCOL_ID" by (rule normalize_inbox)
  show ?thesis
    by (simp add: demo_running_endpoint_def service_def n demo_endpoint_def Let_def new_inbox_def inbox_new_def
        ttl_new_def DEFAULT_INBOX_CAPACITY_def empty_store_def start_router_def router_handlers_def)
qed

theorem either_side_dials_witness:
  "received (outbound_accept_loop demo_msg_lib (\<lambda>_. Inl (NoInboxTransport [])) (7, INBOX_PROTOCOL_ID, \<lparr>queue = 0\<rparr>)
      arrivals demo_running_system) =
   received (handler_accept demo_msg_lib (\<lambda>_. Inl (NoInboxTransport []))
      (inbox_protocol_handler_new INBOX_PROTOCOL_ID \<lparr>queue = 0\<rparr>) ''peer'' 9 arrivals demo_running_system)"
  by (rule either_side_dials [where q = INBOX_PROTOCOL_ID and conn = 7 and hs = "[(INBOX_PROTOCOL_ID, \<lparr>queue = 0\<rparr>)]"])
    (use demo_running_inv demo_running_fields normalize_inbox in
      \<open>simp_all add: demo_running_system_def spawn_outbound_accept_loop_def Let_def\<close>)

theorem reply_reuses_inbound_witness:
  "get_or_connect demo_net ''peer'' \<lparr>addr_id = ''peer'', addr_relay = None\<rparr> INBOX_PROTOCOL_ID
     (accept_begin (inbox_protocol_handler_new INBOX_PROTOCOL_ID \<lparr>queue = 0\<rparr>) ''peer'' 9 demo_running_system) =
   (Inr 9, accept_begin (inbox_protocol_handler_new INBOX_PROTOCOL_ID \<lparr>queue = 0\<rparr>) ''peer'' 9 demo_running_system)"
  by (rule reply_reuses_inbound [OF refl]) (simp add: demo_net_def)

text \<open>The same protocol, spelled without its leading slash.\<close>

theorem raw_protocol_not_reused_witness:
  "fst (get_or_connect (demo_net\<lparr>net_connect := \<lambda>a alpn w. if alpn = as_bytes INBOX_PROTOCOL_ID
         then (Inr w, Suc w) else (Inl ''no matching protocol'', w)\<rparr>)
       ''peer'' \<lparr>addr_id = ''peer'', addr_relay = None\<rparr> ''ma/inbox/0.0.1''
       (accept_begin (inbox_protocol_handler_new (normalize_protocol ''ma/inbox/0.0.1'') \<lparr>queue = 0\<rparr>)
          ''peer'' 9 demo_running_system)) =
     Inl (error.Transport (''connect failed: '' @ ''no matching protocol''))
   \<and> normalize_protocol ''ma/inbox/0.0.1'' = INBOX_PROTOCOL_ID"
proof -
  have "trim ''ma/inbox/0.0.1'' = ''ma/inbox/0.0.1''"
    by (rule trim_solid) (simp_all add: solid_def code_def)
  then have n: "normalize_protocol ''ma/inbox/0.0.1'' = INBOX_PROTOCOL_ID"
    by (simp add: normalize_protocol_def INBOX_PROTOCOL_ID_def trim_start_char_def)
  have "as_bytes ''ma/inbox/0.0.1'' \<noteq> as_bytes INBOX_PROTOCOL_ID"
    by (rule notI) (drule arg_cong [where f = length], simp add: as_bytes_def INBOX_PROTOCOL_ID_def)
  then show ?thesis using n
    by (intro conjI raw_protocol_not_reused [OF _ _ refl])
      (use demo_running_fields in \<open>simp_all add: INBOX_PROTOCOL_ID_def demo_running_system_def\<close>)
qed

end
