(* ===== verification/EndToEnd.thy ===== *)
theory EndToEnd
  imports Discovery CleanupDaemon Accept
begin

text \<open>
  All parts together: the documents of two bundles are published on Kubo daemons
  (\<^verbatim>\<open>ipfs/publish.rs\<close>), one party resolves the other (\<^verbatim>\<open>kubo/resolver.rs\<close>), finds its endpoint
  in the document and opens an outbox (\<^verbatim>\<open>endpoint.rs\<close>), seals and sends a message
  (\<^verbatim>\<open>outbox.rs\<close>, \<^verbatim>\<open>msg.rs\<close>), and the accept loop at the other end (\<^verbatim>\<open>iroh/endpoint.rs\<close>) resolves
  the sender, verifies, and queues it. Nothing but iroh's delivery of the bytes is assumed
  between them.
\<close>

section \<open>A bundle and its published document\<close>

text \<open>In the state \<open>w\<close> of the daemon, \<open>d\<close> is a document of the bundle that has been published.\<close>

definition bundle_published :: "('w, 'x) publish_lib_scheme \<Rightarrow> 'y identity_lib_scheme \<Rightarrow> string \<Rightarrow>
    ma_extension \<Rightarrow> secret_bundle \<Rightarrow> document \<Rightarrow> 'w \<Rightarrow> bool" where
  "bundle_published K L url ext b d w \<longleftrightarrow>
     (\<exists>now later bytes secret opts sc w0 p sc'. build_document L now later ext b = Inr d
        \<and> document_encode L d = Inr bytes
        \<and> publish_did_document_to_kubo K L url bytes secret opts (sc, w0) = (Inr p, sc', w))"

definition kubo_resolver_at :: "('w, 'x) publish_lib_scheme \<Rightarrow> 'y identity_lib_scheme \<Rightarrow> string \<Rightarrow> 'w \<Rightarrow>
    string \<Rightarrow> document result" where
  "kubo_resolver_at K L url w did = fst (kubo_resolve K L (kubo_resolver_new url) did w)"

lemma bare_did_parses:
  assumes "crypto_laws L" "identity_laws L" "ipns_from_secret L secret = Inr i"
  shows "parse L (DID_PREFIX @ i) = Inr (i, None)"
proof -
  have "did_id \<lparr>ipns = i, fragment = None\<rparr> = DID_PREFIX @ i" by (simp add: did_id_def base_id_def)
  then show ?thesis
    using parse_complete [OF crypto_lawsD(1) [OF assms(1)], of "\<lparr>ipns = i, fragment = None\<rparr>"]
      ipns_from_secret_valid [OF assms(2,3)] by (simp add: did_ok_def)
qed

lemma bundle_published_resolves:
  assumes laws: "crypto_laws L" "time_laws L" "document_codec_laws L" "identity_laws L"
    and "daemon_laws K V url"
    and b: "ipns_from_secret L (sb_ipns_secret_key b) = Inr i" "is_valid_rfc3339_utc L (sb_created_at b)"
    and pub: "bundle_published K L url ext b d w"
    and did: "did_try_from L did = Inr e" "ipns e = i"
  shows "kubo_resolver_at K L url w did = Inr d"
proof -
  obtain now later bytes secret opts sc w0 p sc' where d: "build_document L now later ext b = Inr d"
    and enc: "document_encode L d = Inr bytes"
    and run: "publish_did_document_to_kubo K L url bytes secret opts (sc, w0) = (Inr p, sc', w)"
    using pub unfolding bundle_published_def by blast
  note f = built_document_facts [OF laws b d]
  have dec: "document_decode L bytes = Inr d" by (rule document_codec_roundtrip [OF laws(3) enc])
  obtain x where "did_try_from L (doc_id d) = Inr x" "pd_ipns_id p = ipns x"
    using publication_establishes [OF assms(5) run] dec by auto
  moreover note bare_did_parses [OF laws(1,4) b(1)]
  ultimately have "pd_ipns_id p = i" using f by (auto simp: did_try_from_def)
  then show ?thesis
    unfolding kubo_resolver_at_def
    using f did(2) by (intro publication_found [OF assms(5) run dec _ _ did(1)]) simp_all
qed

section \<open>From one endpoint to the other\<close>

definition one_stream :: "decode_clocks \<Rightarrow> u64 \<Rightarrow> bytes \<Rightarrow> stream_arrival" where
  "one_stream c t payload = \<lparr>sa_clocks = c, sa_now = Some t, sa_data = Sent payload\<rparr>"

lemma accept_one:
  "received (handler_accept L resolve (inbox_protocol_handler_new p i) remote conn
      [one_stream c t payload] r) =
    (if length payload \<le> DEFAULT_MAX_INBOUND_MESSAGE_SIZE
     then handle_stream L resolve c (Some t) p i (ReadOk payload) (received r) else received r)"
proof -
  have "handle_stream L resolve c (Some t) p i (ReadErr x) q = q" for x q
    by (cases q) (simp add: handle_stream_def)
  then show ?thesis
    by (simp add: handler_accept_def inbox_protocol_handler_new_def Let_def one_stream_def
        read_arrival_def read_to_end_def)
qed

text \<open>C2: The whole program, end to end. Two bundles' documents are published on Kubo daemons, the
  receiver's with the services of its endpoint. Opening the sender's outbox resolves the
  receiver there and yields a remote outbox; a message made with the sender's key and sent
  through it is written to a cached connection; and the receiver's accept loop, given the
  bytes of that stream, resolves the sender on its daemon and puts exactly that message into
  its inbox, with its id in the replay guard and its payload readable. The hypotheses are the
  laws of the packages and of the daemon, the successes of the calls the parties make, and
  that the message is fresh and new. Only a stream over the size limit is dropped, and leaves
  nothing behind.\<close>

theorem kubo_conversation:
  assumes laws: "msg_laws L" "time_laws L" "document_codec_laws L" "identity_laws L"
      "service_list_laws to_json" "daemon_laws K V url" "daemon_laws K V url'"
    and alice: "ipns_from_secret L (sb_ipns_secret_key a) = Inr i"
      "is_valid_rfc3339_utc L (sb_created_at a)" "bundle_signing_key L a = Inr k"
      "bundle_published K L url ext a da w"
    and bob: "ipns_from_secret L (sb_ipns_secret_key b) = Inr j"
      "is_valid_rfc3339_utc L (sb_created_at b)"
      "bundle_encryption_key L b = Inr (is_recipient_key (ep_security (sys_ep r)))"
      "endpoint_inv (sys_ep r, st)" "endpoint_id_ok (ep_id (sys_ep r))"
      "bundle_published K L url' (advertised kind (sys_ep r)) b db w'"
    and made: "new_with_options L c1 c2 n d e rt k = Inr m" "dr_type d \<noteq> MESSAGE_TYPE_BROADCAST"
      "did_try_from L (dr_from d) = Inr sender" "ipns sender = i"
      "did_try_from L (dr_to d) = Inr recipient" "ipns recipient = j"
    and opened: "ep_id (sys_ep r) \<noteq> ep_id (sys_ep s)"
      "endpoint_outbox to_json (kubo_resolver_at K L url' w') N (dr_to d) protocol s = (Inr ob, s1)"
    and sent: "outbox_send L (send_payload L N clk now) o1 o2 q m ob s1 = (Inr (), s2)"
      "length (sd_nonce1 q) = 24" "length (sd_nonce2 q) = 24"
    and fresh: "all_fresh c m" "c_prune (dc_guard c) = Some t1" "c_insert (dc_guard c) = Some t2"
    and unseen: "seen (is_replay_guard (ep_security (sys_ep r))) n = None"
  shows "\<exists>conn payload sec. cached_send_payload N conn payload (sys_net s1) = (Inr (), sys_net s2)
    \<and> received (handler_accept L (kubo_resolver_at K L url w) (inbox_protocol_handler_new protocol inbox)
        remote conn' [one_stream c t payload] r) =
        (if length payload \<le> DEFAULT_MAX_INBOUND_MESSAGE_SIZE
         then (sec, inbox_push inbox t e m (sys_store r)) else received r)
    \<and> seen (is_replay_guard sec) n = Some t2
    \<and> (dr_content d \<noteq> [] \<longrightarrow> message_payload L m = dr_content d)"
proof -
  note cl = msg_lawsD(1) [OF laws(1)]
  obtain n1 l1 where da: "build_document L n1 l1 ext a = Inr da"
    using alice(4) unfolding bundle_published_def by blast
  obtain n2 l2 where db: "build_document L n2 l2 (advertised kind (sys_ep r)) b = Inr db"
    using bob(6) unfolding bundle_published_def by blast
  have ra: "kubo_resolver_at K L url w (dr_from d) = Inr da"
    by (rule bundle_published_resolves [OF cl laws(2-4,6) alice(1,2,4) made(3,4)])
  have rb: "kubo_resolver_at K L url' w' (dr_to d) = Inr db"
    by (rule bundle_published_resolves [OF cl laws(2-4,7) bob(1,2,6) made(5,6)])
  obtain conn where ob: "ob = outbox_from_transport (CachedChannel conn) db False (dr_to d) protocol"
    using discovered_outbox [OF laws(5) bob(4,5) db rb opened] by blast
  obtain payload sec where p: "send_payload L N clk now (CachedChannel conn) payload s1 = (Inr (), s2)"
    and h: "handle_stream L (kubo_resolver_at K L url w) c (Some t) protocol inbox (ReadOk payload)
      (ep_security (sys_ep r), sys_store r) = (sec, inbox_push inbox t e m (sys_store r))"
    and g: "seen (is_replay_guard sec) n = Some t2"
      "dr_content d \<noteq> [] \<longrightarrow> message_payload L m = dr_content d"
    using bundle_delivery [where wire = "send_payload L N clk now" and x = "CachedChannel conn"
        and resolve = "kubo_resolver_at K L url w" and s = "ep_security (sys_ep r)" and w = s1 and w' = s2,
        OF laws(1-4) alice(1,2) da alice(3) bob(1,2) db bob(3) made
        sent(1) [unfolded ob] sent(2,3) fresh unseen ra] by blast
  have "cached_send_payload N conn payload (sys_net s1) = (Inr (), sys_net s2)"
    using p by (auto simp: send_payload_def Let_def split: prod.splits)
  moreover have "handle_stream L (kubo_resolver_at K L url w) c (Some t) protocol inbox (ReadOk payload)
      (received r) = (sec, inbox_push inbox t e m (sys_store r))"
    using h by (simp add: received_def)
  ultimately show ?thesis
    using g by (intro exI [of _ conn] exI [of _ payload] exI [of _ sec]) (simp add: accept_one)
qed

section \<open>Witness\<close>

text \<open>The sender dials from another machine; the receiver runs on the other bundle's key.\<close>

definition demo_sender :: "nat system" where
  "demo_sender = \<lparr>sys_ep = demo_endpoint\<lparr>ep_id := ''bb''\<rparr>, sys_store = empty_store, sys_net = 0\<rparr>"

definition demo_receiver :: "encryption_key \<Rightarrow> nat system" where
  "demo_receiver rk = \<lparr>sys_ep = demo_inbox_endpoint\<lparr>ep_security := inbound_security_new rk\<rparr>,
     sys_store = snd (snd (service ''ma/inbox/0.0.1'' (demo_endpoint, empty_store))), sys_net = 0\<rparr>"

lemma demo_receiver_advertised:
  "advertised kind (sys_ep (demo_receiver rk)) = advertised kind demo_inbox_endpoint"
  by (simp add: demo_receiver_def advertised_def endpoint_ma_extension_def services_def)

lemma demo_receiver_ok:
  "endpoint_inv (sys_ep (demo_receiver rk), sys_store (demo_receiver rk))"
  "endpoint_id_ok (ep_id (sys_ep (demo_receiver rk)))"
  using demo_inbox_endpoint_inv demo_inbox_endpoint_id
  by (simp_all add: demo_receiver_def endpoint_inv_def service_lookup_def router_handlers_def)

lemma demo_inbox_registered:
  "normalize_protocol INBOX_PROTOCOL_ID = INBOX_PROTOCOL_ID"
  "ep_inboxes demo_inbox_endpoint INBOX_PROTOCOL_ID \<noteq> None"
proof -
  show n: "normalize_protocol INBOX_PROTOCOL_ID = INBOX_PROTOCOL_ID" by (rule normalize_inbox)
  have "trim ''ma/inbox/0.0.1'' = ''ma/inbox/0.0.1''"
    by (rule trim_solid) (simp_all add: solid_def code_def)
  then have "normalize_protocol ''ma/inbox/0.0.1'' = INBOX_PROTOCOL_ID"
    by (simp add: normalize_protocol_def INBOX_PROTOCOL_ID_def trim_start_char_def)
  then show "ep_inboxes demo_inbox_endpoint INBOX_PROTOCOL_ID \<noteq> None"
    by (simp add: demo_inbox_endpoint_def service_def demo_endpoint_def Let_def new_inbox_def inbox_new_def
        ttl_new_def DEFAULT_INBOX_CAPACITY_def empty_store_def start_router_def router_handlers_def)
qed

lemma demo_receiver_id: "ep_id (sys_ep (demo_receiver rk)) = demo_endpoint_id"
  by (simp add: demo_receiver_def demo_inbox_endpoint_def service_def Let_def start_router_def
      reload_router_if_running_def demo_endpoint_def split: option.splits prod.splits)

lemma demo_connects:
  "\<exists>conn s1. connect_outbox demo_net d (ep_id (sys_ep (demo_receiver rk))) did INBOX_PROTOCOL_ID demo_sender =
     (Inr (outbox_from_transport (CachedChannel conn) d False did INBOX_PROTOCOL_ID), s1)"
  using demo_other_endpoint
  by (simp add: demo_receiver_id connect_outbox_def demo_sender_def demo_endpoint_def demo_net_def
      resolve_addr_def get_or_connect_def live_cached_def connect_lock_def Let_def) blast

lemma demo_cached_send: "\<exists>s'. send_payload L demo_net clk now (CachedChannel conn) payload s = (Inr (), s')"
  by (simp add: send_payload_def cached_send_payload_def open_stream_def write_flush_def demo_net_def)

text \<open>Each bundle publishes on a fresh daemon.\<close>

lemma demo_bundle_published:
  assumes "length (sb_ipns_secret_key b) = 32" and "is_valid_rfc3339_utc extended_lib (sb_created_at b)"
    and "ext_map e = [] \<or> (\<forall>d. doc_ma d = Some (IMap (ext_map e)) \<longrightarrow> is_ok (document_encode extended_lib d))"
  shows "\<exists>d w. bundle_published (sim_kubo hex_encode) extended_lib sim_url e b d w
    \<and> build_document extended_lib (Some 0) (Some 5) e b = Inr d"
proof -
  note L = talking_libD [OF extended_talks]
  note i = L(8) [OF assms(1)]
  obtain d where d: "build_document extended_lib (Some 0) (Some 5) e b = Inr d"
    using build_document_succeeds [OF L(5,3,4) i assms(3)] by blast
  note f = built_document_facts [OF L(5,2,3,4) i assms(2) d]
  have "is_ok (document_encode extended_lib d)"
  proof (cases "ext_map e = []")
    case True
    then have "doc_ma d = None" using f by simp
    from document_encode_total [OF L(3) this] show ?thesis by (auto simp: is_ok_def)
  qed (use f assms(3) in simp)
  then obtain bytes where enc: "document_encode extended_lib d = Inr bytes"
    by (cases "document_encode extended_lib d") (simp_all add: is_ok_def)
  have dec: "document_decode extended_lib bytes = Inr d" by (rule document_codec_roundtrip [OF L(3) enc])
  have "did_try_from extended_lib (doc_id d) = Inr \<lparr>ipns = hex_encode (sb_ipns_secret_key b), fragment = None\<rparr>"
    using f bare_did_parses [OF L(5,4) i] by (simp add: did_try_from_def)
  moreover have "hex_encode (sb_ipns_secret_key b) \<noteq> []"
    using assms(1) by (cases "sb_ipns_secret_key b") simp_all
  ultimately obtain p sc' w where "publish_did_document_to_kubo (sim_kubo hex_encode) extended_lib sim_url bytes
      (sb_ipns_secret_key b) publish_options_default (scheduler_new, sim_empty) = (Inr p, sc', w)"
    using sim_published [OF dec, of _ hex_encode "sb_ipns_secret_key b"] assms(1) hex_trimmed by auto
  with d enc show ?thesis unfolding bundle_published_def by blast
qed

lemma demo_opened:
  assumes db: "bundle_published (sim_kubo hex_encode) extended_lib sim_url
      (advertised ''world'' (sys_ep (demo_receiver rk))) demo_other_bundle db w"
    and bd: "build_document extended_lib (Some 0) (Some 5) (advertised ''world'' (sys_ep (demo_receiver rk)))
      demo_other_bundle = Inr db"
  shows "\<exists>conn s1. endpoint_outbox demo_to_json (kubo_resolver_at (sim_kubo hex_encode) extended_lib sim_url w)
      demo_net (dr_to demo_letter) INBOX_PROTOCOL_ID demo_sender =
    (Inr (outbox_from_transport (CachedChannel conn) db False (dr_to demo_letter) INBOX_PROTOCOL_ID), s1)"
proof -
  let ?L = extended_lib and ?K = "sim_kubo hex_encode"
  note L = talking_libD [OF extended_talks] and facts = demo_bundle_facts [OF extended_talks]
  have rdb: "kubo_resolver_at ?K ?L sim_url w (dr_to demo_letter) = Inr db"
    by (rule bundle_published_resolves [OF L(5,2-4) sim_laws facts(2,4) db demo_letter_dids(2) [OF extended_talks]])
      (simp add: demo_inbox_url_def)
  have protocol: "INBOX_PROTOCOL_ID \<noteq> []" by (simp add: INBOX_PROTOCOL_ID_def)
  obtain conn s1 where "connect_outbox demo_net db (ep_id (sys_ep (demo_receiver rk))) (dr_to demo_letter)
      INBOX_PROTOCOL_ID demo_sender = (Inr (outbox_from_transport (CachedChannel conn) db False (dr_to demo_letter)
        INBOX_PROTOCOL_ID), s1)"
    using demo_connects by blast
  then show ?thesis
    using demo_inbox_registered protocol
    by (simp add: discovered_connects [where resolve = "kubo_resolver_at ?K ?L sim_url w"
          and did = "dr_to demo_letter", OF demo_to_json_laws demo_receiver_ok bd rdb] demo_receiver_def) blast
qed

theorem kubo_conversation_witness:
  "\<exists>da db w w' rk m conn payload net net' sec.
     bundle_published (sim_kubo hex_encode) extended_lib sim_url ma_extension_new demo_bundle da w
   \<and> bundle_published (sim_kubo hex_encode) extended_lib sim_url (advertised ''world'' demo_inbox_endpoint)
       demo_other_bundle db w'
   \<and> cached_send_payload demo_net conn payload net = (Inr (), net')
   \<and> received (handler_accept extended_lib (kubo_resolver_at (sim_kubo hex_encode) extended_lib sim_url w)
       (inbox_protocol_handler_new INBOX_PROTOCOL_ID \<lparr>queue = 0\<rparr>) ''peer'' 1
       [one_stream (demo_clocks 1000) 1000 payload] (demo_receiver rk)) =
       (if length payload \<le> DEFAULT_MAX_INBOUND_MESSAGE_SIZE
        then (sec, inbox_push \<lparr>queue = 0\<rparr> 1000 4600 m (sys_store (demo_receiver rk)))
        else received (demo_receiver rk))
   \<and> message_payload extended_lib m = [104, 105]"
proof -
  let ?L = extended_lib and ?K = "sim_kubo hex_encode"
  note L = talking_libD [OF extended_talks] and facts = demo_bundle_facts [OF extended_talks]
  let ?ek = "bundle_ek ?L (hex_encode (replicate 32 7)) demo_other_bundle"
  let ?r = "demo_receiver ?ek"
  obtain da w where da: "bundle_published ?K ?L sim_url ma_extension_new demo_bundle da w"
    using demo_bundle_published [OF _ facts(3) disjI1 [OF ext_map_new]] by (auto simp: demo_bundle_def)
  obtain db w' where db: "bundle_published ?K ?L sim_url (advertised ''world'' (sys_ep ?r)) demo_other_bundle db w'"
    and bd: "build_document ?L (Some 0) (Some 5) (advertised ''world'' (sys_ep ?r)) demo_other_bundle = Inr db"
    using demo_bundle_published [OF _ facts(4) disjI2, of "advertised ''world'' demo_inbox_endpoint"]
      extended_encodes by (auto simp: demo_receiver_advertised demo_other_bundle_def)
  note keys = bundle_keys(1) [OF L(4) facts(1)] bundle_keys(2) [OF L(4) facts(2)]
  obtain m where m: "new_with_options ?L (Some 1000) (Some 1000) ''m1'' demo_letter 4600 None
      (bundle_sk ?L (hex_encode (replicate 32 2)) demo_bundle) = Inr m"
    using demo_letter_created [OF extended_talks] by blast
  note mi = new_with_options_Inr [OF m]
  have ty: "msg_type m \<noteq> MESSAGE_TYPE_BROADCAST" using mi by (auto simp: demo_letter_def message_type_defs)
  obtain conn s1 where opened: "endpoint_outbox demo_to_json (kubo_resolver_at ?K ?L sim_url w') demo_net
      (dr_to demo_letter) INBOX_PROTOCOL_ID demo_sender =
      (Inr (outbox_from_transport (CachedChannel conn) db False (dr_to demo_letter) INBOX_PROTOCOL_ID), s1)"
    using demo_opened [OF db bd] by blast
  obtain s2 where sent: "outbox_send ?L (send_payload ?L demo_net (Some 1000) 1000) (Some 1000) (Some 1000)
      demo_seal m (outbox_from_transport (CachedChannel conn) db False (dr_to demo_letter) INBOX_PROTOCOL_ID) s1 =
      (Inr (), s2)"
    using demo_send [where wire = "send_payload ?L demo_net (Some 1000) 1000" and x = "CachedChannel conn" and w = s1,
        OF extended_talks _ ty published_keys(3) [OF L(5,3,4,2) facts(2,4) bd] demo_cached_send] mi
    by blast
  have fresh: "all_fresh (demo_clocks 1000) m"
    using mi by (auto simp: all_fresh_def demo_clocks_def validate_message_freshness_def
        now_unix_secs_def DEFAULT_MAX_CLOCK_SKEW_SECS_def)
  have other: "ep_id (sys_ep ?r) \<noteq> ep_id (sys_ep demo_sender)"
    using demo_other_endpoint by (simp add: demo_receiver_id) (simp add: demo_sender_def)
  have "\<exists>conn payload sec. cached_send_payload demo_net conn payload (sys_net s1) = (Inr (), sys_net s2)
    \<and> received (handler_accept ?L (kubo_resolver_at ?K ?L sim_url w)
        (inbox_protocol_handler_new INBOX_PROTOCOL_ID \<lparr>queue = 0\<rparr>) ''peer'' 1
        [one_stream (demo_clocks 1000) 1000 payload] ?r) =
        (if length payload \<le> DEFAULT_MAX_INBOUND_MESSAGE_SIZE
         then (sec, inbox_push \<lparr>queue = 0\<rparr> 1000 4600 m (sys_store ?r)) else received ?r)
    \<and> seen (is_replay_guard sec) ''m1'' = Some 1000
    \<and> (dr_content demo_letter \<noteq> [] \<longrightarrow> message_payload ?L m = dr_content demo_letter)"
    by (rule kubo_conversation [OF L(1-4) demo_to_json_laws sim_laws sim_laws facts(1,3) keys(1) da
        facts(2,4) _ demo_receiver_ok db m _ demo_letter_dids(1) [OF extended_talks] _
        demo_letter_dids(2) [OF extended_talks] _ other opened sent _ _ fresh])
      (simp_all add: keys demo_receiver_def inbound_security_new_def demo_letter_def message_type_defs
        demo_did_def demo_inbox_url_def demo_seal_def demo_clocks_def replay_default_def replay_new_def)
  then obtain conn payload sec where c: "cached_send_payload demo_net conn payload (sys_net s1) = (Inr (), sys_net s2)"
    and r: "received (handler_accept ?L (kubo_resolver_at ?K ?L sim_url w)
        (inbox_protocol_handler_new INBOX_PROTOCOL_ID \<lparr>queue = 0\<rparr>) ''peer'' 1
        [one_stream (demo_clocks 1000) 1000 payload] ?r) =
        (if length payload \<le> DEFAULT_MAX_INBOUND_MESSAGE_SIZE
         then (sec, inbox_push \<lparr>queue = 0\<rparr> 1000 4600 m (sys_store ?r)) else received ?r)"
    and p: "dr_content demo_letter \<noteq> [] \<longrightarrow> message_payload ?L m = dr_content demo_letter"
    by blast
  have "message_payload ?L m = [104, 105]" using p by (simp add: demo_letter_def)
  then show ?thesis using da db [unfolded demo_receiver_advertised] c r by (intro exI conjI)
qed

end
