(* ===== verification/KuboNetwork.thy ===== *)
theory KuboNetwork
  imports Network EndToEnd
begin

text \<open>
  The network of \<^verbatim>\<open>Network\<close> with the identities and resolvers of the program: a party whose
  signing key and document come from a secret bundle (\<^verbatim>\<open>config/secrets.rs\<close>) published on Kubo
  (\<^verbatim>\<open>ipfs/publish.rs\<close>), and a receiver whose resolvers are Kubo resolvers
  (\<^verbatim>\<open>kubo/resolver.rs\<close>). What \<open>injective_agreement\<close> asks of resolvers is then proved of them.
\<close>

section \<open>Kubo resolvers know the key of a published bundle\<close>

text \<open>
  Every resolver of party \<open>b\<close> asks a Kubo daemon in some state in which a document of the bundle
  is published: which document, and when, may differ from resolver to resolver.
\<close>

definition resolves_at_kubo :: "('w, 'x) publish_lib_scheme \<Rightarrow> 'y identity_lib_scheme \<Rightarrow> string \<Rightarrow>
    secret_bundle \<Rightarrow> (string \<Rightarrow> document result) \<Rightarrow> bool" where
  "resolves_at_kubo K L url a resolve \<longleftrightarrow>
     (\<exists>w ext d. resolve = kubo_resolver_at K L url w \<and> bundle_published K L url ext a d w)"

lemma kubo_resolvers_know:
  assumes laws: "msg_laws L" "time_laws L" "document_codec_laws L" "identity_laws L" "daemon_laws K V url"
    and alice: "ipns_from_secret L (sb_ipns_secret_key ab) = Inr i" "is_valid_rfc3339_utc L (sb_created_at ab)"
      "bundle_signing_key L ab = Inr (nc_sign C a)"
    and kubo: "\<forall>resolve\<in>nc_resolvers C b. resolves_at_kubo K L url ab resolve"
  shows "resolvers_know L C b a"
  unfolding resolvers_know_def
proof (intro ballI allI impI)
  fix resolve did doc
  assume r: "resolve \<in> nc_resolvers C b" and doc: "resolve did = Inr doc"
    and i: "doc_id doc = base_id (sk_did (nc_sign C a))"
  note cl = msg_lawsD(1) [OF laws(1)]
  obtain w ext d where w: "resolve = kubo_resolver_at K L url w" "bundle_published K L url ext ab d w"
    using kubo r unfolding resolves_at_kubo_def by blast
  have k: "nc_sign C a = bundle_sk L i ab" using bundle_keys(1) [OF laws(4) alice(1)] alice(3) by simp
  obtain e where e: "did_try_from L did = Inr e" "doc_id doc = base_id e"
    using kubo_resolve_checked [of K L "kubo_resolver_new url" did w doc] doc w(1)
    by (metis kubo_resolver_at_def prod.collapse)
  then have "ipns e = i" using i by (simp add: k bundle_sk_def base_id_def)
  then have "doc = d"
    using bundle_published_resolves [OF cl laws(2-5) alice(1,2) w(2) e(1)] doc w(1) by simp
  moreover obtain n l where "build_document L n l ext ab = Inr d"
    using w(2) unfolding bundle_published_def by blast
  note published_keys(2) [OF cl laws(3,4,2) alice(1,2) this]
  ultimately show "assertion_method_public_key L doc = Inr (ed25519_public L (sk_secret_key (nc_sign C a)))"
    by (simp add: k bundle_sk_def)
qed

section \<open>Injective agreement with Kubo\<close>

text \<open>C3: Injective agreement for the program as it is run: the honest party's key comes from its
  bundle, whose document it has published on a Kubo daemon, and the receiver resolves senders
  on that daemon. Then whatever the attacker does on the network, everything that is pushed as
  a message of that party, with the sender verified, was made by it with the same headers and
  content hash, for this receiver or for all, and within one replay window different pushes
  go back to different messages.\<close>

theorem kubo_injective_agreement:
  assumes laws: "msg_laws L" "time_laws L" "document_codec_laws L" "identity_laws L" "daemon_laws K V url"
      "wire_formats_disjoint L" "signing_domains L"
    and run: "(net_step L C)\<^sup>*\<^sup>* (net_initial st) s"
    and alice: "a \<in> nc_honest C" "ipns_from_secret L (sb_ipns_secret_key ab) = Inr i"
      "is_valid_rfc3339_utc L (sb_created_at ab)" "bundle_signing_key L ab = Inr (nc_sign C a)"
    and kubo: "\<forall>resolve\<in>nc_resolvers C b. resolves_at_kubo K L url ab resolve"
    and win: "within_window (rx_offers (ns_rx s b))"
  shows "\<exists>f. inj_on f (pushed_from L C s b a) \<and> (\<forall>(t, m)\<in>pushed_from L C s b a.
      (a, f (t, m)) \<in> ns_made s \<and> unsigned_headers L m = unsigned_headers L (f (t, m))
    \<and> (msg_type m = MESSAGE_TYPE_BROADCAST
       \<or> same_base_did L (msg_to m) (did_id (ek_did (nc_decrypt C b))) = Inr True))"
  by (rule agreement [OF laws(1,6,7) run alice(1) kubo_resolvers_know [OF laws(1-5) alice(2-4) kubo] win])

section \<open>Witness\<close>

text \<open>The letter of one bundle to the other, sealed, through the network.\<close>

lemma extended_formats: "wire_formats_disjoint extended_lib" "signing_domains extended_lib"
  using demo_formats_disjoint demo_signing_domains
  by (simp_all add: wire_formats_disjoint_def signing_domains_def extended_lib_def)

lemma extended_put:
  "cbor_of_headers extended_lib h = Inr (put_headers h)" "cbor_of_envelope extended_lib e = Inr (put_envelope e)"
  "length (encode_content extended_lib 0 p) = Suc (length p)" "length (ed25519_sign extended_lib k x) = 64"
  "xchacha20_encrypt extended_lib k nonce q = Some (0 # k @ nonce @ q)"
  "length (derive_symmetric_key extended_lib sh label) = 32" "length (x25519_public extended_lib k) = 32"
  "length (blake3_hash extended_lib x) = 32"
  by (simp_all add: extended_lib_def demo_lib_defs demo_doc_lib_def demo_crypto_lib_def demo_did_lib_def
      encode_content_def multicodec_encode_def demo_varint_encode_def derive_symmetric_key_def)

lemma length_hex [simp]: "length (hex_encode b) = 2 * length b"
  by (induction b) simp_all

lemma extended_sealed_length:
  "encrypt extended_lib n d (derive_symmetric_key extended_lib sh label) = Inr c \<Longrightarrow>
     length c = 2 * length n + 33 + length d"
  by (auto simp: encrypt_def extended_put)

lemma demo_letter_headers_small:
  assumes "new_with_options extended_lib (Some 1000) (Some 1000) ''m1'' demo_letter 4600 None k = Inr m"
  shows "length (put_headers (message_headers extended_lib m)) \<le> 10000" and "length (msg_content m) = 3"
proof -
  have c: "codec_for ''text/plain'' = 0" by (simp add: codec_for_def CODEC_IDENTITY_def)
  show "length (msg_content m) = 3"
    using new_with_options_Inr [OF assms] by (auto simp: demo_letter_def c extended_put)
  show "length (put_headers (message_headers extended_lib m)) \<le> 10000"
    using assms
    by (auto simp: new_with_options_def Let_def result_simps now_unix_secs_def message_sign_def signing_sign_def
        message_headers_def unsigned_headers_def put_headers_def demo_letter_def put_option_def content_hash_def
        default_protocol_def MESSAGE_TYPE_MESSAGE_def MESSAGE_PREFIX_def VERSION_def extended_put
        did_id_def demo_did_def demo_inbox_url_def base_id_def DID_PREFIX_def)
qed

lemma demo_letter_small:
  assumes m: "new_with_options extended_lib (Some 1000) (Some 1000) ''m1'' demo_letter 4600 None k = Inr m"
    and p: "outbox_payload extended_lib c1 c2 demo_seal m ob = Inr payload" "\<not> ob_local ob"
  shows "length payload \<le> DEFAULT_MAX_INBOUND_MESSAGE_SIZE"
proof -
  have ty: "msg_type m \<noteq> MESSAGE_TYPE_BROADCAST"
    using new_with_options_Inr [OF m] by (auto simp: demo_letter_def message_type_defs)
  obtain e where e: "enclose_for extended_lib c2 (sd_ephemeral demo_seal) (sd_nonce1 demo_seal)
      (sd_nonce2 demo_seal) m (ob_recipient_document ob) = Inr e" and be: "envelope_encode extended_lib e = Inr payload"
    using outbox_payload_Inr(3) [OF p ty] by blast
  have "length (env_encrypted_headers e) = 81 + length (put_headers (message_headers extended_lib m))"
    "length (env_encrypted_content e) = 81 + length (msg_content m)" "length (env_ephemeral_key e) = 32"
    using enclose_for_Inr [OF e]
    by (auto simp: extended_put headers_cbor_def demo_seal_def dest: extended_sealed_length)
  moreover have "payload = put_envelope e" using be by (simp add: envelope_encode_def extended_put)
  ultimately show ?thesis
    using demo_letter_headers_small [OF m]
    by (simp add: put_envelope_def DEFAULT_MAX_INBOUND_MESSAGE_SIZE_def)
qed

lemma demo_letter_sent:
  assumes resolves: "resolve (dr_from demo_letter) = Inr da"
    and da: "build_document extended_lib (Some 0) (Some 5) ext demo_bundle = Inr da"
    and db: "build_document extended_lib (Some 0) (Some 5) ext' demo_other_bundle = Inr db"
    and rk: "rk = bundle_ek extended_lib (hex_encode (replicate 32 7)) demo_other_bundle"
    and sk: "sk = bundle_sk extended_lib (hex_encode (replicate 32 2)) demo_bundle"
  shows "\<exists>m payload g. new_with_options extended_lib (Some 1000) (Some 1000) ''m1'' demo_letter 4600 None sk = Inr m
    \<and> outbox_payload extended_lib (Some 1000) (Some 1000) demo_seal m
        (outbox_from_transport () db False [] INBOX_PROTOCOL_ID) = Inr payload
    \<and> admit_message extended_lib resolve (demo_clocks 1000) rk payload INBOX_PROTOCOL_ID = Inr m
    \<and> check_and_insert extended_lib (dc_guard (demo_clocks 1000)) (message_headers extended_lib m) replay_default
        = (Inr (), g)"
proof -
  let ?L = extended_lib and ?ob = "outbox_from_transport () db False [] INBOX_PROTOCOL_ID"
  note L = talking_libD [OF extended_talks] and facts = demo_bundle_facts [OF extended_talks]
  note keys = bundle_keys(1) [OF L(4) facts(1)] bundle_keys(2) [OF L(4) facts(2)]
  obtain m where m: "new_with_options ?L (Some 1000) (Some 1000) ''m1'' demo_letter 4600 None sk = Inr m"
    using demo_letter_created [OF extended_talks] by blast
  note mi = new_with_options_Inr [OF m]
  have ty: "msg_type m \<noteq> MESSAGE_TYPE_BROADCAST" using mi by (auto simp: demo_letter_def message_type_defs)
  obtain w' where sent: "outbox_send ?L demo_wire (Some 1000) (Some 1000) demo_seal m ?ob [] = (Inr (), w')"
    using demo_send [OF extended_talks _ ty published_keys(3) [OF L(5,3,4,2) facts(2,4) db], of demo_wire "()" "[]"] mi
    by (auto simp: demo_wire_def)
  then obtain payload where p: "outbox_payload ?L (Some 1000) (Some 1000) demo_seal m ?ob = Inr payload"
    and w': "w' = [payload]"
    using outbox_send_Inr [OF sent] by (auto simp: demo_wire_def)
  have fresh: "all_fresh (demo_clocks 1000) m"
    using mi by (auto simp: all_fresh_def demo_clocks_def validate_message_freshness_def
        now_unix_secs_def DEFAULT_MAX_CLOCK_SKEW_SECS_def)
  have "\<exists>p s'. demo_wire () p [] = (Inr (), w')
    \<and> inbound_decode ?L resolve (demo_clocks 1000) p INBOX_PROTOCOL_ID (inbound_security_new rk) = (Inr m, s')
    \<and> seen (is_replay_guard s') ''m1'' = Some 1000
    \<and> handle_stream ?L resolve (demo_clocks 1000) (Some 1000) INBOX_PROTOCOL_ID \<lparr>queue = 0\<rparr>
        (ReadOk p) (inbound_security_new rk, empty_store) = (s', inbox_push \<lparr>queue = 0\<rparr> 1000 4600 m empty_store)
    \<and> (dr_content demo_letter \<noteq> [] \<longrightarrow> message_payload ?L m = dr_content demo_letter)"
    by (rule bundle_delivery [where resolve = resolve, OF L(1-4) facts(1,3) da keys(1) facts(2,4) db _ m [unfolded sk] _
          demo_letter_dids(1) [OF extended_talks] _ demo_letter_dids(2) [OF extended_talks] _ sent _ _ fresh])
      (simp_all add: keys inbound_security_new_def demo_letter_def message_type_defs rk resolves [unfolded demo_letter_def demo_did_def message_draft.simps]
        demo_did_def demo_inbox_url_def demo_seal_def demo_clocks_def replay_default_def replay_new_def)
  then obtain s' where dec: "inbound_decode ?L resolve (demo_clocks 1000) payload INBOX_PROTOCOL_ID
      (inbound_security_new rk) = (Inr m, s')"
    by (auto simp: demo_wire_def w')
  then show ?thesis
    using m p inbound_decode_Inr [OF dec] by (auto simp: inbound_security_new_def)
qed

text \<open>Party 0 is the first bundle, party 2 the other; the first is published on the daemon.\<close>

definition demo_kubo_config :: "sim \<Rightarrow> net_config" where
  "demo_kubo_config w = \<lparr>nc_honest = {0},
     nc_sign = \<lambda>_. bundle_sk extended_lib (hex_encode (replicate 32 2)) demo_bundle,
     nc_decrypt = \<lambda>_. bundle_ek extended_lib (hex_encode (replicate 32 7)) demo_other_bundle,
     nc_resolvers = \<lambda>_. {kubo_resolver_at (sim_kubo hex_encode) extended_lib sim_url w},
     nc_handlers = \<lambda>_. demo_handlers\<rparr>"

lemma demo_kubo_run:
  assumes da: "build_document extended_lib (Some 0) (Some 5) ext demo_bundle = Inr da"
    and pub: "bundle_published (sim_kubo hex_encode) extended_lib sim_url ext demo_bundle da w"
    and db: "build_document extended_lib (Some 0) (Some 5) ext' demo_other_bundle = Inr db"
  shows "\<exists>s m. (net_step extended_lib (demo_kubo_config w))\<^sup>*\<^sup>* (net_initial (\<lambda>_. empty_store)) s
    \<and> rx_pushed (ns_rx s 2) = [(7, m)] \<and> rx_offers (ns_rx s 2) = [(7, m, dc_guard (demo_clocks 1000))]
    \<and> msg_from m = did_id demo_did"
proof -
  let ?L = extended_lib and ?C = "demo_kubo_config w" and ?s0 = "net_initial (\<lambda>_. empty_store)"
  let ?resolve = "kubo_resolver_at (sim_kubo hex_encode) extended_lib sim_url w"
  note L = talking_libD [OF extended_talks] and facts = demo_bundle_facts [OF extended_talks]
  have r: "?resolve (dr_from demo_letter) = Inr da"
    by (rule bundle_published_resolves [OF L(5,2-4) sim_laws facts(1,3) pub demo_letter_dids(1) [OF extended_talks]])
      (simp add: demo_did_def)
  have C: "nc_honest ?C = {0}" "nc_sign ?C a = bundle_sk ?L (hex_encode (replicate 32 2)) demo_bundle"
    "nc_decrypt ?C a = bundle_ek ?L (hex_encode (replicate 32 7)) demo_other_bundle"
    "nc_resolvers ?C a = {?resolve}" "nc_handlers ?C a t = (INBOX_PROTOCOL_ID, \<lparr>queue = 0\<rparr>)" for a t
    by (simp_all add: demo_kubo_config_def demo_handlers_def)
  obtain m payload g where m: "new_with_options ?L (Some 1000) (Some 1000) ''m1'' demo_letter 4600 None (nc_sign ?C 0) = Inr m"
    and p: "outbox_payload ?L (Some 1000) (Some 1000) demo_seal m
      (outbox_from_transport () db False [] INBOX_PROTOCOL_ID) = Inr payload"
    and adm: "admit_message ?L ?resolve (demo_clocks 1000) (nc_decrypt ?C 2) payload INBOX_PROTOCOL_ID = Inr m"
    and g: "check_and_insert ?L (dc_guard (demo_clocks 1000)) (message_headers ?L m) replay_default = (Inr (), g)"
    using demo_letter_sent [where resolve = ?resolve, OF r da db refl refl] unfolding C by blast
  have frm: "msg_from m = did_id demo_did" using new_with_options_Inr [OF m] by (auto simp: demo_letter_def)
  let ?ob = "outbox_from_transport () db False [] INBOX_PROTOCOL_ID"
  have key: "key_agreement_public_key_bytes ?L (ob_recipient_document ?ob) =
      Inr (x25519_public ?L (ek_private_key (nc_decrypt ?C 2)))"
    using published_keys(3) [OF L(5,3,4,2) facts(2,4) db] by (simp add: C bundle_ek_def outbox_from_transport_def)
  have "\<exists>s. (net_step ?L ?C)\<^sup>*\<^sup>* (net_initial (\<lambda>_. empty_store)) s \<and> (0, m) \<in> ns_made s
    \<and> rx_pushed (ns_rx s 2) = [(7, m)] \<and> rx_offers (ns_rx s 2) = [(7, m, dc_guard (demo_clocks 1000))]"
    by (rule message_travels [OF m _ p _ _ _ disjI2 [OF key] demo_letter_small [OF m p] _ _ g, where resolve = ?resolve and c = "demo_clocks 1000"])
      (simp_all add: C adm [unfolded C] outbox_from_transport_def demo_seal_def)
  then show ?thesis using frm by blast
qed

theorem kubo_injective_agreement_witness:
  "\<exists>da w s f m. bundle_published (sim_kubo hex_encode) extended_lib sim_url ma_extension_new demo_bundle da w
    \<and> (net_step extended_lib (demo_kubo_config w))\<^sup>*\<^sup>* (net_initial (\<lambda>_. empty_store)) s
    \<and> pushed_from extended_lib (demo_kubo_config w) s 2 0 = {(7, m)} \<and> (0, f (7::nat, m)) \<in> ns_made s
    \<and> unsigned_headers extended_lib m = unsigned_headers extended_lib (f (7, m))"
proof -
  let ?L = extended_lib and ?K = "sim_kubo hex_encode"
  note L = talking_libD [OF extended_talks] and facts = demo_bundle_facts [OF extended_talks]
  obtain da w where pub: "bundle_published ?K ?L sim_url ma_extension_new demo_bundle da w"
    and da: "build_document ?L (Some 0) (Some 5) ma_extension_new demo_bundle = Inr da"
    using demo_bundle_published [OF _ facts(3) disjI1 [OF ext_map_new]] by (auto simp: demo_bundle_def)
  obtain db where db: "build_document ?L (Some 0) (Some 5) ma_extension_new demo_other_bundle = Inr db"
    using build_document_succeeds [OF L(5,3,4) facts(2) disjI1 [OF ext_map_new]] by blast
  let ?C = "demo_kubo_config w"
  obtain s m where s: "(net_step ?L ?C)\<^sup>*\<^sup>* (net_initial (\<lambda>_. empty_store)) s"
    and p: "rx_pushed (ns_rx s 2) = [(7, m)]" "rx_offers (ns_rx s 2) = [(7, m, dc_guard (demo_clocks 1000))]"
      "msg_from m = did_id demo_did"
    using demo_kubo_run [OF da pub db] by blast
  have "claims_from ?L ?C 0 m"
    using demo_urls_parse(1) [OF extended_talks]
    by (simp add: claims_from_def p did_try_from_def demo_did_def demo_kubo_config_def bundle_sk_def base_id_def)
  then have one: "pushed_from ?L ?C s 2 0 = {(7, m)}"
    by (auto simp: pushed_from_def p demo_kubo_config_def demo_handlers_def skip_resolver_verification_def protocol_defs)
  have k: "0 \<in> nc_honest ?C" "bundle_signing_key ?L demo_bundle = Inr (nc_sign ?C 0)"
    using bundle_keys(1) [OF L(4) facts(1)] by (simp_all add: demo_kubo_config_def)
  have at: "\<forall>resolve\<in>nc_resolvers ?C 2. resolves_at_kubo ?K ?L sim_url demo_bundle resolve"
    using pub by (auto simp: demo_kubo_config_def resolves_at_kubo_def)
  have w: "within_window (rx_offers (ns_rx s 2))"
    by (simp add: p within_window_def demo_clocks_def clock_nat_def)
  obtain f where f: "\<forall>(t, m)\<in>pushed_from ?L ?C s 2 0. (0, f (t, m)) \<in> ns_made s
      \<and> unsigned_headers ?L m = unsigned_headers ?L (f (t, m))
      \<and> (msg_type m = MESSAGE_TYPE_BROADCAST
         \<or> same_base_did ?L (msg_to m) (did_id (ek_did (nc_decrypt ?C 2))) = Inr True)"
    using kubo_injective_agreement [OF L(1-4) sim_laws extended_formats s k(1) facts(1,3) k(2) at w] by blast
  then have "(0, f (7, m)) \<in> ns_made s" "unsigned_headers ?L m = unsigned_headers ?L (f (7, m))"
    unfolding one by simp_all
  with pub s one show ?thesis
    by (intro exI [of _ da] exI [of _ w] exI [of _ s] exI [of _ f] exI [of _ m]) (intro conjI)
qed

end
