(* ===== verification/Republish.thy ===== *)
theory Republish
  imports CleanupDaemon
begin

text \<open>
  One identity published again and again on one daemon, while the worker of the cleanup
  scheduler runs (\<^verbatim>\<open>ipfs/publish.rs\<close> and \<^verbatim>\<open>kubo/pinning.rs\<close> together): a publication in its two
  halves, storing with the name publish and then the scheduling of its cleanup, and the loop of
  the worker with its batches, interleaved. A publication whose first half fails is no step here: it is reported to the
  caller, and may have changed the name before it failed. What two publications at the same
  time can do follows at the end.
\<close>

section \<open>Publisher and worker\<close>

text \<open>
  The scheduler; the daemon; the publication whose first half is done, if one is under way; the
  document most recently published under the name, as its CID and bytes; what the batch of the
  running request answered, once it has; and the request of the last batch that ran.
\<close>

record 'w pub_system =
  ps_sched :: scheduler
  ps_world :: 'w
  ps_open :: bool
  ps_latest :: "(string \<times> bytes) option"
  ps_answer :: "bool option"
  ps_last_batch :: "pin_cleanup_request option"

definition pub_initial :: "nat \<Rightarrow> 'w \<Rightarrow> 'w pub_system" where
  "pub_initial size0 w = \<lparr>ps_sched = with_capacity size0, ps_world = w, ps_open = False,
     ps_latest = None, ps_answer = None, ps_last_batch = None\<rparr>"

text \<open>What the worker does after a batch, under the lock: requeue, or go back to its channel.\<close>

definition after_batch :: "bool \<Rightarrow> pin_cleanup_key \<Rightarrow> pin_cleanup_request \<Rightarrow> scheduler \<Rightarrow> scheduler" where
  "after_batch again k r s =
     (if again \<and> sc_pending s k = None
      then s\<lparr>sc_pending := (sc_pending s)(k \<mapsto> r), sc_worker := Yielding k\<rparr>
      else s\<lparr>sc_worker := Idle\<rparr>)"

inductive pub_step :: "('w, 'x) publish_lib_scheme \<Rightarrow> 'y doc_lib_scheme \<Rightarrow> string \<Rightarrow> publish_options \<Rightarrow>
    string \<Rightarrow> string \<Rightarrow> 'w pub_system \<Rightarrow> 'w pub_system \<Rightarrow> bool" for K L url opts n i where
  opens: "\<not> ps_open s \<Longrightarrow> store_pin_publish K L url bytes secret opts (ps_world s) = (Inr (cid, n, i), w) \<Longrightarrow>
    pub_step K L url opts n i s (s\<lparr>ps_world := w, ps_open := True, ps_latest := Some (cid, bytes)\<rparr>)"
| confirms: "ps_open s \<Longrightarrow> ps_latest s = Some (cid, bytes) \<Longrightarrow>
    confirm_pins_and_schedule_cleanup K url (chosen_pin_name opts n) cid opts (ps_sched s, ps_world s) =
      (result, sc, w) \<Longrightarrow>
    pub_step K L url opts n i s (s\<lparr>ps_sched := sc, ps_world := w, ps_open := False\<rparr>)"
| recv: "sc_worker (ps_sched s) = Idle \<Longrightarrow> sc_queue (ps_sched s) = k # q \<Longrightarrow>
    pub_step K L url opts n i s (s\<lparr>ps_sched := (ps_sched s)\<lparr>sc_queue := q, sc_worker := Received k\<rparr>\<rparr>)"
| take_none: "sc_worker (ps_sched s) = Received k \<Longrightarrow> sc_pending (ps_sched s) k = None \<Longrightarrow>
    pub_step K L url opts n i s (s\<lparr>ps_sched := (ps_sched s)\<lparr>sc_worker := Idle\<rparr>\<rparr>)"
| take_some: "sc_worker (ps_sched s) = Received k \<Longrightarrow> sc_pending (ps_sched s) k = Some r \<Longrightarrow>
    pub_step K L url opts n i s (s\<lparr>ps_sched := (ps_sched s)\<lparr>
      sc_pending := (sc_pending (ps_sched s))(k := None), sc_worker := Running k r\<rparr>\<rparr>)"
| batch: "sc_worker (ps_sched s) = Running k r \<Longrightarrow> ps_answer s = None \<Longrightarrow>
    cleanup_one_batch K r (ps_world s) = (again, w) \<Longrightarrow>
    pub_step K L url opts n i s (s\<lparr>ps_world := w, ps_answer := Some again, ps_last_batch := Some r\<rparr>)"
| settles: "sc_worker (ps_sched s) = Running k r \<Longrightarrow> ps_answer s = Some again \<Longrightarrow>
    pub_step K L url opts n i s (s\<lparr>ps_sched := after_batch again k r (ps_sched s), ps_answer := None\<rparr>)"
| wakes: "sc_worker (ps_sched s) = Yielding k \<Longrightarrow>
    pub_step K L url opts n i s (s\<lparr>ps_world := http_sleep K CLEANUP_YIELD (ps_world s),
      ps_sched := (case try_send k (ps_sched s) of
          Some sc \<Rightarrow> sc\<lparr>sc_worker := Idle\<rparr> | None \<Rightarrow> (ps_sched s)\<lparr>sc_worker := Idle\<rparr>)\<rparr>)"

inductive_cases pub_stepE: "pub_step K L url opts n i s s'"

text \<open>On the scheduler, each step is a step of the scheduler's own relation, or none.\<close>

lemma pub_step_scheduler:
  assumes "pub_step K L url opts n i s s'"
  shows "ps_sched s' = ps_sched s \<or> sched_step (ps_sched s) (ps_sched s')"
  using assms
proof cases
  case (confirms cid bytes result sc w)
  then have "sc = ps_sched s \<or> (\<exists>r. sc = snd (schedule r (ps_sched s)))"
    by (auto simp: confirm_pins_and_schedule_cleanup_def Let_def split: prod.splits option.splits sum.splits if_splits)
      (metis snd_conv)+
  then show ?thesis using confirms(1) by (auto intro: sched_step.call_schedule)
next
  case (settles k r again)
  then show ?thesis
    by (cases "sc_pending (ps_sched s) k")
      (auto simp: after_batch_def intro: sched_step.batch_done sched_step.requeue)
next
  case (wakes k)
  then show ?thesis
    by (auto intro: sched_step.wake sched_step.wake_dropped split: option.splits)
qed (auto intro: sched_step.recv sched_step.take_none sched_step.take_some)

section \<open>Requests never outlive their publication\<close>

text \<open>The one key of this publisher: its options ask for no remote pin and replace old pins.\<close>

definition own_key :: "string \<Rightarrow> string \<Rightarrow> pin_cleanup_key" where
  "own_key url n = \<lparr>pck_kubo_url = url, pck_name = n, pck_cleanup_local = True, pck_remote_service = None\<rparr>"

definition own_request :: "string \<Rightarrow> string \<Rightarrow> pin_cleanup_request \<Rightarrow> bool" where
  "own_request url n r \<longleftrightarrow> key_of r = own_key url n \<and> canonical_cid (pcr_protected_cid r)"

definition only_own :: "string \<Rightarrow> string \<Rightarrow> scheduler \<Rightarrow> bool" where
  "only_own url n s \<longleftrightarrow>
     set (held_key (sc_worker s) @ sc_queue s) \<subseteq> {own_key url n}
   \<and> (\<forall>k r. sc_pending s k = Some r \<longrightarrow> k = own_key url n \<and> own_request url n r)
   \<and> (\<forall>k r. sc_worker s = Running k r \<longrightarrow> k = own_key url n \<and> own_request url n r)"

lemma only_ownD:
  assumes "only_own url n s"
  shows "k \<in> set (held_key (sc_worker s) @ sc_queue s) \<Longrightarrow> k = own_key url n"
    and "sc_pending s k = Some r \<Longrightarrow> k = own_key url n \<and> own_request url n r"
    and "sc_worker s = Running k r \<Longrightarrow> k = own_key url n \<and> own_request url n r"
  using assms unfolding only_own_def by blast+

lemma only_own_keys:
  assumes "only_own url n s"
  shows "k \<in> set (sc_queue s) \<Longrightarrow> k = own_key url n" and "k \<in> set (held_key (sc_worker s)) \<Longrightarrow> k = own_key url n"
  using only_ownD(1) [OF assms] by auto

lemma only_ownI:
  assumes "\<And>k. k \<in> set (held_key (sc_worker s) @ sc_queue s) \<Longrightarrow> k = own_key url n"
    and "\<And>k r. sc_pending s k = Some r \<Longrightarrow> k = own_key url n \<and> own_request url n r"
    and "\<And>k r. sc_worker s = Running k r \<Longrightarrow> k = own_key url n \<and> own_request url n r"
  shows "only_own url n s"
  using assms unfolding only_own_def by blast

text \<open>
  With no publication under way, the waiting request protects the published CID; if none waits,
  the request of the running batch does, and before that of the last batch.
\<close>

definition cleanup_current :: "string \<Rightarrow> string \<Rightarrow> string \<Rightarrow> 'w pub_system \<Rightarrow> bool" where
  "cleanup_current url n c s \<longleftrightarrow>
     (case sc_pending (ps_sched s) (own_key url n) of
        Some r \<Rightarrow> pcr_protected_cid r = c
      | None \<Rightarrow> (case sc_worker (ps_sched s) of
            Running k r \<Rightarrow> pcr_protected_cid r = c
          | _ \<Rightarrow> (\<exists>r. ps_last_batch s = Some r \<and> pcr_protected_cid r = c)))"

text \<open>A daemon that is not collecting garbage: pin requests lose no block and change no name.\<close>

definition no_collection :: "('w, 'x) kubo_lib_scheme \<Rightarrow> 'w daemon_view \<Rightarrow> string \<Rightarrow> bool" where
  "no_collection K V url \<longleftrightarrow> canonical_listings K
     \<and> (\<forall>c b. lasting K url pin_endpoints (\<lambda>w. dv_block V w c = Some b))
     \<and> (\<forall>i p. lasting K url pin_endpoints (\<lambda>w. dv_name V w i = Some p))"

definition published_at :: "'w daemon_view \<Rightarrow> string \<Rightarrow> string \<Rightarrow> bytes \<Rightarrow> 'w \<Rightarrow> bool" where
  "published_at V i c b w \<longleftrightarrow> dv_name V w i = Some (''/ipfs/'' @ c) \<and> dv_block V w c = Some b"

definition pub_inv :: "'w daemon_view \<Rightarrow> string \<Rightarrow> string \<Rightarrow> string \<Rightarrow> 'w pub_system \<Rightarrow> bool" where
  "pub_inv V url n i s \<longleftrightarrow> sched_inv (ps_sched s) \<and> only_own url n (ps_sched s)
   \<and> (ps_answer s \<noteq> None \<longrightarrow> (\<exists>k r. sc_worker (ps_sched s) = Running k r \<and> ps_last_batch s = Some r))
   \<and> (\<forall>c b. ps_latest s = Some (c, b) \<longrightarrow> canonical_cid c \<and> published_at V i c b (ps_world s)
        \<and> (\<not> ps_open s \<longrightarrow> cleanup_current url n c s))"

lemma pub_invD:
  assumes "pub_inv V url n i s"
  shows "sched_inv (ps_sched s)" and "only_own url n (ps_sched s)"
    and "ps_answer s = Some a \<Longrightarrow> \<exists>k r. sc_worker (ps_sched s) = Running k r \<and> ps_last_batch s = Some r"
    and "ps_latest s = Some (c, b) \<Longrightarrow> canonical_cid c \<and> published_at V i c b (ps_world s)"
    and "ps_latest s = Some (c, b) \<Longrightarrow> \<not> ps_open s \<Longrightarrow> cleanup_current url n c s"
  using assms unfolding pub_inv_def by blast+

lemma pub_invI:
  assumes "sched_inv (ps_sched s)" and "only_own url n (ps_sched s)"
    and "\<And>a. ps_answer s = Some a \<Longrightarrow> \<exists>k r. sc_worker (ps_sched s) = Running k r \<and> ps_last_batch s = Some r"
    and "\<And>c b. ps_latest s = Some (c, b) \<Longrightarrow> canonical_cid c \<and> published_at V i c b (ps_world s)"
    and "\<And>c b. ps_latest s = Some (c, b) \<Longrightarrow> \<not> ps_open s \<Longrightarrow> cleanup_current url n c s"
  shows "pub_inv V url n i s"
  using assms unfolding pub_inv_def by blast

text \<open>Because all requests share their key, the channel always has room when it is needed.\<close>

lemma own_room:
  assumes inv: "sched_inv s" and own: "only_own url n s"
  shows "sc_pending s (own_key url n) = None \<Longrightarrow> sc_queue s = []"
    and "sc_worker s = Yielding k \<Longrightarrow> sc_queue s = []"
    and "1 \<le> sc_capacity s"
proof -
  note q = only_ownD(1) [OF own]
  show "sc_queue s = []" if "sc_pending s (own_key url n) = None"
  proof (rule ccontr)
    assume "sc_queue s \<noteq> []"
    then have h: "hd (sc_queue s) \<in> set (held_key (sc_worker s) @ sc_queue s)" by simp
    then show False using inv that q [OF h] unfolding sched_inv_def by metis
  qed
  show "sc_queue s = []" if "sc_worker s = Yielding k"
  proof (rule ccontr)
    assume "sc_queue s \<noteq> []"
    then have h: "hd (sc_queue s) \<in> set (sc_queue s)" by simp
    have "k = hd (sc_queue s)" using q [of k] q [of "hd (sc_queue s)"] h that by simp
    then show False using inv h that by (simp add: sched_inv_def)
  qed
  show "1 \<le> sc_capacity s" using inv by (simp add: sched_inv_def)
qed

lemma own_schedule:
  assumes "sched_inv s" and "only_own url n s" and r: "own_request url n r"
  shows "fst (schedule r s)" and "only_own url n (snd (schedule r s))"
    and "sc_pending (snd (schedule r s)) (own_key url n) = Some r"
    and "sc_worker (snd (schedule r s)) = sc_worker s"
proof -
  have k: "key_of r = own_key url n" using r by (simp add: own_request_def)
  have "fst (schedule r s) \<and> only_own url n (snd (schedule r s))
      \<and> sc_pending (snd (schedule r s)) (own_key url n) = Some r \<and> sc_worker (snd (schedule r s)) = sc_worker s"
  proof (cases "sc_pending s (own_key url n)")
    case None
    then have "length (sc_queue s) < sc_capacity s" using own_room(1,3) [OF assms(1,2)] by simp
    then have e: "schedule r s = (True, s\<lparr>sc_pending := (sc_pending s)(own_key url n \<mapsto> r),
        sc_queue := sc_queue s @ [own_key url n]\<rparr>)"
      using None schedule_push [of s r] k by simp
    show ?thesis using assms(2) r unfolding e only_own_def by auto
  next
    case (Some r0)
    then have e: "schedule r s = (True, s\<lparr>sc_pending := (sc_pending s)(own_key url n \<mapsto> r)\<rparr>)"
      using schedule_waiting [of s r] k by simp
    show ?thesis using assms(2) r unfolding e only_own_def by auto
  qed
  then show "fst (schedule r s)" "only_own url n (snd (schedule r s))"
    "sc_pending (snd (schedule r s)) (own_key url n) = Some r" "sc_worker (snd (schedule r s)) = sc_worker s"
    by blast+
qed

text \<open>Options that replace old pins and ask for no remote pin, as the default ones do.\<close>

definition replaces_locally :: "publish_options \<Rightarrow> bool" where
  "replaces_locally opts \<longleftrightarrow> dpo_overwrite opts \<and> dpo_remote_pin opts = None"

lemma confirm_plain:
  assumes "replaces_locally opts"
  shows "confirm_pins_and_schedule_cleanup K url (chosen_pin_name opts n) cid opts (sc, w) =
    (let r = \<lparr>pcr_kubo_url = url, pcr_name = n, pcr_protected_cid = cid, pcr_cleanup_local = True,
       pcr_remote_service = None\<rparr> in ((fst (schedule r sc), None), snd (schedule r sc), w))"
  using assms
  by (simp add: confirm_pins_and_schedule_cleanup_def replaces_locally_def chosen_pin_name_def Let_def split: prod.split)

lemma published_lasts:
  assumes "no_collection K V url"
  shows "lasting K url pin_endpoints (published_at V i c b)"
  unfolding published_at_def by (rule lasting_conj) (use assms in \<open>simp_all add: no_collection_def\<close>)

lemma batch_published:
  assumes nc: "no_collection K V url" and r: "own_request url n r"
    and "published_at V i c b w" and "cleanup_one_batch K r w = (again, w')"
  shows "published_at V i c b w'"
proof -
  have u: "pcr_kubo_url r = url" using r by (simp add: own_request_def own_key_def key_of_def)
  have "request_invariant K (spares_protected r) (published_at V i c b)"
    using published_lasts [OF nc] by unfold_locales (auto simp: lasting_def spares_protected_def u)
  then have "io_keeps (published_at V i c b) (cleanup_one_batch K r)"
    by (rule batch_keeps) (use nc r in \<open>simp_all add: no_collection_def own_request_def\<close>)
  then show ?thesis using assms(3,4) by (rule keepsD)
qed

lemma pub_inv_scheduler:
  assumes "pub_step K L url opts n i s s'" and "sched_inv (ps_sched s)"
  shows "sched_inv (ps_sched s')"
  using pub_step_scheduler [OF assms(1)] sched_inv_step [OF assms(2)] assms(2) by auto

text \<open>A step of the worker that leaves daemon and publications alone.\<close>

lemma pub_inv_worker:
  assumes "pub_inv V url n i s" and "sched_inv (ps_sched s')" and "only_own url n (ps_sched s')"
    and "ps_answer s' = None" and "ps_world s' = ps_world s" and "ps_latest s' = ps_latest s"
    and "ps_open s' = ps_open s" and "\<And>c. cleanup_current url n c s \<Longrightarrow> cleanup_current url n c s'"
  shows "pub_inv V url n i s'"
  using assms unfolding pub_inv_def by simp

lemma pub_inv_confirms:
  assumes opts: "replaces_locally opts" and inv: "pub_inv V url n i s" and si: "sched_inv (ps_sched s')"
    and l: "ps_latest s = Some (cid, bytes)"
    and c: "confirm_pins_and_schedule_cleanup K url (chosen_pin_name opts n) cid opts (ps_sched s, ps_world s) =
      (result, sc, w)"
    and s': "s' = s\<lparr>ps_sched := sc, ps_world := w, ps_open := False\<rparr>"
  shows "pub_inv V url n i s'"
proof -
  note own = pub_invD(2) [OF inv]
  define r where "r = \<lparr>pcr_kubo_url = url, pcr_name = n, pcr_protected_cid = cid, pcr_cleanup_local = True,
    pcr_remote_service = None\<rparr>"
  have "own_request url n r"
    using pub_invD(4) [OF inv l] by (simp add: own_request_def own_key_def key_of_def r_def)
  note sch = own_schedule [OF pub_invD(1) [OF inv] own this]
  have "sc = snd (schedule r (ps_sched s))" "w = ps_world s"
    using c by (simp_all add: confirm_plain [OF opts] r_def Let_def)
  then have e: "ps_sched s' = snd (schedule r (ps_sched s))" "ps_world s' = ps_world s"
      "ps_answer s' = ps_answer s" "ps_last_batch s' = ps_last_batch s" "ps_latest s' = Some (cid, bytes)"
    using s' l by simp_all
  show ?thesis
  proof (rule pub_invI [OF si])
    show "only_own url n (ps_sched s')" using sch(2) by (simp add: e)
    show "\<exists>k r. sc_worker (ps_sched s') = Running k r \<and> ps_last_batch s' = Some r"
      if "ps_answer s' = Some a" for a
      using pub_invD(3) [OF inv, of a] that sch(4) by (simp add: e)
    show "canonical_cid c \<and> published_at V i c b (ps_world s')" if "ps_latest s' = Some (c, b)" for c b
      using pub_invD(4) [OF inv, of c b] that l by (simp add: e)
    show "cleanup_current url n c s'" if "ps_latest s' = Some (c, b)" for c b
      using that sch(3) by (simp add: e cleanup_current_def r_def)
  qed
qed

lemma pub_inv_batch:
  assumes inv: "pub_inv V url n i s" and si: "sched_inv (ps_sched s')"
    and laws: "no_collection K V url" and b: "sc_worker (ps_sched s) = Running k r"
    and c: "cleanup_one_batch K r (ps_world s) = (again, w)"
    and s': "s' = s\<lparr>ps_world := w, ps_answer := Some again, ps_last_batch := Some r\<rparr>"
  shows "pub_inv V url n i s'"
proof -
  note own = pub_invD(2) [OF inv]
  have "own_request url n r" using only_ownD(3) [OF own b] by simp
  note pub = batch_published [OF laws this _ c]
  show ?thesis
  proof (rule pub_invI [OF si])
    show "canonical_cid c \<and> published_at V i c b (ps_world s')" if "ps_latest s' = Some (c, b)" for c b
      using pub_invD(4) [OF inv, of c b] that pub s' by simp
    show "cleanup_current url n c s'" if "ps_latest s' = Some (c, b)" "\<not> ps_open s'" for c b
      using pub_invD(5) [OF inv, of c b] that s' b
      by (simp add: cleanup_current_def split: option.splits)
  qed (use own s' b in simp_all)
qed

lemma pub_inv_settles:
  assumes inv: "pub_inv V url n i s" and si: "sched_inv (ps_sched s')"
    and b: "sc_worker (ps_sched s) = Running k r" and c: "ps_answer s = Some again"
    and s': "s' = s\<lparr>ps_sched := after_batch again k r (ps_sched s), ps_answer := None\<rparr>"
  shows "pub_inv V url n i s'"
proof -
  note own = pub_invD(2) [OF inv]
  have k: "k = own_key url n" "own_request url n r" using only_ownD(3) [OF own b] by simp_all
  have l: "ps_last_batch s = Some r" using pub_invD(3) [OF inv c] b by auto
  show ?thesis
  proof (rule pub_inv_worker [OF inv si])
    show "only_own url n (ps_sched s')"
      by (rule only_ownI)
        (auto simp: s' after_batch_def k split: if_splits dest: only_own_keys [OF own] only_ownD(2,3) [OF own])
    show "cleanup_current url n c s'" if "cleanup_current url n c s" for c
      using that s' b k l by (simp add: cleanup_current_def after_batch_def split: option.splits)
  qed (use s' in simp_all)
qed

lemma pub_inv_wakes:
  assumes inv: "pub_inv V url n i s" and si: "sched_inv (ps_sched s')"
    and laws: "no_collection K V url" and b: "sc_worker (ps_sched s) = Yielding k"
    and s': "s' = s\<lparr>ps_world := http_sleep K CLEANUP_YIELD (ps_world s),
      ps_sched := (case try_send k (ps_sched s) of
          Some sc \<Rightarrow> sc\<lparr>sc_worker := Idle\<rparr> | None \<Rightarrow> (ps_sched s)\<lparr>sc_worker := Idle\<rparr>)\<rparr>"
  shows "pub_inv V url n i s'"
proof -
  note own = pub_invD(2) [OF inv]
  have k: "k = own_key url n" using only_ownD(1) [OF own, of k] b by simp
  have t: "try_send k (ps_sched s) = Some ((ps_sched s)\<lparr>sc_queue := [k]\<rparr>)"
    using own_room(2,3) [OF pub_invD(1) [OF inv] own] b by (simp add: try_send_def)
  have e: "ps_sched s' = (ps_sched s)\<lparr>sc_queue := [own_key url n], sc_worker := Idle\<rparr>"
    using s' t k by simp
  have f: "ps_latest s' = ps_latest s" "ps_open s' = ps_open s" "ps_last_batch s' = ps_last_batch s"
    using s' by simp_all
  show ?thesis
  proof (rule pub_invI [OF si])
    show "only_own url n (ps_sched s')"
      by (rule only_ownI) (auto simp: e dest: only_own_keys [OF own] only_ownD(2,3) [OF own])
    show "\<exists>k r. sc_worker (ps_sched s') = Running k r \<and> ps_last_batch s' = Some r"
      if "ps_answer s' = Some a" for a
      using pub_invD(3) [OF inv, of a] that s' b by simp
    show "canonical_cid c \<and> published_at V i c b (ps_world s')" if "ps_latest s' = Some (c, b)" for c b
      using pub_invD(4) [OF inv, of c b] that s' lasting_sleep [OF published_lasts [OF laws]] by simp
    show "cleanup_current url n c s'" if "ps_latest s' = Some (c, b)" "\<not> ps_open s'" for c b
      using pub_invD(5) [OF inv, of c b] that b by (simp add: cleanup_current_def e f split: option.splits)
  qed
qed

lemma pub_inv_step:
  assumes laws: "daemon_laws K V url" "no_collection K V url" "replaces_locally opts"
    and inv: "pub_inv V url n i s" and st: "pub_step K L url opts n i s s'"
  shows "pub_inv V url n i s'"
proof -
  note si = pub_inv_scheduler [OF st pub_invD(1) [OF inv]]
  note own = pub_invD(2) [OF inv]
  show ?thesis using st
  proof cases
    case (opens bytes secret cid w)
    then show ?thesis
      using inv store_establishes(1-3) [OF laws(1) opens(3)] by (simp add: pub_inv_def published_at_def)
  next
    case (confirms cid bytes result sc w)
    then show ?thesis by (intro pub_inv_confirms [OF laws(3) inv si])
  next
    case (recv k q)
    have kq: "x = own_key url n" if "x = k \<or> x \<in> set q" for x
      using only_ownD(1) [OF own, of x] that recv(3) by auto
    show ?thesis
    proof (rule pub_inv_worker [OF inv si])
      show "only_own url n (ps_sched s')"
        by (rule only_ownI)
          (auto simp: recv(1) intro: kq dest: only_ownD(2) [OF own])
      show "ps_answer s' = None" using pub_invD(3) [OF inv] recv by (cases "ps_answer s") auto
    qed (use recv in \<open>simp_all add: cleanup_current_def split: option.splits\<close>)
  next
    case (take_none k)
    show ?thesis
    proof (rule pub_inv_worker [OF inv si])
      show "only_own url n (ps_sched s')"
        by (rule only_ownI)
          (auto simp: take_none(1) split: if_splits dest: only_own_keys [OF own] only_ownD(2,3) [OF own])
      show "ps_answer s' = None" using pub_invD(3) [OF inv] take_none by (cases "ps_answer s") auto
    qed (use take_none in \<open>simp_all add: cleanup_current_def split: option.splits\<close>)
  next
    case (take_some k r)
    have k: "k = own_key url n" "own_request url n r" using only_ownD(2) [OF own take_some(3)] by simp_all
    show ?thesis
    proof (rule pub_inv_worker [OF inv si])
      show "only_own url n (ps_sched s')"
        by (rule only_ownI)
          (auto simp: take_some(1) k split: if_splits dest: only_own_keys [OF own] only_ownD(2,3) [OF own])
      show "ps_answer s' = None" using pub_invD(3) [OF inv] take_some by (cases "ps_answer s") auto
    qed (use take_some k in \<open>simp_all add: cleanup_current_def\<close>)
  next
    case (batch k r again w)
    then show ?thesis by (intro pub_inv_batch [OF inv si laws(2)])
  next
    case (settles k r again)
    then show ?thesis by (intro pub_inv_settles [OF inv si])
  next
    case (wakes k)
    then show ?thesis by (intro pub_inv_wakes [OF inv si laws(2)])
  qed
qed

lemma pub_inv_reachable:
  assumes "daemon_laws K V url" "no_collection K V url" "replaces_locally opts"
    and "(pub_step K L url opts n i)\<^sup>*\<^sup>* (pub_initial size0 w) s"
  shows "pub_inv V url n i s"
  using assms(4)
proof (induction rule: rtranclp_induct)
  case base
  show ?case by (simp add: pub_inv_def pub_initial_def with_capacity_def sched_inv_def only_own_def)
next
  case (step s s')
  show ?case by (rule pub_inv_step [OF assms(1-3) step.IH step.hyps(2)])
qed

text \<open>C14: An identity can be published again and again while cleanup runs. Let one identity be
  published with options that overwrite its pins and ask for no remote pin, over a scheduler
  that this identity's key alone uses. However the halves of the publications and the steps
  of the worker interleave, as long as no publication fails and one has been confirmed before
  the next begins: the resolver always finds the document published last, and as soon as its
  publication is confirmed the cleanup is its own, so the waiting request protects its CID,
  or else that of the running batch does, or the last batch that ran did. A request to
  protect an older CID, requeued or overtaken, never comes after it. The daemon is assumed not
  to collect garbage meanwhile. (With a remote pin that fails an older request can stay:
  \<open>degraded_keeps_old_request\<close>; other identities can fill the channel.)\<close>

theorem republication_current:
  assumes "daemon_laws K V url" "no_collection K V url" "replaces_locally opts"
    and "(pub_step K L url opts n i)\<^sup>*\<^sup>* (pub_initial size0 w) s"
    and "ps_latest s = Some (c, bytes)" "document_decode L bytes = Inr document"
    and "document_validate L document = Inr ()" "document_verify L document = Inr ()"
    and "did_try_from L did = Inr d" "ipns d = i" "did_try_from L (doc_id document) = Inr e" "ipns e = i"
  shows "fst (kubo_resolve K L (kubo_resolver_new url) did (ps_world s)) = Inr document
    \<and> (ps_open s \<or> cleanup_current url n c s)"
proof -
  note inv = pub_inv_reachable [OF assms(1-4)]
  have "published_at V (ipns d) c bytes (ps_world s)" using pub_invD(4) [OF inv assms(5)] assms(10) by simp
  then have "fst (kubo_resolve K L (kubo_resolver_new url) did (ps_world s)) = Inr document"
    unfolding published_at_def
    using document_served [OF assms(1) _ _ assms(6-9,11)] assms(10,12) by simp
  then show ?thesis using pub_invD(5) [OF inv assms(5)] by blast
qed

section \<open>Two publications at the same time\<close>

text \<open>
  Nothing orders the second halves of two publications of one name. When the publication that
  stored last confirms first, the name leads to its document, but the waiting request protects
  the other one: the batch of that request removes the pins of the document that is published.
\<close>

lemma crossed_confirmations:
  assumes laws: "daemon_laws K V url" "replaces_locally opts"
    and a: "store_pin_publish K L url bytes1 secret opts w0 = (Inr (cid1, n, i), w1)"
    and b: "store_pin_publish K L url bytes2 secret opts w1 = (Inr (cid2, n, i), w2)"
    and cb: "confirm_pins_and_schedule_cleanup K url (chosen_pin_name opts n) cid2 opts (sc, w2) = ((True, x), sc1, w3)"
    and ca: "confirm_pins_and_schedule_cleanup K url (chosen_pin_name opts n) cid1 opts (sc1, w3) = (y, sc2, w4)"
    and r: "sc_pending sc2 (own_key url n) = Some r"
  shows "dv_name V w4 i = Some (''/ipfs/'' @ cid2) \<and> pcr_protected_cid r = cid1
    \<and> (cid2 \<in> set pins \<and> cid1 \<noteq> cid2 \<longrightarrow> cid2 \<in> set (stale_pins pins (pcr_protected_cid r)))"
proof -
  define q where "q c = \<lparr>pcr_kubo_url = url, pcr_name = n, pcr_protected_cid = c, pcr_cleanup_local = True,
    pcr_remote_service = None\<rparr>" for c
  have w: "w3 = w2" "w4 = w3" "sc1 = snd (schedule (q cid2) sc)" "fst (schedule (q cid2) sc)"
    "sc2 = snd (schedule (q cid1) sc1)"
    using ca cb by (simp_all add: confirm_plain [OF laws(2)] q_def Let_def)
  have k: "key_of (q c) = own_key url n" for c by (simp add: q_def own_key_def key_of_def)
  have "sc_pending sc1 (own_key url n) = Some (q cid2)"
    using w(3,4) k by (cases rule: schedule_cases [of sc "q cid2"]) auto
  then have "sc_pending sc2 (own_key url n) = Some (q cid1)"
    using w(5) k schedule_waiting [of sc1 "q cid1"] by simp
  then have "pcr_protected_cid r = cid1" using r by (simp add: q_def)
  then show ?thesis using store_establishes(1) [OF laws(1) b] w by (auto simp: stale_pins_def)
qed

text \<open>
  Even without that, a batch whose request was taken before a publication began runs with the older
  protected CID: it lists the in-flight name as well and removes the pin which the publication
  has just made under it.
\<close>

lemma overtaken_batch_unpins:
  assumes "list_named_recursive_pins K (pcr_kubo_url r) (pcr_name r) w = (Inr [pcr_protected_cid r], w1)"
    and "list_named_recursive_pins K (pcr_kubo_url r) (in_flight_pin_name (pcr_name r)) w1 = (Inr [c], w2)"
    and "c \<noteq> pcr_protected_cid r"
  shows "cleanup_local_pass K r w = (case pin_rm K (pcr_kubo_url r) c w2 of (x, w3) \<Rightarrow> (is_ok x, w3))"
  using assms by (auto simp: cleanup_local_pass_def stale_pins_def Let_def split: prod.split sum.split)

text \<open>
  Nor need two publications overlap. The key of a request names the remote service it cleans up,
  and a publication whose remote pin failed asks for no remote cleanup: its request does not
  replace the one that an earlier publication left waiting for the same pin name, which goes on
  to protect the earlier CID and removes the other local pins.
\<close>

lemma degraded_keeps_old_request:
  assumes opts: "dpo_overwrite opts" "dpo_remote_pin opts = Some remote"
    and a: "remote_pin_with_retry K url remote cid1 (dpo_attempts opts) (dpo_initial_backoff opts) w1 = (Inr u, w2)"
      "confirm_pins_and_schedule_cleanup K url (chosen_pin_name opts n) cid1 opts (sc, w1) = ((True, x), sc1, w2)"
    and b: "remote_pin_with_retry K url remote cid2 (dpo_attempts opts) (dpo_initial_backoff opts) w3 = (Inl e, w4)"
      "confirm_pins_and_schedule_cleanup K url (chosen_pin_name opts n) cid2 opts (sc1, w3) = (y, sc2, w4)"
  shows "\<exists>r k. sc_pending sc2 k = Some r \<and> pcr_name r = rpo_name remote \<and> pcr_cleanup_local r
    \<and> pcr_protected_cid r = cid1"
proof -
  define q where "q c v = \<lparr>pcr_kubo_url = url, pcr_name = rpo_name remote, pcr_protected_cid = c,
    pcr_cleanup_local = True, pcr_remote_service = v\<rparr>" for c v
  have s: "sc1 = snd (schedule (q cid1 (Some (rpo_service remote))) sc)"
      "fst (schedule (q cid1 (Some (rpo_service remote))) sc)" "sc2 = snd (schedule (q cid2 None) sc1)"
    using a b opts
    by (auto simp: confirm_pins_and_schedule_cleanup_def chosen_pin_name_def q_def Let_def split: prod.splits)
  have "sc_pending sc1 (key_of (q cid1 (Some (rpo_service remote)))) = Some (q cid1 (Some (rpo_service remote)))"
    using s(1,2) by (cases rule: schedule_cases [of sc "q cid1 (Some (rpo_service remote))"]) auto
  moreover have "key_of (q cid2 None) \<noteq> key_of (q cid1 (Some (rpo_service remote)))"
    by (simp add: q_def key_of_def)
  ultimately have "sc_pending sc2 (key_of (q cid1 (Some (rpo_service remote)))) =
      Some (q cid1 (Some (rpo_service remote)))"
    unfolding s(3) by (cases rule: schedule_cases [of sc1 "q cid2 None"]) auto
  then show ?thesis by (intro exI [of _ "q cid1 (Some (rpo_service remote))"] exI) (simp add: q_def)
qed

section \<open>Witness\<close>

lemma sim_no_collection: "no_collection (sim_kubo ids) sim_view sim_url"
proof -
  have "sim_block (snd (sim_send rq w)) c = Some b" if "sim_block w c = Some b" for rq w c b
    using that by (auto simp: sim_send_def sim_block_insert Let_def split: http_body.split option.split)
  moreover have "sim_names (snd (sim_send rq w)) i = Some p"
    if "rq_url rq = api_url sim_url ep" "ep \<in> pin_endpoints" "sim_names w i = Some p" for rq ep i p and w :: sim
    using that by (auto simp: sim_send_def pin_endpoints_def Let_def split: http_body.split option.split)
  ultimately show ?thesis
    by (auto simp: no_collection_def lasting_def canonical_listings_def sim_kubo_def)
qed

theorem republication_current_witness:
  "\<exists>n d b s. (pub_step (sim_kubo (\<lambda>k. ''6d61'')) demo_msg_lib sim_url publish_options_default n ''6d61'')\<^sup>*\<^sup>*
      (pub_initial 1 sim_empty) s \<and> ps_latest s = Some (hex_encode b, b) \<and> doc_id d = ''did:ma:6d61''
    \<and> fst (kubo_resolve (sim_kubo (\<lambda>k. ''6d61'')) demo_msg_lib (kubo_resolver_new sim_url) ''did:ma:6d61''
        (ps_world s)) = Inr d
    \<and> cleanup_current sim_url n (hex_encode b) s"
proof -
  let ?K = "sim_kubo (\<lambda>k. ''6d61'')" and ?L = demo_msg_lib and ?o = publish_options_default
  obtain d :: document where d: "doc_id d = ''did:ma:6d61''"
    "document_validate ?L d = Inr ()" "document_verify ?L d = Inr ()"
    "document_of_dagcbor ?L (put_document d) = Inr d"
    using demo_served_document by blast
  have t: "trim ''6d61'' = ''6d61''" by (rule trim_solid) (simp_all add: solid_def code_def)
  have i: "did_try_from ?L ''did:ma:6d61'' = Inr \<lparr>ipns = ''6d61'', fragment = None\<rparr>"
    by (simp add: did_try_from_def)
  have dec: "document_decode ?L (put_document d) = Inr d"
    by (simp add: document_decode_def d(4))
  obtain n w where st: "store_pin_publish ?K ?L sim_url (put_document d) demo_secret ?o sim_empty =
      (Inr (hex_encode (put_document d), n, ''6d61''), w)"
    using sim_stored [OF dec, of _ "\<lambda>k. ''6d61''" demo_secret] i d(1) t by (auto simp: demo_secret_def)
  let ?step = "pub_step ?K ?L sim_url ?o n ''6d61''" and ?c = "hex_encode (put_document d)"
  define s1 where "s1 = (pub_initial 1 sim_empty)\<lparr>ps_world := w, ps_open := True, ps_latest := Some (?c, put_document d)\<rparr>"
  obtain x sc w2 where c: "confirm_pins_and_schedule_cleanup ?K sim_url (chosen_pin_name ?o n) ?c ?o
      (ps_sched s1, ps_world s1) = (x, sc, w2)"
    by (metis prod.collapse)
  define s2 where "s2 = s1\<lparr>ps_sched := sc, ps_world := w2, ps_open := False\<rparr>"
  have "?step (pub_initial 1 sim_empty) s1" unfolding s1_def
    by (rule pub_step.opens [where secret = demo_secret]) (use st in \<open>simp_all add: pub_initial_def\<close>)
  moreover have "?step s1 s2" unfolding s2_def
    by (rule pub_step.confirms [OF _ _ c]) (simp_all add: s1_def)
  ultimately have run: "?step\<^sup>*\<^sup>* (pub_initial 1 sim_empty) s2" by (meson rtranclp.rtrancl_into_rtrancl rtranclp.rtrancl_refl)
  have o: "replaces_locally ?o" by (simp add: replaces_locally_def publish_options_default_def)
  have l: "ps_latest s2 = Some (?c, put_document d)" "\<not> ps_open s2" by (simp_all add: s2_def s1_def)
  have "fst (kubo_resolve ?K ?L (kubo_resolver_new sim_url) ''did:ma:6d61'' (ps_world s2)) = Inr d
      \<and> (ps_open s2 \<or> cleanup_current sim_url n ?c s2)"
    by (rule republication_current [OF sim_laws sim_no_collection o run l(1) dec d(2,3) i _ i [folded d(1)]]) simp_all
  then show ?thesis using run l d(1)
    by (intro exI [of _ n] exI [of _ d] exI [of _ "put_document d"] exI [of _ s2]) simp
qed

end
