(* ===== verification/ConnCache.thy ===== *)
theory ConnCache
  imports Endpoint
begin

text \<open>
  Concurrent connection attempts (\<open>get_or_connect\<close>, \<open>evict_if_closed\<close> and the cache updates of
  \<open>InboxProtocolHandler::accept\<close> in \<^verbatim>\<open>iroh/endpoint.rs\<close>) as a step relation: any number of
  tasks, each at one of the points between two atomic sections of the code, the cache they
  share, and one lock per key. A step is one section under the cache's mutex, one
  acquisition of a key's lock, or one answer of the network. Connections are closed by the
  environment at any time and stay closed.
\<close>

section \<open>States and steps\<close>

text \<open>
  The points of \<open>get_or_connect\<close>: before the first look at the cache, holding a clone of the
  entry (after the fast look or after the one under the lock), about to evict, waiting for
  the lock of the key, under the lock before the second look, connecting, about to insert the
  fresh connection, and finished.
\<close>

datatype phase =
    Start cache_key
  | Cloned cache_key nat bool
  | Evicting cache_key bool
  | Waiting cache_key
  | Recheck cache_key
  | Connecting cache_key
  | Inserting cache_key nat
  | Connected nat
  | ConnectFailed

record conn_state =
  cs_cache :: "cache_key \<Rightarrow> nat option"
  cs_closed :: "nat set"
  cs_lock :: "cache_key \<Rightarrow> nat option"
  cs_phase :: "nat \<Rightarrow> phase"
  cs_next :: nat
  cs_handlers :: "(nat \<times> cache_key) set"

definition set_phase :: "nat \<Rightarrow> phase \<Rightarrow> conn_state \<Rightarrow> conn_state" where
  "set_phase t p s = s\<lparr>cs_phase := (cs_phase s)(t := p)\<rparr>"

definition release :: "cache_key \<Rightarrow> conn_state \<Rightarrow> conn_state" where
  "release k s = s\<lparr>cs_lock := (cs_lock s)(k := None)\<rparr>"

text \<open>\<open>evict_if_closed\<close>: the entry goes only if the connection that is in it now is closed.\<close>

definition evict_closed :: "cache_key \<Rightarrow> conn_state \<Rightarrow> conn_state" where
  "evict_closed k s =
     (case cs_cache s k of
        Some c \<Rightarrow> if c \<in> cs_closed s then s\<lparr>cs_cache := (cs_cache s)(k := None)\<rparr> else s
      | None \<Rightarrow> s)"

text \<open>The steps of task \<open>t\<close>.\<close>

inductive task_step :: "nat \<Rightarrow> conn_state \<Rightarrow> conn_state \<Rightarrow> bool" for t where
  fast_miss: "cs_phase s t = Start k \<Longrightarrow> cs_cache s k = None \<Longrightarrow>
    task_step t s (set_phase t (Waiting k) s)"
| fast_hit: "cs_phase s t = Start k \<Longrightarrow> cs_cache s k = Some c \<Longrightarrow>
    task_step t s (set_phase t (Cloned k c False) s)"
| use_fast: "cs_phase s t = Cloned k c False \<Longrightarrow> c \<notin> cs_closed s \<Longrightarrow>
    task_step t s (set_phase t (Connected c) s)"
| use_locked: "cs_phase s t = Cloned k c True \<Longrightarrow> c \<notin> cs_closed s \<Longrightarrow>
    task_step t s (release k (set_phase t (Connected c) s))"
| stale: "cs_phase s t = Cloned k c b \<Longrightarrow> c \<in> cs_closed s \<Longrightarrow>
    task_step t s (set_phase t (Evicting k b) s)"
| evict_fast: "cs_phase s t = Evicting k False \<Longrightarrow>
    task_step t s (set_phase t (Waiting k) (evict_closed k s))"
| evict_locked: "cs_phase s t = Evicting k True \<Longrightarrow>
    task_step t s (set_phase t (Connecting k) (evict_closed k s))"
| acquire: "cs_phase s t = Waiting k \<Longrightarrow> cs_lock s k = None \<Longrightarrow>
    task_step t s (set_phase t (Recheck k) (s\<lparr>cs_lock := (cs_lock s)(k \<mapsto> t)\<rparr>))"
| recheck_miss: "cs_phase s t = Recheck k \<Longrightarrow> cs_cache s k = None \<Longrightarrow>
    task_step t s (set_phase t (Connecting k) s)"
| recheck_hit: "cs_phase s t = Recheck k \<Longrightarrow> cs_cache s k = Some c \<Longrightarrow>
    task_step t s (set_phase t (Cloned k c True) s)"
| connect_ok: "cs_phase s t = Connecting k \<Longrightarrow>
    task_step t s (set_phase t (Inserting k (cs_next s)) (s\<lparr>cs_next := Suc (cs_next s)\<rparr>))"
| connect_err: "cs_phase s t = Connecting k \<Longrightarrow>
    task_step t s (release k (set_phase t ConnectFailed s))"
| insert_cache: "cs_phase s t = Inserting k c \<Longrightarrow>
    task_step t s (release k (set_phase t (Connected c)
      (s\<lparr>cs_cache := (cs_cache s)(k \<mapsto> c)\<rparr>)))"

text \<open>
  The environment: connections close, peers dial in (the accept handler caches the
  connection), a handler whose connection closed ends and removes the key, and a finished
  task starts a new call.
\<close>

inductive env_step :: "conn_state \<Rightarrow> conn_state \<Rightarrow> bool" where
  close: "env_step s (s\<lparr>cs_closed := insert c (cs_closed s)\<rparr>)"
| accept: "env_step s (s\<lparr>cs_cache := (cs_cache s)(k \<mapsto> cs_next s), cs_next := Suc (cs_next s),
    cs_handlers := insert (cs_next s, k) (cs_handlers s)\<rparr>)"
| accept_end: "(c, k) \<in> cs_handlers s \<Longrightarrow> c \<in> cs_closed s \<Longrightarrow>
    env_step s (s\<lparr>cs_cache := (cs_cache s)(k := None), cs_handlers := cs_handlers s - {(c, k)}\<rparr>)"
| call: "cs_phase s t = Connected c \<or> cs_phase s t = ConnectFailed \<Longrightarrow>
    env_step s (set_phase t (Start k) s)"

inductive reachable :: "conn_state \<Rightarrow> bool" where
  init: "reachable \<lparr>cs_cache = Map.empty, cs_closed = {}, cs_lock = Map.empty,
    cs_phase = (\<lambda>_. ConnectFailed), cs_next = 0, cs_handlers = {}\<rparr>"
| task: "reachable s \<Longrightarrow> task_step t s s' \<Longrightarrow> reachable s'"
| env: "reachable s \<Longrightarrow> env_step s s' \<Longrightarrow> reachable s'"

inductive_cases task_stepE: "task_step t s s'"
inductive_cases env_stepE: "env_step s s'"

section \<open>The invariant\<close>

text \<open>The key whose lock a task holds at a point.\<close>

fun critical :: "phase \<Rightarrow> cache_key option" where
  "critical (Cloned k c True) = Some k"
| "critical (Evicting k True) = Some k"
| "critical (Recheck k) = Some k"
| "critical (Connecting k) = Some k"
| "critical (Inserting k c) = Some k"
| "critical _ = None"

definition lock_inv :: "conn_state \<Rightarrow> bool" where
  "lock_inv s \<longleftrightarrow> (\<forall>t k. critical (cs_phase s t) = Some k \<longleftrightarrow> cs_lock s k = Some t)"

lemma lock_invD:
  "lock_inv s \<Longrightarrow> (critical (cs_phase s t) = Some k) = (cs_lock s k = Some t)"
  unfolding lock_inv_def by blast

lemma lock_inv_set_phase:
  assumes "lock_inv s" and "critical p = critical (cs_phase s t)"
  shows "lock_inv (set_phase t p s)"
  using assms by (simp add: lock_inv_def set_phase_def)

lemma lock_inv_release:
  assumes "lock_inv s" and "critical (cs_phase s t) = Some k" and "critical p = None"
  shows "lock_inv (release k (set_phase t p s))"
proof -
  have l: "cs_lock s k = Some t" using lock_invD [OF assms(1)] assms(2) by blast
  show ?thesis unfolding lock_inv_def
  proof (intro allI)
    fix u j
    have "critical (cs_phase s u) = Some j \<longleftrightarrow> cs_lock s j = Some u" for u j
      by (rule lock_invD [OF assms(1)])
    moreover have "cs_lock s j = Some t \<longleftrightarrow> j = k"
      using lock_invD [OF assms(1)] assms(2) by (metis option.inject)
    ultimately show "critical (cs_phase (release k (set_phase t p s)) u) = Some j \<longleftrightarrow>
        cs_lock (release k (set_phase t p s)) j = Some u"
      using l assms(3) by (auto simp: release_def set_phase_def)
  qed
qed

lemma lock_inv_cong:
  "cs_phase s' = cs_phase s \<Longrightarrow> cs_lock s' = cs_lock s \<Longrightarrow> lock_inv s' = lock_inv s"
  by (simp add: lock_inv_def)

lemma evict_closed_frame [simp]:
  "cs_phase (evict_closed k s) = cs_phase s" "cs_lock (evict_closed k s) = cs_lock s"
  "cs_closed (evict_closed k s) = cs_closed s"
  by (simp_all add: evict_closed_def split: option.split)

lemma lock_inv_task:
  assumes "lock_inv s" and "task_step t s s'"
  shows "lock_inv s'"
  using assms(2)
proof cases
  case (acquire k)
  have "critical (cs_phase s t) = None" using acquire by simp
  then have "cs_lock s j \<noteq> Some t" for j using lock_invD [OF assms(1)] by (metis option.distinct(1))
  then show ?thesis
    using assms(1) acquire by (auto simp: lock_inv_def set_phase_def)
next
  case (evict_fast k)
  have "lock_inv (evict_closed k s)" using assms(1) by (simp add: lock_inv_def)
  then show ?thesis using evict_fast by (auto intro!: lock_inv_set_phase)
next
  case (evict_locked k)
  have "lock_inv (evict_closed k s)" using assms(1) by (simp add: lock_inv_def)
  then show ?thesis using evict_locked by (auto intro!: lock_inv_set_phase)
next
  case (connect_ok k)
  have "lock_inv (s\<lparr>cs_next := Suc (cs_next s)\<rparr>)" using assms(1) by (simp add: lock_inv_def)
  then show ?thesis using connect_ok by (auto intro!: lock_inv_set_phase)
next
  case (insert_cache k c)
  have "lock_inv (s\<lparr>cs_cache := (cs_cache s)(k \<mapsto> c)\<rparr>)" using assms(1) by (simp add: lock_inv_def)
  then show ?thesis using insert_cache by (auto intro!: lock_inv_release)
next
  case (stale k c b)
  then show ?thesis using assms(1) by (cases b) (auto intro!: lock_inv_set_phase)
qed (use assms(1) in \<open>auto intro!: lock_inv_set_phase lock_inv_release\<close>)

lemma lock_inv_env:
  assumes "lock_inv s" and "env_step s s'"
  shows "lock_inv s'"
  using assms(2)
proof cases
  case (call t c k)
  then have "critical (cs_phase s t) = None" by auto
  then show ?thesis using assms(1) call by (auto intro!: lock_inv_set_phase)
qed (use assms(1) in \<open>simp_all add: lock_inv_def\<close>)

lemma reachable_lock_inv: "reachable s \<Longrightarrow> lock_inv s"
  by (induction rule: reachable.induct)
    (simp add: lock_inv_def, auto intro: lock_inv_task lock_inv_env)

section \<open>Properties\<close>

text \<open>C24: However the tasks interleave, at most one of them at a time is connecting to a given
  peer and protocol: two tasks past the lock are there for different keys.\<close>

theorem connect_mutual_exclusion:
  assumes "reachable s" and "critical (cs_phase s t) = Some k" and "critical (cs_phase s u) = Some k"
  shows "t = u"
  using lock_invD [OF reachable_lock_inv [OF assms(1)]] assms(2,3) by (metis option.inject)

text \<open>A task past the lock can always take a step of its own.\<close>

lemma critical_steps:
  assumes "critical (cs_phase s t) = Some k"
  shows "\<exists>s'. task_step t s s'"
proof (cases "cs_phase s t")
  case (Cloned j c b)
  then have "b" using assms by (cases b) simp_all
  then show ?thesis using Cloned by (cases "c \<in> cs_closed s") (auto intro: task_step.intros)
next
  case (Evicting j b)
  then have "b" using assms by (cases b) simp_all
  then show ?thesis using Evicting by (auto intro: task_step.intros)
next
  case (Recheck j)
  then show ?thesis by (cases "cs_cache s j") (auto intro: task_step.intros)
qed (use assms in \<open>auto intro: task_step.intros\<close>)

text \<open>A task that waits is held up by its own key only: either it can take the lock, or the
  one task that holds the lock of the very same key can take a step. Connection attempts to
  other peers or protocols never block it, and there is no deadlock.\<close>

theorem waiting_blocked_by_same_key:
  assumes "reachable s" and "cs_phase s t = Waiting k"
  shows "(\<exists>s'. task_step t s s')
    \<or> (\<exists>u s'. u \<noteq> t \<and> critical (cs_phase s u) = Some k \<and> task_step u s s')"
proof (cases "cs_lock s k")
  case None
  then show ?thesis using assms(2) by (auto intro: task_step.acquire)
next
  case (Some u)
  then have c: "critical (cs_phase s u) = Some k"
    using lock_invD [OF reachable_lock_inv [OF assms(1)], of u k] by blast
  then have "u \<noteq> t" using assms(2) by auto
  then show ?thesis using critical_steps [OF c] c by metis
qed

text \<open>No step of a connecting task loses a live connection: an entry whose connection is open
  stays, unless the task overwrites it with the fresh connection it has just made.\<close>

theorem task_keeps_live_entries:
  assumes "task_step t s s'" and "cs_cache s k = Some c" and "c \<notin> cs_closed s"
  shows "cs_cache s' k = Some c \<or> (\<exists>c'. cs_phase s t = Inserting k c' \<and> cs_cache s' k = Some c')"
  using assms(1)
  by cases (use assms(2,3) in \<open>auto simp: set_phase_def release_def evict_closed_def split: option.splits\<close>)

text \<open>The end of an accept loop does lose live connections: there is a reachable state in which
  it removes an entry whose connection is open, because it removes the key without looking at
  what is stored under it.\<close>

theorem accept_end_drops_live_entry:
  "\<exists>s s' k c. reachable s \<and> env_step s s' \<and> cs_cache s k = Some c \<and> c \<notin> cs_closed s
     \<and> cs_cache s' k = None"
proof -
  let ?k = "(''peer'', ''/ma/inbox/0.0.1'')"
  define s0 where "s0 = \<lparr>cs_cache = Map.empty, cs_closed = {}, cs_lock = Map.empty,
    cs_phase = (\<lambda>_. ConnectFailed), cs_next = 0, cs_handlers = {}\<rparr>"
  define s1 where "s1 = s0\<lparr>cs_cache := (cs_cache s0)(?k \<mapsto> cs_next s0), cs_next := Suc (cs_next s0),
    cs_handlers := insert (cs_next s0, ?k) (cs_handlers s0)\<rparr>"
  define s2 where "s2 = s1\<lparr>cs_closed := insert 0 (cs_closed s1)\<rparr>"
  define s3 where "s3 = s2\<lparr>cs_cache := (cs_cache s2)(?k \<mapsto> cs_next s2), cs_next := Suc (cs_next s2),
    cs_handlers := insert (cs_next s2, ?k) (cs_handlers s2)\<rparr>"
  define s4 where "s4 = s3\<lparr>cs_cache := (cs_cache s3)(?k := None), cs_handlers := cs_handlers s3 - {(0, ?k)}\<rparr>"
  note defs = s0_def s1_def s2_def s3_def s4_def
  have "reachable s0" unfolding s0_def by (rule init)
  then have "reachable s1" unfolding s1_def by (rule env) (rule env_step.accept)
  then have "reachable s2" unfolding s2_def by (rule env) (rule env_step.close)
  then have "reachable s3" unfolding s3_def by (rule env) (rule env_step.accept)
  moreover have "env_step s3 s4" unfolding s4_def by (rule env_step.accept_end) (simp_all add: defs)
  moreover have "cs_cache s3 ?k = Some 1 \<and> 1 \<notin> cs_closed s3 \<and> cs_cache s4 ?k = None"
    by (simp add: defs)
  ultimately show ?thesis by blast
qed

section \<open>Witnesses\<close>

definition idle_state :: conn_state where
  "idle_state = \<lparr>cs_cache = Map.empty, cs_closed = {}, cs_lock = Map.empty,
    cs_phase = (\<lambda>_. ConnectFailed), cs_next = 0, cs_handlers = {}\<rparr>"

lemma reachable_waiting:
  "reachable (set_phase 0 (Waiting k) (set_phase 0 (Start k) idle_state))"
proof -
  have "reachable idle_state" unfolding idle_state_def by (rule init)
  then have "reachable (set_phase 0 (Start k) idle_state)"
    by (rule env) (rule env_step.call, simp add: idle_state_def)
  then show ?thesis
    by (rule task) (rule task_step.fast_miss, simp_all add: set_phase_def idle_state_def)
qed

theorem connect_mutual_exclusion_witness:
  "\<exists>s. reachable s \<and> critical (cs_phase s 0) = Some (''p'', ''q'')
    \<and> (\<forall>u. critical (cs_phase s u) = Some (''p'', ''q'') \<longrightarrow> u = 0)"
proof -
  let ?k = "(''p'', ''q'')"
  let ?s = "set_phase 0 (Waiting ?k) (set_phase 0 (Start ?k) idle_state)"
  let ?s' = "set_phase 0 (Recheck ?k) (?s\<lparr>cs_lock := (cs_lock ?s)(?k \<mapsto> 0)\<rparr>)"
  have r: "reachable ?s'"
    by (rule task [OF reachable_waiting], rule task_step.acquire)
      (simp_all add: set_phase_def idle_state_def)
  have c: "critical (cs_phase ?s' 0) = Some ?k" by (simp add: set_phase_def)
  have "u = 0" if "critical (cs_phase ?s' u) = Some ?k" for u
    by (rule connect_mutual_exclusion [OF r that c])
  then show ?thesis using r c by blast
qed

theorem waiting_blocked_by_same_key_witness:
  "(\<exists>s'. task_step 0 (set_phase 0 (Waiting (''p'', ''q'')) (set_phase 0 (Start (''p'', ''q'')) idle_state)) s')
    \<or> (\<exists>u s'. u \<noteq> 0 \<and> critical (cs_phase (set_phase 0 (Waiting (''p'', ''q''))
         (set_phase 0 (Start (''p'', ''q'')) idle_state)) u) = Some (''p'', ''q'')
       \<and> task_step u (set_phase 0 (Waiting (''p'', ''q'')) (set_phase 0 (Start (''p'', ''q'')) idle_state)) s')"
  by (rule waiting_blocked_by_same_key [OF reachable_waiting]) (simp add: set_phase_def)

theorem task_keeps_live_entries_witness:
  "\<exists>s s'. task_step 0 s s' \<and> cs_cache s (''p'', ''q'') = Some 7
    \<and> (cs_cache s' (''p'', ''q'') = Some 7
       \<or> (\<exists>c'. cs_phase s 0 = Inserting (''p'', ''q'') c' \<and> cs_cache s' (''p'', ''q'') = Some c'))"
proof -
  define s where "s = idle_state\<lparr>cs_cache := [(''p'', ''q'') \<mapsto> 7],
    cs_phase := (\<lambda>_. Evicting (''p'', ''q'') False)\<rparr>"
  have "task_step 0 s (set_phase 0 (Waiting (''p'', ''q'')) (evict_closed (''p'', ''q'') s))"
    by (rule task_step.evict_fast) (simp add: s_def)
  moreover have "cs_cache s (''p'', ''q'') = Some 7" "7 \<notin> cs_closed s"
    by (simp_all add: s_def idle_state_def)
  ultimately show ?thesis using task_keeps_live_entries by blast
qed

end
