(* ===== verification/ConnLiveness.thy ===== *)
theory ConnLiveness
  imports ConnCache Progress
begin

text \<open>
  Liveness of \<open>get_or_connect\<close> (\<^verbatim>\<open>iroh/endpoint.rs\<close>): a call ends after a bounded number of its
  own steps, and every call ends in every run in which tasks keep being polled and the lock
  of a key is handed to those who wait for it.
\<close>

section \<open>The steps left to a task\<close>

fun steps_left :: "phase \<Rightarrow> nat" where
  "steps_left (Start k) = 9"
| "steps_left (Cloned k c False) = 8"
| "steps_left (Evicting k False) = 7"
| "steps_left (Waiting k) = 6"
| "steps_left (Recheck k) = 5"
| "steps_left (Cloned k c True) = 4"
| "steps_left (Evicting k True) = 3"
| "steps_left (Connecting k) = 2"
| "steps_left (Inserting k c) = 1"
| "steps_left (Connected c) = 0"
| "steps_left ConnectFailed = 0"

definition call_ended :: "phase \<Rightarrow> bool" where
  "call_ended p \<longleftrightarrow> steps_left p = 0"

lemma call_ended_cases: "call_ended p \<longleftrightarrow> (\<exists>c. p = Connected c) \<or> p = ConnectFailed"
  unfolding call_ended_def by (cases p rule: steps_left.cases) simp_all

lemma phase_release [simp]: "cs_phase (release k s) = cs_phase s"
  by (simp add: release_def)

lemma phase_set [simp]: "cs_phase (set_phase t p s) u = (if u = t then p else cs_phase s u)"
  by (simp add: set_phase_def)

lemma task_step_left:
  assumes "task_step t s s'"
  shows "steps_left (cs_phase s' t) < steps_left (cs_phase s t)"
  using assms
proof cases
  case (stale k c b)
  then show ?thesis by (cases b) simp_all
qed simp_all

lemma task_step_others: "task_step t s s' \<Longrightarrow> u \<noteq> t \<Longrightarrow> cs_phase s' u = cs_phase s u"
  by (elim task_stepE) simp_all

lemma env_step_others: "env_step s s' \<Longrightarrow> \<not> call_ended (cs_phase s u) \<Longrightarrow> cs_phase s' u = cs_phase s u"
  by (elim env_stepE) (auto simp: call_ended_def)

text \<open>
  A run of the whole system: each position takes a step of one task, a step of the
  environment, or none.
\<close>

definition conn_step :: "conn_state \<Rightarrow> conn_state \<Rightarrow> bool" where
  "conn_step s s' \<longleftrightarrow> (\<exists>t. task_step t s s') \<or> env_step s s'"

text \<open>A task that is inside a call is moved by its own steps only.\<close>

lemma phase_moves:
  assumes "conn_step s s'" and "\<not> call_ended (cs_phase s t)"
  shows "cs_phase s' t = cs_phase s t \<or> task_step t s s'"
  using assms task_step_others env_step_others unfolding conn_step_def by metis

lemma steps_left_nonincreasing:
  assumes "conn_step s s'" and "\<not> call_ended (cs_phase s t)"
  shows "steps_left (cs_phase s' t) \<le> steps_left (cs_phase s t)"
  using phase_moves [OF assms] task_step_left [of t s s'] by fastforce

lemma reachable_step: "reachable s \<Longrightarrow> conn_step s s' \<Longrightarrow> reachable s'"
  by (auto simp: conn_step_def intro: reachable.task reachable.env)

lemma run_reachable_conn:
  assumes "run_of conn_step \<sigma>" and "reachable (\<sigma> 0)"
  shows "reachable (\<sigma> i)"
  by (rule run_of_invariant [where i = 0 and I = reachable, OF assms]) (auto intro: reachable_step)

section \<open>Fairness\<close>

text \<open>
  Task \<open>t\<close> acts at a position of a run. A task that can act at infinitely many positions
  does act: the runtime polls it, the network answers every connection attempt, and
  \<open>tokio\<close>'s mutex, which is fair, does not pass a waiting task over for ever.
\<close>

definition acts_at :: "conn_state run \<Rightarrow> nat \<Rightarrow> nat \<Rightarrow> bool" where
  "acts_at \<sigma> t i \<longleftrightarrow> task_step t (\<sigma> i) (\<sigma> (Suc i))"

definition can_act :: "nat \<Rightarrow> conn_state \<Rightarrow> bool" where
  "can_act t s \<longleftrightarrow> (\<exists>s'. task_step t s s')"

definition fair_tasks :: "conn_state run \<Rightarrow> bool" where
  "fair_tasks \<sigma> \<longleftrightarrow> (\<forall>t i. (\<forall>j\<ge>i. \<exists>l\<ge>j. can_act t (\<sigma> l)) \<longrightarrow> (\<exists>j\<ge>i. acts_at \<sigma> t j))"

text \<open>The only thing a task ever waits for is the lock of its key.\<close>

lemma can_act_unless_waiting:
  assumes "\<not> call_ended (cs_phase s t)" and "\<not> can_act t s"
  shows "\<exists>k u. cs_phase s t = Waiting k \<and> cs_lock s k = Some u"
proof (cases "cs_phase s t" rule: steps_left.cases)
  case (1 k)
  then show ?thesis using assms(2) task_step.fast_miss [of s t k] task_step.fast_hit [of s t k]
    by (cases "cs_cache s k") (auto simp: can_act_def)
next
  case (2 k c)
  then show ?thesis using assms(2) task_step.use_fast [of s t k c] task_step.stale [of s t k c False]
    by (auto simp: can_act_def)
next
  case (3 k)
  then show ?thesis using assms(2) task_step.evict_fast [of s t k] by (auto simp: can_act_def)
next
  case (4 k)
  then show ?thesis using assms(2) task_step.acquire [of s t k]
    by (cases "cs_lock s k") (auto simp: can_act_def)
qed (use assms critical_steps [of s t] in \<open>auto simp: can_act_def call_ended_def\<close>)

section \<open>Every call ends\<close>

lemma run_steps_left:
  assumes "run_of conn_step \<sigma>" and "\<not> call_ended (cs_phase (\<sigma> j) t)"
  shows "steps_left (cs_phase (\<sigma> (Suc j)) t) \<le> steps_left (cs_phase (\<sigma> j) t)"
    and "acts_at \<sigma> t j \<Longrightarrow> steps_left (cs_phase (\<sigma> (Suc j)) t) < steps_left (cs_phase (\<sigma> j) t)"
    and "\<not> acts_at \<sigma> t j \<Longrightarrow> cs_phase (\<sigma> (Suc j)) t = cs_phase (\<sigma> j) t"
  using run_ofD [OF assms(1), of j] steps_left_nonincreasing [OF _ assms(2)] phase_moves [OF _ assms(2)]
    task_step_left [of t "\<sigma> j" "\<sigma> (Suc j)"]
  by (auto simp: acts_at_def)

lemma critical_not_ended: "critical p = Some k \<Longrightarrow> \<not> call_ended p"
  by (auto simp: call_ended_cases)

lemma lock_step:
  assumes "conn_step s s'" and "cs_lock s k = Some u"
  shows "cs_lock s' k = Some u \<or> cs_lock s' k = None"
  using assms unfolding conn_step_def
  by (elim disjE exE task_stepE env_stepE) (auto simp: set_phase_def release_def)

text \<open>The holder of a lock gives it back.\<close>

lemma lock_released:
  assumes "run_of conn_step \<sigma>" and "reachable (\<sigma> 0)" and "fair_tasks \<sigma>"
  shows "\<exists>j\<ge>i. cs_lock (\<sigma> j) k = None"
proof (cases "cs_lock (\<sigma> i) k")
  case (Some u)
  define G where "G j \<longleftrightarrow> cs_lock (\<sigma> j) k \<noteq> Some u" for j
  have crit: "critical (cs_phase (\<sigma> j) u) = Some k" if "\<not> G j" for j
    using that lock_invD [OF reachable_lock_inv [OF run_reachable_conn [OF assms(1,2)]]] by (simp add: G_def)
  have acts: "\<exists>l\<ge>j. G l \<or> acts_at \<sigma> u l" for j
  proof (rule ccontr)
    assume no: "\<nexists>l. j \<le> l \<and> (G l \<or> acts_at \<sigma> u l)"
    then have "can_act u (\<sigma> l)" if "j \<le> l" for l
      using critical_steps [OF crit] that unfolding can_act_def by blast
    then have "\<exists>l\<ge>j. acts_at \<sigma> u l" using assms(3) unfolding fair_tasks_def by blast
    then show False using no by blast
  qed
  have "\<exists>j\<ge>i. True \<and> G j"
    by (rule reaches_by_acting [where P = "\<lambda>_. True" and A = "acts_at \<sigma> u"
          and m = "\<lambda>j. steps_left (cs_phase (\<sigma> j) u)"])
      (use run_steps_left [OF assms(1) critical_not_ended [OF crit]] acts in auto)
  then obtain j where j: "i \<le> j" "G j" "\<And>l. i \<le> l \<Longrightarrow> l < j \<Longrightarrow> \<not> G l"
    using first_time [where G = G] by blast
  then have "i < j" using Some by (cases "i = j") (auto simp: G_def)
  then obtain l where l: "j = Suc l" "i \<le> l" by (cases j) auto
  then have "cs_lock (\<sigma> l) k = Some u" using j(3) [of l] by (simp add: G_def)
  then have "cs_lock (\<sigma> j) k = None"
    using run_ofD [OF assms(1), of l] lock_step [of "\<sigma> l" "\<sigma> j" k u] j(2) l(1) by (auto simp: G_def)
  then show ?thesis using j(1) by blast
qed blast

text \<open>C25: Every connection attempt ends: in every run of any number of tasks, with connections
  being accepted and closed at any time, a call of \<open>get_or_connect\<close> that has started
  comes back with a connection or an error, provided tasks that can act infinitely often do.
  No call waits for ever on the lock of its key, because whoever holds it has at most five
  steps left before giving it back.\<close>

theorem every_call_ends:
  assumes "run_of conn_step \<sigma>" and "reachable (\<sigma> 0)" and "fair_tasks \<sigma>"
  shows "\<exists>j\<ge>i. call_ended (cs_phase (\<sigma> j) t)"
proof -
  define G where "G j \<longleftrightarrow> call_ended (cs_phase (\<sigma> j) t)" for j
  have acts: "\<exists>l\<ge>j. G l \<or> acts_at \<sigma> t l" for j
  proof (rule ccontr)
    assume no: "\<nexists>l. j \<le> l \<and> (G l \<or> acts_at \<sigma> t l)"
    then have "\<not> (\<forall>x\<ge>j. \<exists>l\<ge>x. can_act t (\<sigma> l))" using assms(3) unfolding fair_tasks_def by blast
    then obtain x where x: "j \<le> x" "\<And>l. x \<le> l \<Longrightarrow> \<not> can_act t (\<sigma> l)" by blast
    have same: "cs_phase (\<sigma> l) t = cs_phase (\<sigma> x) t" if "x \<le> l" for l
      using that
    proof (induction rule: dec_induct)
      case (step l)
      then show ?case using run_steps_left(3) [OF assms(1), of l t] no x(1) by (simp add: G_def)
    qed simp
    have wait: "\<exists>k u. cs_phase (\<sigma> l) t = Waiting k \<and> cs_lock (\<sigma> l) k = Some u" if "x \<le> l" for l
      by (rule can_act_unless_waiting) (use no x that in \<open>auto simp: G_def\<close>)
    obtain k where k: "cs_phase (\<sigma> x) t = Waiting k" using wait by blast
    obtain l where "x \<le> l" "cs_lock (\<sigma> l) k = None" using lock_released [OF assms] by blast
    then show False using wait [of l] same [of l] k by auto
  qed
  have "\<exists>j\<ge>i. True \<and> G j"
    by (rule reaches_by_acting [where P = "\<lambda>_. True" and A = "acts_at \<sigma> t"
          and m = "\<lambda>j. steps_left (cs_phase (\<sigma> j) t)"])
      (use run_steps_left [OF assms(1)] acts in \<open>auto simp: G_def\<close>)
  then show ?thesis by (simp add: G_def)
qed

text \<open>The bound: a call is over after nine steps of its own, five of them under the lock.\<close>

lemma call_is_short: "steps_left p \<le> 9" and lock_is_short: "critical p = Some k \<Longrightarrow> steps_left p \<le> 5"
  by (cases p rule: steps_left.cases; simp)+

section \<open>Witness\<close>

text \<open>One task makes a call, finds nothing cached, takes the lock, connects and caches.\<close>

definition demo_key :: cache_key where "demo_key = (''p'', ''q'')"

definition demo_task :: "nat \<Rightarrow> phase" where
  "demo_task i = (if i = 0 then ConnectFailed else if i = 1 then Start demo_key
     else if i = 2 then Waiting demo_key else if i = 3 then Recheck demo_key
     else if i = 4 then Connecting demo_key else if i = 5 then Inserting demo_key 0 else Connected 0)"

definition demo_conn_run :: "conn_state run" where
  "demo_conn_run i =
     \<lparr>cs_cache = (if i \<le> 5 then Map.empty else [demo_key \<mapsto> 0]), cs_closed = {},
      cs_lock = (if i \<in> {3, 4, 5} then [demo_key \<mapsto> 0] else Map.empty),
      cs_phase = (\<lambda>t. if t = 0 then demo_task i else ConnectFailed),
      cs_next = (if i \<le> 4 then 0 else 1), cs_handlers = {}\<rparr>"

lemma demo_conn_steps:
  shows "env_step (demo_conn_run 0) (demo_conn_run 1)"
    and "task_step 0 (demo_conn_run 1) (demo_conn_run 2)"
    and "task_step 0 (demo_conn_run 2) (demo_conn_run 3)"
    and "task_step 0 (demo_conn_run 3) (demo_conn_run 4)"
    and "task_step 0 (demo_conn_run 4) (demo_conn_run 5)"
    and "task_step 0 (demo_conn_run 5) (demo_conn_run 6)"
proof -
  note d = demo_conn_run_def demo_task_def set_phase_def release_def
  have "env_step (demo_conn_run 0) (set_phase 0 (Start demo_key) (demo_conn_run 0))"
    by (rule env_step.call) (simp add: d)
  moreover have "set_phase 0 (Start demo_key) (demo_conn_run 0) = demo_conn_run 1"
    by (auto simp: d)
  ultimately show "env_step (demo_conn_run 0) (demo_conn_run 1)" by simp
  have "task_step 0 (demo_conn_run 1) (set_phase 0 (Waiting demo_key) (demo_conn_run 1))"
    by (rule task_step.fast_miss) (simp_all add: d)
  moreover have "set_phase 0 (Waiting demo_key) (demo_conn_run 1) = demo_conn_run 2"
    by (auto simp: d)
  ultimately show "task_step 0 (demo_conn_run 1) (demo_conn_run 2)" by simp
  have "task_step 0 (demo_conn_run 2) (set_phase 0 (Recheck demo_key)
      (demo_conn_run 2\<lparr>cs_lock := (cs_lock (demo_conn_run 2))(demo_key \<mapsto> 0)\<rparr>))"
    by (rule task_step.acquire) (simp_all add: d)
  moreover have "set_phase 0 (Recheck demo_key)
      (demo_conn_run 2\<lparr>cs_lock := (cs_lock (demo_conn_run 2))(demo_key \<mapsto> 0)\<rparr>) = demo_conn_run 3"
    by (auto simp: d)
  ultimately show "task_step 0 (demo_conn_run 2) (demo_conn_run 3)" by simp
  have "task_step 0 (demo_conn_run 3) (set_phase 0 (Connecting demo_key) (demo_conn_run 3))"
    by (rule task_step.recheck_miss) (simp_all add: d)
  moreover have "set_phase 0 (Connecting demo_key) (demo_conn_run 3) = demo_conn_run 4"
    by (auto simp: d)
  ultimately show "task_step 0 (demo_conn_run 3) (demo_conn_run 4)" by simp
  have "task_step 0 (demo_conn_run 4) (set_phase 0 (Inserting demo_key (cs_next (demo_conn_run 4)))
      (demo_conn_run 4\<lparr>cs_next := Suc (cs_next (demo_conn_run 4))\<rparr>))"
    by (rule task_step.connect_ok) (simp add: d)
  moreover have "set_phase 0 (Inserting demo_key (cs_next (demo_conn_run 4)))
      (demo_conn_run 4\<lparr>cs_next := Suc (cs_next (demo_conn_run 4))\<rparr>) = demo_conn_run 5"
    by (auto simp: d)
  ultimately show "task_step 0 (demo_conn_run 4) (demo_conn_run 5)" by simp
  have "task_step 0 (demo_conn_run 5) (release demo_key (set_phase 0 (Connected 0)
      (demo_conn_run 5\<lparr>cs_cache := (cs_cache (demo_conn_run 5))(demo_key \<mapsto> 0)\<rparr>)))"
    by (rule task_step.insert_cache) (simp add: d)
  moreover have "release demo_key (set_phase 0 (Connected 0)
      (demo_conn_run 5\<lparr>cs_cache := (cs_cache (demo_conn_run 5))(demo_key \<mapsto> 0)\<rparr>)) = demo_conn_run 6"
    by (auto simp: d)
  ultimately show "task_step 0 (demo_conn_run 5) (demo_conn_run 6)" by simp
qed

lemma demo_conn_is_run: "run_of conn_step demo_conn_run"
  unfolding run_of_def
proof
  fix i :: nat
  have "i = 0 \<or> i = 1 \<or> i = 2 \<or> i = 3 \<or> i = 4 \<or> i = 5 \<or> 6 \<le> i" by arith
  moreover have "demo_conn_run (Suc i) = demo_conn_run i" if "6 \<le> i"
  proof -
    have "demo_task (Suc i) = demo_task i" using that by (simp add: demo_task_def)
    then show ?thesis using that by (simp add: demo_conn_run_def cong: if_cong)
  qed
  ultimately show "demo_conn_run (Suc i) = demo_conn_run i \<or> conn_step (demo_conn_run i) (demo_conn_run (Suc i))"
    using demo_conn_steps by (auto simp: conn_step_def numeral_eq_Suc)
qed

lemma ended_cannot_act: "call_ended (cs_phase s t) \<Longrightarrow> \<not> can_act t s"
  using task_step_left by (fastforce simp: can_act_def call_ended_def)

lemma demo_conn_fair: "fair_tasks demo_conn_run"
proof -
  have "\<not> can_act t (demo_conn_run l)" if "6 \<le> l" for t l
    by (rule ended_cannot_act) (use that in \<open>simp add: demo_conn_run_def demo_task_def call_ended_def\<close>)
  moreover have "\<exists>j\<ge>i. 6 \<le> j" for i :: nat by (rule exI [of _ "i + 6"]) simp
  ultimately show ?thesis unfolding fair_tasks_def by (meson order_trans)
qed

lemma demo_conn_reachable: "reachable (demo_conn_run 0)"
proof -
  have "demo_conn_run 0 = \<lparr>cs_cache = Map.empty, cs_closed = {}, cs_lock = Map.empty,
      cs_phase = (\<lambda>_. ConnectFailed), cs_next = 0, cs_handlers = {}\<rparr>"
    by (auto simp: demo_conn_run_def demo_task_def)
  then show ?thesis using reachable.init by simp
qed

theorem every_call_ends_witness:
  "cs_phase (demo_conn_run 1) 0 = Start demo_key
    \<and> (\<exists>j\<ge>1. call_ended (cs_phase (demo_conn_run j) 0))"
  using every_call_ends [OF demo_conn_is_run demo_conn_reachable demo_conn_fair, of 1 0]
  by (simp add: demo_conn_run_def demo_task_def)

end
