(* ===== verification/Acl.thy ===== *)
theory Acl
  imports Transport Errors "HOL-Library.FSet" "HOL-Library.Char_ord" "HOL-Library.List_Lexorder"
begin

text \<open>
  Capability-based access control of \<^verbatim>\<open>acl/mod.rs\<close>. A \<open>BTreeSet<String>\<close> is a finite set
  with the bytewise string order, and the \<open>HashMap\<close> of an ACL is an association list with
  one entry per key (its order stands for the hash map's unspecified one).
\<close>

section \<open>Entries\<close>

datatype capability_entry = Deny | Allow "string fset"

definition from_caps :: "string list \<Rightarrow> capability_entry" where
  "from_caps caps = Allow (fset_of_list caps)"

fun entry_has :: "capability_entry \<Rightarrow> string \<Rightarrow> bool" where
  "entry_has Deny cap = False"
| "entry_has (Allow caps) cap = (cap |\<in>| caps \<or> ''*'' |\<in>| caps)"

definition is_deny :: "capability_entry \<Rightarrow> bool" where
  "is_deny e \<longleftrightarrow> (case e of Deny \<Rightarrow> True | Allow _ \<Rightarrow> False)"

text \<open>
  The hand-written \<open>Serialize\<close> and \<open>Deserialize\<close>, on the self-describing value model: the
  untagged \<open>Raw\<close> matches a string or a sequence of strings, and its failure is \<open>raw_err\<close>.
\<close>

definition serialize_entry :: "capability_entry \<Rightarrow> json" where
  "serialize_entry e =
     (case e of Deny \<Rightarrow> JNull | Allow caps \<Rightarrow> JArray (map JString (sorted_list_of_fset caps)))"

fun string_seq :: "json list \<Rightarrow> string list option" where
  "string_seq [] = Some []"
| "string_seq (JString s # xs) = map_option ((#) s) (string_seq xs)"
| "string_seq (_ # xs) = None"

definition raw_err :: string where
  "raw_err = ''data did not match any variant of untagged enum Raw''"

definition deserialize_entry :: "json \<Rightarrow> string + capability_entry" where
  "deserialize_entry v =
     (case v of
        JNull \<Rightarrow> Inr Deny
      | JString _ \<Rightarrow>
          Inl ''invalid ACL entry: use a YAML sequence for Allow or null for Deny''
      | JArray xs \<Rightarrow>
          (case string_seq xs of
             None \<Rightarrow> Inl raw_err
           | Some l \<Rightarrow> if l = [] then Inr Deny else Inr (Allow (fset_of_list l)))
      | _ \<Rightarrow> Inl raw_err)"

section \<open>The access check\<close>

type_synonym acl_map = "(string \<times> capability_entry) list"

definition normalize_principal :: "string \<Rightarrow> string" where
  "normalize_principal did =
     (if starts_with did ''did:''
      then case find_char (CHR ''#'') did of Some pos \<Rightarrow> take pos did | None \<Rightarrow> did
      else did)"

definition apply_entry :: "capability_entry \<Rightarrow> string \<Rightarrow> string \<Rightarrow> unit result" where
  "apply_entry entry cap caller =
     (case entry of
        Deny \<Rightarrow> Inl (AclError (''operation denied for '' @ caller))
      | Allow caps \<Rightarrow>
          if cap |\<in>| caps \<or> ''*'' |\<in>| caps then Inr ()
          else Inl (AclError (''capability '' @ quote @ cap @ quote @ '' denied for '' @ caller)))"

definition check_cap :: "acl_map \<Rightarrow> string \<Rightarrow> string \<Rightarrow> unit result" where
  "check_cap acl caller cap =
     (let normalized = normalize_principal caller
      in case map_of acl normalized of
           Some direct \<Rightarrow> apply_entry direct cap caller
         | None \<Rightarrow>
             (case (if starts_with normalized ''#'' then map_of acl ''#'' else None) of
                Some local_wild \<Rightarrow> apply_entry local_wild cap caller
              | None \<Rightarrow>
                  (case map_of acl ''*'' of
                     None \<Rightarrow> Inl (AclError (''no ACL entry for '' @ caller))
                   | Some entry \<Rightarrow> apply_entry entry cap caller)))"

section \<open>Keys\<close>

definition is_valid_acl_key :: "string \<Rightarrow> bool" where
  "is_valid_acl_key key \<longleftrightarrow> key \<noteq> []"

definition is_valid_group_key :: "string \<Rightarrow> bool" where
  "is_valid_group_key key =
     (case strip_prefix key ''+'' of
        None \<Rightarrow> False
      | Some rest \<Rightarrow>
          (case find_char (CHR ''.'') rest of
             None \<Rightarrow> False
           | Some dot \<Rightarrow> take dot rest \<noteq> [] \<and> drop (dot + 1) rest \<noteq> []))"

definition is_principal_key :: "string \<Rightarrow> bool" where
  "is_principal_key key \<longleftrightarrow>
     key = ''*'' \<or> (starts_with key ''did:'' \<and> CHR ''#'' \<notin> set key) \<or> starts_with key ''#''
     \<or> is_valid_group_key key"

text \<open>The only key the check refuses is the empty one, whose \<open>{:?}\<close> is two double quotes.\<close>

definition validate_acl_map :: "acl_map \<Rightarrow> unit result" where
  "validate_acl_map acl =
     forR (\<lambda>key. ensure (is_valid_acl_key key)
        (AclError (''invalid ACL key '' @ [CHR 0x22] @ key @ [CHR 0x22] @ '': key must be non-empty'')))
       (map fst acl)"

section \<open>Lemmas\<close>

lemma apply_entry_ok: "is_ok (apply_entry e cap caller) \<longleftrightarrow> entry_has e cap"
  by (cases e) (simp_all add: apply_entry_def)

lemma normalize_principal_idem [simp]:
  "normalize_principal (normalize_principal d) = normalize_principal d"
proof (cases "find_char (CHR ''#'') d")
  case (Some n)
  then have "CHR ''#'' \<notin> set (take n d)" using find_char_SomeD by blast
  then have "find_char (CHR ''#'') (take n d) = None" by simp
  then show ?thesis using Some by (simp add: normalize_principal_def)
qed (simp add: normalize_principal_def)

lemma normalize_principal_fragment:
  assumes "starts_with d ''did:''" and "CHR ''#'' \<notin> set d"
  shows "normalize_principal (d @ ''#'' @ f) = d"
proof -
  have "starts_with (d @ ''#'' @ f) ''did:''"
    using assms(1) by (auto simp: starts_with_def prefix_def)
  then show ?thesis by (simp add: normalize_principal_def find_char_append [OF assms(2)])
qed

text \<open>
  The contract of the check, from the three entries that concern a caller: that of its own
  principal (a DID without its fragment, or the caller as given), for a local caller that of
  the local wildcard, and that of the global wildcard.
\<close>

definition own_entry :: "acl_map \<Rightarrow> string \<Rightarrow> capability_entry option" where
  "own_entry acl caller =
     map_of acl (if prefix ''did:'' caller then takeWhile (\<lambda>c. c \<noteq> CHR ''#'') caller else caller)"

definition local_entry :: "acl_map \<Rightarrow> string \<Rightarrow> capability_entry option" where
  "local_entry acl caller = (if prefix ''#'' caller then map_of acl ''#'' else None)"

definition allows :: "capability_entry option \<Rightarrow> string \<Rightarrow> bool" where
  "allows entry cap = (\<exists>caps. entry = Some (Allow caps) \<and> (cap |\<in>| caps \<or> ''*'' |\<in>| caps))"

lemma find_char_take: "find_char c s = Some n \<Longrightarrow> take n s = takeWhile (\<lambda>d. d \<noteq> c) s"
  by (induction s arbitrary: n) (auto split: if_splits)

lemma find_char_none: "find_char c s = None \<Longrightarrow> takeWhile (\<lambda>d. d \<noteq> c) s = s"
  by (induction s) (auto split: if_splits)

lemma normalize_principal_spec:
  "normalize_principal caller =
     (if prefix ''did:'' caller then takeWhile (\<lambda>c. c \<noteq> CHR ''#'') caller else caller)"
  by (auto simp: normalize_principal_def starts_with_def find_char_take find_char_none split: option.split)

lemma normalize_principal_local: "starts_with (normalize_principal caller) ''#'' \<longleftrightarrow> prefix ''#'' caller"
  by (cases caller) (auto simp: normalize_principal_spec starts_with_def)

lemma check_cap_entries:
  "check_cap acl caller cap =
     (case own_entry acl caller of Some e \<Rightarrow> apply_entry e cap caller
      | None \<Rightarrow> (case local_entry acl caller of Some e \<Rightarrow> apply_entry e cap caller
      | None \<Rightarrow> (case map_of acl ''*'' of Some e \<Rightarrow> apply_entry e cap caller
      | None \<Rightarrow> Inl (AclError (''no ACL entry for '' @ caller)))))"
  unfolding check_cap_def normalize_principal_local own_entry_def local_entry_def
    normalize_principal_spec [symmetric] Let_def
  by (simp split: option.split)

lemma apply_entry_allows: "apply_entry e cap caller = Inr () \<longleftrightarrow> allows (Some e) cap"
  by (cases e) (simp_all add: apply_entry_def allows_def)

text \<open>C23: Access is granted only by an allow. A caller gets a capability only if the most
  specific entry that concerns it (its own principal's, else the local wildcard's for a
  local caller, else the global wildcard's) lists the capability or all of them. A deny on
  the caller's own principal refuses everything, whatever the wildcards allow; a wildcard
  deny refuses every caller without an allow of a more specific entry; a caller whom no entry
  concerns is refused. Where no entry that concerns the caller is a deny, the most specific
  allow is enough. (The module's comment goes further and says that a deny always wins; a
  caller with an allow of its own under a wildcard deny is granted it, as the comment on
  \<open>LOCAL_ENTITY_WILDCARD\<close> has it: see \<open>check_cap_direct_final\<close>.)\<close>

theorem check_cap_safe:
  "(check_cap acl caller cap = Inr () \<longrightarrow>
      allows (own_entry acl caller) cap
      \<or> own_entry acl caller = None \<and> allows (local_entry acl caller) cap
      \<or> own_entry acl caller = None \<and> local_entry acl caller = None \<and> allows (map_of acl ''*'') cap)
   \<and> (own_entry acl caller = Some Deny \<longrightarrow>
      check_cap acl caller cap = Inl (AclError (''operation denied for '' @ caller)))
   \<and> (map_of acl ''*'' = Some Deny \<and> check_cap acl caller cap = Inr () \<longrightarrow>
      allows (own_entry acl caller) cap \<or> allows (local_entry acl caller) cap)
   \<and> (own_entry acl caller = None \<and> local_entry acl caller = None \<and> map_of acl ''*'' = None \<longrightarrow>
      check_cap acl caller cap = Inl (AclError (''no ACL entry for '' @ caller)))
   \<and> (Some Deny \<notin> {own_entry acl caller, local_entry acl caller, map_of acl ''*''} \<longrightarrow>
      check_cap acl caller cap = Inr () \<longleftrightarrow>
        allows (own_entry acl caller) cap
        \<or> own_entry acl caller = None \<and> allows (local_entry acl caller) cap
        \<or> own_entry acl caller = None \<and> local_entry acl caller = None \<and> allows (map_of acl ''*'') cap)"
proof -
  have none: "\<not> allows None cap" "\<not> allows (Some Deny) cap" by (simp_all add: allows_def)
  show ?thesis
    unfolding check_cap_entries
    by (auto simp: apply_entry_allows none split: option.split) (auto simp: apply_entry_def)
qed

theorem check_cap_safe_witness:
  "check_cap [(''*'', Allow {|''inbox''|}), (''did:ma:eve'', Deny)] ''did:ma:eve#lobby'' ''inbox'' =
      Inl (AclError (''operation denied for '' @ ''did:ma:eve#lobby''))
    \<and> check_cap [(''*'', Allow {|''inbox''|}), (''did:ma:eve'', Deny)] ''did:ma:bob'' ''inbox'' \<noteq> Inr () = False
    \<and> check_cap [(''*'', Deny), (''#'', Allow {|''call''|})] ''did:ma:bob'' ''inbox'' \<noteq> Inr ()"
proof -
  let ?a = "[(''*'', Allow {|''inbox''|}), (''did:ma:eve'', Deny)]"
  have "own_entry ?a ''did:ma:eve#lobby'' = Some Deny"
    and "own_entry ?a ''did:ma:bob'' = None" "local_entry ?a ''did:ma:bob'' = None" 
      "map_of ?a ''*'' = Some (Allow {|''inbox''|})" "allows (Some (Allow {|''inbox''|})) ''inbox''"
    and "\<not> allows (own_entry [(''*'', Deny), (''#'', Allow {|''call''|})] ''did:ma:bob'') ''inbox''"
      "\<not> allows (local_entry [(''*'', Deny), (''#'', Allow {|''call''|})] ''did:ma:bob'') ''inbox''"
      "map_of [(''*'', Deny), (''#'', Allow {|''call''|})] ''*'' = Some Deny"
    by (simp_all add: own_entry_def local_entry_def allows_def)
  then show ?thesis
    using check_cap_safe [of ?a "''did:ma:eve#lobby''" "''inbox''"]
      check_cap_safe [of ?a "''did:ma:bob''" "''inbox''"]
      check_cap_safe [of "[(''*'', Deny), (''#'', Allow {|''call''|})]" "''did:ma:bob''" "''inbox''"]
    by auto
qed

text \<open>An entry of the caller's own principal is final: an explicit deny refuses every
  capability, whatever the wildcards allow, and an explicit allow grants its capabilities
  even under a wildcard deny.\<close>

theorem check_cap_direct_final:
  assumes "map_of acl (normalize_principal caller) = Some e"
  shows "check_cap acl caller cap =
    (case e of
       Deny \<Rightarrow> Inl (AclError (''operation denied for '' @ caller))
     | Allow caps \<Rightarrow>
         if cap |\<in>| caps \<or> ''*'' |\<in>| caps then Inr ()
         else Inl (AclError (''capability '' @ quote @ cap @ quote @ '' denied for '' @ caller)))"
  using assms by (simp add: check_cap_def apply_entry_def)

theorem check_cap_direct_final_witness:
  "check_cap [(''*'', Deny), (''did:ma:x'', Allow {|''inbox''|})] ''did:ma:x#lobby'' ''inbox'' =
    (case Allow {|''inbox''|} of
       Deny \<Rightarrow> Inl (AclError (''operation denied for '' @ ''did:ma:x#lobby''))
     | Allow caps \<Rightarrow>
         if ''inbox'' |\<in>| caps \<or> ''*'' |\<in>| caps then Inr ()
         else Inl (AclError (''capability '' @ quote @ ''inbox'' @ quote
            @ '' denied for '' @ ''did:ma:x#lobby'')))"
  by (rule check_cap_direct_final) (simp add: normalize_principal_def starts_with_def)

lemma check_cap_fragment:
  assumes "starts_with d ''did:''" and "CHR ''#'' \<notin> set d"
  shows "is_ok (check_cap acl (d @ ''#'' @ f) cap) = is_ok (check_cap acl d cap)"
proof -
  have n: "normalize_principal d = d" using assms(2) by (simp add: normalize_principal_def)
  have "own_entry acl (d @ ''#'' @ f) = own_entry acl d"
    unfolding own_entry_def normalize_principal_spec [symmetric]
    by (simp only: normalize_principal_fragment [OF assms] n)
  moreover have "local_entry acl (d @ ''#'' @ f) = local_entry acl d"
    using assms(1) by (cases d) (auto simp: local_entry_def starts_with_def)
  ultimately show ?thesis
    by (simp add: check_cap_entries apply_entry_ok split: option.split)
qed

text \<open>Serialization round trip: an empty \<open>Allow\<close> is read back as a deny.\<close>

lemma string_seq_map [simp]: "string_seq (map JString l) = Some l"
  by (induction l) simp_all

text \<open>What is written is read back, except that an allow of no capability comes back as
  a deny, which grants exactly as much: nothing.\<close>

theorem entry_serde_roundtrip:
  "\<exists>e'. deserialize_entry (serialize_entry e) = Inr e' \<and> entry_has e' = entry_has e
     \<and> e' = (if e = Allow {||} then Deny else e)"
proof (cases e)
  case (Allow caps)
  have "fset_of_list (sorted_list_of_fset caps) = caps"
    by (simp add: fset_of_list.abs_eq sorted_list_of_fset.rep_eq fset_inverse)
  moreover have "sorted_list_of_fset caps = [] \<longleftrightarrow> caps = {||}"
    using calculation by (metis fset_of_list_simps(1) sorted_list_of_fset.rep_eq sorted_list_of_set_empty bot_fset.rep_eq)
  ultimately show ?thesis
    using Allow by (auto simp: serialize_entry_def deserialize_entry_def fun_eq_iff)
qed (simp add: serialize_entry_def deserialize_entry_def)

lemma validate_acl_map_ok: "validate_acl_map acl = Inr () \<longleftrightarrow> [] \<notin> fst ` set acl"
  by (force simp: validate_acl_map_def is_valid_acl_key_def result_simps)

end
