(* ===== verification/ReplayHistory.thy ===== *)
theory ReplayHistory
  imports Replay
begin

text \<open>
  The abstract specification of the replay guard, and the proof that the guard implements
  it. The specification remembers, for ever, when each id was last accepted, and refuses an
  id that was accepted within the window. The guard forgets what has left the window; as
  long as the clock does not run backwards nobody can tell the difference.
\<close>

section \<open>The specification\<close>

type_synonym history = "string \<Rightarrow> u64 option"

definition history_offer :: "'x did_lib_scheme \<Rightarrow> u64 \<Rightarrow> replay_event \<Rightarrow> history \<Rightarrow> bool \<times> history" where
  "history_offer L w e a =
     (case (headers_validate L (c_validate (ev_clocks e)) (ev_headers e), c_prune (ev_clocks e),
            c_insert (ev_clocks e)) of
        (Inr _, Some p, Some n) \<Rightarrow>
          (if (\<exists>t. a (ev_key e) = Some t \<and> unat p - unat t \<le> unat w) then (False, a)
           else (True, a(ev_key e \<mapsto> n)))
      | _ \<Rightarrow> (False, a))"

text \<open>The decisions of a run.\<close>

fun decisions :: "('e \<Rightarrow> 's \<Rightarrow> bool \<times> 's) \<Rightarrow> 'e list \<Rightarrow> 's \<Rightarrow> bool list" where
  "decisions offer [] s = []"
| "decisions offer (e # es) s = fst (offer e s) # decisions offer es (snd (offer e s))"

section \<open>The simulation\<close>

text \<open>
  What the guard still knows is what the history says, and what the guard has forgotten had
  left the window by the last time it was pruned.
\<close>

definition remembers :: "u64 \<Rightarrow> nat \<Rightarrow> replay_guard \<Rightarrow> history \<Rightarrow> bool" where
  "remembers w since g a \<longleftrightarrow> window_secs g = w
     \<and> (\<forall>i t. seen g i = Some t \<longrightarrow> a i = Some t)
     \<and> (\<forall>i t. a i = Some t \<longrightarrow> seen g i = None \<longrightarrow> unat w < since - unat t)"

lemma remembers_later: "remembers w since g a \<Longrightarrow> since \<le> since' \<Longrightarrow> remembers w since' g a"
  unfolding remembers_def by (meson diff_le_mono less_le_trans)

text \<open>Pruning at a later time leaves exactly the part of the history that is in the window.\<close>

lemma pruned_history:
  assumes "remembers w since g a" and "since \<le> unat p"
  shows "retain_recent p w (seen g) i = Some t \<longleftrightarrow> a i = Some t \<and> unat p - unat t \<le> unat w"
proof
  assume "retain_recent p w (seen g) i = Some t"
  then show "a i = Some t \<and> unat p - unat t \<le> unat w"
    using assms(1) by (auto simp: retain_recent_Some remembers_def)
next
  assume a: "a i = Some t \<and> unat p - unat t \<le> unat w"
  have "seen g i \<noteq> None"
  proof
    assume "seen g i = None"
    then have "unat w < since - unat t" using assms(1) a unfolding remembers_def by blast
    then show False using a assms(2) by linarith
  qed
  then show "retain_recent p w (seen g) i = Some t"
    using assms(1) a by (auto simp: retain_recent_Some remembers_def)
qed

lemma remembers_pruned:
  assumes "remembers w since g a" and "since \<le> unat p"
  shows "remembers w (unat p) (g\<lparr>seen := retain_recent p w (seen g)\<rparr>) a"
proof -
  have "unat w < unat p - unat t" if "a i = Some t" and "retain_recent p w (seen g) i = None" for i t
    using pruned_history [OF assms, of i t] that by (auto simp: not_le)
  then show ?thesis
    using assms(1) pruned_history [OF assms] by (auto simp: remembers_def)
qed

lemma remembers_accept:
  "remembers w since g a \<Longrightarrow> remembers w since (g\<lparr>seen := (seen g)(i \<mapsto> n)\<rparr>) (a(i \<mapsto> n))"
  by (auto simp: remembers_def split: if_splits)

lemma offer_simulates:
  assumes R: "remembers w since g a" and later: "since \<le> clock_nat (c_prune (ev_clocks e))"
  shows "fst (guard_offer L e g) = fst (history_offer L w e a)
    \<and> remembers w (clock_nat (c_prune (ev_clocks e))) (snd (guard_offer L e g)) (snd (history_offer L w e a))"
proof (cases "headers_validate L (c_validate (ev_clocks e)) (ev_headers e)")
  case (Inl x)
  then show ?thesis
    using remembers_later [OF R later]
    by (simp add: guard_offer_def check_and_insert_def history_offer_def)
next
  case (Inr u)
  show ?thesis
  proof (cases "c_prune (ev_clocks e)")
    case None
    then show ?thesis
      using Inr remembers_later [OF R later]
      by (simp add: guard_offer_def check_and_insert_def history_offer_def prune_old_def now_unix_secs_def)
  next
    case (Some p)
    then have p: "since \<le> unat p" using later by (simp add: clock_nat_def)
    have w: "window_secs g = w" using R by (simp add: remembers_def)
    let ?s = "retain_recent p w (seen g)"
    have dec: "(?s (ev_key e) \<noteq> None) = (\<exists>t. a (ev_key e) = Some t \<and> unat p - unat t \<le> unat w)"
      using pruned_history [OF R p] by auto
    note pruned = remembers_pruned [OF R p]
    have acc: "remembers w (unat p) (g\<lparr>seen := ?s(ev_key e \<mapsto> n)\<rparr>) (a(ev_key e \<mapsto> n))" for n
      using remembers_accept [OF pruned, of "ev_key e" n] by simp
    show ?thesis
      using Inr Some dec pruned acc w
      by (cases "c_insert (ev_clocks e)")
        (auto simp: guard_offer_def check_and_insert_def history_offer_def prune_old_def
          now_unix_secs_def clock_nat_def ev_key_def)
  qed
qed

lemma run_simulates:
  "remembers w since g a \<Longrightarrow> sorted (since # map (\<lambda>e. clock_nat (c_prune (ev_clocks e))) es) \<Longrightarrow>
     decisions (guard_offer L) es g = decisions (history_offer L w) es a"
proof (induction es arbitrary: g a since)
  case (Cons e es)
  have e: "since \<le> clock_nat (c_prune (ev_clocks e))"
    and es: "sorted (clock_nat (c_prune (ev_clocks e)) # map (\<lambda>e. clock_nat (c_prune (ev_clocks e))) es)"
    using Cons.prems(2) by simp_all
  show ?case using offer_simulates [OF Cons.prems(1) e, of L] Cons.IH [OF _ es] by simp
qed simp

text \<open>C10: As long as the clock does not run backwards, the guard decides every event as the
  specification with an unbounded memory does: a message is refused as a replay exactly when
  its id was accepted within the window, and pruning is not observable.\<close>

theorem replay_guard_refines_history:
  assumes "sorted (map (\<lambda>e. clock_nat (c_prune (ev_clocks e))) es)"
  shows "decisions (guard_offer L) es (replay_new w) = decisions (history_offer L w) es Map.empty"
proof (rule run_simulates)
  show "remembers w 0 (replay_new w) Map.empty" by (simp add: remembers_def replay_new_def)
  show "sorted (0 # map (\<lambda>e. clock_nat (c_prune (ev_clocks e))) es)" using assms by simp
qed

theorem replay_guard_refines_history_witness:
  "decisions (guard_offer demo_msg_lib) [at_second 1000, at_second 1060, at_second 1121] (replay_new 120) =
     decisions (history_offer demo_msg_lib 120) [at_second 1000, at_second 1060, at_second 1121] Map.empty"
  by (rule replay_guard_refines_history) (simp add: at_second_def clock_nat_def)

end
