(* ===== verification/ConfigProps.thy ===== *)
theory ConfigProps
  imports Config
begin

text \<open>
  What the configuration does: text and record are two forms of the same configuration, the
  two readers agree, arguments win over everything and the file cannot redirect the read, a
  saved configuration is what the next start loads, and files with secrets are written with
  mode 0600.
\<close>

section \<open>What the packages promise\<close>

text \<open>
  The parser returns values without duplicate keys; text that was printed from such a value
  is UTF-8 and parses back to it.
\<close>

definition yaml_laws :: "'y yaml_lib_scheme \<Rightarrow> bool" where
  "yaml_laws Y \<longleftrightarrow>
     (\<forall>s v. yaml_from_str Y s = Inr v \<longrightarrow> yaml_ok v)
   \<and> (\<forall>v s. yaml_ok v \<longrightarrow> yaml_to_string Y v = Inr s \<longrightarrow>
        yaml_from_str Y s = Inr v \<and> valid_utf8 (as_bytes s))"

lemma yaml_parsed_ok: "yaml_laws Y \<Longrightarrow> yaml_from_str Y s = Inr v \<Longrightarrow> yaml_ok v"
  unfolding yaml_laws_def by blast

lemma yaml_printed_back: "yaml_laws Y \<Longrightarrow> yaml_ok v \<Longrightarrow> yaml_to_string Y v = Inr s \<Longrightarrow>
    yaml_from_str Y s = Inr v \<and> valid_utf8 (as_bytes s)"
  unfolding yaml_laws_def by blast

lemma mapping_case [result_simps]:
  "(case v of YMapping m \<Rightarrow> Inr (f m) | _ \<Rightarrow> Inl e) = Inr c \<longleftrightarrow> (\<exists>m. v = YMapping m \<and> f m = c)"
  by (cases v) auto

text \<open>
  Opening truncates, writing to an empty file gives it the data, none of the operations
  touches another file.
\<close>

definition secure_fs_laws :: "('w, 'x) secure_fs_scheme \<Rightarrow> bool" where
  "secure_fs_laws F \<longleftrightarrow> fs_laws F
   \<and> (\<forall>p m w w'. fs_open_truncate F p m w = (Inr (), w') \<longrightarrow> fs_exists F p w' \<and> fs_read F p w' = Inr [])
   \<and> (\<forall>p b w w'. fs_write_all F p b w = (Inr (), w') \<longrightarrow> fs_read F p w = Inr [] \<longrightarrow>
        fs_exists F p w' \<and> fs_read F p w' = Inr b)
   \<and> (\<forall>p m w w'. fs_set_mode F p m w = (Inr (), w') \<longrightarrow> fs_mode F p w' = Some m)
   \<and> (\<forall>p q m b w. q \<noteq> p \<longrightarrow>
        fs_read F q (snd (fs_open_truncate F p m w)) = fs_read F q w
        \<and> fs_exists F q (snd (fs_open_truncate F p m w)) = fs_exists F q w
        \<and> fs_read F q (snd (fs_write_all F p b w)) = fs_read F q w
        \<and> fs_exists F q (snd (fs_write_all F p b w)) = fs_exists F q w)
   \<and> (\<forall>d q w. fs_read F q (snd (fs_create_dir_all F d w)) = fs_read F q w
        \<and> (fs_exists F q w \<longrightarrow> fs_exists F q (snd (fs_create_dir_all F d w))))"

lemma secure_fs_lawsD:
  assumes "secure_fs_laws F"
  shows "fs_laws F"
    and "fs_open_truncate F p m w = (Inr (), w') \<Longrightarrow> fs_exists F p w' \<and> fs_read F p w' = Inr []"
    and "fs_write_all F p b w = (Inr (), w') \<Longrightarrow> fs_read F p w = Inr [] \<Longrightarrow>
      fs_exists F p w' \<and> fs_read F p w' = Inr b"
    and "fs_set_mode F p m w = (Inr (), w') \<Longrightarrow> fs_mode F p w' = Some m"
    and "q \<noteq> p \<Longrightarrow> fs_read F q (snd (fs_open_truncate F p m w)) = fs_read F q w
      \<and> fs_exists F q (snd (fs_open_truncate F p m w)) = fs_exists F q w
      \<and> fs_read F q (snd (fs_write_all F p b w)) = fs_read F q w
      \<and> fs_exists F q (snd (fs_write_all F p b w)) = fs_exists F q w"
    and "fs_read F q (snd (fs_create_dir_all F d w)) = fs_read F q w"
    and "fs_exists F q w \<Longrightarrow> fs_exists F q (snd (fs_create_dir_all F d w))"
    and "fs_exists F q (snd (fs_set_mode F p m w)) = fs_exists F q w"
    and "fs_read F q (snd (fs_set_mode F p m w)) = fs_read F q w"
  using assms unfolding secure_fs_laws_def by (simp_all add: fs_laws_def)

section \<open>The mapping of a configuration\<close>

lemma valid_utf8_text: "valid_utf8 (as_bytes s) \<Longrightarrow> fs_read F p w = Inr (as_bytes s) \<Longrightarrow>
    read_to_string F p w = Inr s"
  by (simp add: read_to_string_def)

text \<open>Both readers fill the fields from the entries of the mapping.\<close>

definition config_of :: "string \<Rightarrow> yaml_map \<Rightarrow> yaml_map \<Rightarrow> config" where
  "config_of d m e =
     (let slug = unwrap_or (yaml_str m ''slug'') d
      in \<lparr>cfg_slug = slug,
          cfg_log_level = unwrap_or (yaml_str m ''log_level'') DEFAULT_LOG_LEVEL,
          cfg_log_level_stdout = unwrap_or (yaml_str m ''log_level_stdout'') DEFAULT_LOG_LEVEL_STDOUT,
          cfg_did_resolver_positive_ttl_secs =
            unwrap_or (yaml_u64 m ''did_resolver_positive_ttl_secs'') DEFAULT_DID_RESOLVER_POSITIVE_TTL_SECS,
          cfg_did_resolver_negative_ttl_secs =
            unwrap_or (yaml_u64 m ''did_resolver_negative_ttl_secs'') DEFAULT_DID_RESOLVER_NEGATIVE_TTL_SECS,
          cfg_log_file = yaml_path m ''log_file'',
          cfg_kubo_rpc_url = unwrap_or (yaml_str m ''kubo_rpc_url'') DEFAULT_KUBO_RPC_URL,
          cfg_kubo_key_alias = unwrap_or (yaml_str m ''kubo_key_alias'') slug,
          cfg_secret_bundle = yaml_path m ''secret_bundle'',
          cfg_secret_bundle_passphrase = yaml_str m ''secret_bundle_passphrase'',
          cfg_config_path = None,
          cfg_pin_remote = unwrap_or (yaml_bool m ''pin_remote'') False,
          cfg_pin_remote_service = yaml_str m ''pin_remote_service'',
          cfg_pin_remote_name = yaml_str m ''pin_remote_name'',
          cfg_pin_overwrite = unwrap_or (yaml_bool m ''pin_overwrite'') True,
          cfg_extra = e\<rparr>)"

lemmas yaml_readers = yaml_str_def yaml_path_def yaml_u64_def yaml_bool_def yaml_get_def

definition taken_keys :: "string list" where
  "taken_keys =
     [''slug'', ''log_level'', ''log_level_stdout'', ''did_resolver_positive_ttl_secs'',
      ''did_resolver_negative_ttl_secs'', ''config_path'', ''old_pin_batch_size'',
      ''kubo_rpc_url'', ''kubo_key_alias'', ''log_file'', ''secret_bundle'',
      ''secret_bundle_passphrase'', ''pin_remote'', ''pin_remote_service'', ''pin_remote_name'',
      ''pin_overwrite'']"

lemma taken_known: "set taken_keys = set known_keys"
  by (simp add: taken_keys_def known_keys_def insert_commute)

lemma get_after_takes:
  "im_ok m \<Longrightarrow> k \<notin> set ks \<Longrightarrow>
     im_get (fold im_remove (map YString ks) m) (YString k) = im_get m (YString k)"
  by (simp add: im.dels_spec image_iff)

lemma take_with_first:
  "take_with f m k = (Option.bind (im_get m (YString k)) f, fold im_remove (map YString [k]) m)"
  by (simp add: take_with_def)

lemma take_with_next:
  "im_ok m \<Longrightarrow> k \<notin> set ks \<Longrightarrow> take_with f (fold im_remove (map YString ks) m) k =
     (Option.bind (im_get m (YString k)) f, fold im_remove (map YString (ks @ [k])) m)"
  by (simp add: take_with_def get_after_takes)

lemma from_yaml_mapping_eq:
  assumes "im_ok m"
  shows "from_yaml_mapping m = config_of ''ma'' m (fold im_remove (map YString taken_keys) m)"
  unfolding from_yaml_mapping_def config_of_def taken_keys_def
  by (simp only: take_with_first [where m = m] take_with_next [OF assms] Let_def split_beta fst_conv snd_conv
      yaml_readers append.simps list.set insert_iff empty_iff simp_thms list.inject list.distinct
      char.inject)

lemma lower_case_keys:
  "to_ascii_lowercase ''LOG_LEVEL'' = ''log_level''"
  "to_ascii_lowercase ''LOG_LEVEL_STDOUT'' = ''log_level_stdout''"
  "to_ascii_lowercase ''LOG_FILE'' = ''log_file''"
  "to_ascii_lowercase ''DID_RESOLVER_POSITIVE_TTL_SECS'' = ''did_resolver_positive_ttl_secs''"
  "to_ascii_lowercase ''DID_RESOLVER_NEGATIVE_TTL_SECS'' = ''did_resolver_negative_ttl_secs''"
  "to_ascii_lowercase ''KUBO_RPC_URL'' = ''kubo_rpc_url''"
  "to_ascii_lowercase ''KUBO_KEY_ALIAS'' = ''kubo_key_alias''"
  "to_ascii_lowercase ''SECRET_BUNDLE'' = ''secret_bundle''"
  "to_ascii_lowercase ''SECRET_BUNDLE_PASSPHRASE'' = ''secret_bundle_passphrase''"
  "to_ascii_lowercase ''PIN_REMOTE'' = ''pin_remote''"
  "to_ascii_lowercase ''PIN_REMOTE_SERVICE'' = ''pin_remote_service''"
  "to_ascii_lowercase ''PIN_REMOTE_NAME'' = ''pin_remote_name''"
  "to_ascii_lowercase ''PIN_OVERWRITE'' = ''pin_overwrite''"
  by code_simp+

lemma resolve_config_plain:
  "resolve_config (ma_args_default\<lparr>arg_config := a\<rparr>) d (\<lambda>_. None) p (Some m) =
     (config_of d m (fold im_remove (map YString known_keys) m))\<lparr>cfg_config_path := Some p\<rparr>"
  by (simp add: resolve_config_def config_of_def Let_def resolve_with_def ma_args_default_def
      lower_case_keys fold_map o_def)

section \<open>Well-formed configurations\<close>

text \<open>
  The extra entries are a mapping of their own: no key twice, none of the keys of the
  schema.
\<close>

definition config_ok :: "config \<Rightarrow> bool" where
  "config_ok c \<longleftrightarrow> yaml_ok (YMapping (cfg_extra c))
     \<and> YString ` set known_keys \<inter> fst ` set (cfg_extra c) = {}"

lemma yaml_ok_mapping: "yaml_ok (YMapping m) \<longleftrightarrow> im_ok m \<and> (\<forall>(k, v)\<in>set m. yaml_ok k \<and> yaml_ok v)"
  by (auto simp: im_ok_def list_all_iff)

declare yaml_ok.simps(2) [simp del]

lemma dels_known:
  assumes "im_ok m" and "set ks = set known_keys"
  shows "mset (fold im_remove (map YString ks) m) =
    filter_mset (\<lambda>e. fst e \<notin> YString ` set known_keys) (mset m)"
  by (simp add: im_dels_mset [OF assms(1)] assms(2))

lemma yaml_ok_dels:
  assumes "yaml_ok (YMapping m)" and "mset m' \<subseteq># mset m"
  shows "yaml_ok (YMapping m')"
proof -
  have "im_ok m'"
    using assms(1) im_ok_sub [OF _ assms(2)] by (simp add: yaml_ok_mapping)
  moreover have "set m' \<subseteq> set m" using set_mset_mono [OF assms(2)] by simp
  ultimately show ?thesis using assms(1) by (fastforce simp: yaml_ok_mapping)
qed

lemma extra_ok:
  assumes "yaml_ok (YMapping m)" and "set ks = set known_keys"
  shows "config_ok (config_of d m (fold im_remove (map YString ks) m))"
proof -
  let ?e = "fold im_remove (map YString ks) m"
  have e: "mset ?e = filter_mset (\<lambda>e. fst e \<notin> YString ` set known_keys) (mset m)"
    using assms by (simp add: dels_known yaml_ok_mapping)
  then have "yaml_ok (YMapping ?e)" by (intro yaml_ok_dels [OF assms(1)]) simp
  moreover have "set ?e = {x \<in> set m. fst x \<notin> YString ` set known_keys}"
    using arg_cong [OF e, of set_mset] by simp
  ultimately show ?thesis by (auto simp: config_ok_def config_of_def Let_def)
qed

section \<open>Printing and reading back\<close>

lemma opt_entry_get [simp]:
  "im_get (rev (opt_entry k v)) x = (if x = YString k then map_option YString v else None)"
  "im_get (opt_entry k v) x = (if x = YString k then map_option YString v else None)"
  by (simp_all add: opt_entry_def split: option.split)

lemma printed_get:
  assumes "config_ok c" and "k \<in> set known_keys"
  shows "yaml_get (to_yaml_mapping c) k = im_get (rev (known_entries c)) (YString k)"
proof -
  have ok: "im_ok (cfg_extra c)" using assms(1) by (simp add: config_ok_def yaml_ok_mapping)
  have "im_get (cfg_extra c) (YString k) = None"
    using assms by (auto simp: config_ok_def map_of_eq_None_iff)
  then show ?thesis
    using im.puts_spec [OF ok, of "known_entries c"]
    by (simp add: yaml_get_def to_yaml_mapping_def map_add_def split: option.split)
qed

lemma u64_roundtrip: "value_u64 (YNumber (YInt (uint (w :: u64)))) = Some w"
  using unsigned_less [of w, where 'a = int] by (simp add: value_u64_def number_as_u64_def)

lemma printed_values [simp]:
  "yaml_as_str (YString s) = Some s" "value_bool (YBool b) = Some b"
  by (simp_all add: yaml_as_str_def value_bool_def)

lemma printed_opt [simp]: "Option.bind (map_option YString v) yaml_as_str = v"
  by (cases v) simp_all

lemma printed_lookup:
  assumes "config_ok c"
  shows "yaml_get (to_yaml_mapping c) ''slug'' = Some (YString (cfg_slug c))"
    and "yaml_get (to_yaml_mapping c) ''log_level'' = Some (YString (cfg_log_level c))"
    and "yaml_get (to_yaml_mapping c) ''log_level_stdout'' = Some (YString (cfg_log_level_stdout c))"
    and "yaml_get (to_yaml_mapping c) ''did_resolver_positive_ttl_secs'' =
      Some (YNumber (YInt (uint (cfg_did_resolver_positive_ttl_secs c))))"
    and "yaml_get (to_yaml_mapping c) ''did_resolver_negative_ttl_secs'' =
      Some (YNumber (YInt (uint (cfg_did_resolver_negative_ttl_secs c))))"
    and "yaml_get (to_yaml_mapping c) ''kubo_rpc_url'' = Some (YString (cfg_kubo_rpc_url c))"
    and "yaml_get (to_yaml_mapping c) ''kubo_key_alias'' = Some (YString (cfg_kubo_key_alias c))"
    and "yaml_get (to_yaml_mapping c) ''log_file'' = map_option YString (cfg_log_file c)"
    and "yaml_get (to_yaml_mapping c) ''secret_bundle'' = map_option YString (cfg_secret_bundle c)"
    and "yaml_get (to_yaml_mapping c) ''secret_bundle_passphrase'' =
      map_option YString (cfg_secret_bundle_passphrase c)"
    and "yaml_get (to_yaml_mapping c) ''pin_remote'' = Some (YBool (cfg_pin_remote c))"
    and "yaml_get (to_yaml_mapping c) ''pin_remote_service'' = map_option YString (cfg_pin_remote_service c)"
    and "yaml_get (to_yaml_mapping c) ''pin_remote_name'' = map_option YString (cfg_pin_remote_name c)"
    and "yaml_get (to_yaml_mapping c) ''pin_overwrite'' = Some (YBool (cfg_pin_overwrite c))"
  by (simp_all add: printed_get [OF assms] known_keys_def known_entries_def map_of_append map_add_def
      split: option.split)

lemma config_of_printed:
  "config_ok c \<Longrightarrow> config_of d (to_yaml_mapping c) e = c\<lparr>cfg_config_path := None, cfg_extra := e\<rparr>"
  by (simp add: config_of_def Let_def yaml_str_def yaml_path_def yaml_u64_def yaml_bool_def
      printed_lookup u64_roundtrip)

lemma im_insert_others:
  "k \<in> S \<Longrightarrow> filter_mset (\<lambda>e. fst e \<notin> S) (mset (im_insert k v m)) =
     filter_mset (\<lambda>e. fst e \<notin> S) (mset m)"
  by (induction k v m rule: im_insert.induct) auto

lemma puts_others:
  "fst ` set es \<subseteq> S \<Longrightarrow> filter_mset (\<lambda>e. fst e \<notin> S) (mset (fold (\<lambda>(k, v). im_insert k v) es m)) =
     filter_mset (\<lambda>e. fst e \<notin> S) (mset m)"
  by (induction es arbitrary: m) (auto simp: im_insert_others)

lemma known_entries_known: "fst ` set (known_entries c) \<subseteq> YString ` set known_keys"
  by (auto simp: known_entries_def known_keys_def opt_entry_def split: option.splits)

lemma yaml_ok_insert:
  "yaml_ok (YMapping m) \<Longrightarrow> yaml_ok k \<Longrightarrow> yaml_ok v \<Longrightarrow> yaml_ok (YMapping (im_insert k v m))"
  by (induction k v m rule: im_insert.induct) (auto simp: yaml_ok_mapping im_ok_def im_insert_keys)

lemma yaml_ok_puts:
  "yaml_ok (YMapping m) \<Longrightarrow> \<forall>(k, v)\<in>set es. yaml_ok k \<and> yaml_ok v \<Longrightarrow>
     yaml_ok (YMapping (fold (\<lambda>(k, v). im_insert k v) es m))"
  by (induction es arbitrary: m) (auto simp: yaml_ok_insert)

lemma printed_ok: "config_ok c \<Longrightarrow> yaml_ok (YMapping (to_yaml_mapping c))"
  unfolding to_yaml_mapping_def
  by (rule yaml_ok_puts)
    (auto simp: config_ok_def known_entries_def opt_entry_def split: option.splits)

lemma printed_extra:
  assumes "config_ok c" and "set ks = set known_keys"
  shows "mset (fold im_remove (map YString ks) (to_yaml_mapping c)) = mset (cfg_extra c)"
proof -
  have "filter_mset (\<lambda>e. fst e \<notin> YString ` set known_keys) (mset (cfg_extra c)) = mset (cfg_extra c)"
    using assms(1) by (auto simp: config_ok_def filter_mset_eq_conv)
  then show ?thesis
    using printed_ok [OF assms(1)] puts_others [OF known_entries_known, of c "cfg_extra c"]
    by (simp add: dels_known yaml_ok_mapping assms(2) to_yaml_mapping_def)
qed

section \<open>Properties of the two readers\<close>

lemma yaml_roundtrip:
  assumes "yaml_laws Y" and "config_ok c" and "to_yaml_string Y c = Inr s"
  shows "yaml_from_str Y s = Inr (YMapping (to_yaml_mapping c)) \<and> valid_utf8 (as_bytes s)"
  using yaml_printed_back [OF assms(1) printed_ok [OF assms(2)]] assms(3)
  by (simp add: to_yaml_string_def result_simps)

lemma printed_im_ok: "config_ok c \<Longrightarrow> im_ok (to_yaml_mapping c)"
  using printed_ok [of c] by (simp add: yaml_ok_mapping)

text \<open>A configuration printed as YAML text reads back as the same configuration: every field
  of the schema is restored, all user keys survive (their order may change), and the runtime
  path of the file is forgotten.\<close>

theorem config_yaml_roundtrip:
  assumes "yaml_laws Y" and "config_ok c" and "to_yaml_string Y c = Inr s"
  shows "\<exists>e. from_yaml_str Y s = Inr (c\<lparr>cfg_config_path := None, cfg_extra := e\<rparr>)
    \<and> mset e = mset (cfg_extra c)"
proof (intro exI conjI)
  show "from_yaml_str Y s = Inr (c\<lparr>cfg_config_path := None,
      cfg_extra := fold im_remove (map YString taken_keys) (to_yaml_mapping c)\<rparr>)"
    using yaml_roundtrip [OF assms] printed_im_ok [OF assms(2)]
    by (simp add: from_yaml_str_def from_yaml_mapping_eq config_of_printed [OF assms(2)])
qed (rule printed_extra [OF assms(2) taken_known])

text \<open>C29: Whatever is loaded, from text or from the command line, is well-formed: no user key is
  repeated and none collides with a key of the schema, so that printing it loses nothing.\<close>

theorem loaded_config_ok:
  assumes "yaml_laws Y"
  shows "(\<forall>s c. from_yaml_str Y s = Inr c \<longrightarrow> config_ok c)
    \<and> (\<forall>w c b. from_args F Y env dirs args d w = Inr (c, b) \<longrightarrow> config_ok c)"
proof (intro conjI allI impI)
  fix s c assume "from_yaml_str Y s = Inr c"
  then obtain m where m: "yaml_from_str Y s = Inr (YMapping m)" "c = from_yaml_mapping m"
    by (auto simp: from_yaml_str_def result_simps)
  then have "yaml_ok (YMapping m)" using yaml_parsed_ok [OF assms] by blast
  then show "config_ok c"
    using extra_ok [OF _ taken_known] by (simp add: m(2) from_yaml_mapping_eq yaml_ok_mapping)
next
  fix w c b assume run: "from_args F Y env dirs args d w = Inr (c, b)"
  have empty: "config_ok (resolve_config args d env p None)" for p
    by (simp add: config_ok_def resolve_config_def Let_def yaml_ok_mapping)
  have loaded: "config_ok (resolve_config args d env p (Some m))" if "yaml_ok (YMapping m)" for p m
    using extra_ok [OF that refl]
    by (simp add: config_ok_def resolve_config_def Let_def config_of_def fold_map o_def)
  have "yaml_ok (YMapping m)" if "load_yaml_mapping F Y p w = Inr m" for p m
    using that mapping_case [where f = "\<lambda>m. m"]
    by (auto simp: load_yaml_mapping_def result_simps intro: yaml_parsed_ok [OF assms])
  then show "config_ok c"
    using run by (auto simp: from_args_def result_simps intro: empty loaded split: if_splits)
qed

text \<open>The two readers agree: starting a daemon on a file, with no other argument and an empty
  environment, gives the configuration that reading the same mapping as text gives, up to
  the order in which the user's keys are kept.\<close>

theorem readers_agree:
  "case (resolve_config (ma_args_default\<lparr>arg_config := Some p\<rparr>) ''ma'' (\<lambda>_. None) p (Some m),
         from_yaml_mapping m) of (a, b) \<Rightarrow>
     im_ok m \<longrightarrow> a = b\<lparr>cfg_config_path := Some p, cfg_extra := cfg_extra a\<rparr>
       \<and> mset (cfg_extra a) = mset (cfg_extra b)"
proof -
  have "mset (fold im_remove (map YString known_keys) m) = mset (fold im_remove (map YString taken_keys) m)"
    if "im_ok m"
    by (simp only: dels_known [OF that refl] dels_known [OF that taken_known])
  then show ?thesis
    by (simp only: prod.case resolve_config_plain)
      (simp add: from_yaml_mapping_eq config_of_def Let_def del: fold_map)
qed

section \<open>Properties of writing\<close>

lemma secure_write_result:
  assumes "secure_fs_laws F" and run: "write_secure F p data w = (Inr (), w')"
  shows "fs_exists F p w'" and "fs_read F p w' = Inr data" and "fs_mode F p w' = Some MODE_0600"
proof -
  from run obtain u v w1 w2 w3 where "fs_open_truncate F p MODE_0600 w1 = (Inr u, w2)"
    and "fs_write_all F p data w2 = (Inr v, w3)" and m: "fs_set_mode F p MODE_0600 w3 = (Inr (), w')"
    unfolding write_secure_def io_bind_iff io_map_err_iff by (elim exE conjE) (rule that)
  then have o: "fs_open_truncate F p MODE_0600 w1 = (Inr (), w2)"
    and x: "fs_write_all F p data w2 = (Inr (), w3)" by simp_all
  have "fs_read F p w2 = Inr []" using secure_fs_lawsD(2) [OF assms(1) o] by simp
  then have "fs_exists F p w3 \<and> fs_read F p w3 = Inr data"
    by (rule secure_fs_lawsD(3) [OF assms(1) x])
  moreover have "fs_exists F p w' = fs_exists F p w3" "fs_read F p w' = fs_read F p w3"
    using secure_fs_lawsD(8,9) [OF assms(1), of p p MODE_0600 w3] m by simp_all
  ultimately show "fs_exists F p w'" and "fs_read F p w' = Inr data" by simp_all
  show "fs_mode F p w' = Some MODE_0600" using secure_fs_lawsD(4) [OF assms(1) m] .
qed

text \<open>Another file is neither read differently nor removed, whatever the outcome.\<close>

lemma secure_write_others:
  assumes "secure_fs_laws F" and "q \<noteq> p"
  shows "fs_read F q (snd (write_secure F p data w)) = fs_read F q w"
    and "fs_exists F q w \<Longrightarrow> fs_exists F q (snd (write_secure F p data w))"
proof -
  note laws = secure_fs_lawsD(5-9) [OF assms(1)] and other = secure_fs_lawsD(5) [OF assms]
  have "io_keeps (\<lambda>w. fs_read F q w = r) (write_secure F p data)" for r
    unfolding write_secure_def
    by (intro io_keeps_bind) (simp_all add: io_keeps_def io_ret_def io_map_err_def laws other
        split: option.split)
  then show "fs_read F q (snd (write_secure F p data w)) = fs_read F q w"
    by (simp add: io_keeps_def)
  have "io_keeps (\<lambda>w. fs_exists F q w) (write_secure F p data)"
    unfolding write_secure_def
    by (intro io_keeps_bind) (simp_all add: io_keeps_def io_ret_def io_map_err_def laws other
        split: option.split)
  then show "fs_exists F q w \<Longrightarrow> fs_exists F q (snd (write_secure F p data w))"
    by (simp add: io_keeps_def)
qed

lemma mode_0600_quiet: "\<not> mode_warned MODE_0600"
  by (simp add: mode_warned_def MODE_0600_def)

lemma saved_then_loaded:
  assumes Y: "yaml_laws Y" and F: "secure_fs_laws F" and c: "config_ok c"
    and p: "cfg_config_path c = Some p" and run: "config_save F Y c w = (Inr (), w')"
    and later: "fs_exists F p w''" "fs_read F p w'' = fs_read F p w'" "fs_mode F p w'' = fs_mode F p w'"
  shows "from_args F Y (\<lambda>_. None) dirs (ma_args_default\<lparr>arg_config := Some p\<rparr>) d w'' =
    Inr (c\<lparr>cfg_extra := fold im_remove (map YString known_keys) (to_yaml_mapping c)\<rparr>, False)"
proof -
  obtain s where s: "to_yaml_string Y c = Inr s"
    and wr: "write_secure F p (as_bytes s) w = (Inr (), w')"
    using run by (auto simp: config_save_def p io_simps)
  note printed = yaml_roundtrip [OF Y c s]
  have "read_to_string F p w'' = Inr s"
    using secure_write_result(2) [OF F wr] later(2) printed
    by (simp add: read_to_string_def)
  then have "load_yaml_mapping F Y p w'' = Inr (to_yaml_mapping c)"
    using printed by (simp add: load_yaml_mapping_def)
  moreover have "check_permissions F p w'' = False"
    using secure_write_result(3) [OF F wr] later(3) mode_0600_quiet by (simp add: check_permissions_def)
  moreover have "select_config_path dirs (ma_args_default\<lparr>arg_config := Some p\<rparr>) d = Inr p"
    by (simp add: select_config_path_def)
  ultimately show ?thesis
    using later(1) by (simp add: from_args_def resolve_config_plain config_of_printed [OF c] p del: fold_map)
qed

text \<open>C28: A configuration that was saved is the configuration the next start on that file gets,
  with nothing else given: every field, the path itself and all user keys, and without a
  warning about the file's permissions. Saving leaves every other file as it was.\<close>

theorem config_save_reload:
  assumes "yaml_laws Y" and "secure_fs_laws F" and "config_ok c"
    and "cfg_config_path c = Some p" and "config_save F Y c w = (Inr (), w')"
  shows "(\<exists>e. from_args F Y (\<lambda>_. None) dirs (ma_args_default\<lparr>arg_config := Some p\<rparr>) d w' =
        Inr (c\<lparr>cfg_extra := e\<rparr>, False) \<and> mset e = mset (cfg_extra c))
    \<and> (\<forall>q. q \<noteq> p \<longrightarrow> fs_read F q w' = fs_read F q w)"
proof (intro conjI exI)
  obtain s where wr: "write_secure F p (as_bytes s) w = (Inr (), w')"
    using assms(5) by (auto simp: config_save_def assms(4) io_simps)
  show "from_args F Y (\<lambda>_. None) dirs (ma_args_default\<lparr>arg_config := Some p\<rparr>) d w' =
      Inr (c\<lparr>cfg_extra := fold im_remove (map YString known_keys) (to_yaml_mapping c)\<rparr>, False)"
    using secure_write_result(1) [OF assms(2) wr] by (intro saved_then_loaded [OF assms]) simp_all
  show "mset (fold im_remove (map YString known_keys) (to_yaml_mapping c)) = mset (cfg_extra c)"
    by (rule printed_extra [OF assms(3) refl])
  show "\<forall>q. q \<noteq> p \<longrightarrow> fs_read F q w' = fs_read F q w"
    using secure_write_others(1) [OF assms(2), of _ p "as_bytes s" w] wr by simp
qed

section \<open>Properties of the resolution\<close>

text \<open>What is chosen for a field, by the documented priority.\<close>

definition chosen :: "'a option \<Rightarrow> 'a option \<Rightarrow> 'a option \<Rightarrow> 'a \<Rightarrow> 'a" where
  "chosen cli environment file fallback =
     (case (cli, environment, file) of
        (Some v, _, _) \<Rightarrow> v
      | (None, Some v, _) \<Rightarrow> v
      | (None, None, Some v) \<Rightarrow> v
      | (None, None, None) \<Rightarrow> fallback)"

lemma chosen_resolve:
  "unwrap_or (resolve_with t y env yaml cli k) d =
     chosen cli (Option.bind (env (''MA_'' @ k)) t) (Option.bind yaml (\<lambda>m. y m (to_ascii_lowercase k))) d"
  by (simp add: resolve_with_def chosen_def or_else_def unwrap_or_def split: option.split)

lemma from_args_cases:
  assumes "from_args F Y env dirs args d w = Inr (c, b)"
  obtains p yaml where "select_config_path dirs args d = Inr p" "c = resolve_config args d env p yaml"
    "yaml = None \<longleftrightarrow> \<not> fs_exists F p w" "\<forall>m. yaml = Some m \<longrightarrow> load_yaml_mapping F Y p w = Inr m"
proof -
  obtain p where p: "select_config_path dirs args d = Inr p"
    using assms by (auto simp: from_args_def result_simps)
  show thesis
  proof (cases "fs_exists F p w")
    case True
    then obtain m where "load_yaml_mapping F Y p w = Inr m" "c = resolve_config args d env p (Some m)"
      using assms p by (auto simp: from_args_def result_simps)
    then show ?thesis using True p by (intro that [of p "Some m"]) simp_all
  next
    case False
    then show ?thesis using assms p by (intro that [of p None]) (auto simp: from_args_def)
  qed
qed

lemma resolved_fields:
  "cfg_log_level (resolve_config args d env p yaml) = chosen (arg_log_level args) (env ''MA_LOG_LEVEL'')
        (Option.bind yaml (\<lambda>m. yaml_str m ''log_level'')) DEFAULT_LOG_LEVEL"
  "cfg_kubo_rpc_url (resolve_config args d env p yaml) = chosen (arg_kubo_rpc_url args) (env ''MA_KUBO_RPC_URL'')
        (Option.bind yaml (\<lambda>m. yaml_str m ''kubo_rpc_url'')) DEFAULT_KUBO_RPC_URL"
  "cfg_kubo_key_alias (resolve_config args d env p yaml) = chosen (arg_kubo_key_alias args) (env ''MA_KUBO_KEY_ALIAS'')
        (Option.bind yaml (\<lambda>m. yaml_str m ''kubo_key_alias'')) (cfg_slug (resolve_config args d env p yaml))"
  "cfg_did_resolver_positive_ttl_secs (resolve_config args d env p yaml) = chosen (arg_did_resolver_positive_ttl_secs args)
        (Option.bind (env ''MA_DID_RESOLVER_POSITIVE_TTL_SECS'') parse_u64)
        (Option.bind yaml (\<lambda>m. yaml_u64 m ''did_resolver_positive_ttl_secs''))
        DEFAULT_DID_RESOLVER_POSITIVE_TTL_SECS"
  "cfg_pin_remote (resolve_config args d env p yaml) = chosen (arg_pin_remote args) (Option.bind (env ''MA_PIN_REMOTE'') parse_bool)
        (Option.bind yaml (\<lambda>m. yaml_bool m ''pin_remote'')) False"
  "cfg_pin_overwrite (resolve_config args d env p yaml) = chosen (arg_pin_overwrite args)
        (Option.bind (env ''MA_PIN_OVERWRITE'') parse_bool)
        (Option.bind yaml (\<lambda>m. yaml_bool m ''pin_overwrite'')) True"
  by (simp_all add: resolve_config_def Let_def chosen_resolve lower_case_keys)

lemma resolved_optional_fields:
  "cfg_log_file (resolve_config args d env p yaml) = or_else (or_else (arg_log_file args) (env ''MA_LOG_FILE''))
        (Option.bind yaml (\<lambda>m. yaml_path m ''log_file''))"
  "cfg_secret_bundle (resolve_config args d env p yaml) = or_else (or_else (arg_secret_bundle args) (env ''MA_SECRET_BUNDLE''))
        (Option.bind yaml (\<lambda>m. yaml_path m ''secret_bundle''))"
  "cfg_secret_bundle_passphrase (resolve_config args d env p yaml) =
        or_else (or_else (arg_secret_bundle_passphrase args) (env ''MA_SECRET_BUNDLE_PASSPHRASE''))
        (Option.bind yaml (\<lambda>m. yaml_str m ''secret_bundle_passphrase''))"
  "cfg_pin_remote_service (resolve_config args d env p yaml) =
        or_else (or_else (arg_pin_remote_service args) (env ''MA_PIN_REMOTE_SERVICE''))
        (Option.bind yaml (\<lambda>m. yaml_str m ''pin_remote_service''))"
  by (simp_all add: resolve_config_def Let_def resolve_with_def lower_case_keys)

lemma resolved_slug:
  "cfg_slug (resolve_config args d env p yaml) = chosen (arg_slug args) None (Option.bind yaml (\<lambda>m. yaml_str m ''slug'')) d"
  by (simp add: resolve_config_def Let_def chosen_def or_else_def unwrap_or_def split: option.split)

lemma resolved_path [simp]: "cfg_config_path (resolve_config args d env p yaml) = Some p"
  by (simp add: resolve_config_def Let_def)

text \<open>A configuration resolved from arguments, environment and file: the file is chosen by
  the arguments and the default slug alone (no entry of the file and no variable can redirect
  the read), and the path that was read is the path the configuration will be saved to. The
  slug comes from the arguments, else the file, else the default; a log level, like every
  other field, from the arguments, else the environment, else the file, else the default; a
  number in the environment that does not parse counts as absent; the key alias defaults to
  the slug that was chosen.\<close>

theorem from_args_priority:
  assumes "from_args F Y env dirs args d w = Inr (c, b)"
  shows "\<exists>p yaml. select_config_path dirs args d = Inr p \<and> cfg_config_path c = Some p
    \<and> (yaml = None \<longleftrightarrow> \<not> fs_exists F p w)
    \<and> (\<forall>m. yaml = Some m \<longrightarrow> load_yaml_mapping F Y p w = Inr m)
    \<and> cfg_slug c = chosen (arg_slug args) None (Option.bind yaml (\<lambda>m. yaml_str m ''slug'')) d
    \<and> cfg_log_level c = chosen (arg_log_level args) (env ''MA_LOG_LEVEL'')
        (Option.bind yaml (\<lambda>m. yaml_str m ''log_level'')) DEFAULT_LOG_LEVEL
    \<and> cfg_kubo_rpc_url c = chosen (arg_kubo_rpc_url args) (env ''MA_KUBO_RPC_URL'')
        (Option.bind yaml (\<lambda>m. yaml_str m ''kubo_rpc_url'')) DEFAULT_KUBO_RPC_URL
    \<and> cfg_kubo_key_alias c = chosen (arg_kubo_key_alias args) (env ''MA_KUBO_KEY_ALIAS'')
        (Option.bind yaml (\<lambda>m. yaml_str m ''kubo_key_alias'')) (cfg_slug c)
    \<and> cfg_did_resolver_positive_ttl_secs c = chosen (arg_did_resolver_positive_ttl_secs args)
        (Option.bind (env ''MA_DID_RESOLVER_POSITIVE_TTL_SECS'') parse_u64)
        (Option.bind yaml (\<lambda>m. yaml_u64 m ''did_resolver_positive_ttl_secs''))
        DEFAULT_DID_RESOLVER_POSITIVE_TTL_SECS
    \<and> cfg_pin_remote c = chosen (arg_pin_remote args) (Option.bind (env ''MA_PIN_REMOTE'') parse_bool)
        (Option.bind yaml (\<lambda>m. yaml_bool m ''pin_remote'')) False
    \<and> cfg_pin_overwrite c = chosen (arg_pin_overwrite args)
        (Option.bind (env ''MA_PIN_OVERWRITE'') parse_bool)
        (Option.bind yaml (\<lambda>m. yaml_bool m ''pin_overwrite'')) True
    \<and> cfg_log_file c = or_else (or_else (arg_log_file args) (env ''MA_LOG_FILE''))
        (Option.bind yaml (\<lambda>m. yaml_path m ''log_file''))
    \<and> cfg_secret_bundle c = or_else (or_else (arg_secret_bundle args) (env ''MA_SECRET_BUNDLE''))
        (Option.bind yaml (\<lambda>m. yaml_path m ''secret_bundle''))
    \<and> cfg_secret_bundle_passphrase c =
        or_else (or_else (arg_secret_bundle_passphrase args) (env ''MA_SECRET_BUNDLE_PASSPHRASE''))
        (Option.bind yaml (\<lambda>m. yaml_str m ''secret_bundle_passphrase''))
    \<and> cfg_pin_remote_service c =
        or_else (or_else (arg_pin_remote_service args) (env ''MA_PIN_REMOTE_SERVICE''))
        (Option.bind yaml (\<lambda>m. yaml_str m ''pin_remote_service''))"
proof -
  obtain p yaml where p: "select_config_path dirs args d = Inr p"
    and c: "c = resolve_config args d env p yaml"
    and y: "yaml = None \<longleftrightarrow> \<not> fs_exists F p w" "\<forall>m. yaml = Some m \<longrightarrow> load_yaml_mapping F Y p w = Inr m"
    by (rule from_args_cases [OF assms])
  show ?thesis
    unfolding c
    by (intro exI [of _ p] exI [of _ yaml] conjI resolved_fields resolved_optional_fields resolved_slug
        resolved_path p y)
qed

text \<open>The text without the passphrase does not depend on it, and reading it back gives the
  configuration without a passphrase and with everything else.\<close>

theorem passphrase_left_out:
  assumes "yaml_laws Y" and "config_ok c" and "to_yaml_string_without_passphrase Y c = Inr s"
  shows "(\<forall>q. to_yaml_string_without_passphrase Y (c\<lparr>cfg_secret_bundle_passphrase := q\<rparr>) = Inr s)
    \<and> (\<exists>m. yaml_from_str Y s = Inr (YMapping m) \<and> yaml_get m ''secret_bundle_passphrase'' = None)
    \<and> (\<exists>e. from_yaml_str Y s = Inr (c\<lparr>cfg_secret_bundle_passphrase := None,
          cfg_config_path := None, cfg_extra := e\<rparr>))"
proof -
  let ?c = "c\<lparr>cfg_secret_bundle_passphrase := None\<rparr>"
  have ok: "config_ok ?c" using assms(2) by (simp add: config_ok_def)
  have run: "to_yaml_string Y ?c = Inr s"
    using assms(3) by (simp add: to_yaml_string_without_passphrase_def)
  have "\<forall>q. to_yaml_string_without_passphrase Y (c\<lparr>cfg_secret_bundle_passphrase := q\<rparr>) = Inr s"
    using run by (simp add: to_yaml_string_without_passphrase_def)
  moreover have "yaml_get (to_yaml_mapping ?c) ''secret_bundle_passphrase'' = None"
    by (simp add: printed_lookup(10) [OF ok])
  moreover have "from_yaml_str Y s = Inr (c\<lparr>cfg_secret_bundle_passphrase := None,
      cfg_config_path := None,
      cfg_extra := fold im_remove (map YString taken_keys) (to_yaml_mapping ?c)\<rparr>)"
    using yaml_roundtrip [OF assms(1) ok run] printed_im_ok [OF ok]
    by (simp add: from_yaml_str_def from_yaml_mapping_eq config_of_printed [OF ok])
  ultimately show ?thesis using yaml_roundtrip [OF assms(1) ok run] by blast
qed

text \<open>Remote pinning is off, or it is refused because no service is named, or it names a
  service and a pin: the service is the configured one without surrounding white space and
  never blank, the name is the configured one unless that is blank, and then the caller's.\<close>

theorem remote_pin_config_spec:
  "case remote_pin_config_with_default_name c default_name of
     Inr None \<Rightarrow> \<not> cfg_pin_remote c
   | Inl e \<Rightarrow> cfg_pin_remote c \<and> map_option trim (cfg_pin_remote_service c) \<in> {None, Some []}
       \<and> e = ConfigError ''pin_remote requires pin_remote_service''
   | Inr (Some r) \<Rightarrow> cfg_pin_remote c \<and> rpc_overwrite r = cfg_pin_overwrite c
       \<and> map_option trim (cfg_pin_remote_service c) = Some (rpc_service r) \<and> rpc_service r \<noteq> []
       \<and> (map_option trim (cfg_pin_remote_name c) = Some (rpc_name r) \<and> rpc_name r \<noteq> []
          \<or> map_option trim (cfg_pin_remote_name c) \<in> {None, Some []} \<and> rpc_name r = default_name)"
  by (cases "cfg_pin_remote_service c"; cases "cfg_pin_remote_name c")
    (auto simp: remote_pin_config_with_default_name_def Let_def)

text \<open>The permission check warns exactly when the owner may read and write and somebody may do
  something else as well: a file that everyone can read, but its owner cannot write, passes.\<close>

theorem mode_warned_exact:
  "mode_warned m \<longleftrightarrow> m mod 128 \<noteq> 0 \<and> m div 128 mod 4 = 3"
proof -
  have "m mod 512 = m mod 128 + 128 * (m div 128 mod 4)"
    using mod_mult2_eq [of m 128 4] by simp
  moreover have "m mod 128 < 128" "m div 128 mod 4 < 4" by simp_all
  ultimately show ?thesis unfolding mode_warned_def MODE_0600_def by arith
qed

text \<open>A browser export gives back the bundle and survives JSON.\<close>

lemma browser_export_roundtrip:
  assumes "\<And>b. b64_decode B (b64_encode B b) = Inr b"
    and "\<And>e s. json_of_export B e = Inr s \<Longrightarrow> export_of_json B s = Inr e"
    and "export_to_json_string B (browser_export_new B y b) = Inr s"
  shows "\<exists>e. export_from_json_str B s = Inr e \<and> be_config_yaml e = y
    \<and> encrypted_secret_bundle_bytes B e = Inr b"
  using assms
  by (auto simp: export_to_json_string_def export_from_json_str_def browser_export_new_def
      encrypted_secret_bundle_bytes_def result_simps)

end
