(* ===== verification/SecretsProps.thy ===== *)
theory SecretsProps
  imports Secrets ConfigProps
begin

text \<open>
  What secret bundles do: the named keys form a map that never holds a reserved name, a
  bundle survives JSON, encryption and the disk, only what was sealed under the passphrase
  opens, and generated passphrases have 43 unbiased alphanumeric characters whenever the
  generator yields them.
\<close>

section \<open>What the packages promise\<close>

text \<open>
  Decoding undoes encoding; a map of keys comes back with the same entries in some order and
  without repeated names; a ciphertext opens, under the same key and nonce, to what was
  sealed, and nothing else opens.
\<close>

definition secret_laws :: "'z secret_lib_scheme \<Rightarrow> bool" where
  "secret_laws B \<longleftrightarrow>
     (\<forall>b. b64_decode B (b64_encode B b) = Inr b)
   \<and> (\<forall>w d. json_of_bundle B w = Inr d \<longrightarrow> im_ok (bj_extra w) \<longrightarrow>
        (\<exists>e. bundle_of_json B d = Inr (w\<lparr>bj_extra := e\<rparr>) \<and> mset e = mset (bj_extra w)))
   \<and> (\<forall>d w. bundle_of_json B d = Inr w \<longrightarrow> im_ok (bj_extra w))
   \<and> (\<forall>k n p c. chacha_encrypt B k n p = Inr c \<longleftrightarrow> chacha_decrypt B k n c = Some p)"

lemma secret_lawsD:
  assumes "secret_laws B"
  shows "b64_decode B (b64_encode B b) = Inr b"
    and "json_of_bundle B w = Inr d \<Longrightarrow> im_ok (bj_extra w) \<Longrightarrow>
      \<exists>e. bundle_of_json B d = Inr (w\<lparr>bj_extra := e\<rparr>) \<and> mset e = mset (bj_extra w)"
    and "bundle_of_json B d = Inr w \<Longrightarrow> im_ok (bj_extra w)"
    and "chacha_encrypt B k n p = Inr c \<longleftrightarrow> chacha_decrypt B k n c = Some p"
  using assms by (simp_all add: secret_laws_def)

section \<open>Named keys\<close>

definition standard_keys :: "secret_bundle \<Rightarrow> bytes list" where
  "standard_keys b = [sb_iroh_secret_key b, sb_ipns_secret_key b, sb_did_signing_key b,
     sb_did_encryption_key b]"

text \<open>Every key has 32 bytes, and no name is empty, reserved or used twice.\<close>

definition bundle_ok :: "secret_bundle \<Rightarrow> bool" where
  "bundle_ok b \<longleftrightarrow> list_all (\<lambda>k. length k = 32) (standard_keys b)
     \<and> im_ok (sb_extra_keys b)
     \<and> (\<forall>(n, k)\<in>set (sb_extra_keys b). validate_key_name n = Inr () \<and> length k = 32)"

lemma im_insert_set: "set (im_insert k v m) \<subseteq> insert (k, v) (set m)"
  by (induction k v m rule: im_insert.induct) auto

lemma im_remove_set: "set (im_remove k m) \<subseteq> set m"
  by (induction k m rule: im_remove.induct) (auto dest: in_set_butlastD)

lemma add_key_ok:
  assumes "bundle_ok b" and "length key = 32" and "add_key name key b = Inr b'"
  shows "bundle_ok b' \<and> get_key name b' = Some key \<and> standard_keys b' = standard_keys b
    \<and> (\<forall>n. n \<noteq> name \<longrightarrow> get_key n b' = get_key n b)"
  using assms im_insert_set [of name key "sb_extra_keys b"]
  by (fastforce simp: add_key_def bundle_ok_def get_key_def standard_keys_def im.ok_put im.get_put
      result_simps)

lemma remove_key_ok:
  assumes "bundle_ok b"
  shows "bundle_ok (snd (remove_key name b)) \<and> get_key name (snd (remove_key name b)) = None
    \<and> fst (remove_key name b) = get_key name b
    \<and> (\<forall>n. n \<noteq> name \<longrightarrow> get_key n (snd (remove_key name b)) = get_key n b)"
  using assms im_remove_set [of name "sb_extra_keys b"]
  by (fastforce simp: remove_key_def bundle_ok_def get_key_def standard_keys_def im.ok_del im.get_del)

text \<open>The keys of a bundle are a map with a guard: storing a 32-byte key under a free or used
  name makes it the key of that name and leaves all others and the four standard keys alone,
  an empty or reserved name is refused, removing returns the key and forgets it, and through
  all of it every key has 32 bytes and no name is empty or reserved.\<close>

theorem bundle_keys_invariant:
  assumes "bundle_ok b" and "length key = 32"
  shows "(case add_key name key b of
      Inr b' \<Rightarrow> name \<notin> set ([] # RESERVED) \<and> bundle_ok b' \<and> get_key name b' = Some key
        \<and> standard_keys b' = standard_keys b \<and> (\<forall>n. n \<noteq> name \<longrightarrow> get_key n b' = get_key n b)
    | Inl e \<Rightarrow> name \<in> set ([] # RESERVED))
    \<and> generate_key key name b = bindR (add_key name key b) (\<lambda>b'. Inr (key, b'))
    \<and> (case remove_key name b of (r, b') \<Rightarrow> r = get_key name b \<and> bundle_ok b'
        \<and> get_key name b' = None \<and> (\<forall>n. n \<noteq> name \<longrightarrow> get_key n b' = get_key n b))"
proof (intro conjI)
  show "case add_key name key b of
      Inr b' \<Rightarrow> name \<notin> set ([] # RESERVED) \<and> bundle_ok b' \<and> get_key name b' = Some key
        \<and> standard_keys b' = standard_keys b \<and> (\<forall>n. n \<noteq> name \<longrightarrow> get_key n b' = get_key n b)
    | Inl e \<Rightarrow> name \<in> set ([] # RESERVED)"
  proof (cases "add_key name key b")
    case (Inl e)
    then show ?thesis by (auto simp: add_key_def validate_key_name_def result_simps split: if_splits)
  next
    case (Inr b')
    moreover have "name \<notin> set ([] # RESERVED)"
      using Inr by (auto simp: add_key_def validate_key_name_def result_simps split: if_splits)
    ultimately show ?thesis using add_key_ok [OF assms Inr] by simp
  qed
  show "generate_key key name b = bindR (add_key name key b) (\<lambda>b'. Inr (key, b'))"
    by (simp add: generate_key_def add_key_def bindR_assoc)
  show "case remove_key name b of (r, b') \<Rightarrow> r = get_key name b \<and> bundle_ok b'
        \<and> get_key name b' = None \<and> (\<forall>n. n \<noteq> name \<longrightarrow> get_key n b' = get_key n b)"
    using remove_key_ok [OF assms(1), of name] by (simp add: split_beta)
qed

lemma generated_bundle_ok:
  "list_all (\<lambda>k. length k = 32) [draw_iroh r, draw_ipns r, draw_signing r, draw_encryption r] \<Longrightarrow>
     bundle_ok (bundle_generate L now r)"
  by (simp add: bundle_ok_def bundle_generate_def standard_keys_def)

section \<open>JSON and encryption\<close>

lemma im_insert_new: "k \<notin> fst ` set m \<Longrightarrow> im_insert k v m = m @ [(k, v)]"
  by (induction k v m rule: im_insert.induct) auto

lemma decode_key_encoded: "secret_laws B \<Longrightarrow> length k = 32 \<Longrightarrow> decode_key B (b64_encode B k) f = Inr k"
  by (simp add: decode_key_def secret_lawsD(1))

lemma decode_extra_encoded:
  assumes "secret_laws B"
  shows "\<forall>(n, k)\<in>set e. length k = 32 \<Longrightarrow> im_ok (m @ e) \<Longrightarrow>
    decode_extra B (map (\<lambda>(n, k). (n, b64_encode B k)) e) m = Inr (m @ e)"
proof (induction e arbitrary: m)
  case (Cons x e)
  obtain n k where x: "x = (n, k)" by (cases x)
  have "n \<notin> fst ` set m" using Cons.prems(2) by (auto simp: x im_ok_def)
  then show ?case
    using Cons.IH [of "m @ [(n, k)]"] Cons.prems
    by (simp add: x decode_key_encoded [OF assms] im_insert_new)
qed simp

text \<open>A permutation of an image under an invertible function is the image of a permutation.\<close>

lemma mset_map_inverse:
  assumes "mset xs = mset (map f ys)" and "\<And>y. g (f y) = y"
  shows "\<exists>zs. xs = map f zs \<and> mset zs = mset ys"
proof (intro exI conjI)
  show "mset (map g xs) = mset ys"
    by (simp add: assms(1) [unfolded mset_map] multiset.map_comp o_def assms(2))
  have "f (g x) = x" if "x \<in> set xs" for x
  proof -
    have "x \<in> set (map f ys)" using that assms(1) by (metis set_mset_mset)
    then show ?thesis using assms(2) by auto
  qed
  then show "xs = map f (map g xs)" by (simp add: map_idI o_def)
qed

lemma json_roundtrip:
  assumes "secret_laws B" and "bundle_ok b" and "to_json_bytes B b = Inr d"
  shows "\<exists>e. from_json_bytes B d = Inr (b\<lparr>sb_extra_keys := e\<rparr>) \<and> mset e = mset (sb_extra_keys b)"
proof -
  let ?f = "\<lambda>(n, k). (n, b64_encode B k)"
  let ?w = "\<lparr>bj_iroh = b64_encode B (sb_iroh_secret_key b), bj_ipns = b64_encode B (sb_ipns_secret_key b),
        bj_did_signing = b64_encode B (sb_did_signing_key b),
        bj_did_encryption = b64_encode B (sb_did_encryption_key b), bj_created_at = sb_created_at b,
        bj_extra = map ?f (sb_extra_keys b)\<rparr>"
  have j: "json_of_bundle B ?w = Inr d" using assms(3) by (simp add: to_json_bytes_def result_simps)
  have ok: "im_ok (sb_extra_keys b)" "list_all (\<lambda>k. length k = 32) (standard_keys b)"
    "\<forall>(n, k)\<in>set (sb_extra_keys b). length k = 32"
    using assms(2) by (auto simp: bundle_ok_def)
  have "im_ok (bj_extra ?w)" using ok(1) by (simp add: im_ok_def o_def split_beta)
  then obtain e where e: "bundle_of_json B d = Inr (?w\<lparr>bj_extra := e\<rparr>)"
    "mset e = mset (map ?f (sb_extra_keys b))"
    using secret_lawsD(2) [OF assms(1) j] by auto
  obtain e' where e': "e = map ?f e'" "mset e' = mset (sb_extra_keys b)"
    using mset_map_inverse [OF e(2), of "\<lambda>(n, s). (n, projr (b64_decode B s))"]
    by (auto simp: secret_lawsD(1) [OF assms(1)])
  have "set e' = set (sb_extra_keys b)" using e'(2) by (metis set_mset_mset)
  then have "decode_extra B e [] = Inr e'"
    using decode_extra_encoded [OF assms(1), of e' "[]"] ok im_ok_perm [OF e'(2)] e'(1) by simp
  then show ?thesis
    using e(1) e'(2) ok(2) decode_key_encoded [OF assms(1)]
    by (intro exI [of _ e']) (simp add: from_json_bytes_def standard_keys_def)
qed

lemma sealed_opens:
  assumes "secret_laws B" and "bundle_ok b" and "length salt = 16" "length nonce = 12"
    and "bundle_encrypt B salt nonce b pw = Inr blob"
  shows "\<exists>e. bundle_decrypt B blob pw = Inr (b\<lparr>sb_extra_keys := e\<rparr>) \<and> mset e = mset (sb_extra_keys b)"
proof -
  obtain key pt ct where k: "argon2id B (as_bytes pw) salt = Inr key"
    and j: "to_json_bytes B b = Inr pt" and c: "chacha_encrypt B key nonce pt = Inr ct"
    and blob: "blob = salt @ nonce @ ct"
    using assms(5) by (auto simp: bundle_encrypt_def result_simps)
  have "chacha_decrypt B key nonce ct = Some pt" using secret_lawsD(4) [OF assms(1)] c by blast
  then show ?thesis
    using json_roundtrip [OF assms(1,2) j] k assms(3,4)
    by (simp add: bundle_decrypt_def blob Let_def)
qed

text \<open>A bundle saved to disk, loaded from any later disk on which the file is unchanged.\<close>

lemma saved_bundle_loads:
  assumes "secret_laws B" and F: "secure_fs_laws F" and "bundle_ok b"
    and "length salt = 16" "length nonce = 12"
    and run: "bundle_save F B salt nonce path pw b w = (Inr (), w')"
    and later: "fs_read F path w'' = fs_read F path w'"
  shows "\<exists>e. bundle_load F B path pw w'' = Inr (b\<lparr>sb_extra_keys := e\<rparr>) \<and> mset e = mset (sb_extra_keys b)"
proof -
  obtain blob where blob: "bundle_encrypt B salt nonce b pw = Inr blob"
    and wr: "write_secure F path blob w = (Inr (), w')"
    using run by (auto simp: bundle_save_def io_simps)
  show ?thesis
    using sealed_opens [OF assms(1,3-5) blob] secure_write_result(2) [OF F wr] later
    by (simp add: bundle_load_def)
qed

text \<open>C20: A bundle that was saved under a passphrase is loaded back with that passphrase: all four
  keys, the creation time and every named key, from a file that only its owner can read and
  write, and no other file was touched.\<close>

theorem bundle_save_load:
  assumes "secret_laws B" and "secure_fs_laws F" and "bundle_ok b"
    and "length salt = 16" and "length nonce = 12"
    and "bundle_save F B salt nonce path pw b w = (Inr (), w')"
  shows "(\<exists>e. bundle_load F B path pw w' = Inr (b\<lparr>sb_extra_keys := e\<rparr>)
        \<and> mset e = mset (sb_extra_keys b))
    \<and> fs_mode F path w' = Some MODE_0600 \<and> (\<forall>q. q \<noteq> path \<longrightarrow> fs_read F q w' = fs_read F q w)"
proof -
  obtain blob where wr: "write_secure F path blob w = (Inr (), w')"
    using assms(6) by (auto simp: bundle_save_def io_simps)
  have "fs_read F q w' = fs_read F q w" if "q \<noteq> path" for q
    using secure_write_others(1) [OF assms(2) that, of blob w] wr by simp
  then show ?thesis
    using saved_bundle_loads [OF assms refl] secure_write_result(3) [OF assms(2) wr] by blast
qed

lemma decode_key_length: "decode_key B s f = Inr k \<Longrightarrow> length k = 32"
  by (auto simp: decode_key_def result_simps split: if_splits)

lemma decode_extra_lengths:
  "decode_extra B es m = Inr m' \<Longrightarrow> \<forall>k\<in>snd ` set m. length k = 32 \<Longrightarrow> \<forall>k\<in>snd ` set m'. length k = 32"
proof (induction B es m rule: decode_extra.induct)
  case (2 B name val es m)
  then obtain k where k: "decode_key B val name = Inr k" "decode_extra B es (im_insert name k m) = Inr m'"
    by (auto simp: result_simps)
  have "\<forall>k\<in>snd ` set (im_insert name k m). length k = 32"
    using im_insert_set [of name k m] 2(3) decode_key_length [OF k(1)] by fastforce
  then show ?case using 2(1) [OF k(2)] by blast
qed simp

text \<open>C19: A blob opens under a passphrase only if it is what sealing under that passphrase with the
  blob's own salt and nonce produces; then every key in it has 32 bytes. The error says why
  it does not open: a blob shorter than salt and nonce is too short; a failure of the key
  derivation is passed on; a blob whose ciphertext is not the sealing of anything under the
  derived key fails with one and the same error, whatever the blob and the passphrase; and
  otherwise the plaintext that was sealed is not a bundle, and the error is the reader's.\<close>

theorem bundle_decrypt_sound:
  assumes "secret_laws B"
  shows "case bundle_decrypt B data pw of
      Inr b \<Rightarrow> (\<exists>key pt ct. 28 \<le> length data \<and> data = take 16 data @ take 12 (drop 16 data) @ ct
          \<and> argon2id B (as_bytes pw) (take 16 data) = Inr key
          \<and> chacha_encrypt B key (take 12 (drop 16 data)) pt = Inr ct
          \<and> from_json_bytes B pt = Inr b)
        \<and> list_all (\<lambda>k. length k = 32) (standard_keys b @ map snd (sb_extra_keys b))
    | Inl e \<Rightarrow>
        if length data < 28 then e = SecretsError ''secret bundle too short''
        else (case argon2id B (as_bytes pw) (take 16 data) of
            Inl x \<Rightarrow> e = SecretsError x
          | Inr key \<Rightarrow>
              (\<exists>pt. chacha_encrypt B key (take 12 (drop 16 data)) pt = Inr (drop 28 data)
                 \<and> from_json_bytes B pt = Inl e)
              \<or> e = SecretsError ''decryption failed (wrong passphrase?)''
                 \<and> (\<nexists>pt. chacha_encrypt B key (take 12 (drop 16 data)) pt = Inr (drop 28 data)))"
proof (cases "bundle_decrypt B data pw")
  case (Inl e)
  then show ?thesis using secret_lawsD(4) [OF assms]
    by (auto simp: bundle_decrypt_def Let_def ok_or_def split: if_splits sum.splits option.splits)
next
  case (Inr b)
  then obtain key pt where l: "28 \<le> length data"
    and k: "argon2id B (as_bytes pw) (take 16 data) = Inr key"
    and c: "chacha_decrypt B key (take 12 (drop 16 data)) (drop 28 data) = Some pt"
    and j: "from_json_bytes B pt = Inr b"
    by (auto simp: bundle_decrypt_def Let_def result_simps split: if_splits)
  have split: "data = take 16 data @ take 12 (drop 16 data) @ drop 28 data"
    using append_take_drop_id [of 12 "drop 16 data"] by (simp add: drop_drop)
  have "list_all (\<lambda>k. length k = 32) (standard_keys b @ map snd (sb_extra_keys b))"
    using j decode_extra_lengths [of B _ "[]"]
    by (fastforce simp: from_json_bytes_def result_simps standard_keys_def list_all_iff
        dest: decode_key_length)
  then show ?thesis
    using Inr l k c j split secret_lawsD(4) [OF assms] by (simp, blast)
qed

section \<open>Passphrases\<close>

text \<open>The characters that the accepted bytes of a stretch of randomness stand for.\<close>

definition chars_of :: "bytes \<Rightarrow> string" where
  "chars_of bs = map (\<lambda>b. CHARSET ! (unat b mod 62)) (filter (\<lambda>b. b < ACCEPT_BELOW) bs)"

lemma chars_of_append [simp]: "chars_of (a @ b) = chars_of a @ chars_of b"
  by (simp add: chars_of_def)

lemma scan_block_spec:
  "length r < 43 \<Longrightarrow> scan_block bs r =
     (if 43 \<le> length (r @ chars_of bs) then Inl (take 43 (r @ chars_of bs)) else Inr (r @ chars_of bs))"
  by (induction bs r rule: scan_block.induct) (auto simp: chars_of_def Let_def)

definition drawn :: "(nat \<Rightarrow> bytes) \<Rightarrow> nat \<Rightarrow> nat \<Rightarrow> string" where
  "drawn blocks i n = chars_of (concat (map blocks [i..<i + n]))"

lemma drawn_Suc: "drawn blocks i (Suc n) = chars_of (blocks i) @ drawn blocks (Suc i) n"
  by (simp add: drawn_def upt_conv_Cons del: upt_Suc)

lemma passphrase_loop_returns:
  "length r < 43 \<Longrightarrow> 43 \<le> length (r @ drawn blocks i n) \<Longrightarrow>
     passphrase_loop blocks i r = Some (take 43 (r @ drawn blocks i n))"
proof (induction n arbitrary: i r)
  case 0
  then show ?case by (simp add: drawn_def chars_of_def)
next
  case (Suc n)
  show ?case
  proof (cases "43 \<le> length (r @ chars_of (blocks i))")
    case True
    then show ?thesis
      using Suc.prems(1)
      by (subst passphrase_loop.simps) (simp add: scan_block_spec drawn_Suc)
  next
    case False
    then show ?thesis
      using Suc.IH [of "r @ chars_of (blocks i)" "Suc i"] Suc.prems
      by (subst passphrase_loop.simps) (simp add: scan_block_spec drawn_Suc)
  qed
qed

lemma passphrase_loop_result:
  "passphrase_loop blocks i r = Some p \<Longrightarrow> length r < 43 \<longrightarrow>
     (\<exists>n. 43 \<le> length (r @ drawn blocks i n) \<and> p = take 43 (r @ drawn blocks i n))"
proof (induction rule: passphrase_loop.raw_induct [rotated, consumes 1, case_names step])
  case (step loop blocks i r p)
  show ?case
  proof (rule impI)
    assume r: "length r < 43"
    show "\<exists>n. 43 \<le> length (r @ drawn blocks i n) \<and> p = take 43 (r @ drawn blocks i n)"
    proof (cases "43 \<le> length (r @ chars_of (blocks i))")
      case True
      then have "p = take 43 (r @ drawn blocks i 1)" "drawn blocks i 1 = chars_of (blocks i)"
        using step(2) r by (simp_all add: scan_block_spec drawn_def)
      then show ?thesis using True by (intro exI [of _ 1]) simp
    next
      case False
      then have "loop blocks (Suc i) (r @ chars_of (blocks i)) = Some p"
        using step(2) r by (simp add: scan_block_spec)
      then obtain n where n: "43 \<le> length ((r @ chars_of (blocks i)) @ drawn blocks (Suc i) n)"
        "p = take 43 ((r @ chars_of (blocks i)) @ drawn blocks (Suc i) n)"
        using step(1) False by fastforce
      then show ?thesis by (intro exI [of _ "Suc n"]) (simp add: drawn_Suc)
    qed
  qed
qed

lemma generate_passphrase_iff:
  "generate_passphrase blocks = Some p \<longleftrightarrow>
     (\<exists>n. 43 \<le> length (drawn blocks 0 n) \<and> p = take 43 (drawn blocks 0 n))"
  unfolding generate_passphrase_def
  using passphrase_loop_result [of blocks 0 "[]" p] passphrase_loop_returns [of "[]" blocks 0] by auto

text \<open>C30: The generator returns exactly when some finite number of random blocks holds 43 bytes
  below the limit, and then the passphrase is the first 43 characters those bytes stand for:
  looping over blocks and leaving in the middle of one is the same as mapping and filtering
  the whole stream.\<close>

theorem passphrase_equals_reference:
  "generate_passphrase blocks = Some p \<longleftrightarrow>
     (\<exists>n. let s = chars_of (concat (map blocks [0..<n])) in 43 \<le> length s \<and> p = take 43 s)"
  unfolding generate_passphrase_iff by (simp add: drawn_def Let_def)

lemma CHARSET_length: "length CHARSET = 62"
  by (simp add: CHARSET_def)

lemma CHARSET_alphanumeric: "list_all is_ascii_alphanumeric CHARSET"
  by code_simp

lemma chars_of_alphanumeric: "list_all is_ascii_alphanumeric (chars_of bs)"
  using CHARSET_alphanumeric by (auto simp: chars_of_def list_all_iff CHARSET_length)

text \<open>C31: If every block holds at least one acceptable byte, generation ends, and the passphrase
  has 43 characters, all letters or digits.\<close>

theorem passphrase_terminates:
  assumes "\<And>i. \<exists>b\<in>set (blocks i). b < ACCEPT_BELOW"
  shows "\<exists>p. generate_passphrase blocks = Some p \<and> length p = 43 \<and> list_all is_ascii_alphanumeric p"
proof -
  have "n \<le> length (drawn blocks i n)" for n i
  proof (induction n arbitrary: i)
    case (Suc n)
    have "chars_of (blocks i) \<noteq> []"
      using assms [of i] by (auto simp: chars_of_def filter_empty_conv)
    then have "1 \<le> length (chars_of (blocks i))" by (cases "chars_of (blocks i)") simp_all
    then show ?case using Suc.IH [of "Suc i"] by (simp add: drawn_Suc)
  qed simp
  then have l: "43 \<le> length (drawn blocks 0 43)" .
  then have "generate_passphrase blocks = Some (take 43 (drawn blocks 0 43))"
    unfolding generate_passphrase_iff by blast
  moreover have "list_all is_ascii_alphanumeric (take 43 (drawn blocks 0 43))"
    using chars_of_alphanumeric by (auto simp: drawn_def list_all_iff dest: in_set_takeD)
  ultimately show ?thesis using l by simp
qed

text \<open>No character is favoured: each of the 62 stands for exactly four of the accepted bytes.\<close>

theorem passphrase_unbiased:
  "list_all (\<lambda>c. count_list (map (\<lambda>b. CHARSET ! (b mod 62)) [0..<unat ACCEPT_BELOW]) c = 4) CHARSET"
proof -
  have "map (\<lambda>b. CHARSET ! (b mod 62)) [0..<unat ACCEPT_BELOW] = CHARSET @ CHARSET @ CHARSET @ CHARSET"
    by code_simp
  moreover have "list_all (\<lambda>c. count_list CHARSET c = 1) CHARSET"
    by code_simp
  ultimately show ?thesis by (auto simp: list_all_iff)
qed

end
