(* ===== verification/Headless.thy ===== *)
theory Headless
  imports SecretsProps
begin

text \<open>
  \<open>Config::gen_headless\<close> (\<^verbatim>\<open>config/mod.rs\<close>): a fresh bundle, sealed under a given or generated
  passphrase, and the configuration that names both. The two printed lines are not
  modelled.
\<close>

text \<open>What one call draws: four keys, a salt, a nonce, and the blocks of the passphrase.\<close>

record headless_draw =
  hd_keys :: bundle_draw
  hd_salt :: bytes
  hd_nonce :: bytes
  hd_blocks :: "nat \<Rightarrow> bytes"

text \<open>The paths, and the checks that neither file exists.\<close>

definition headless_paths :: "('w, 'x) secure_fs_scheme \<Rightarrow> project_dirs option \<Rightarrow> ma_args \<Rightarrow> string \<Rightarrow>
    'w \<Rightarrow> (string \<times> string) result" where
  "headless_paths F dirs args slug w =
     bindR (case arg_config args of Some p \<Rightarrow> Inr p | None \<Rightarrow> default_config_path dirs slug) (\<lambda>config_path.
     bindR (case arg_secret_bundle args of Some p \<Rightarrow> Inr p | None \<Rightarrow> default_secret_bundle_path dirs slug)
       (\<lambda>bundle_path.
     if fs_exists F config_path w
     then Inl (ConfigError (''config file already exists: '' @ config_path
            @ '' (remove it first or use --config)''))
     else if fs_exists F bundle_path w
     then Inl (ConfigError (''secret bundle already exists: '' @ bundle_path
            @ '' (remove it first or use --secret-bundle)''))
     else Inr (config_path, bundle_path)))"

definition headless_config :: "string \<Rightarrow> string \<Rightarrow> string \<Rightarrow> string \<Rightarrow> config" where
  "headless_config slug config_path bundle_path passphrase =
     \<lparr>cfg_slug = slug, cfg_log_level = DEFAULT_LOG_LEVEL,
      cfg_log_level_stdout = DEFAULT_LOG_LEVEL_STDOUT,
      cfg_did_resolver_positive_ttl_secs = DEFAULT_DID_RESOLVER_POSITIVE_TTL_SECS,
      cfg_did_resolver_negative_ttl_secs = DEFAULT_DID_RESOLVER_NEGATIVE_TTL_SECS,
      cfg_log_file = None, cfg_kubo_rpc_url = DEFAULT_KUBO_RPC_URL, cfg_kubo_key_alias = slug,
      cfg_secret_bundle = Some bundle_path, cfg_secret_bundle_passphrase = Some passphrase,
      cfg_config_path = Some config_path, cfg_pin_remote = False, cfg_pin_remote_service = None,
      cfg_pin_remote_name = None, cfg_pin_overwrite = True, cfg_extra = []\<rparr>"

text \<open>\<open>None\<close> is a call that never returns, because the passphrase generator does not.\<close>

definition gen_headless :: "('w, 'x) secure_fs_scheme \<Rightarrow> 'y yaml_lib_scheme \<Rightarrow> 'z secret_lib_scheme \<Rightarrow>
    'l doc_lib_scheme \<Rightarrow> project_dirs option \<Rightarrow> clock \<Rightarrow> headless_draw \<Rightarrow> ma_args \<Rightarrow> string \<Rightarrow>
    'w \<Rightarrow> (unit result \<times> 'w) option" where
  "gen_headless F Y B L dirs now r args default_slug w =
     (let slug = unwrap_or (arg_slug args) default_slug in
      case headless_paths F dirs args slug w of
        Inl e \<Rightarrow> Some (Inl e, w)
      | Inr (config_path, bundle_path) \<Rightarrow>
          map_option (\<lambda>passphrase.
              io_bind (bundle_save F B (hd_salt r) (hd_nonce r) bundle_path passphrase
                         (bundle_generate L now (hd_keys r)))
                (\<lambda>_. config_save F Y (headless_config slug config_path bundle_path passphrase)) w)
            (case arg_secret_bundle_passphrase args of
               Some p \<Rightarrow> Some p
             | None \<Rightarrow> generate_passphrase (hd_blocks r)))"

section \<open>Properties\<close>

lemma headless_paths_fresh:
  "headless_paths F dirs args slug w = Inr (cp, bp) \<Longrightarrow> \<not> fs_exists F cp w \<and> \<not> fs_exists F bp w"
  by (auto simp: headless_paths_def result_simps split: if_splits)

lemma gen_headless_success:
  assumes "gen_headless F Y B L dirs now r args d w = Some (Inr (), w')"
  obtains cp bp pw w1 where "headless_paths F dirs args (unwrap_or (arg_slug args) d) w = Inr (cp, bp)"
    "bundle_save F B (hd_salt r) (hd_nonce r) bp pw (bundle_generate L now (hd_keys r)) w = (Inr (), w1)"
    "config_save F Y (headless_config (unwrap_or (arg_slug args) d) cp bp pw) w1 = (Inr (), w')"
  using assms
  by (auto simp: gen_headless_def Let_def io_bind_iff split: sum.splits prod.splits)

text \<open>Paths that were not given differ: one ends in \<open>.yaml\<close>, the other in \<open>.bin\<close>.\<close>

lemma path_join_suffix: "p \<noteq> [] \<Longrightarrow> suffix p (path_join base p)"
  by (auto simp: path_join_def suffix_def)

lemma default_paths_differ:
  assumes "default_config_path dirs slug = Inr c" and "default_secret_bundle_path dirs slug = Inr b"
  shows "c \<noteq> b"
proof -
  have "last c = CHR ''l''" "last b = CHR ''n''"
    using assms
    by (auto simp: default_config_path_def default_secret_bundle_path_def path_join_def result_simps)
  then show ?thesis by auto
qed

lemma headless_paths_differ:
  assumes "headless_paths F dirs args slug w = Inr (cp, bp)"
    and "arg_config args = None \<and> arg_secret_bundle args = None \<or> cp \<noteq> bp"
  shows "cp \<noteq> bp"
  using assms default_paths_differ [of dirs slug cp bp]
  by (auto simp: headless_paths_def result_simps split: if_splits)

text \<open>C16: When the headless bootstrap succeeds and neither path was given, or its two paths differ,
  the daemon can start from the files it left: resolving a configuration from the
  configuration file alone gives the slug, the path of the bundle and the passphrase, no
  permission warning is due, and loading the bundle from that path with that passphrase gives
  exactly the keys that were drawn. Neither file existed before, and no other file was
  touched. (One path given can be the default of the other; then the configuration overwrites
  the bundle: \<open>headless_same_path_clobbers\<close>.)\<close>

theorem headless_bootstrap_usable:
  assumes "secure_fs_laws F" and "yaml_laws Y" and "secret_laws B"
    and "bundle_ok (bundle_generate L now (hd_keys r))"
    and "length (hd_salt r) = 16" and "length (hd_nonce r) = 12"
    and "gen_headless F Y B L dirs now r args d w = Some (Inr (), w')"
    and "headless_paths F dirs args (unwrap_or (arg_slug args) d) w = Inr (cp, bp)"
    and "arg_config args = None \<and> arg_secret_bundle args = None \<or> cp \<noteq> bp"
  shows "\<exists>c pw. from_args F Y (\<lambda>_. None) dirs' (ma_args_default\<lparr>arg_config := Some cp\<rparr>) d' w' =
        Inr (c, False)
    \<and> cfg_slug c = unwrap_or (arg_slug args) d
    \<and> cfg_secret_bundle c = Some bp \<and> cfg_secret_bundle_passphrase c = Some pw
    \<and> bundle_load F B bp pw w' = Inr (bundle_generate L now (hd_keys r))
    \<and> \<not> fs_exists F cp w \<and> \<not> fs_exists F bp w
    \<and> (\<forall>q. q \<noteq> cp \<longrightarrow> q \<noteq> bp \<longrightarrow> fs_read F q w' = fs_read F q w)"
proof -
  let ?b = "bundle_generate L now (hd_keys r)"
  let ?slug = "unwrap_or (arg_slug args) d"
  have ne: "cp \<noteq> bp" by (rule headless_paths_differ [OF assms(8,9)])
  obtain pw w1 where s1: "bundle_save F B (hd_salt r) (hd_nonce r) bp pw ?b w = (Inr (), w1)"
    and s2: "config_save F Y (headless_config ?slug cp bp pw) w1 = (Inr (), w')"
    using gen_headless_success [OF assms(7)] assms(8) by (metis Inr_inject prod.inject)
  let ?c = "headless_config ?slug cp bp pw"
  have ok: "config_ok ?c" and p: "cfg_config_path ?c = Some cp"
    by (simp_all add: config_ok_def yaml_ok_mapping headless_config_def)
  obtain content where wr2: "write_secure F cp content w1 = (Inr (), w')"
    using s2 by (auto simp: config_save_def p io_simps)
  obtain blob where wr1: "write_secure F bp blob w = (Inr (), w1)"
    using s1 by (auto simp: bundle_save_def io_simps)
  have "fs_read F bp w' = fs_read F bp w1"
    using secure_write_others(1) [OF assms(1), of bp cp content w1] ne wr2 by simp
  then obtain e where e: "bundle_load F B bp pw w' = Inr (?b\<lparr>sb_extra_keys := e\<rparr>)"
      "mset e = mset (sb_extra_keys ?b)"
    using saved_bundle_loads [OF assms(3,1,4-6) s1] by blast
  have "?b\<lparr>sb_extra_keys := e\<rparr> = ?b" using e(2) by (simp add: bundle_generate_def)
  then have load: "bundle_load F B bp pw w' = Inr ?b" using e(1) by simp
  have start: "from_args F Y (\<lambda>_. None) dirs' (ma_args_default\<lparr>arg_config := Some cp\<rparr>) d' w' =
      Inr (?c\<lparr>cfg_extra := fold im_remove (map YString known_keys) (to_yaml_mapping ?c)\<rparr>, False)"
    using secure_write_result(1) [OF assms(1) wr2]
    by (intro saved_then_loaded [OF assms(2,1) ok p s2]) simp_all
  have others: "fs_read F q w' = fs_read F q w" if "q \<noteq> cp" "q \<noteq> bp" for q
    using secure_write_others(1) [OF assms(1) that(1), of content w1]
      secure_write_others(1) [OF assms(1) that(2), of blob w] wr1 wr2 by simp
  show ?thesis
    using start load headless_paths_fresh [OF assms(8)] others
    by (intro exI conjI) (assumption | simp add: headless_config_def)+
qed

text \<open>The bootstrap refuses to overwrite: when either file exists it fails and changes
  nothing on disk.\<close>

theorem headless_never_overwrites:
  "case headless_paths F dirs args (unwrap_or (arg_slug args) d) w of
     Inl e \<Rightarrow> gen_headless F Y B L dirs now r args d w = Some (Inl e, w)
   | Inr (cp, bp) \<Rightarrow> \<not> fs_exists F cp w \<and> \<not> fs_exists F bp w"
  using headless_paths_fresh
  by (fastforce simp: gen_headless_def Let_def split: sum.splits prod.splits)

text \<open>
  When the two paths are the same (both given, or one given as the default of the other), the
  configuration is written over the bundle that was just saved: the checks pass, the call
  succeeds, and the keys are gone.
\<close>

lemma headless_same_path_clobbers:
  assumes "secure_fs_laws F"
    and "gen_headless F Y B L dirs now r args d w = Some (Inr (), w')"
    and "headless_paths F dirs args (unwrap_or (arg_slug args) d) w = Inr (p, p)"
  shows "\<exists>pw s. to_yaml_string Y (headless_config (unwrap_or (arg_slug args) d) p p pw) = Inr s
    \<and> fs_read F p w' = Inr (as_bytes s)"
proof -
  obtain cp bp pw w1 where "headless_paths F dirs args (unwrap_or (arg_slug args) d) w = Inr (cp, bp)"
    and c: "config_save F Y (headless_config (unwrap_or (arg_slug args) d) cp bp pw) w1 = (Inr (), w')"
    by (rule gen_headless_success [OF assms(2)])
  then have "cp = p" "bp = p" using assms(3) by auto
  with c obtain s where "to_yaml_string Y (headless_config (unwrap_or (arg_slug args) d) p p pw) = Inr s"
    "write_secure F p (as_bytes s) w1 = (Inr (), w')"
    by (auto simp: config_save_def headless_config_def io_simps)
  then show ?thesis using secure_write_result(2) [OF assms(1)] by blast
qed

end
