(* ===== verification/ConfigDemo.thy ===== *)
theory ConfigDemo
  imports ConfigProps Multiformat
begin

text \<open>
  Concrete packages that keep the laws of \<^verbatim>\<open>ConfigProps\<close>, and the witnesses of its properties:
  a printer of flat YAML mappings as hexadecimal text, and a disk that is a map from paths
  to contents and modes.
\<close>

section \<open>A YAML package\<close>

fun put_scalar :: "yaml \<Rightarrow> bytes" where
  "put_scalar (YString s) = 0 # put_string s"
| "put_scalar (YBool b) = [1, if b then 1 else 0]"
| "put_scalar (YNumber (YInt i)) = 2 # put_nat (nat i)"
| "put_scalar v = []"

fun scalar :: "yaml \<Rightarrow> bool" where
  "scalar (YString s) = True"
| "scalar (YBool b) = True"
| "scalar (YNumber (YInt i)) = (0 \<le> i)"
| "scalar v = False"

definition get_scalar :: "bytes \<Rightarrow> (yaml \<times> bytes) option" where
  "get_scalar b =
     (case b of
        [] \<Rightarrow> None
      | x # r \<Rightarrow>
          if x = 0 then map_option (\<lambda>(s, r). (YString s, r)) (get_string r)
          else if x = 1 then (case r of [] \<Rightarrow> None | y # r \<Rightarrow> Some (YBool (y = 1), r))
          else map_option (\<lambda>(n, r). (YNumber (YInt (int n)), r)) (get_nat r))"

lemma get_put_scalar [simp]: "scalar v \<Longrightarrow> get_scalar (put_scalar v @ r) = Some (v, r)"
  by (induction v rule: scalar.induct) (simp_all add: get_scalar_def)

definition put_entry :: "yaml \<times> yaml \<Rightarrow> bytes" where
  "put_entry e = put_scalar (fst e) @ put_scalar (snd e)"

definition get_entry :: "bytes \<Rightarrow> ((yaml \<times> yaml) \<times> bytes) option" where
  "get_entry b = Option.bind (get_scalar b) (\<lambda>(k, r). map_option (\<lambda>(v, r). ((k, v), r)) (get_scalar r))"

definition flat :: "yaml_map \<Rightarrow> bool" where
  "flat m \<longleftrightarrow> list_all (\<lambda>e. scalar (fst e) \<and> scalar (snd e)) m"

lemma get_put_entries:
  assumes "flat m"
  shows "get_list get_entry (put_list put_entry m @ r) = Some (m, r)"
proof -
  have "get_many get_entry (length m) (concat (map put_entry m) @ r) = Some (m, r)"
    using assms by (induction m) (simp_all add: flat_def get_entry_def put_entry_def)
  then show ?thesis by (simp add: get_list_def put_list_def)
qed

definition demo_yaml :: yaml_lib where
  "demo_yaml =
     \<lparr>yaml_from_str = (\<lambda>s.
        case Option.bind (hex_decode_pairs s) (get_list get_entry) of
          Some (m, _) \<Rightarrow> if yaml_ok (YMapping m) then Inr (YMapping m) else Inl ''duplicate key''
        | None \<Rightarrow> Inl ''bad document''),
      yaml_to_string = (\<lambda>v.
        case v of
          YMapping m \<Rightarrow> if flat m then Inr (hex_encode (put_list put_entry m)) else Inl ''unsupported''
        | _ \<Rightarrow> Inl ''unsupported'')\<rparr>"

lemma valid_utf8_ascii: "list_all (\<lambda>b. b < 0x80) s \<Longrightarrow> valid_utf8 s"
  by (induction s) simp_all

lemma ascii_byte: "is_ascii_hexdigit c \<Longrightarrow> (of_char c :: u8) < 0x80"
  by (cases c rule: char.exhaust)
    (auto simp: is_ascii_hexdigit_def is_ascii_digit_def code_def word_less_nat_alt)

lemma valid_utf8_hex: "valid_utf8 (as_bytes (hex_encode b))"
  using hex_encode_hexdigits [of b]
  by (intro valid_utf8_ascii) (auto simp: as_bytes_def list_all_iff ascii_byte)

lemma demo_yaml_laws: "yaml_laws demo_yaml"
proof -
  have "yaml_ok v" if "yaml_from_str demo_yaml s = Inr v" for s v
    using that by (auto simp: demo_yaml_def split: option.splits if_splits)
  moreover have "yaml_from_str demo_yaml s = Inr v \<and> valid_utf8 (as_bytes s)"
    if ok: "yaml_ok v" and s: "yaml_to_string demo_yaml v = Inr s" for v s
  proof -
    obtain m where v: "v = YMapping m" and m: "flat m" "s = hex_encode (put_list put_entry m)"
      using s by (auto simp: demo_yaml_def split: yaml.splits if_splits)
    have "get_list get_entry (put_list put_entry m) = Some (m, [])"
      using get_put_entries [OF m(1), of "[]"] by simp
    then show ?thesis
      using ok by (simp add: demo_yaml_def v m(2) hex_roundtrip valid_utf8_hex)
  qed
  ultimately show ?thesis unfolding yaml_laws_def by blast
qed

section \<open>A disk\<close>

definition demo_secure_fs :: "demo_disk secure_fs" where
  "demo_secure_fs = fs_lib.extend demo_fs
     (secure_fs.fields
        (\<lambda>p m w. (Inr (), w(p \<mapsto> ([], case w p of None \<Rightarrow> m | Some (_, m') \<Rightarrow> m'))))
        (\<lambda>p b w. case w p of None \<Rightarrow> (Inl ''No such file or directory'', w)
           | Some (_, m) \<Rightarrow> (Inr (), w(p \<mapsto> (b, m)))))"

lemma demo_secure_fields [simp]:
  "fs_exists demo_secure_fs = (\<lambda>p w. w p \<noteq> None)"
  "fs_read demo_secure_fs =
     (\<lambda>p w. case w p of None \<Rightarrow> Inl ''No such file or directory'' | Some (b, _) \<Rightarrow> Inr b)"
  "fs_create_dir_all demo_secure_fs = (\<lambda>p w. (Inr (), w))"
  "fs_set_mode demo_secure_fs = (\<lambda>p m w. case w p of None \<Rightarrow> (Inl ''No such file or directory'', w)
        | Some (b, _) \<Rightarrow> (Inr (), w(p \<mapsto> (b, m))))"
  "fs_mode demo_secure_fs = (\<lambda>p w. map_option snd (w p))"
  "fs_open_truncate demo_secure_fs =
     (\<lambda>p m w. (Inr (), w(p \<mapsto> ([], case w p of None \<Rightarrow> m | Some (_, m') \<Rightarrow> m'))))"
  "fs_write_all demo_secure_fs = (\<lambda>p b w. case w p of None \<Rightarrow> (Inl ''No such file or directory'', w)
           | Some (_, m) \<Rightarrow> (Inr (), w(p \<mapsto> (b, m))))"
  by (simp_all add: demo_secure_fs_def fs_lib.defs secure_fs.defs demo_fs_def)

lemma demo_secure_laws: "secure_fs_laws demo_secure_fs"
  unfolding secure_fs_laws_def
proof (intro conjI)
  show "fs_laws demo_secure_fs"
    using demo_fs_laws
    by (simp add: fs_laws_def demo_secure_fs_def fs_lib.defs secure_fs.defs demo_fs_def)
qed (auto split: option.splits prod.splits)

text \<open>On this disk a secure write always succeeds.\<close>

lemma demo_secure_write:
  "\<exists>w'. write_secure demo_secure_fs p data w = (Inr (), w')"
  by (cases "fs_parent demo_secure_fs p"; cases "w p")
    (simp_all add: write_secure_def io_bind_def io_map_err_def io_ret_def)

section \<open>Witnesses\<close>

definition demo_config :: config where
  "demo_config = (new_for_storage ''ma'')
     \<lparr>cfg_config_path := Some ''/c.yaml'', cfg_secret_bundle_passphrase := Some ''pw''\<rparr>"

lemma no_extra_ok: "cfg_extra c = [] \<Longrightarrow> config_ok c"
  by (simp add: config_ok_def yaml_ok_mapping)

lemma demo_config_ok: "config_ok demo_config"
  by (rule no_extra_ok) (simp add: demo_config_def new_for_storage_def)

lemma flat_insert: "flat m \<Longrightarrow> scalar k \<Longrightarrow> scalar v \<Longrightarrow> flat (im_insert k v m)"
  by (induction k v m rule: im_insert.induct) (auto simp: flat_def)

lemma flat_puts:
  "flat m \<Longrightarrow> flat es \<Longrightarrow> flat (fold (\<lambda>(k, v). im_insert k v) es m)"
proof (induction es arbitrary: m)
  case (Cons e es)
  have "flat (im_insert (fst e) (snd e) m)"
    using Cons.prems by (intro flat_insert) (simp_all add: flat_def)
  then show ?case using Cons by (simp add: split_beta flat_def)
qed simp

lemma demo_prints: "flat (cfg_extra c) \<Longrightarrow> \<exists>s. to_yaml_string demo_yaml c = Inr s"
proof -
  assume "flat (cfg_extra c)"
  moreover have "flat (known_entries c)"
    by (simp add: flat_def known_entries_def opt_entry_def split: option.split)
  ultimately have "flat (to_yaml_mapping c)" by (simp add: to_yaml_mapping_def flat_puts)
  then show ?thesis by (simp add: to_yaml_string_def demo_yaml_def)
qed

lemma demo_config_prints: "\<exists>s. to_yaml_string demo_yaml demo_config = Inr s"
  by (rule demo_prints) (simp add: demo_config_def new_for_storage_def flat_def)

theorem config_yaml_roundtrip_witness:
  "\<exists>s e. to_yaml_string demo_yaml demo_config = Inr s
    \<and> from_yaml_str demo_yaml s = Inr (demo_config\<lparr>cfg_config_path := None, cfg_extra := e\<rparr>)
    \<and> mset e = mset (cfg_extra demo_config)"
  using demo_config_prints config_yaml_roundtrip [OF demo_yaml_laws demo_config_ok] by blast

theorem loaded_config_ok_witness:
  "\<exists>s c. from_yaml_str demo_yaml s = Inr c \<and> config_ok c"
proof -
  obtain s where s: "to_yaml_string demo_yaml demo_config = Inr s" using demo_config_prints by blast
  then have "\<exists>c. from_yaml_str demo_yaml s = Inr c"
    using yaml_roundtrip [OF demo_yaml_laws demo_config_ok s] by (simp add: from_yaml_str_def)
  then show ?thesis using loaded_config_ok [OF demo_yaml_laws] by blast
qed

theorem readers_agree_witness:
  "let m = [(YString ''slug'', YString ''a''), (YString ''x'', YNull)];
       a = resolve_config (ma_args_default\<lparr>arg_config := Some ''/c''\<rparr>) ''ma'' (\<lambda>_. None) ''/c'' (Some m);
       b = from_yaml_mapping m
   in a = b\<lparr>cfg_config_path := Some ''/c'', cfg_extra := cfg_extra a\<rparr>
     \<and> mset (cfg_extra a) = mset (cfg_extra b)"
  using readers_agree [where p = "''/c''" and m = "[(YString ''slug'', YString ''a''), (YString ''x'', YNull)]"]
  unfolding Let_def prod.case by (simp only: im_ok_def) simp

lemma demo_saves: "\<exists>w'. config_save demo_secure_fs demo_yaml demo_config w = (Inr (), w')"
proof -
  obtain s where "to_yaml_string demo_yaml demo_config = Inr s" using demo_config_prints by blast
  then show ?thesis
    using demo_secure_write by (simp add: config_save_def demo_config_def)
qed

theorem config_save_reload_witness:
  "\<exists>w' e. config_save demo_secure_fs demo_yaml demo_config Map.empty = (Inr (), w')
    \<and> from_args demo_secure_fs demo_yaml (\<lambda>_. None) None (ma_args_default\<lparr>arg_config := Some ''/c.yaml''\<rparr>) ''d'' w' =
        Inr (demo_config\<lparr>cfg_extra := e\<rparr>, False)"
proof -
  obtain w' where w': "config_save demo_secure_fs demo_yaml demo_config Map.empty = (Inr (), w')"
    using demo_saves by blast
  have p: "cfg_config_path demo_config = Some ''/c.yaml''" by (simp add: demo_config_def)
  show ?thesis
    using w' config_save_reload [OF demo_yaml_laws demo_secure_laws demo_config_ok p w'] by blast
qed

theorem from_args_priority_witness:
  "\<exists>c b. from_args demo_secure_fs demo_yaml (\<lambda>_. None) None
      (ma_args_default\<lparr>arg_config := Some ''/c'', arg_slug := Some ''s''\<rparr>) ''ma'' Map.empty = Inr (c, b)
    \<and> cfg_slug c = ''s'' \<and> cfg_kubo_key_alias c = ''s''"
proof -
  obtain c where c: "from_args demo_secure_fs demo_yaml (\<lambda>_. None) None
      (ma_args_default\<lparr>arg_config := Some ''/c'', arg_slug := Some ''s''\<rparr>) ''ma'' Map.empty = Inr (c, False)"
    by (simp add: from_args_def select_config_path_def)
  show ?thesis
    using c from_args_priority [OF c]
    by (auto simp: chosen_def ma_args_default_def)
qed

theorem passphrase_left_out_witness:
  "\<exists>s m. to_yaml_string_without_passphrase demo_yaml demo_config = Inr s
    \<and> yaml_from_str demo_yaml s = Inr (YMapping m) \<and> yaml_get m ''secret_bundle_passphrase'' = None"
proof -
  obtain s where s: "to_yaml_string_without_passphrase demo_yaml demo_config = Inr s"
    using demo_prints [of "demo_config\<lparr>cfg_secret_bundle_passphrase := None\<rparr>"]
    by (auto simp: to_yaml_string_without_passphrase_def demo_config_def new_for_storage_def flat_def)
  show ?thesis using s passphrase_left_out [OF demo_yaml_laws demo_config_ok s] by blast
qed

end
