(* ===== verification/SecretsDemo.thy ===== *)
theory SecretsDemo
  imports Headless ConfigDemo BundleIdentity
begin

text \<open>
  Concrete packages that keep the laws of \<^verbatim>\<open>SecretsProps\<close>, and the witnesses of the
  properties of bundles, passphrases and the headless bootstrap. Base64 is hexadecimal, a
  derived key is the passphrase and the salt cut to 32 bytes, and a ciphertext carries its
  key and nonce.
\<close>

definition put_bundle :: "bundle_json \<Rightarrow> bytes" where
  "put_bundle w = put_string (bj_iroh w) @ put_string (bj_ipns w) @ put_string (bj_did_signing w)
     @ put_string (bj_did_encryption w) @ put_string (bj_created_at w)
     @ put_list (\<lambda>(k, v). put_string k @ put_string v) (bj_extra w)"

definition get_pair :: "bytes \<Rightarrow> ((string \<times> string) \<times> bytes) option" where
  "get_pair b = Option.bind (get_string b) (\<lambda>(k, r). map_option (\<lambda>(v, r). ((k, v), r)) (get_string r))"

definition get_bundle :: "bytes \<Rightarrow> bundle_json option" where
  "get_bundle b =
     Option.bind (get_string b) (\<lambda>(iroh, b).
     Option.bind (get_string b) (\<lambda>(ipns, b).
     Option.bind (get_string b) (\<lambda>(signing, b).
     Option.bind (get_string b) (\<lambda>(encryption, b).
     Option.bind (get_string b) (\<lambda>(created, b).
     map_option (\<lambda>(extra, _). \<lparr>bj_iroh = iroh, bj_ipns = ipns, bj_did_signing = signing,
       bj_did_encryption = encryption, bj_created_at = created, bj_extra = extra\<rparr>)
       (get_list get_pair b))))))"

lemma get_put_bundle [simp]: "get_bundle (put_bundle w) = Some w"
proof -
  have "get_list get_pair (put_list (\<lambda>(k, v). put_string k @ put_string v) (bj_extra w) @ []) =
      Some (bj_extra w, [])"
    by (rule get_put_list) (simp add: get_pair_def split_beta)
  then show ?thesis by (simp add: get_bundle_def put_bundle_def)
qed

definition demo_secret_lib :: secret_lib where
  "demo_secret_lib = export_lib.extend
     \<lparr>b64_encode = hex_encode,
      b64_decode = (\<lambda>s. case hex_decode_pairs s of None \<Rightarrow> Inl ''bad base64'' | Some b \<Rightarrow> Inr b),
      json_of_export = (\<lambda>e. Inl ''unsupported''), export_of_json = (\<lambda>s. Inl ''unsupported'')\<rparr>
     (secret_lib.fields
        (\<lambda>w. Inr (put_bundle w))
        (\<lambda>b. case get_bundle b of
           None \<Rightarrow> Inl ''malformed''
         | Some w \<Rightarrow> if im_ok (bj_extra w) then Inr w else Inl ''duplicate key'')
        (\<lambda>p s. Inr (fit 32 (p @ s)))
        (\<lambda>k n p. Inr (k @ n @ p))
        (\<lambda>k n c. if take (length k + length n) c = k @ n then Some (drop (length k + length n) c) else None))"

lemma seal_open_iff:
  "(k @ n @ p = c) = (take (length k + length n) c = k @ n \<and> drop (length k + length n) c = p)"
proof
  assume "k @ n @ p = c"
  then have "c = (k @ n) @ p" by simp
  then show "take (length k + length n) c = k @ n \<and> drop (length k + length n) c = p"
    by (simp only: append_eq_conv_conj length_append) simp
next
  assume "take (length k + length n) c = k @ n \<and> drop (length k + length n) c = p"
  then show "k @ n @ p = c" by (metis append.assoc append_take_drop_id)
qed

lemma demo_secret_laws: "secret_laws demo_secret_lib"
  unfolding secret_laws_def
proof (intro conjI allI impI)
  fix w :: bundle_json and d
  assume "json_of_bundle demo_secret_lib w = Inr d" and "im_ok (bj_extra w)"
  then show "\<exists>e. bundle_of_json demo_secret_lib d = Inr (w\<lparr>bj_extra := e\<rparr>) \<and> mset e = mset (bj_extra w)"
    by (intro exI [of _ "bj_extra w"]) (auto simp: demo_secret_lib_def export_lib.defs secret_lib.defs)
next
  fix k n p c
  show "chacha_encrypt demo_secret_lib k n p = Inr c \<longleftrightarrow> chacha_decrypt demo_secret_lib k n c = Some p"
    by (simp add: demo_secret_lib_def export_lib.defs secret_lib.defs seal_open_iff)
qed (auto simp: demo_secret_lib_def export_lib.defs secret_lib.defs hex_roundtrip
    split: option.splits if_splits)

lemma demo_bundle_ok: "bundle_ok demo_bundle"
  by (simp add: bundle_ok_def demo_bundle_def standard_keys_def im_ok_def validate_key_name_def RESERVED_def)

lemma demo_seals: "\<exists>blob. bundle_encrypt demo_secret_lib salt nonce b pw = Inr blob"
  by (simp add: bundle_encrypt_def to_json_bytes_def demo_secret_lib_def export_lib.defs secret_lib.defs)

section \<open>Witnesses\<close>

theorem bundle_keys_invariant_witness:
  "bundle_ok demo_bundle \<and> (\<exists>b'. add_key ''web'' (replicate 32 9) demo_bundle = Inr b'
     \<and> get_key ''web'' b' = Some (replicate 32 9))
   \<and> fst (remove_key ''db'' demo_bundle) = get_key ''db'' demo_bundle"
proof -
  have l: "length (replicate 32 (9 :: u8)) = 32" by simp
  obtain b' where b': "add_key ''web'' (replicate 32 9) demo_bundle = Inr b'"
    by (simp add: add_key_def validate_key_name_def RESERVED_def)
  have "get_key ''web'' b' = Some (replicate 32 9)"
    using bundle_keys_invariant [OF demo_bundle_ok l, of "''web''"] b' by simp
  moreover have "fst (remove_key ''db'' demo_bundle) = get_key ''db'' demo_bundle"
    using bundle_keys_invariant [OF demo_bundle_ok l, of "''db''"] by (simp add: split_beta)
  ultimately show ?thesis using b' demo_bundle_ok by blast
qed

theorem bundle_save_load_witness:
  "\<exists>w' e. bundle_save demo_secure_fs demo_secret_lib (replicate 16 0) (replicate 12 0) ''/b'' ''pw''
      demo_bundle Map.empty = (Inr (), w')
    \<and> bundle_load demo_secure_fs demo_secret_lib ''/b'' ''pw'' w' = Inr (demo_bundle\<lparr>sb_extra_keys := e\<rparr>)"
proof -
  obtain blob where "bundle_encrypt demo_secret_lib (replicate 16 0) (replicate 12 0) demo_bundle ''pw'' =
      Inr blob"
    using demo_seals by blast
  then obtain w' where w': "bundle_save demo_secure_fs demo_secret_lib (replicate 16 0) (replicate 12 0)
      ''/b'' ''pw'' demo_bundle Map.empty = (Inr (), w')"
    using demo_secure_write by (fastforce simp: bundle_save_def)
  have "length (replicate 16 (0 :: u8)) = 16" "length (replicate 12 (0 :: u8)) = 12" by simp_all
  then show ?thesis
    using w' bundle_save_load [OF demo_secret_laws demo_secure_laws demo_bundle_ok _ _ w'] by blast
qed

theorem bundle_decrypt_sound_witness:
  "bundle_decrypt demo_secret_lib [] ''pw'' = Inl (SecretsError ''secret bundle too short'')"
  using bundle_decrypt_sound [OF demo_secret_laws, of "[]" "''pw''"]
  by (simp split: sum.splits)

theorem passphrase_terminates_witness:
  "\<exists>p. generate_passphrase (\<lambda>_. replicate 64 7) = Some p \<and> length p = 43
    \<and> list_all is_ascii_alphanumeric p"
  by (rule passphrase_terminates) (simp add: ACCEPT_BELOW_def)

definition demo_draw :: headless_draw where
  "demo_draw = \<lparr>hd_keys = \<lparr>draw_iroh = replicate 32 1, draw_ipns = replicate 32 2,
       draw_signing = replicate 32 3, draw_encryption = replicate 32 4\<rparr>,
     hd_salt = replicate 16 0, hd_nonce = replicate 12 0, hd_blocks = (\<lambda>_. replicate 64 7)\<rparr>"

definition demo_headless_args :: ma_args where
  "demo_headless_args = ma_args_default\<lparr>arg_config := Some ''/c'', arg_secret_bundle := Some ''/b'',
     arg_secret_bundle_passphrase := Some ''pw''\<rparr>"

lemma demo_headless_paths:
  "headless_paths demo_secure_fs None demo_headless_args (unwrap_or (arg_slug demo_headless_args) ''ma'')
     Map.empty = Inr (''/c'', ''/b'')"
  by (simp add: headless_paths_def demo_headless_args_def)

lemma demo_headless_runs:
  "\<exists>w'. gen_headless demo_secure_fs demo_yaml demo_secret_lib demo_identity_lib None (Some 0) demo_draw
     demo_headless_args ''ma'' Map.empty = Some (Inr (), w')"
proof -
  let ?b = "bundle_generate demo_identity_lib (Some 0) (hd_keys demo_draw)"
  let ?c = "headless_config ''ma'' ''/c'' ''/b'' ''pw''"
  obtain w1 where b: "bundle_save demo_secure_fs demo_secret_lib (hd_salt demo_draw) (hd_nonce demo_draw)
      ''/b'' ''pw'' ?b Map.empty = (Inr (), w1)"
    using demo_seals [of "hd_salt demo_draw" "hd_nonce demo_draw" ?b "''pw''"] demo_secure_write
    by (fastforce simp: bundle_save_def)
  obtain s where "to_yaml_string demo_yaml ?c = Inr s"
    using demo_prints [of ?c] by (auto simp: headless_config_def flat_def)
  then obtain w' where "config_save demo_secure_fs demo_yaml ?c w1 = (Inr (), w')"
    using demo_secure_write by (fastforce simp: config_save_def headless_config_def)
  then show ?thesis
    using b demo_headless_paths
    by (simp add: gen_headless_def demo_headless_args_def ma_args_default_def io_bind_def)
qed

theorem headless_bootstrap_usable_witness:
  "\<exists>w' c pw. gen_headless demo_secure_fs demo_yaml demo_secret_lib demo_identity_lib None (Some 0) demo_draw
      demo_headless_args ''ma'' Map.empty = Some (Inr (), w')
    \<and> from_args demo_secure_fs demo_yaml (\<lambda>_. None) None (ma_args_default\<lparr>arg_config := Some ''/c''\<rparr>) ''x'' w' =
        Inr (c, False)
    \<and> cfg_secret_bundle_passphrase c = Some pw
    \<and> bundle_load demo_secure_fs demo_secret_lib ''/b'' pw w' =
        Inr (bundle_generate demo_identity_lib (Some 0) (hd_keys demo_draw))"
proof -
  obtain w' where w': "gen_headless demo_secure_fs demo_yaml demo_secret_lib demo_identity_lib None (Some 0)
      demo_draw demo_headless_args ''ma'' Map.empty = Some (Inr (), w')"
    using demo_headless_runs by blast
  have ok: "bundle_ok (bundle_generate demo_identity_lib (Some 0) (hd_keys demo_draw))"
    by (rule generated_bundle_ok) (simp add: demo_draw_def)
  have l: "length (hd_salt demo_draw) = 16" "length (hd_nonce demo_draw) = 12" and ne: "''/c'' \<noteq> ''/b''"
    by (simp_all add: demo_draw_def)
  note usable = headless_bootstrap_usable [OF demo_secure_laws demo_yaml_laws demo_secret_laws ok l w'
      demo_headless_paths disjI2 [OF ne], where dirs' = None and d' = "''x''"]
  then obtain c pw where
    "from_args demo_secure_fs demo_yaml (\<lambda>_. None) None (ma_args_default\<lparr>arg_config := Some ''/c''\<rparr>) ''x'' w' =
       Inr (c, False)"
    and "cfg_secret_bundle_passphrase c = Some pw"
    and "bundle_load demo_secure_fs demo_secret_lib ''/b'' pw w' =
       Inr (bundle_generate demo_identity_lib (Some 0) (hd_keys demo_draw))"
    by (elim exE conjE) (rule that)
  with w' show ?thesis by (intro exI conjI)
qed

end
