(* ===== verification/Logging.thy ===== *)
theory Logging
  imports ConfigProps
begin

text \<open>
  \<open>Config::init_logging\<close> (\<^verbatim>\<open>config/logging.rs\<close>): two levels, the log directory and file, and the
  global subscriber with its two layers. Parsing a level and installing the subscriber
  belong to \<open>tracing_subscriber\<close>; what is installed is part of the world.
\<close>

text \<open>\<open>LevelFilter\<close>, ordered from the quietest to the most verbose as its documentation has it.\<close>

datatype level_filter = LOff | LError | LWarn | LInfo | LDebug | LTrace

instantiation level_filter :: linorder
begin

fun rank :: "level_filter \<Rightarrow> nat" where
  "rank LOff = 0"
| "rank LError = 1"
| "rank LWarn = 2"
| "rank LInfo = 3"
| "rank LDebug = 4"
| "rank LTrace = 5"

definition less_eq_level_filter :: "level_filter \<Rightarrow> level_filter \<Rightarrow> bool" where
  "less_eq_level_filter a b \<longleftrightarrow> rank a \<le> rank b"

definition less_level_filter :: "level_filter \<Rightarrow> level_filter \<Rightarrow> bool" where
  "less_level_filter a b \<longleftrightarrow> rank a < rank b"

instance
proof
  fix a b :: level_filter
  show "a \<le> b \<Longrightarrow> b \<le> a \<Longrightarrow> a = b"
    by (cases a; cases b) (simp_all add: less_eq_level_filter_def)
qed (auto simp: less_eq_level_filter_def less_level_filter_def)

end

text \<open>The layers of a subscriber: the file, appended to, and the standard output.\<close>

record subscriber =
  file_layer :: "string \<times> level_filter"
  stdout_layer :: level_filter

record 'w log_lib = "'w secure_fs" +
  level_from_str :: "string \<Rightarrow> level_filter option"
  fs_open_append :: "string \<Rightarrow> 'w \<Rightarrow> (string + unit) \<times> 'w"
  try_init :: "subscriber \<Rightarrow> 'w \<Rightarrow> (string + unit) \<times> 'w"

definition init_logging :: "('w, 'x) log_lib_scheme \<Rightarrow> project_dirs option \<Rightarrow> config \<Rightarrow>
    (error, unit, 'w) eio" where
  "init_logging F dirs c =
     io_bind (io_lift (ok_or (level_from_str F (cfg_log_level c))
         (ConfigError (''invalid log_level: '' @ cfg_log_level c)))) (\<lambda>file_level.
     io_bind (io_lift (ok_or (level_from_str F (cfg_log_level_stdout c))
         (ConfigError (''invalid log_level_stdout: '' @ cfg_log_level_stdout c)))) (\<lambda>stdout_level.
     io_bind (io_lift (effective_log_file dirs c)) (\<lambda>log_path.
     io_bind (case fs_parent F log_path of
                Some parent \<Rightarrow>
                  io_map_err (config_err ''failed to create log directory'' parent)
                    (fs_create_dir_all F parent)
              | None \<Rightarrow> io_ret ()) (\<lambda>_.
     io_bind (io_map_err (config_err ''failed to open log file'' log_path)
         (fs_open_append F log_path)) (\<lambda>_.
     io_map_err (\<lambda>e. ConfigError (''failed to initialise logging: '' @ e))
       (try_init F \<lparr>file_layer = (log_path, file_level), stdout_layer = stdout_level\<rparr>))))))"

text \<open>Which layers write an event of a level.\<close>

definition written_to :: "subscriber \<Rightarrow> level_filter \<Rightarrow> bool \<times> bool" where
  "written_to s l = (l \<le> snd (file_layer s), l \<le> stdout_layer s)"

text \<open>
  A configuration with a level that does not parse is refused before the disk is touched;
  with levels that parse, whatever the more verbose layer does not write, the other does not
  write either.
\<close>

lemma bad_level_touches_nothing:
  "level_from_str F (cfg_log_level c) = None \<or> level_from_str F (cfg_log_level_stdout c) = None \<Longrightarrow>
     snd (init_logging F dirs c w) = w \<and> \<not> is_ok (fst (init_logging F dirs c w))"
  by (auto simp: init_logging_def io_bind_def io_lift_def ok_or_def split: option.split)

lemma quieter_layer_writes_less:
  "stdout_layer s \<le> snd (file_layer s) \<Longrightarrow> snd (written_to s l) \<Longrightarrow> fst (written_to s l)"
  by (auto simp: written_to_def)

lemma init_logging_levels:
  assumes "init_logging F dirs c w = (Inr (), w')"
  shows "\<exists>p f s w1. level_from_str F (cfg_log_level c) = Some f
    \<and> level_from_str F (cfg_log_level_stdout c) = Some s \<and> effective_log_file dirs c = Inr p
    \<and> try_init F \<lparr>file_layer = (p, f), stdout_layer = s\<rparr> w1 = (Inr (), w')"
  using assms unfolding init_logging_def io_bind_iff io_lift_iff io_map_err_iff ok_or_eq_Inr
  by blast

end
