(* ===== verification/ConsoleLog.thy ===== *)
theory ConsoleLog
  imports Logging
begin

text \<open>
  Logging in the browser (\<^verbatim>\<open>config/logging_wasm.rs\<close>): \<open>Config::init_logging\<close> of the wasm build and
  \<open>ConsoleWriter\<close>, the writer the formatting layer makes for each event. It collects the bytes
  it is given and, when dropped, prints them as one console line. The console is the list of
  lines printed so far; \<open>tracing_subscriber\<close> decides what is written.
\<close>

section \<open>Lossy decoding\<close>

text \<open>
  \<open>String::from_utf8_lossy\<close>: every maximal prefix of a character that is not continued
  properly, and every byte that cannot start one, becomes U+FFFD. \<open>utf8_char\<close> reads the next
  character or prefix: its length and whether it is complete.
\<close>

definition second_ok :: "u8 \<Rightarrow> u8 \<Rightarrow> bool" where
  "second_ok a b \<longleftrightarrow> cont b \<and> (a = 0xE0 \<longrightarrow> 0xA0 \<le> b) \<and> (a = 0xED \<longrightarrow> b \<le> 0x9F)
     \<and> (a = 0xF0 \<longrightarrow> 0x90 \<le> b) \<and> (a = 0xF4 \<longrightarrow> b \<le> 0x8F)"

definition char_width :: "u8 \<Rightarrow> nat" where
  "char_width a =
     (if a < 0x80 then 1
      else if 0xC2 \<le> a \<and> a \<le> 0xDF then 2
      else if 0xE0 \<le> a \<and> a \<le> 0xEF then 3
      else if 0xF0 \<le> a \<and> a \<le> 0xF4 then 4 else 0)"

fun conts :: "nat \<Rightarrow> bytes \<Rightarrow> nat" where
  "conts (Suc n) (b # s) = (if cont b then Suc (conts n s) else 0)"
| "conts n s = 0"

definition utf8_char :: "u8 \<Rightarrow> bytes \<Rightarrow> nat \<times> bool" where
  "utf8_char a s =
     (let w = char_width a
      in if w \<le> 1 then (1, w = 1)
         else case s of
           [] \<Rightarrow> (1, False)
         | b # t \<Rightarrow>
             if second_ok a b then (let n = 2 + conts (w - 2) t in (n, n = w)) else (1, False))"

lemma utf8_char_pos: "utf8_char a s = (n, c) \<Longrightarrow> 0 < n"
  by (auto simp: utf8_char_def Let_def split: if_splits list.splits)

definition replacement :: bytes where "replacement = [0xEF, 0xBF, 0xBD]"

function utf8_lossy :: "bytes \<Rightarrow> bytes" where
  "utf8_lossy [] = []"
| "utf8_lossy (a # s) =
     (case utf8_char a s of (n, complete) \<Rightarrow>
        (if complete then take n (a # s) else replacement) @ utf8_lossy (drop n (a # s)))"
  by pat_completeness auto
termination
proof (relation "measure length", goal_cases)
  case (2 a s n complete)
  then show ?case using utf8_char_pos [of a s n complete] by (cases n) auto
qed simp

definition from_utf8_lossy :: "bytes \<Rightarrow> string" where
  "from_utf8_lossy b = of_bytes (utf8_lossy b)"

section \<open>The writer\<close>

record console_writer =
  cw_buf :: bytes

definition make_writer :: console_writer where
  "make_writer = \<lparr>cw_buf = []\<rparr>"

definition writer_write :: "bytes \<Rightarrow> console_writer \<Rightarrow> (string + nat) \<times> console_writer" where
  "writer_write input cw = (Inr (length input), cw\<lparr>cw_buf := cw_buf cw @ input\<rparr>)"

definition writer_flush :: "console_writer \<Rightarrow> (string + unit) \<times> console_writer" where
  "writer_flush cw = (Inr (), cw)"

definition writer_drop :: "console_writer \<Rightarrow> string list \<Rightarrow> string list" where
  "writer_drop cw console =
     (if cw_buf cw = [] then console
      else console @ [trim_end (from_utf8_lossy (cw_buf cw))])"

text \<open>What the layer does with a writer: any number of writes and flushes, and the drop.\<close>

datatype writer_op = Write bytes | Flush

fun writer_step :: "writer_op \<Rightarrow> console_writer \<Rightarrow> console_writer" where
  "writer_step (Write b) cw = snd (writer_write b cw)"
| "writer_step Flush cw = snd (writer_flush cw)"

fun written_bytes :: "writer_op list \<Rightarrow> bytes" where
  "written_bytes [] = []"
| "written_bytes (Write b # ops) = b @ written_bytes ops"
| "written_bytes (Flush # ops) = written_bytes ops"

definition console_event :: "writer_op list \<Rightarrow> string list \<Rightarrow> string list" where
  "console_event ops console = writer_drop (fold writer_step ops make_writer) console"

section \<open>Installing it\<close>

record 'w console_lib =
  level_of_str :: "string \<Rightarrow> level_filter option"
  console_try_init :: "level_filter \<Rightarrow> 'w \<Rightarrow> (string + unit) \<times> 'w"

definition init_console_logging :: "('w, 'x) console_lib_scheme \<Rightarrow> config \<Rightarrow> (error, unit, 'w) eio" where
  "init_console_logging F c =
     io_bind (io_lift (ok_or (level_of_str F (cfg_log_level_stdout c))
         (ConfigError (''invalid log_level_stdout: '' @ cfg_log_level_stdout c)))) (\<lambda>console_level.
     io_map_err (\<lambda>e. ConfigError (''failed to initialise wasm logging: '' @ e))
       (console_try_init F console_level))"

section \<open>Decoding is total and the identity on text\<close>

lemma conts_le: "conts n s \<le> n" "conts n s \<le> length s"
  by (induction n s rule: conts.induct) auto

lemma utf8_char_le: "utf8_char a s = (n, c) \<Longrightarrow> n \<le> Suc (length s)"
  using conts_le(2) [of _ "tl s"]
  by (auto simp: utf8_char_def Let_def split: if_splits list.splits)

lemma conts_full: "conts n s = n \<longleftrightarrow> n \<le> length s \<and> list_all cont (take n s)"
  by (induction n s rule: conts.induct) auto

lemma conts_append: "conts n s = n \<Longrightarrow> conts n (s @ t) = n"
  by (simp add: conts_full)

text \<open>The character at the front is what the table of valid sequences says.\<close>

lemma char_width_cases:
  "a < 0x80 \<Longrightarrow> char_width a = 1"
  "0xC2 \<le> a \<and> a \<le> 0xDF \<Longrightarrow> char_width a = 2"
  "0xE0 \<le> a \<and> a \<le> 0xEF \<Longrightarrow> char_width a = 3"
  "0xF0 \<le> a \<and> a \<le> 0xF4 \<Longrightarrow> char_width a = 4"
  by (auto simp: char_width_def word_le_nat_alt word_less_nat_alt)

lemma valid_utf8_two:
  "\<not> a < 0x80 \<Longrightarrow> 0xC2 \<le> a \<and> a \<le> 0xDF \<Longrightarrow> valid_utf8 (a # s) \<longleftrightarrow> (\<exists>b t. s = b # t \<and> cont b \<and> valid_utf8 t)"
  by (cases s) auto

lemma valid_utf8_three:
  "\<not> a < 0x80 \<Longrightarrow> \<not> a \<le> 0xDF \<Longrightarrow> 0xE0 \<le> a \<and> a \<le> 0xEF \<Longrightarrow> valid_utf8 (a # s) \<longleftrightarrow>
     (\<exists>b c t. s = b # c # t \<and> cont b \<and> (a = 0xE0 \<longrightarrow> 0xA0 \<le> b) \<and> (a = 0xED \<longrightarrow> b \<le> 0x9F) \<and> cont c
       \<and> valid_utf8 t)"
  by (cases s; cases "tl s") auto

lemma valid_utf8_four:
  "\<not> a < 0x80 \<Longrightarrow> \<not> a \<le> 0xDF \<Longrightarrow> \<not> a \<le> 0xEF \<Longrightarrow> 0xF0 \<le> a \<and> a \<le> 0xF4 \<Longrightarrow> valid_utf8 (a # s) \<longleftrightarrow>
     (\<exists>b c d t. s = b # c # d # t \<and> cont b \<and> (a = 0xF0 \<longrightarrow> 0x90 \<le> b) \<and> (a = 0xF4 \<longrightarrow> b \<le> 0x8F)
       \<and> cont c \<and> cont d \<and> valid_utf8 t)"
  by (cases s; cases "tl s"; cases "tl (tl s)") auto

lemma valid_utf8_none:
  assumes "\<not> a < 0x80" "\<not> (0xC2 \<le> a \<and> a \<le> 0xDF)" "\<not> (0xE0 \<le> a \<and> a \<le> 0xEF)"
    and "\<not> (0xF0 \<le> a \<and> a \<le> 0xF4)"
  shows "\<not> valid_utf8 (a # s)"
proof -
  have last: "(0xF0 \<le> a \<and> a \<le> 0xF4 \<and> r) = False" for r using assms(4) by blast
  show ?thesis
    unfolding valid_utf8.simps if_not_P [OF assms(1)] if_not_P [OF assms(2)] if_not_P [OF assms(3)] last
    by (simp split: list.split)
qed

lemma utf8_char_two:
  "char_width a = 2 \<Longrightarrow> (case utf8_char a s of (n, c) \<Rightarrow> c \<and> valid_utf8 (drop n (a # s))) \<longleftrightarrow>
    (\<exists>b t. s = b # t \<and> second_ok a b \<and> valid_utf8 t)"
  by (cases s) (auto simp: utf8_char_def)

lemma utf8_char_three:
  "char_width a = 3 \<Longrightarrow> (case utf8_char a s of (n, c) \<Rightarrow> c \<and> valid_utf8 (drop n (a # s))) \<longleftrightarrow>
    (\<exists>b c t. s = b # c # t \<and> second_ok a b \<and> cont c \<and> valid_utf8 t)"
  by (cases s; cases "tl s") (auto simp: utf8_char_def)

lemma utf8_char_four:
  "char_width a = 4 \<Longrightarrow> (case utf8_char a s of (n, c) \<Rightarrow> c \<and> valid_utf8 (drop n (a # s))) \<longleftrightarrow>
    (\<exists>b c d t. s = b # c # d # t \<and> second_ok a b \<and> cont c \<and> cont d \<and> valid_utf8 t)"
  by (cases s; cases "tl s"; cases "tl (tl s)") (auto simp: utf8_char_def numeral_2_eq_2)

lemma valid_utf8_char:
  "valid_utf8 (a # s) \<longleftrightarrow> (case utf8_char a s of (n, c) \<Rightarrow> c \<and> valid_utf8 (drop n (a # s)))"
proof -
  consider "a < 0x80" | "0xC2 \<le> a" "a \<le> 0xDF" | "0xE0 \<le> a" "a \<le> 0xEF" | "0xF0 \<le> a" "a \<le> 0xF4"
    | "\<not> a < 0x80" "\<not> (0xC2 \<le> a \<and> a \<le> 0xDF)" "\<not> (0xE0 \<le> a \<and> a \<le> 0xEF)" "\<not> (0xF0 \<le> a \<and> a \<le> 0xF4)"
    by blast
  then show ?thesis
  proof cases
    case 1
    then show ?thesis by (simp add: utf8_char_def char_width_def)
  next
    case 2
    then have *: "\<not> a < 0x80" "a \<noteq> 0xE0" "a \<noteq> 0xED" "a \<noteq> 0xF0" "a \<noteq> 0xF4"
      by (auto simp: word_le_nat_alt word_less_nat_alt)
    have "char_width a = 2" using 2 by (simp add: char_width_cases)
    from utf8_char_two [OF this] show ?thesis
      unfolding valid_utf8_two [OF *(1) conjI [OF 2]]
      by (simp only: second_ok_def *(2-5) simp_thms conj_assoc)
  next
    case 3
    then have *: "\<not> a < 0x80" "\<not> a \<le> 0xDF" "a \<noteq> 0xF0" "a \<noteq> 0xF4"
      by (auto simp: word_le_nat_alt word_less_nat_alt)
    have "char_width a = 3" using 3 by (simp add: char_width_cases)
    from utf8_char_three [OF this] show ?thesis
      unfolding valid_utf8_three [OF *(1,2) conjI [OF 3]]
      by (simp only: second_ok_def *(3,4) simp_thms conj_assoc)
  next
    case 4
    then have *: "\<not> a < 0x80" "\<not> a \<le> 0xDF" "\<not> a \<le> 0xEF" "a \<noteq> 0xE0" "a \<noteq> 0xED"
      by (auto simp: word_le_nat_alt word_less_nat_alt)
    have "char_width a = 4" using 4 by (simp add: char_width_cases)
    from utf8_char_four [OF this] show ?thesis
      unfolding valid_utf8_four [OF *(1,2,3) conjI [OF 4]]
      by (simp only: second_ok_def *(4,5) simp_thms conj_assoc)
  next
    case 5
    then have "char_width a = 0" by (simp add: char_width_def)
    with valid_utf8_none [OF 5] show ?thesis by (simp add: utf8_char_def)
  qed
qed

declare valid_utf8.simps(2) [simp del]

lemma valid_utf8_replace: "valid_utf8 (replacement @ s) \<longleftrightarrow> valid_utf8 s"
  by (simp add: replacement_def cont_def valid_utf8.simps)

lemma utf8_lossy_fixed: "valid_utf8 b \<Longrightarrow> utf8_lossy b = b"
proof (induction b rule: utf8_lossy.induct)
  case (2 a s)
  obtain n c where u: "utf8_char a s = (n, c)" by force
  with 2 show ?case by (simp add: valid_utf8_char)
qed simp

text \<open>A complete character in front of text is text.\<close>

lemma utf8_char_append:
  assumes "utf8_char a s = (n, True)"
  shows "utf8_char a (take (n - 1) s @ r) = (n, True)" and "take (n - 1) s = tl (take n (a # s))"
proof -
  show "utf8_char a (take (n - 1) s @ r) = (n, True)"
  proof (cases s)
    case Nil
    with assms show ?thesis by (auto simp: utf8_char_def Let_def split: if_splits list.splits)
  next
    case (Cons b t)
    show ?thesis
    proof (cases "char_width a \<le> 1")
      case True
      with assms show ?thesis by (auto simp: utf8_char_def Let_def)
    next
      case False
      have ok: "second_ok a b" and n: "n = char_width a" and c: "conts (n - 2) t = n - 2"
        using assms False Cons by (auto simp: utf8_char_def Let_def split: if_splits)
      have "conts (n - 2) (take (n - 2) t @ r) = n - 2"
        using c conts_append [of "n - 2" "take (n - 2) t" r] by (simp add: conts_full)
      moreover have "take (n - 1) s = b # take (n - 2) t"
        using False n Cons by (simp add: take_Cons' numeral_2_eq_2)
      ultimately show ?thesis using False ok n by (simp add: utf8_char_def Let_def)
    qed
  qed
  show "take (n - 1) s = tl (take n (a # s))"
    using utf8_char_pos [OF assms] by (cases n) auto
qed

lemma valid_utf8_prepend:
  assumes "utf8_char a s = (n, True)"
  shows "valid_utf8 (take n (a # s) @ r) \<longleftrightarrow> valid_utf8 r"
proof -
  have n: "0 < n" "n \<le> Suc (length s)" using assms by (auto dest: utf8_char_pos utf8_char_le)
  then have "take n (a # s) @ r = a # (take (n - 1) s @ r)" by (cases n) auto
  moreover have "drop n (a # (take (n - 1) s @ r)) = r" using n by (cases n) auto
  ultimately show ?thesis
    using utf8_char_append(1) [OF assms, of r] by (simp add: valid_utf8_char)
qed

lemma utf8_lossy_valid: "valid_utf8 (utf8_lossy b)"
proof (induction b rule: utf8_lossy.induct)
  case (2 a s)
  obtain n c where u: "utf8_char a s = (n, c)" by force
  with 2 show ?case by (cases c) (simp_all add: valid_utf8_prepend valid_utf8_replace)
qed simp

section \<open>One line per event\<close>

lemma fold_writer: "cw_buf (fold writer_step ops cw) = cw_buf cw @ written_bytes ops"
  by (induction ops arbitrary: cw rule: written_bytes.induct)
    (auto simp: writer_write_def writer_flush_def)

lemma writer_accepts_all: "fst (writer_write b cw) = Inr (length b)"
  by (simp add: writer_write_def)

text \<open>C40: However the formatting layer splits an event into writes, even inside a character, dropping
  the writer prints exactly one console line for it and none for an empty event: the text
  of all the writes together, without the white space at its end. Bytes that are not UTF-8
  never fail: what is printed is then valid UTF-8, and text that is valid is printed as it
  is.\<close>

theorem console_prints_one_line:
  "console_event ops console =
     (if written_bytes ops = [] then console
      else console @ [trim_end (from_utf8_lossy (written_bytes ops))])
   \<and> valid_utf8 (utf8_lossy (written_bytes ops))
   \<and> (valid_utf8 (written_bytes ops) \<longrightarrow> from_utf8_lossy (written_bytes ops) = of_bytes (written_bytes ops))"
  by (auto simp: console_event_def writer_drop_def make_writer_def fold_writer utf8_lossy_valid
      from_utf8_lossy_def utf8_lossy_fixed)

theorem console_prints_one_line_witness:
  "console_event [Write [0x61, 0xC3], Flush, Write [0xA9, 0x0A]] [''before''] =
     [''before'', [CHR ''a'', CHR 0xC3, CHR 0xA9]]"
proof -
  let ?ops = "[Write [0x61, 0xC3], Flush, Write [0xA9, 0x0A]]"
  have "valid_utf8 (written_bytes ?ops)" by (simp add: cont_def valid_utf8.simps)
  then have "console_event ?ops [''before''] = [''before'', trim_end (of_bytes (written_bytes ?ops))]"
    using console_prints_one_line [of ?ops "[''before'']"] by simp
  also have "trim_end (of_bytes (written_bytes ?ops)) = [CHR ''a'', CHR 0xC3, CHR 0xA9]"
    by code_simp
  finally show ?thesis .
qed

text \<open>Truncated and overlong sequences, one replacement for each maximal prefix.\<close>

lemma lossy_replaces:
  "utf8_lossy [0x41, 0xE2, 0x82, 0x42, 0xC0, 0xAF] =
     [0x41] @ replacement @ [0x42] @ replacement @ replacement"
  by (simp add: utf8_char_def char_width_def second_ok_def cont_def replacement_def)

text \<open>Nothing is installed under a level that does not parse.\<close>

lemma bad_console_level:
  "level_of_str F (cfg_log_level_stdout c) = None \<Longrightarrow>
     init_console_logging F c w =
       (Inl (ConfigError (''invalid log_level_stdout: '' @ cfg_log_level_stdout c)), w)"
  by (simp add: init_console_logging_def io_bind_def io_lift_def ok_or_def)

end
