(* ===== verification/Clock.thy ===== *)
theory Clock
  imports Complex_Main Prelude
begin

text \<open>
  The clock helpers of \<^verbatim>\<open>iroh/endpoint.rs\<close>: \<open>now_secs\<close>, which stamps every inbox insertion, and the
  conversion of a floating point timestamp to seconds, which nothing calls.
\<close>

text \<open>
  The system time in nanoseconds since the epoch, negative before it: there \<open>now_secs\<close> panics,
  which is \<open>None\<close>.
\<close>

definition now_secs :: "int \<Rightarrow> u64 option" where
  "now_secs t = (if t < 0 then None else Some (word_of_int (t div 10 ^ 9)))"

lemma now_secs_mono:
  assumes "now_secs t = Some a" "now_secs t' = Some b" "t \<le> t'" "t' div 10 ^ 9 < 2 ^ 64"
  shows "a \<le> b"
proof -
  have "0 \<le> t div 10 ^ 9" "t div 10 ^ 9 \<le> t' div 10 ^ 9"
    using assms(1,3) by (auto simp: now_secs_def pos_imp_zdiv_nonneg_iff zdiv_mono1 split: if_splits)
  moreover from this have "uint (word_of_int (t div 10 ^ 9) :: u64) = t div 10 ^ 9"
    and "uint (word_of_int (t' div 10 ^ 9) :: u64) = t' div 10 ^ 9"
    using assms(4) by (simp_all add: unsigned_of_int take_bit_int_eq_self)
  ultimately show ?thesis
    using assms(1,2) by (auto simp: now_secs_def word_le_def split: if_splits)
qed

text \<open>
  An \<open>f64\<close>: not a number, the infinities, and the finite values, which are rational numbers.
  \<open>u64::MAX as f64\<close> rounds up to \<open>2 ^ 64\<close>, and \<open>as u64\<close> saturates and drops the fraction.
\<close>

datatype f64 = NaN | PosInf | NegInf | Finite rat

fun is_finite :: "f64 \<Rightarrow> bool" where
  "is_finite (Finite x) = True"
| "is_finite v = False"

fun finite_part :: "f64 \<Rightarrow> rat" where
  "finite_part (Finite x) = x"
| "finite_part v = 0"

definition saturating_u64 :: "int \<Rightarrow> u64" where
  "saturating_u64 i = (if i < 0 then 0 else if 2 ^ 64 \<le> i then - 1 else word_of_int i)"

definition message_created_at_secs :: "f64 \<Rightarrow> u64" where
  "message_created_at_secs v =
     (if \<not> is_finite v \<or> finite_part v \<le> 0 then 0
      else if finite_part v \<ge> 2 ^ 64 then - 1
      else saturating_u64 \<lfloor>finite_part v\<rfloor>)"

lemma uint_saturating_u64: "uint (saturating_u64 i) = max 0 (min i (2 ^ 64 - 1))"
  by (auto simp: saturating_u64_def word_of_int_eq_iff uint_word_ariths take_bit_int_eq_self unsigned_of_int
      unsigned_minus_1_eq_mask mask_eq_exp_minus_1)

text \<open>The guards only restate what the saturating conversion does: no value is cut short.\<close>

lemma created_at_saturates:
  "message_created_at_secs v = (if is_finite v then saturating_u64 \<lfloor>finite_part v\<rfloor> else 0)"
proof (cases "is_finite v \<and> finite_part v \<le> 0")
  case True
  then have "\<lfloor>finite_part v\<rfloor> \<le> 0" by linarith
  with True show ?thesis by (auto simp: message_created_at_secs_def saturating_u64_def)
next
  case False
  have "(2::int) ^ 64 \<le> \<lfloor>finite_part v\<rfloor>" if "2 ^ 64 \<le> finite_part v"
    using that by (simp add: le_floor_iff)
  moreover have "0 \<le> \<lfloor>finite_part v\<rfloor>" if "0 < finite_part v" using that by simp
  ultimately show ?thesis
    using False by (auto simp: message_created_at_secs_def saturating_u64_def)
qed

lemma created_at_floor:
  assumes "0 \<le> x" "x < 2 ^ 64"
  shows "uint (message_created_at_secs (Finite x)) = \<lfloor>x\<rfloor>"
proof -
  have "\<lfloor>x\<rfloor> < 2 ^ 64" using assms(2) by (simp add: floor_less_iff)
  moreover have "0 \<le> \<lfloor>x\<rfloor>" using assms(1) by simp
  ultimately show ?thesis by (simp add: created_at_saturates uint_saturating_u64)
qed

text \<open>Later timestamps never become earlier seconds.\<close>

lemma created_at_mono:
  assumes "x \<le> y" shows "message_created_at_secs (Finite x) \<le> message_created_at_secs (Finite y)"
proof -
  have "\<lfloor>x\<rfloor> \<le> \<lfloor>y\<rfloor>" using assms by (rule floor_mono)
  then show ?thesis by (simp add: created_at_saturates word_le_def uint_saturating_u64)
qed

end
